(* ===== verification/Py_Prelude.thy ===== *)
theory Py_Prelude
  imports Main "HOL-Library.AList" "HOL-Library.Char_ord" "HOL-Library.List_Lexorder"
    "HOL-Library.Product_Lexorder" "HOL-Library.Sublist" "HOL-Library.Multiset"
begin

text \<open>
  The part of Python that the modelled code uses, and the lemmas the components share:
  exceptions as values of a sum type, strings, \<open>int()\<close> and \<open>str()\<close>, untyped persisted
  values, insertion-ordered dictionaries and stable sorting.

  A Python string is a HOL \<open>string\<close> whose characters are the code points below 256. Code
  points above 255 occur in the sources in message literals only; they are written there as
  their UTF-8 bytes and are never measured or parsed. A dictionary is an association list
  with distinct keys in insertion order (\<open>AList.update\<close> keeps the position of an existing
  key, as Python does); \<open>sorted(xs, key=f)\<close> is the stable \<open>sort_key f xs\<close>, tuples and
  strings being compared lexicographically.
\<close>

named_theorems py_simps \<open>evaluation of the string and number primitives\<close>
named_theorems dict_simps \<open>laws of insertion-ordered dictionaries\<close>

section \<open>Exceptions\<close>

datatype py_error =
    ValueError
  | KeyError
  | TypeError
  | IndexError
  | AttributeError
  | AssertionError
  | RuntimeError
  | RuntimeIdentityMismatch
  | RpcUnavailable
  | TelegramFailure
  | OverflowError

type_synonym 'a res = "py_error + 'a"

fun bindR :: "'e + 'a \<Rightarrow> ('a \<Rightarrow> 'e + 'b) \<Rightarrow> 'e + 'b" where
  "bindR (Inl e) f = Inl e"
| "bindR (Inr x) f = f x"

fun mapR :: "('a \<Rightarrow> 'e + 'b) \<Rightarrow> 'a list \<Rightarrow> 'e + 'b list" where
  "mapR f [] = Inr []"
| "mapR f (x # xs) = bindR (f x) (\<lambda>y. bindR (mapR f xs) (\<lambda>ys. Inr (y # ys)))"

lemma bindR_Inr_iff [simp]: "bindR m f = Inr y \<longleftrightarrow> (\<exists>x. m = Inr x \<and> f x = Inr y)"
  by (cases m) auto

lemma mapR_Inr: "(\<And>x. x \<in> set xs \<Longrightarrow> f x = Inr (g x)) \<Longrightarrow> mapR f xs = Inr (map g xs)"
  by (induction xs) auto

lemma mapR_InrD: "mapR f xs = Inr ys \<Longrightarrow> list_all2 (\<lambda>x y. f x = Inr y) xs ys"
  by (induction xs arbitrary: ys) auto

lemma mapR_keyed:
  "mapR (\<lambda>x. bindR (f x) (\<lambda>k. Inr (k, x))) xs = Inr ps \<Longrightarrow>
   map snd ps = xs \<and> (\<forall>p \<in> set ps. f (snd p) = Inr (fst p))"
proof (induction xs arbitrary: ps)
  case (Cons x xs)
  from Cons.prems obtain k qs where qs: "f x = Inr k" "ps = (k, x) # qs"
    "mapR (\<lambda>x. bindR (f x) (\<lambda>k. Inr (k, x))) xs = Inr qs"
    by auto
  from Cons.IH [OF qs(3)] qs(1,2) show ?case by simp
qed simp

lemma mapR_mem: "mapR f xs = Inr ys \<Longrightarrow> y \<in> set ys \<Longrightarrow> \<exists>x \<in> set xs. f x = Inr y"
  by (induction xs arbitrary: ys) auto

lemma mapR_total: "(\<exists>ys. mapR f xs = Inr ys) \<longleftrightarrow> (\<forall>x \<in> set xs. \<exists>y. f x = Inr y)"
  by (induction xs) auto

lemma mapR_length: "mapR f xs = Inr ys \<Longrightarrow> length ys = length xs"
  by (induction xs arbitrary: ys) auto

text \<open>
  Stateful code: an exception leaves the state as the statements before it made it.
\<close>

definition bindS ::
  "('s \<Rightarrow> 's \<times> ('e + 'a)) \<Rightarrow> ('a \<Rightarrow> 's \<Rightarrow> 's \<times> ('e + 'b)) \<Rightarrow> 's \<Rightarrow> 's \<times> ('e + 'b)" where
  "bindS m f s = (case m s of (s', Inl e) \<Rightarrow> (s', Inl e) | (s', Inr x) \<Rightarrow> f x s')"

definition liftS :: "'e + 'a \<Rightarrow> 's \<Rightarrow> 's \<times> ('e + 'a)" where
  "liftS m s = (s, m)"

lemma bindS_Inr [simp]:
  "bindS m f s = (t, Inr y) \<longleftrightarrow> (\<exists>s' x. m s = (s', Inr x) \<and> f x s' = (t, Inr y))"
  by (auto simp: bindS_def split: prod.splits sum.splits)

lemma bindS_Inl: "bindS m f s = (t, Inl e) \<longleftrightarrow>
    m s = (t, Inl e) \<or> (\<exists>s' x. m s = (s', Inr x) \<and> f x s' = (t, Inl e))"
  by (auto simp: bindS_def split: prod.splits sum.splits)

section \<open>Strings\<close>

definition is_ws :: "char \<Rightarrow> bool" where
  "is_ws c \<longleftrightarrow> (of_char c :: nat) \<in> {9, 10, 11, 12, 13, 28, 29, 30, 31, 32, 133, 160}"

definition py_strip :: "string \<Rightarrow> string" where
  "py_strip s = rev (dropWhile is_ws (rev (dropWhile is_ws s)))"

definition is_dec :: "char \<Rightarrow> bool" where
  "is_dec c \<longleftrightarrow> 48 \<le> (of_char c :: nat) \<and> (of_char c :: nat) \<le> 57"

text \<open>
  \<open>str.isdecimal\<close> accepts the digits 0-9, \<open>str.isdigit\<close> also the superscripts
  U+00B2, U+00B3 and U+00B9, which \<open>int()\<close> rejects.
\<close>

definition py_isdecimal :: "string \<Rightarrow> bool" where
  "py_isdecimal s \<longleftrightarrow> s \<noteq> [] \<and> list_all is_dec s"

definition is_digit_char :: "char \<Rightarrow> bool" where
  "is_digit_char c \<longleftrightarrow> is_dec c \<or> (of_char c :: nat) \<in> {178, 179, 185}"

definition py_isdigit :: "string \<Rightarrow> bool" where
  "py_isdigit s \<longleftrightarrow> s \<noteq> [] \<and> list_all is_digit_char s"

definition lower_char :: "char \<Rightarrow> char" where
  "lower_char c = (let n = (of_char c :: nat) in
     if (65 \<le> n \<and> n \<le> 90) \<or> (192 \<le> n \<and> n \<le> 222 \<and> n \<noteq> 215) then char_of (n + 32) else c)"

text \<open>Code equations over integers, which evaluate faster than the ones over numbers in unary.\<close>

lemma char_code_int: "(of_char c :: nat) = n \<longleftrightarrow> (of_char c :: int) = int n"
  by (metis of_nat_of_char of_nat_eq_iff)

lemma char_le_int: "(of_char c :: nat) \<le> n \<longleftrightarrow> (of_char c :: int) \<le> int n"
  "n \<le> (of_char c :: nat) \<longleftrightarrow> int n \<le> (of_char c :: int)"
  by (metis of_nat_of_char of_nat_le_iff)+

lemma is_ws_code [code]:
  "is_ws c \<longleftrightarrow> (of_char c :: int) \<in> set [9, 10, 11, 12, 13, 28, 29, 30, 31, 32, 133, 160]"
  by (simp add: is_ws_def char_code_int)

lemma is_dec_code [code]: "is_dec c \<longleftrightarrow> 48 \<le> (of_char c :: int) \<and> (of_char c :: int) \<le> 57"
  by (simp add: is_dec_def char_le_int)

lemma lower_char_code [code]:
  "lower_char c = (let n = (of_char c :: int) in
     if (65 \<le> n \<and> n \<le> 90) \<or> (192 \<le> n \<and> n \<le> 222 \<and> n \<noteq> 215) then char_of (n + 32) else c)"
proof -
  have "char_of ((of_char c :: int) + 32) = char_of ((of_char c :: nat) + 32)"
    using char_of_nat [of "of_char c + 32"] by (simp add: of_nat_of_char)
  then show ?thesis by (simp add: lower_char_def char_le_int char_code_int Let_def)
qed

definition py_lower :: "string \<Rightarrow> string" where
  "py_lower s = map lower_char s"

fun py_split :: "char \<Rightarrow> string \<Rightarrow> string list" where
  "py_split d [] = [[]]"
| "py_split d (c # cs) =
     (if c = d then [] # py_split d cs
      else (case py_split d cs of [] \<Rightarrow> [[c]] | w # ws \<Rightarrow> (c # w) # ws))"

fun py_join :: "string \<Rightarrow> string list \<Rightarrow> string" where
  "py_join sep [] = []"
| "py_join sep [w] = w"
| "py_join sep (w # ws) = w @ sep @ py_join sep ws"

definition replace_char :: "char \<Rightarrow> string \<Rightarrow> string \<Rightarrow> string" where
  "replace_char c r s = concat (map (\<lambda>x. if x = c then r else [x]) s)"

definition remove_prefix :: "string \<Rightarrow> string \<Rightarrow> string" where
  "remove_prefix p s = (if prefix p s then drop (length p) s else s)"

lemma py_split_not_Nil [simp]: "py_split d s \<noteq> []"
  by (induction s) (auto split: list.splits)

lemma py_split_no_sep: "d \<notin> set s \<Longrightarrow> py_split d s = [s]"
  by (induction s) auto

lemma py_join_split: "py_join [d] (py_split d s) = s"
proof (induction s)
  case Nil
  then show ?case by simp
next
  case (Cons c cs)
  obtain w ws where w: "py_split d cs = w # ws"
    by (cases "py_split d cs") auto
  with Cons show ?case by (cases ws) auto
qed

lemma py_split_pieces: "w \<in> set (py_split d s) \<Longrightarrow> d \<notin> set w"
  by (induction s arbitrary: w) (auto split: list.splits if_splits)

lemma py_split_app: "d \<notin> set w \<Longrightarrow> py_split d (w @ d # s) = w # py_split d s"
  by (induction w) auto

section \<open>Integers and their text\<close>

definition dec_char :: "nat \<Rightarrow> char" where
  "dec_char n = char_of (48 + n)"

fun nat_str :: "nat \<Rightarrow> string" where
  "nat_str n = (if n < 10 then [dec_char n] else nat_str (n div 10) @ [dec_char (n mod 10)])"

declare nat_str.simps [simp del]

definition int_str :: "int \<Rightarrow> string" where
  "int_str i = (if i < 0 then CHR ''-'' # nat_str (nat (- i)) else nat_str (nat i))"

definition digit_val :: "char \<Rightarrow> int option" where
  "digit_val c = (let n = (of_char c :: nat) in
     if 48 \<le> n \<and> n \<le> 57 then Some (int n - 48)
     else if 97 \<le> n \<and> n \<le> 122 then Some (int n - 87)
     else if 65 \<le> n \<and> n \<le> 90 then Some (int n - 55)
     else None)"

text \<open>
  Digits of a number in base \<open>b\<close>: single underscores may stand between digits. The flag
  says that the previous character was a digit, so that an underscore or the end may follow.
\<close>

fun base_digits :: "int \<Rightarrow> bool \<Rightarrow> int \<Rightarrow> string \<Rightarrow> int option" where
  "base_digits b prev acc [] = (if prev then Some acc else None)"
| "base_digits b prev acc (c # cs) =
     (if c = CHR ''_'' then (if prev then base_digits b False acc cs else None)
      else (case digit_val c of
              None \<Rightarrow> None
            | Some d \<Rightarrow> if d < b then base_digits b True (b * acc + d) cs else None))"

definition signed :: "(string \<Rightarrow> int option) \<Rightarrow> string \<Rightarrow> int res" where
  "signed f t =
     (case (case t of
              [] \<Rightarrow> None
            | c # cs \<Rightarrow>
                if c = CHR ''-'' then map_option uminus (f cs)
                else if c = CHR ''+'' then f cs
                else f t)
      of None \<Rightarrow> Inl ValueError | Some i \<Rightarrow> Inr i)"

text \<open>\<open>int(s)\<close> and \<open>int(s, 0)\<close>.\<close>

definition py_int :: "string \<Rightarrow> int res" where
  "py_int s = signed (base_digits 10 False 0) (py_strip s)"

definition prefixed_digits :: "int \<Rightarrow> string \<Rightarrow> int option" where
  "prefixed_digits b cs =
     (case cs of
        [] \<Rightarrow> None
      | c # cs' \<Rightarrow> base_digits b False 0 (if c = CHR ''_'' then cs' else cs))"

definition auto_base :: "string \<Rightarrow> int option" where
  "auto_base t =
     (if prefix ''0x'' t \<or> prefix ''0X'' t then prefixed_digits 16 (drop 2 t)
      else if prefix ''0o'' t \<or> prefix ''0O'' t then prefixed_digits 8 (drop 2 t)
      else if prefix ''0b'' t \<or> prefix ''0B'' t then prefixed_digits 2 (drop 2 t)
      else (case base_digits 10 False 0 t of
              None \<Rightarrow> None
            | Some v \<Rightarrow> if hd t = CHR ''0'' \<and> v \<noteq> 0 then None else Some v))"

definition py_int0 :: "string \<Rightarrow> int res" where
  "py_int0 s = signed auto_base (py_strip s)"

lemma of_char_dec_char [simp]: "n < 10 \<Longrightarrow> (of_char (dec_char n) :: nat) = 48 + n"
  by (simp add: dec_char_def of_char_of)

lemma is_dec_dec_char: "n < 10 \<Longrightarrow> is_dec (dec_char n)"
  by (simp add: is_dec_def)

lemma digit_val_dec_char: "n < 10 \<Longrightarrow> digit_val (dec_char n) = Some (int n)"
  by (simp add: digit_val_def)

lemma is_dec_not_ws: "is_dec c \<Longrightarrow> \<not> is_ws c"
  by (auto simp: is_dec_def is_ws_def)

lemma is_dec_not_special:
  "is_dec c \<Longrightarrow> c \<noteq> CHR ''_'' \<and> c \<noteq> CHR ''-'' \<and> c \<noteq> CHR ''+''"
  by (auto simp: is_dec_def)

lemma dec_char_not_underscore [simp]: "n < 10 \<Longrightarrow> dec_char n \<noteq> CHR ''_''"
  using is_dec_dec_char [of n] is_dec_not_special by blast

lemma is_dec_digit_val: "is_dec c \<Longrightarrow> \<exists>d. digit_val c = Some d \<and> 0 \<le> d \<and> d < 10"
  by (auto simp: is_dec_def digit_val_def Let_def)

lemma nat_str_dec: "py_isdecimal (nat_str n)"
proof (induction n rule: nat_str.induct)
  case (1 n)
  show ?case
  proof (cases "n < 10")
    case True
    then show ?thesis by (subst nat_str.simps) (simp add: py_isdecimal_def is_dec_dec_char)
  next
    case False
    with 1 have "py_isdecimal (nat_str (n div 10))" by simp
    with False show ?thesis
      by (subst nat_str.simps) (simp add: py_isdecimal_def is_dec_dec_char)
  qed
qed

lemma base_digits_app:
  "list_all is_dec xs \<Longrightarrow> base_digits 10 prev acc xs = Some v \<Longrightarrow>
   base_digits 10 prev acc (xs @ ys) = base_digits 10 (prev \<or> xs \<noteq> []) v ys"
proof (induction xs arbitrary: prev acc)
  case Nil
  then show ?case by (auto split: if_splits)
next
  case (Cons c xs)
  then obtain d where "digit_val c = Some d" "d < 10" "c \<noteq> CHR ''_''"
    using is_dec_digit_val [of c] is_dec_not_special [of c] by auto
  with Cons show ?case by auto
qed

lemma base_digits_nat_str: "base_digits 10 False 0 (nat_str n) = Some (int n)"
proof (induction n rule: nat_str.induct)
  case (1 n)
  show ?case
  proof (cases "n < 10")
    case True
    then show ?thesis
      by (subst nat_str.simps) (simp add: digit_val_dec_char)
  next
    case False
    have "base_digits 10 False 0 (nat_str (n div 10) @ [dec_char (n mod 10)])
        = base_digits 10 (False \<or> nat_str (n div 10) \<noteq> []) (int (n div 10)) [dec_char (n mod 10)]"
      by (rule base_digits_app) (use False 1 nat_str_dec in \<open>auto simp: py_isdecimal_def\<close>)
    also have "\<dots> = Some (int n)"
      using nat_str_dec [of "n div 10"]
      by (simp add: py_isdecimal_def digit_val_dec_char zdiv_int zmod_int)
    finally show ?thesis using False by (subst nat_str.simps) simp
  qed
qed

lemma py_strip_id:
  "s \<noteq> [] \<Longrightarrow> \<not> is_ws (hd s) \<Longrightarrow> \<not> is_ws (last s) \<Longrightarrow> py_strip s = s"
proof -
  assume a: "s \<noteq> []" "\<not> is_ws (hd s)" "\<not> is_ws (last s)"
  from a have "dropWhile is_ws s = s" by (cases s) auto
  moreover from a have "dropWhile is_ws (rev s) = rev s"
    by (cases "rev s") (auto simp: last_rev hd_rev dest: sym)
  ultimately show ?thesis by (simp add: py_strip_def)
qed

lemma py_strip_isdecimal: "py_isdecimal s \<Longrightarrow> py_strip s = s"
  by (rule py_strip_id) (auto simp: py_isdecimal_def list_all_iff is_dec_not_ws)

lemma py_int_isdecimal: "py_isdecimal s \<Longrightarrow> \<exists>n. py_int s = Inr n \<and> 0 \<le> n"
proof -
  assume dec: "py_isdecimal s"
  have digits: "\<exists>v. base_digits 10 prev acc xs = Some v \<and> acc \<le> v"
    if "list_all is_dec xs" "0 \<le> acc" "prev \<or> xs \<noteq> []" for xs prev acc
    using that
  proof (induction xs arbitrary: prev acc)
    case (Cons c xs)
    then obtain d where d: "digit_val c = Some d" "0 \<le> d" "d < 10" "c \<noteq> CHR ''_''"
      using is_dec_digit_val [of c] is_dec_not_special [of c] by auto
    from Cons.IH [of "10 * acc + d" True] Cons.prems d show ?case
      by force
  qed auto
  from dec obtain c cs where s: "s = c # cs" "is_dec c" by (cases s) (auto simp: py_isdecimal_def)
  with is_dec_not_special [of c] digits [of s 0 False] dec show ?thesis
    by (auto simp: py_int_def py_strip_isdecimal signed_def py_isdecimal_def)
qed

lemma py_int_nat_str: "py_int (nat_str n) = Inr (int n)"
proof -
  have "hd (nat_str n) \<noteq> CHR ''-'' \<and> hd (nat_str n) \<noteq> CHR ''+''"
    using nat_str_dec [of n] is_dec_not_special
    by (cases "nat_str n") (auto simp: py_isdecimal_def)
  then show ?thesis
    using base_digits_nat_str [of n] nat_str_dec [of n]
    by (cases "nat_str n") (auto simp: py_int_def py_strip_isdecimal signed_def py_isdecimal_def)
qed

lemma py_int_int_str [py_simps]: "py_int (int_str i) = Inr i"
proof (cases "i < 0")
  case True
  let ?n = "nat_str (nat (- i))"
  have "\<not> is_ws (CHR ''-'')" by (simp add: is_ws_def)
  moreover have "?n \<noteq> []" "\<not> is_ws (last ?n)"
    using nat_str_dec [of "nat (- i)"]
    by (auto simp: py_isdecimal_def list_all_iff is_dec_not_ws)
  ultimately have "py_strip (CHR ''-'' # ?n) = CHR ''-'' # ?n"
    by (intro py_strip_id) auto
  with True show ?thesis
    by (simp add: py_int_def int_str_def signed_def base_digits_nat_str)
next
  case False
  then show ?thesis by (simp add: int_str_def py_int_nat_str)
qed

lemma int_str_inject [simp]: "int_str i = int_str j \<longleftrightarrow> i = j"
  by (metis py_int_int_str sum.inject(2))

lemma isdecimal_int_str: "0 \<le> i \<Longrightarrow> py_isdecimal (int_str i)"
  by (simp add: int_str_def nat_str_dec)

lemma isdecimal_isdigit: "py_isdecimal s \<Longrightarrow> py_isdigit s"
  by (auto simp: py_isdecimal_def py_isdigit_def is_digit_char_def list_all_iff)

section \<open>Dictionaries in insertion order\<close>

text \<open>\<open>d.setdefault(k, []).append(x)\<close> and the dictionary such a loop builds.\<close>

fun dict_append :: "'k \<Rightarrow> 'v \<Rightarrow> ('k \<times> 'v list) list \<Rightarrow> ('k \<times> 'v list) list" where
  "dict_append k x [] = [(k, [x])]"
| "dict_append k x ((k', xs) # d) =
     (if k = k' then (k', xs @ [x]) # d else (k', xs) # dict_append k x d)"

definition group_by :: "('a \<Rightarrow> 'k) \<Rightarrow> 'a list \<Rightarrow> ('k \<times> 'a list) list" where
  "group_by f xs = foldl (\<lambda>d x. dict_append (f x) x d) [] xs"

lemma map_of_dict_append:
  "map_of (dict_append k x d) k' =
     (if k' = k then Some ((case map_of d k of None \<Rightarrow> [] | Some xs \<Rightarrow> xs) @ [x]) else map_of d k')"
  by (induction k x d rule: dict_append.induct) auto

lemma keys_dict_append:
  "map fst (dict_append k x d) = (if k \<in> fst ` set d then map fst d else map fst d @ [k])"
  by (induction k x d rule: dict_append.induct) auto

lemma group_by_snoc: "group_by f (xs @ [x]) = dict_append (f x) x (group_by f xs)"
  by (simp add: group_by_def)

lemma map_of_group_by [dict_simps]:
  "map_of (group_by f xs) k =
     (if k \<in> f ` set xs then Some (filter (\<lambda>x. f x = k) xs) else None)"
proof (induction xs rule: rev_induct)
  case Nil
  then show ?case by (simp add: group_by_def)
next
  case (snoc x xs)
  have "filter (\<lambda>y. f y = k) xs = []" if "k \<notin> f ` set xs"
    using that by (auto simp: filter_empty_conv)
  with snoc show ?case
    by (cases "k \<in> f ` set xs") (auto simp: group_by_snoc map_of_dict_append)
qed

lemma distinct_keys_group_by [dict_simps]: "distinct (map fst (group_by f xs))"
  by (induction xs rule: rev_induct)
    (simp add: group_by_def, auto simp: group_by_snoc keys_dict_append simp flip: set_map)

lemma keys_group_by [dict_simps]: "fst ` set (group_by f xs) = f ` set xs"
proof (induction xs rule: rev_induct)
  case Nil
  then show ?case by (simp add: group_by_def)
next
  case (snoc x xs)
  have "set (map fst (group_by f (xs @ [x]))) = insert (f x) (set (map fst (group_by f xs)))"
    by (auto simp: group_by_snoc keys_dict_append simp flip: set_map)
  with snoc show ?case by simp
qed

lemma group_by_entry:
  "(k, ys) \<in> set (group_by f xs) \<Longrightarrow> ys = filter (\<lambda>x. f x = k) xs \<and> k \<in> f ` set xs"
  using map_of_is_SomeI [OF distinct_keys_group_by, of k ys f xs]
  by (auto simp: map_of_group_by split: if_splits)

lemma mset_concat_dict_append:
  "mset (concat (map snd (dict_append k x d))) = add_mset x (mset (concat (map snd d)))"
  by (induction k x d rule: dict_append.induct) auto

lemma mset_group_by: "mset (concat (map snd (group_by f xs))) = mset xs"
  by (induction xs rule: rev_induct)
    (simp add: group_by_def, simp add: group_by_snoc mset_concat_dict_append)

lemma group_by_nonempty: "(k, ys) \<in> set (group_by f xs) \<Longrightarrow> ys \<noteq> []"
  by (auto dest!: group_by_entry simp: filter_empty_conv)

text \<open>Replacing a value in place, and dropping a key, keep the other keys.\<close>

lemma keys_update [dict_simps]:
  "map fst (AList.update k v d) = (if k \<in> fst ` set d then map fst d else map fst d @ [k])"
  by (induction d) auto

lemma distinct_keys_update: "distinct (map fst d) \<Longrightarrow> distinct (map fst (AList.update k v d))"
  by (rule distinct_update)

lemma distinct_keys_delete: "distinct (map fst d) \<Longrightarrow> distinct (map fst (AList.delete k d))"
  by (rule distinct_delete)

lemma delete_filter: "AList.delete k d = filter (\<lambda>p. fst p \<noteq> k) d"
  by (induction d) auto

lemma update_fresh: "k \<notin> fst ` set d \<Longrightarrow> AList.update k v d = d @ [(k, v)]"
  by (induction d) auto

lemma set_update_distinct:
  "distinct (map fst d) \<Longrightarrow> set (AList.update k v d) = insert (k, v) {p \<in> set d. fst p \<noteq> k}"
  by (induction d) (auto simp: image_iff)

lemma foldl_update_fresh:
  "distinct (map f xs) \<Longrightarrow> \<forall>x \<in> set xs. f x \<notin> fst ` set d \<Longrightarrow>
   foldl (\<lambda>d x. AList.update (f x) (g x) d) d xs = d @ map (\<lambda>x. (f x, g x)) xs"
proof (induction xs arbitrary: d)
  case (Cons x xs)
  from Cons.prems have "\<forall>y \<in> set xs. f y \<noteq> f x" by (metis distinct.simps(2) imageI list.simps(9) set_map)
  with Cons.prems have "foldl (\<lambda>d x. AList.update (f x) (g x) d) (d @ [(f x, g x)]) xs =
      (d @ [(f x, g x)]) @ map (\<lambda>x. (f x, g x)) xs"
    by (intro Cons.IH) auto
  with Cons.prems show ?case by (simp add: update_fresh)
qed simp

lemma update_same: "map_of d k = Some v \<Longrightarrow> AList.update k v d = d"
  by (induction d) (auto split: if_splits)

lemma map_of_delete: "map_of (AList.delete k d) j = (if j = k then None else map_of d j)"
  by (simp add: delete_conv')

section \<open>Searching and sorting\<close>

lemma list_all2_mem1: "list_all2 P xs ys \<Longrightarrow> x \<in> set xs \<Longrightarrow> \<exists>y \<in> set ys. P x y"
  by (induction rule: list_all2_induct) auto

lemma find_SomeD: "find P xs = Some x \<Longrightarrow> P x \<and> x \<in> set xs"
  by (induction xs) (auto split: if_splits)

lemma find_unique:
  assumes "distinct (map f xs)" "x \<in> set xs"
  shows "find (\<lambda>y. f y = f x) xs = Some x"
proof (cases "find (\<lambda>y. f y = f x) xs")
  case None
  with assms(2) show ?thesis by (auto simp: find_None_iff)
next
  case (Some y)
  from find_SomeD [OF this] assms show ?thesis by (simp add: Some distinct_map inj_on_def)
qed

lemma sort_key_filter: "filter P (sort_key f xs) = sort_key f (filter P xs)"
  by (rule filter_sort)

lemma sort_key_id: "sorted (map f xs) \<Longrightarrow> sort_key f xs = xs"
  by (induction xs) (auto simp: insort_is_Cons)

text \<open>A stable sort depends only on the order of the elements with equal keys.\<close>

lemma sort_key_classes:
  assumes "\<And>k. filter (\<lambda>x. f x = k) xs = filter (\<lambda>x. f x = k) ys"
  shows "sort_key f xs = sort_key f ys"
proof -
  have c: "count (mset zs) z = count (mset (filter (\<lambda>x. f x = f z) zs)) z" for zs z
    by (induction zs) auto
  have "mset xs = mset ys"
    by (rule multiset_eqI) (metis assms c)
  moreover have "filter (\<lambda>x. f k = f x) (sort_key f ys) = filter (\<lambda>x. f k = f x) xs" for k
  proof -
    have "sorted (map f (filter (\<lambda>x. f x = f k) ys))" by (induction ys) auto
    then have "filter (\<lambda>x. f x = f k) (sort_key f ys) = filter (\<lambda>x. f x = f k) ys"
      by (simp add: sort_key_filter sort_key_id)
    then show ?thesis using assms [of "f k"] by (simp add: eq_commute)
  qed
  ultimately show ?thesis
    by (intro properties_for_sort_key) simp_all
qed

lemma mset_concat_map_cong:
  "mset xs = mset ys \<Longrightarrow> mset (concat (map f xs)) = mset (concat (map f ys))"
proof -
  assume a: "mset xs = mset ys"
  have "mset (concat (map f zs)) = \<Sum>\<^sub># (image_mset (\<lambda>z. mset (f z)) (mset zs))" for zs
    by (induction zs) auto
  with a show ?thesis by simp
qed

lemma strict_sorted_sort_key:
  "distinct (map f xs) \<Longrightarrow> sorted_wrt (<) (map f (sort_key f xs))"
  by (simp add: strict_sorted_iff distinct_map)

text \<open>A dictionary comprehension: a repeated key keeps its place and takes the last value.\<close>

definition dict_of :: "('k \<times> 'v) list \<Rightarrow> ('k \<times> 'v) list" where
  "dict_of ps = foldl (\<lambda>d (k, v). AList.update k v d) [] ps"

lemma set_AList_update: "set (AList.update k x d) \<subseteq> insert (k, x) (set d)"
  by (induction d) auto

lemma set_dict_of: "set (dict_of ps) \<subseteq> set ps"
proof (induction ps rule: rev_induct)
  case (snoc p ps)
  then show ?case using set_AList_update [of "fst p" "snd p" "dict_of ps"]
    by (auto simp: dict_of_def split: prod.splits)
qed (simp add: dict_of_def)

section \<open>Untyped values\<close>

text \<open>
  The values that persistence and contract events hold without a static type. \<open>VObj\<close> is any
  other object. Floats do not occur in the modelled state.
\<close>

datatype pyval =
    VNone
  | VBool bool
  | VInt int
  | VStr string
  | VList "pyval list"
  | VTuple "pyval list"
  | VSet "pyval list"
  | VDict "(pyval \<times> pyval) list"
  | VObj nat

fun truthy :: "pyval \<Rightarrow> bool" where
  "truthy VNone = False"
| "truthy (VBool b) = b"
| "truthy (VInt i) = (i \<noteq> 0)"
| "truthy (VStr s) = (s \<noteq> [])"
| "truthy (VList xs) = (xs \<noteq> [])"
| "truthy (VTuple xs) = (xs \<noteq> [])"
| "truthy (VSet xs) = (xs \<noteq> [])"
| "truthy (VDict d) = (d \<noteq> [])"
| "truthy (VObj n) = True"

text \<open>\<open>v[k]\<close> for a string key.\<close>

fun getitem :: "pyval \<Rightarrow> string \<Rightarrow> pyval res" where
  "getitem (VDict d) k = (case map_of d (VStr k) of None \<Rightarrow> Inl KeyError | Some v \<Rightarrow> Inr v)"
| "getitem _ k = Inl TypeError"

text \<open>
  \<open>read_field\<close>: web3 decodes a tuple as a named tuple, here a \<open>VTuple\<close> whose field is found by
  its index; a dictionary is read by key.
\<close>

definition read_field :: "pyval \<Rightarrow> string \<Rightarrow> nat \<Rightarrow> pyval res" where
  "read_field v f i =
     (case v of
        VDict _ \<Rightarrow> getitem v f
      | VTuple xs \<Rightarrow> if i < length xs then Inr (xs ! i) else Inl IndexError
      | VList xs \<Rightarrow> if i < length xs then Inr (xs ! i) else Inl IndexError
      | VStr cs \<Rightarrow> if i < length cs then Inr (VStr [cs ! i]) else Inl IndexError
      | _ \<Rightarrow> Inl TypeError)"

fun val_int :: "pyval \<Rightarrow> int res" where
  "val_int (VInt i) = Inr i"
| "val_int (VBool b) = Inr (if b then 1 else 0)"
| "val_int (VStr s) = py_int s"
| "val_int _ = Inl TypeError"

fun hashable :: "pyval \<Rightarrow> bool" where
  "hashable (VList xs) = False"
| "hashable (VSet xs) = False"
| "hashable (VDict d) = False"
| "hashable (VTuple xs) = list_all hashable xs"
| "hashable _ = True"

fun iter_vals :: "pyval \<Rightarrow> pyval list res" where
  "iter_vals (VList xs) = Inr xs"
| "iter_vals (VTuple xs) = Inr xs"
| "iter_vals (VSet xs) = Inr xs"
| "iter_vals (VStr s) = Inr (map (\<lambda>c. VStr [c]) s)"
| "iter_vals (VDict d) = Inr (map fst d)"
| "iter_vals _ = Inl TypeError"

text \<open>\<open>dict(v)\<close>: a dictionary is copied, any other iterable must hold key/value pairs.\<close>

definition pair_of :: "pyval \<Rightarrow> (pyval \<times> pyval) res" where
  "pair_of v = bindR (iter_vals v) (\<lambda>xs. case xs of
       [a, b] \<Rightarrow> if hashable a then Inr (a, b) else Inl TypeError
     | _ \<Rightarrow> Inl ValueError)"

fun val_dict :: "pyval \<Rightarrow> (pyval \<times> pyval) list res" where
  "val_dict (VDict d) = Inr d"
| "val_dict v = bindR (iter_vals v) (\<lambda>xs. bindR (mapR pair_of xs)
     (\<lambda>ps. Inr (foldl (\<lambda>d (k, x). AList.update k x d) [] ps)))"

text \<open>
  Third-party code the persisted records go through, as a parameter: \<open>str()\<close> of a container,
  \<open>HexBytes\<close>, \<open>to_checksum_address\<close>, and the text form of aware datetimes.
  A \<open>HexBytes\<close> value is represented by its \<open>to_0x_hex()\<close> text.
\<close>

record codec =
  cd_repr :: "pyval \<Rightarrow> string"
  cd_hexbytes :: "pyval \<Rightarrow> string res"
  cd_checksum :: "pyval \<Rightarrow> string res"

fun val_str :: "codec \<Rightarrow> pyval \<Rightarrow> string" where
  "val_str C (VStr s) = s"
| "val_str C (VInt i) = int_str i"
| "val_str C VNone = ''None''"
| "val_str C (VBool b) = (if b then ''True'' else ''False'')"
| "val_str C v = cd_repr C v"

text \<open>The exceptions the parsers of persisted records treat as a malformed record.\<close>

definition malformed :: "py_error \<Rightarrow> bool" where
  "malformed e \<longleftrightarrow> e = KeyError \<or> e = TypeError \<or> e = ValueError"

fun parse_skipping :: "('a \<Rightarrow> 'b res) \<Rightarrow> 'a list \<Rightarrow> 'b list res" where
  "parse_skipping f [] = Inr []"
| "parse_skipping f (x # xs) =
     (case f x of
        Inr y \<Rightarrow> bindR (parse_skipping f xs) (\<lambda>ys. Inr (y # ys))
      | Inl e \<Rightarrow> if malformed e then parse_skipping f xs else Inl e)"

lemma parse_skipping_Inr:
  "(\<And>x. x \<in> set xs \<Longrightarrow> f x = Inr (g x)) \<Longrightarrow> parse_skipping f xs = Inr (map g xs)"
  by (induction xs) auto

end
