(* ===== verification/Health.thy ===== *)
theory Health
  imports Complex_Main Py_Prelude
begin

text \<open>
  The health state of \<open>sentinel/app/health.py\<close>: flags and time stamps that the components set,
  the snapshot computed from them, and the answers of the HTTP server. The clock is a parameter
  of each operation; an operation that reads the clock reads it once. The lock makes each
  operation one step. The metrics page and the build information are opaque answers.
\<close>

section \<open>State and operations\<close>

record health_state =
  hs_startup_complete :: bool
  hs_polling_started :: bool
  hs_subscription_active :: bool
  hs_catchup_active :: bool
  hs_warmup_started :: bool
  hs_warmup_complete :: bool
  hs_warmup_error :: "string option"
  hs_shutting_down :: bool
  hs_fatal_error :: "string option"
  hs_heartbeat :: real
  hs_progress :: "real option"
  hs_subscription_ok :: "real option"

text \<open>An error is given by its message and the name of its class.\<close>

datatype health_op =
    PollingStarted
  | SubscriptionActive
  | SubscriptionInactive
  | Progress
  | CatchupStarted
  | CatchupComplete
  | StartupComplete
  | WarmupStarted
  | WarmupComplete
  | WarmupFailed string string
  | ShutdownRequested
  | FatalError string string
  | Heartbeat

definition mk_health :: "real \<Rightarrow> health_state" where
  "mk_health now = \<lparr>hs_startup_complete = False, hs_polling_started = False,
     hs_subscription_active = False, hs_catchup_active = False, hs_warmup_started = False,
     hs_warmup_complete = False, hs_warmup_error = None, hs_shutting_down = False,
     hs_fatal_error = None, hs_heartbeat = now, hs_progress = None, hs_subscription_ok = None\<rparr>"

definition error_text :: "string \<Rightarrow> string \<Rightarrow> string" where
  "error_text message cls = (if message = [] then cls else message)"

fun health_step :: "real \<Rightarrow> health_op \<Rightarrow> health_state \<Rightarrow> health_state" where
  "health_step now PollingStarted h = h\<lparr>hs_polling_started := True, hs_heartbeat := now\<rparr>"
| "health_step now SubscriptionActive h =
     h\<lparr>hs_subscription_active := True, hs_subscription_ok := Some now, hs_progress := Some now,
       hs_heartbeat := now\<rparr>"
| "health_step now SubscriptionInactive h = h\<lparr>hs_subscription_active := False\<rparr>"
| "health_step now Progress h = h\<lparr>hs_progress := Some now, hs_heartbeat := now\<rparr>"
| "health_step now CatchupStarted h = h\<lparr>hs_catchup_active := True\<rparr>"
| "health_step now CatchupComplete h =
     h\<lparr>hs_catchup_active := False, hs_progress := Some now, hs_heartbeat := now\<rparr>"
| "health_step now StartupComplete h =
     h\<lparr>hs_startup_complete := True, hs_progress := Some now, hs_heartbeat := now\<rparr>"
| "health_step now WarmupStarted h =
     h\<lparr>hs_warmup_started := True, hs_warmup_complete := False, hs_warmup_error := None,
       hs_heartbeat := now\<rparr>"
| "health_step now WarmupComplete h =
     h\<lparr>hs_warmup_started := True, hs_warmup_complete := True, hs_warmup_error := None,
       hs_progress := Some now, hs_heartbeat := now\<rparr>"
| "health_step now (WarmupFailed message cls) h =
     h\<lparr>hs_warmup_started := True, hs_warmup_complete := True,
       hs_warmup_error := Some (error_text message cls), hs_heartbeat := now\<rparr>"
| "health_step now ShutdownRequested h = h\<lparr>hs_shutting_down := True\<rparr>"
| "health_step now (FatalError message cls) h = h\<lparr>hs_fatal_error := Some (error_text message cls)\<rparr>"
| "health_step now Heartbeat h = h\<lparr>hs_heartbeat := now\<rparr>"

section \<open>Snapshots and answers\<close>

record health_snapshot =
  sn_state :: health_state
  sn_ready :: bool
  sn_live :: bool
  sn_heartbeat_age :: real
  sn_progress_age :: "real option"
  sn_subscription_age :: "real option"

definition age :: "real \<Rightarrow> real option \<Rightarrow> real option" where
  "age now stamp = map_option (\<lambda>t. now - t) stamp"

definition live_now :: "real \<Rightarrow> health_state \<Rightarrow> bool" where
  "live_now now h \<longleftrightarrow> hs_fatal_error h = None \<and> now - hs_heartbeat h < 30"

definition ready_now :: "real \<Rightarrow> health_state \<Rightarrow> bool" where
  "ready_now now h \<longleftrightarrow>
     hs_startup_complete h \<and> hs_polling_started h \<and> hs_subscription_active h \<and>
     \<not> hs_catchup_active h \<and> \<not> hs_shutting_down h \<and> hs_fatal_error h = None \<and>
     (case age now (hs_progress h) of None \<Rightarrow> False | Some d \<Rightarrow> d < 30 * 60)"

definition snapshot :: "real \<Rightarrow> health_state \<Rightarrow> health_snapshot" where
  "snapshot now h = \<lparr>sn_state = h, sn_ready = ready_now now h, sn_live = live_now now h,
     sn_heartbeat_age = now - hs_heartbeat h, sn_progress_age = age now (hs_progress h),
     sn_subscription_age = age now (hs_subscription_ok h)\<rparr>"

text \<open>The JSON body is the snapshot with its ages rounded by \<open>rnd\<close>.\<close>

datatype health_answer = MetricsPage | BuildInfo | NotFound | Body nat health_snapshot

definition rounded :: "(real \<Rightarrow> real) \<Rightarrow> health_snapshot \<Rightarrow> health_snapshot" where
  "rounded rnd s = s\<lparr>sn_heartbeat_age := rnd (sn_heartbeat_age s),
     sn_progress_age := map_option rnd (sn_progress_age s),
     sn_subscription_age := map_option rnd (sn_subscription_age s)\<rparr>"

definition health_get :: "(real \<Rightarrow> real) \<Rightarrow> string \<Rightarrow> real \<Rightarrow> health_state \<Rightarrow> health_answer" where
  "health_get rnd path now h =
     (if path = ''/metrics'' then MetricsPage
      else if path = ''/build-info.json'' then BuildInfo
      else (let s = snapshot now h;
                status = (\<lambda>ok. Body (if ok then 200 else 503) (rounded rnd s)) in
        if path = ''/startup'' then status (hs_startup_complete (sn_state s))
        else if path = ''/ready'' then status (sn_ready s)
        else if path = ''/live'' then status (sn_live s)
        else NotFound))"

section \<open>Histories\<close>

text \<open>A history lists the operations with their times, oldest first.\<close>

type_synonym history = "(real \<times> health_op) list"

definition run_health :: "real \<Rightarrow> history \<Rightarrow> health_state" where
  "run_health t0 ops = foldl (\<lambda>h (t, x). health_step t x h) (mk_health t0) ops"

definition latest :: "(health_op \<Rightarrow> bool) \<Rightarrow> history \<Rightarrow> (real \<times> health_op) option" where
  "latest P ops = find (\<lambda>p. P (snd p)) (rev ops)"

definition happened :: "(health_op \<Rightarrow> bool) \<Rightarrow> history \<Rightarrow> bool" where
  "happened P ops \<longleftrightarrow> list_ex (\<lambda>p. P (snd p)) ops"

definition marks_progress :: "health_op \<Rightarrow> bool" where
  "marks_progress x \<longleftrightarrow>
     x \<in> {SubscriptionActive, Progress, CatchupComplete, StartupComplete, WarmupComplete}"

definition is_fatal :: "health_op \<Rightarrow> bool" where
  "is_fatal x \<longleftrightarrow> (case x of FatalError m c \<Rightarrow> True | _ \<Rightarrow> False)"

definition marks_heartbeat :: "health_op \<Rightarrow> bool" where
  "marks_heartbeat x \<longleftrightarrow> x \<notin> {SubscriptionInactive, CatchupStarted, ShutdownRequested} \<and> \<not> is_fatal x"

lemma run_health_Nil [simp]: "run_health t0 [] = mk_health t0"
  by (simp add: run_health_def)

lemma run_health_snoc [simp]: "run_health t0 (ops @ [(t, x)]) = health_step t x (run_health t0 ops)"
  by (simp add: run_health_def)

lemma latest_Nil [simp]: "latest P [] = None"
  by (simp add: latest_def)

lemma latest_snoc [simp]: "latest P (ops @ [(t, x)]) = (if P x then Some (t, x) else latest P ops)"
  by (simp add: latest_def)

lemma happened_Nil [simp]: "happened P [] = False"
  by (simp add: happened_def)

lemma happened_snoc [simp]: "happened P (ops @ [(t, x)]) \<longleftrightarrow> happened P ops \<or> P x"
  by (auto simp: happened_def)

lemma history_fields:
  "hs_startup_complete (run_health t0 ops) \<longleftrightarrow> happened (\<lambda>x. x = StartupComplete) ops"
  "hs_polling_started (run_health t0 ops) \<longleftrightarrow> happened (\<lambda>x. x = PollingStarted) ops"
  "hs_shutting_down (run_health t0 ops) \<longleftrightarrow> happened (\<lambda>x. x = ShutdownRequested) ops"
  "(hs_fatal_error (run_health t0 ops) = None) \<longleftrightarrow> \<not> happened is_fatal ops"
  "hs_subscription_active (run_health t0 ops) \<longleftrightarrow>
     map_option snd (latest (\<lambda>x. x \<in> {SubscriptionActive, SubscriptionInactive}) ops) = Some SubscriptionActive"
  "hs_catchup_active (run_health t0 ops) \<longleftrightarrow>
     map_option snd (latest (\<lambda>x. x \<in> {CatchupStarted, CatchupComplete}) ops) = Some CatchupStarted"
  "hs_progress (run_health t0 ops) = map_option fst (latest marks_progress ops)"
  "hs_heartbeat (run_health t0 ops) =
     (case latest marks_heartbeat ops of None \<Rightarrow> t0 | Some (t, x) \<Rightarrow> t)"
proof (induction ops rule: rev_induct)
  case Nil
  {
    case 1 show ?case by (simp add: mk_health_def)
  next
    case 2 show ?case by (simp add: mk_health_def)
  next
    case 3 show ?case by (simp add: mk_health_def)
  next
    case 4 show ?case by (simp add: mk_health_def)
  next
    case 5 show ?case by (simp add: mk_health_def)
  next
    case 6 show ?case by (simp add: mk_health_def)
  next
    case 7 show ?case by (simp add: mk_health_def)
  next
    case 8 show ?case by (simp add: mk_health_def)
  }
next
  case (snoc p ops)
  obtain t x where p: "p = (t, x)" by force
  {
    case 1 show ?case using snoc.IH(1) unfolding p by (cases x) simp_all
  next
    case 2 show ?case using snoc.IH(2) unfolding p by (cases x) simp_all
  next
    case 3 show ?case using snoc.IH(3) unfolding p by (cases x) simp_all
  next
    case 4 show ?case using snoc.IH(4) unfolding p by (cases x) (simp_all add: is_fatal_def)
  next
    case 5 show ?case using snoc.IH(5) unfolding p by (cases x) simp_all
  next
    case 6 show ?case using snoc.IH(6) unfolding p by (cases x) simp_all
  next
    case 7 show ?case using snoc.IH(7) unfolding p by (cases x) (simp_all add: marks_progress_def)
  next
    case 8 show ?case using snoc.IH(8) unfolding p
      by (cases x) (simp_all add: marks_heartbeat_def is_fatal_def)
  }
qed

section \<open>Properties\<close>

text \<open>C19: what the probes answer, in terms of what happened: the service is ready exactly when
  startup completed, polling started, the subscription was last reported active, no catch-up is
  running, neither a shutdown nor a fatal error was reported and the last progress is less than
  30 minutes old; it is live exactly when no fatal error was reported and the last heartbeat
  (at first the creation) is less than 30 seconds old.\<close>

theorem health_answers:
  "(sn_ready (snapshot now (run_health t0 ops)) \<longleftrightarrow>
     happened (\<lambda>x. x = StartupComplete) ops \<and> happened (\<lambda>x. x = PollingStarted) ops \<and>
     map_option snd (latest (\<lambda>x. x \<in> {SubscriptionActive, SubscriptionInactive}) ops) = Some SubscriptionActive \<and>
     map_option snd (latest (\<lambda>x. x \<in> {CatchupStarted, CatchupComplete}) ops) \<noteq> Some CatchupStarted \<and>
     \<not> happened (\<lambda>x. x = ShutdownRequested) ops \<and> \<not> happened is_fatal ops \<and>
     (case latest marks_progress ops of None \<Rightarrow> False | Some (t, x) \<Rightarrow> now - t < 1800)) \<and>
   (sn_live (snapshot now (run_health t0 ops)) \<longleftrightarrow>
     \<not> happened is_fatal ops \<and>
     now - (case latest marks_heartbeat ops of None \<Rightarrow> t0 | Some (t, x) \<Rightarrow> t) < 30)"
  by (simp add: snapshot_def ready_now_def live_now_def history_fields age_def split: option.split)

text \<open>The HTTP status of each probe path: 200 exactly when its condition holds, else 503;
  other paths are not found, and no probe changes what it reports on.\<close>

theorem probe_status:
  "(\<exists>b. health_get rnd ''/ready'' now h = Body (if ready_now now h then 200 else 503) b) \<and>
   (\<exists>b. health_get rnd ''/live'' now h = Body (if live_now now h then 200 else 503) b) \<and>
   (\<exists>b. health_get rnd ''/startup'' now h = Body (if hs_startup_complete h then 200 else 503) b) \<and>
   (health_get rnd path now h = NotFound \<longleftrightarrow>
     path \<notin> {''/metrics'', ''/build-info.json'', ''/startup'', ''/ready'', ''/live''}) \<and>
   (\<forall>code b. health_get rnd path now h = Body code b \<longrightarrow> sn_state b = h \<and> sn_ready b = ready_now now h)"
  by (auto simp: health_get_def snapshot_def rounded_def Let_def split: if_splits)

lemma probe_status_witness:
  "\<exists>b. health_get (\<lambda>x. x) ''/ready'' 5 (mk_health 0) = Body 503 b \<and> sn_state b = mk_health 0"
proof -
  have "\<not> ready_now 5 (mk_health 0)" by (simp add: ready_now_def mk_health_def)
  then show ?thesis
    using probe_status [of "\<lambda>x. x" 5 "mk_health 0" "''/ready''"] by auto
qed

end
