(* ===== verification/Models.thy ===== *)
theory Models
  imports Py_Prelude
begin

text \<open>
  The event model, \<open>sentinel/models.py\<close>: blocks, contract events with their log identity and
  their persisted form, notifications built from source events, and event handlers. A contract
  event keeps its transaction hash as the \<open>to_0x_hex()\<close> text of the \<open>HexBytes\<close> value and
  its decoded arguments as an insertion-ordered dictionary of untyped values.
\<close>

record block =
  bl_number :: int

record event =
  ev_name :: string
  ev_args :: "(pyval \<times> pyval) list"
  ev_block :: int
  ev_tx :: string
  ev_address :: string
  ev_log_index :: int
  ev_tx_index :: int

definition event_readable :: "codec \<Rightarrow> event \<Rightarrow> string" where
  "event_readable C e = ev_name e @ ''('' @
     py_join '', '' (map (\<lambda>(k, v). val_str C k @ ''='' @ val_str C v) (ev_args e)) @ '')''"

definition log_identity :: "event \<Rightarrow> string \<times> string \<times> int" where
  "log_identity e = (py_lower (ev_address e), ev_tx e, ev_log_index e)"

definition event_to_dict :: "event \<Rightarrow> pyval" where
  "event_to_dict e = VDict
     [(VStr ''event'', VStr (ev_name e)),
      (VStr ''args'', VDict (ev_args e)),
      (VStr ''block'', VInt (ev_block e)),
      (VStr ''tx'', VStr (ev_tx e)),
      (VStr ''address'', VStr (ev_address e)),
      (VStr ''log_index'', VInt (ev_log_index e)),
      (VStr ''transaction_index'', VInt (ev_tx_index e))]"

definition event_from_dict :: "codec \<Rightarrow> pyval \<Rightarrow> event res" where
  "event_from_dict C r =
     bindR (getitem r ''event'') (\<lambda>name.
     bindR (bindR (getitem r ''args'') val_dict) (\<lambda>args.
     bindR (bindR (getitem r ''block'') val_int) (\<lambda>blk.
     bindR (bindR (getitem r ''tx'') (cd_hexbytes C)) (\<lambda>tx.
     bindR (bindR (getitem r ''address'') (cd_checksum C)) (\<lambda>addr.
     bindR (bindR (getitem r ''log_index'') val_int) (\<lambda>li.
     bindR (bindR (getitem r ''transaction_index'') val_int) (\<lambda>ti.
       Inr \<lparr>ev_name = val_str C name, ev_args = args, ev_block = blk, ev_tx = tx,
            ev_address = addr, ev_log_index = li, ev_tx_index = ti\<rparr>)))))))"

text \<open>
  What the code relies on in \<open>HexBytes\<close> and \<open>to_checksum_address\<close>: parsing the text form of
  a hash gives it back, and a checksummed address is left alone.
\<close>

definition codec_event_ok :: "codec \<Rightarrow> event \<Rightarrow> bool" where
  "codec_event_ok C e \<longleftrightarrow> cd_hexbytes C (VStr (ev_tx e)) = Inr (ev_tx e)
     \<and> cd_checksum C (VStr (ev_address e)) = Inr (ev_address e)"

definition position :: "event \<Rightarrow> int \<times> int \<times> int" where
  "position e = (ev_block e, ev_tx_index e, ev_log_index e)"

section \<open>Notifications\<close>

datatype notification = EventNotification (source_events: "event list")

definition mk_notification :: "event list \<Rightarrow> notification res" where
  "mk_notification es = (if es = [] then Inl ValueError else Inr (EventNotification es))"

definition from_event :: "event \<Rightarrow> notification res" where
  "from_event e = mk_notification [e]"

definition primary_event :: "notification \<Rightarrow> event" where
  "primary_event n = last (source_events n)"

definition note_event :: "notification \<Rightarrow> string" where
  "note_event n = ev_name (primary_event n)"

definition note_args :: "notification \<Rightarrow> (pyval \<times> pyval) list" where
  "note_args n = ev_args (primary_event n)"

definition note_block :: "notification \<Rightarrow> int" where
  "note_block n = ev_block (primary_event n)"

definition note_tx :: "notification \<Rightarrow> string" where
  "note_tx n = ev_tx (primary_event n)"

definition note_address :: "notification \<Rightarrow> string" where
  "note_address n = ev_address (primary_event n)"

definition note_readable :: "codec \<Rightarrow> notification \<Rightarrow> string" where
  "note_readable C n = note_event n @ ''('' @
     py_join '', '' (map (\<lambda>(k, v). val_str C k @ ''='' @ val_str C v) (note_args n)) @ '')''"

section \<open>Event handlers\<close>

text \<open>The handler itself is a function of the adapter, a value of the parameter type \<open>'h\<close>.\<close>

record aggregation_group =
  ag_name :: string
  ag_window :: int

definition mk_group :: "string \<Rightarrow> int \<Rightarrow> aggregation_group res" where
  "mk_group name w =
     (if w < 1 then Inl ValueError else Inr \<lparr>ag_name = name, ag_window = w\<rparr>)"

record 'h event_handler =
  eh_event :: string
  eh_handler :: 'h
  eh_group :: "aggregation_group option"
  eh_digest :: "string option"

definition mk_handler ::
  "string \<Rightarrow> 'h \<Rightarrow> aggregation_group option \<Rightarrow> string option \<Rightarrow> 'h event_handler res" where
  "mk_handler ev h g d =
     (if g \<noteq> None \<and> d \<noteq> None then Inl ValueError
      else Inr \<lparr>eh_event = ev, eh_handler = h, eh_group = g, eh_digest = d\<rparr>)"

section \<open>Lemmas\<close>

lemma event_roundtrip:
  "codec_event_ok C e \<Longrightarrow> event_from_dict C (event_to_dict e) = Inr e"
  by (simp add: codec_event_ok_def event_from_dict_def event_to_dict_def)

lemma event_to_dict_inject [simp]: "event_to_dict a = event_to_dict b \<longleftrightarrow> a = b"
  by (auto simp: event_to_dict_def)

lemma mk_notification_Inr [simp]:
  "mk_notification es = Inr n \<longleftrightarrow> es \<noteq> [] \<and> n = EventNotification es"
  by (auto simp: mk_notification_def)

lemma primary_event_in: "mk_notification es = Inr n \<Longrightarrow> primary_event n \<in> set es"
  by (auto simp: primary_event_def)

lemma mk_handler_exclusive:
  "mk_handler ev h g d = Inr x \<Longrightarrow> eh_group x = None \<or> eh_digest x = None"
  by (auto simp: mk_handler_def split: if_splits)

section \<open>Sample values\<close>

text \<open>Concrete events on which the theorems with hypotheses are instantiated.\<close>

definition sample_event :: "string \<Rightarrow> string \<Rightarrow> int \<Rightarrow> int \<Rightarrow> int \<Rightarrow> event" where
  "sample_event name arg i blk li =
     \<lparr>ev_name = name, ev_args = [(VStr arg, VInt i)], ev_block = blk, ev_tx = ''0x01'',
      ev_address = ''0xA'', ev_log_index = li, ev_tx_index = 0\<rparr>"

definition sample_codec :: codec where
  "sample_codec = \<lparr>cd_repr = (\<lambda>_. ''?''),
     cd_hexbytes = (\<lambda>v. case v of VStr s \<Rightarrow> Inr s | _ \<Rightarrow> Inl TypeError),
     cd_checksum = (\<lambda>v. case v of VStr s \<Rightarrow> Inr s | _ \<Rightarrow> Inl TypeError)\<rparr>"

lemma sample_codec_ok [simp]: "codec_event_ok sample_codec e"
  by (simp add: codec_event_ok_def sample_codec_def)

section \<open>Properties\<close>

text \<open>\<open>Event.from_dict\<close> undoes \<open>Event.to_dict\<close> on every event whose hash and address are
  in the canonical form that \<open>HexBytes\<close> and \<open>to_checksum_address\<close> leave alone.\<close>

theorem event_dict_roundtrip:
  assumes "codec_event_ok C e"
  shows "event_from_dict C (event_to_dict e) = Inr e"
  using assms by (rule event_roundtrip)

lemma event_dict_roundtrip_witness:
  "event_from_dict sample_codec (event_to_dict (sample_event ''A'' ''nodeOperatorId'' 7 100 3)) =
     Inr (sample_event ''A'' ''nodeOperatorId'' 7 100 3)"
  by (rule event_dict_roundtrip) simp

end
