(* ===== verification/Log_Reader.thy ===== *)
theory Log_Reader
  imports Complex_Main Models
begin

text \<open>
  Event bindings (\<open>sentinel/web3_events.py\<close>), the throttled log reader
  (\<open>sentinel/web3_event_log_reader.py\<close>) and the block number parser of \<open>sentinel/utils.py\<close>.
  Parameters stand for code outside the repository: \<open>topic_of\<close> for the topic hash of an event
  ABI, \<open>decoder\<close> for web3's \<open>get_event_data\<close>, and \<open>node\<close> for the RPC endpoint, which for the
  number of requests issued so far and a filter says whether the stop event fires, the request
  raises, or logs come back. Time is a real number of seconds of the event loop's clock.
\<close>

section \<open>Block numbers\<close>

fun normalize_block_number :: "pyval \<Rightarrow> int res" where
  "normalize_block_number (VInt i) = Inr i"
| "normalize_block_number (VBool b) = Inr (if b then 1 else 0)"
| "normalize_block_number (VStr v) = (let s = py_strip v in
     if s = [] then Inl ValueError
     else (case py_int0 s of Inr i \<Rightarrow> Inr i | Inl _ \<Rightarrow> py_int s))"
| "normalize_block_number v = val_int v"

section \<open>Event bindings\<close>

record event_source =
  es_name :: string
  es_address :: string
  es_names :: "string set option"
  es_predicate :: "(event \<Rightarrow> bool) option"

record event_abi =
  ab_name :: string
  ab_inputs :: "(string \<times> bool) list"

type_synonym abi_by_topics = "(string \<times> event_abi) list"

definition event_decoder_shape :: "event_abi \<Rightarrow> string \<times> (string \<times> bool) list" where
  "event_decoder_shape a = (ab_name a, ab_inputs a)"

fun topics_to_follow_from ::
  "(event_abi \<Rightarrow> string) \<Rightarrow> string set \<Rightarrow> event_abi list \<Rightarrow> abi_by_topics \<Rightarrow> abi_by_topics res" where
  "topics_to_follow_from topic_of names [] t = Inr t"
| "topics_to_follow_from topic_of names (e # es) t =
     (if ab_name e \<notin> names then topics_to_follow_from topic_of names es t
      else (case map_of t (topic_of e) of
              Some old \<Rightarrow>
                if event_decoder_shape old \<noteq> event_decoder_shape e then Inl RuntimeError
                else topics_to_follow_from topic_of names es t
            | None \<Rightarrow>
                topics_to_follow_from topic_of names es (AList.update (topic_of e) e t)))"

definition topics_to_follow ::
  "(event_abi \<Rightarrow> string) \<Rightarrow> string set \<Rightarrow> event_abi list list \<Rightarrow> abi_by_topics res" where
  "topics_to_follow topic_of names abis = topics_to_follow_from topic_of names (concat abis) []"

record binding_set =
  bg_sources :: "event_source list"
  bg_abis :: abi_by_topics

definition build_event_bindings ::
  "(event_abi \<Rightarrow> string) \<Rightarrow> event_source list \<Rightarrow> string set \<Rightarrow> string set \<Rightarrow> event_abi list list \<Rightarrow>
   binding_set res" where
  "build_event_bindings topic_of sources notifiable side_effects abis =
     (let explicit = (\<Union>s \<in> set sources. case es_names s of None \<Rightarrow> {} | Some ns \<Rightarrow> ns) in
      bindR (topics_to_follow topic_of (notifiable \<union> side_effects \<union> explicit) abis) (\<lambda>t.
        Inr \<lparr>bg_sources = sources, bg_abis = t\<rparr>))"

text \<open>Topics of a filter: one topic, or a list of alternatives for the first position.\<close>

datatype topic_filter = OneTopic string | AnyOfTopics "string list"

definition topic_filter_for_events :: "abi_by_topics \<Rightarrow> string set \<Rightarrow> topic_filter res" where
  "topic_filter_for_events t names =
     (case map fst (filter (\<lambda>(_, a). ab_name a \<in> names) t) of
        [] \<Rightarrow> Inl RuntimeError
      | [x] \<Rightarrow> Inr (OneTopic x)
      | xs \<Rightarrow> Inr (AnyOfTopics xs))"

record log_filter =
  lf_address :: string
  lf_topics :: "topic_filter option"

definition log_filter_for_source :: "event_source \<Rightarrow> abi_by_topics \<Rightarrow> log_filter option res" where
  "log_filter_for_source src t =
     (case es_names src of
        None \<Rightarrow> Inr (Some \<lparr>lf_address = es_address src, lf_topics = None\<rparr>)
      | Some ns \<Rightarrow>
          if ns = {} then Inr None
          else bindR (topic_filter_for_events t ns) (\<lambda>f.
            Inr (Some \<lparr>lf_address = es_address src, lf_topics = Some f\<rparr>)))"

text \<open>A raw log, and web3's decoded form of it.\<close>

record raw_log =
  rl_topics :: "string list"
  rl_removed :: bool
  rl_block :: pyval
  rl_payload :: nat

record event_data =
  ed_event :: string
  ed_args :: "(pyval \<times> pyval) list"
  ed_block :: int
  ed_tx :: string
  ed_address :: string
  ed_log_index :: int
  ed_tx_index :: int

type_synonym decoder = "event_abi \<Rightarrow> raw_log \<Rightarrow> event_data res"

definition decode_event :: "decoder \<Rightarrow> event_abi \<Rightarrow> raw_log \<Rightarrow> event res" where
  "decode_event dec a l = bindR (dec a l) (\<lambda>d. Inr
     \<lparr>ev_name = ed_event d, ev_args = ed_args d, ev_block = ed_block d, ev_tx = ed_tx d,
      ev_address = ed_address d, ev_log_index = ed_log_index d, ev_tx_index = ed_tx_index d\<rparr>)"

definition first_topic :: "raw_log \<Rightarrow> string res" where
  "first_topic l = (case rl_topics l of [] \<Rightarrow> Inl IndexError | t # _ \<Rightarrow> Inr t)"

section \<open>Block ranges\<close>

text \<open>\<open>range(start, stop, step)\<close> for a positive step.\<close>

function py_range :: "int \<Rightarrow> int \<Rightarrow> int \<Rightarrow> int list" where
  "py_range start stop step =
     (if step \<le> 0 \<or> stop \<le> start then [] else start # py_range (start + step) stop step)"
  by pat_completeness auto
termination by (relation "measure (\<lambda>(start, stop, _). nat (stop - start))") auto

declare py_range.simps [simp del]

definition batches :: "int \<Rightarrow> int \<Rightarrow> int \<Rightarrow> (int \<times> int) list" where
  "batches start end_block sz =
     map (\<lambda>b. (b, min (b + sz - 1) end_block)) (py_range start (end_block + 1) sz)"

definition block_ranges :: "int option \<Rightarrow> int \<Rightarrow> int \<Rightarrow> (int \<times> int) list" where
  "block_ranges batch start end_block =
     (let sz = (case batch of
            Some n \<Rightarrow> if n = 0 then max (end_block - start + 1) 1 else n
          | None \<Rightarrow> max (end_block - start + 1) 1) in
      batches start end_block sz)"

section \<open>The log reader\<close>

record reader =
  rd_sources :: "event_source list"
  rd_abis :: abi_by_topics
  rd_interval :: "real option"
  rd_batch :: "int option"

definition mk_reader ::
  "event_source list \<Rightarrow> abi_by_topics \<Rightarrow> real option \<Rightarrow> int option \<Rightarrow> reader res" where
  "mk_reader sources abis interval batch =
     (case batch of
        Some n \<Rightarrow> if n < 1 then Inl ValueError
          else Inr \<lparr>rd_sources = sources, rd_abis = abis, rd_interval = interval, rd_batch = batch\<rparr>
      | None \<Rightarrow>
          Inr \<lparr>rd_sources = sources, rd_abis = abis, rd_interval = interval, rd_batch = batch\<rparr>)"

datatype 'a reply = Stopped | Raised py_error | Reply 'a

text \<open>
  The state of a reader: the clock, the time of the last request and the requests issued, each
  with its time. \<open>sleep_stopped n\<close> says whether the stop event fires during the sleep before
  request \<open>n\<close>, \<open>stopped n\<close> whether it is set at that point.
\<close>

record reader_state =
  rs_now :: real
  rs_last :: "real option"
  rs_issued :: "(real \<times> log_filter \<times> int \<times> int) list"

record node =
  nd_logs :: "nat \<Rightarrow> log_filter \<times> int \<times> int \<Rightarrow> raw_log list reply"
  nd_stopped :: "nat \<Rightarrow> bool"
  nd_sleep_stopped :: "nat \<Rightarrow> bool"
  nd_latency :: "nat \<Rightarrow> real"

definition throttle :: "reader \<Rightarrow> node \<Rightarrow> reader_state \<Rightarrow> reader_state \<times> bool" where
  "throttle R N s =
     (case rd_interval R of
        None \<Rightarrow> (s, False)
      | Some interval \<Rightarrow>
          (case rs_last s of
             None \<Rightarrow> (s\<lparr>rs_last := Some (rs_now s)\<rparr>, False)
           | Some prev \<Rightarrow>
               (let sleep_for = interval - (rs_now s - prev) in
                if sleep_for > 0 then
                  (if nd_sleep_stopped N (length (rs_issued s)) then (s, True)
                   else (let now = rs_now s + sleep_for in
                     (s\<lparr>rs_now := now, rs_last := Some now\<rparr>, False)))
                else (s\<lparr>rs_last := Some (rs_now s)\<rparr>, False))))"

definition get_logs ::
  "reader \<Rightarrow> node \<Rightarrow> log_filter \<times> int \<times> int \<Rightarrow> reader_state \<Rightarrow>
   reader_state \<times> raw_log list option res" where
  "get_logs R N q s =
     (if nd_stopped N (length (rs_issued s)) then (s, Inr None)
      else (let (s1, stop) = throttle R N s in
        if stop then (s1, Inr None)
        else (let n = length (rs_issued s1);
                  s2 = s1\<lparr>rs_issued := rs_issued s1 @ [(rs_now s1, q)],
                          rs_now := rs_now s1 + nd_latency N n\<rparr> in
          (case nd_logs N n q of
             Stopped \<Rightarrow> (s2, Inr None)
           | Raised e \<Rightarrow> (s2, Inl e)
           | Reply ls \<Rightarrow> (s2, Inr (Some ls))))))"

definition log_event ::
  "decoder \<Rightarrow> abi_by_topics \<Rightarrow> event_source \<Rightarrow> raw_log \<Rightarrow> event option res" where
  "log_event dec t src l = bindR (first_topic l) (\<lambda>topic.
     (case map_of t topic of
        None \<Rightarrow> Inr None
      | Some a \<Rightarrow>
          if (case es_names src of None \<Rightarrow> False | Some ns \<Rightarrow> ab_name a \<notin> ns) then Inr None
          else bindR (decode_event dec a l) (\<lambda>e.
            if (case es_predicate src of None \<Rightarrow> False | Some p \<Rightarrow> \<not> p e) then Inr None
            else Inr (Some e))))"

definition somes :: "'a option list \<Rightarrow> 'a list" where
  "somes xs = List.map_filter (\<lambda>x. x) xs"

fun fetch_requests ::
  "reader \<Rightarrow> node \<Rightarrow> decoder \<Rightarrow> event_source \<Rightarrow> log_filter \<Rightarrow> (int \<times> int) list \<Rightarrow> event list \<Rightarrow>
   reader_state \<Rightarrow> reader_state \<times> event list option res" where
  "fetch_requests R N dec src f [] acc s = (s, Inr (Some acc))"
| "fetch_requests R N dec src f (r # rs) acc s =
     bindS (get_logs R N (f, r)) (\<lambda>ol s1.
       case ol of
         None \<Rightarrow> (s1, Inr None)
       | Some ls \<Rightarrow>
           (case mapR (log_event dec (rd_abis R) src) ls of
              Inl e \<Rightarrow> (s1, Inl e)
            | Inr es \<Rightarrow> fetch_requests R N dec src f rs (acc @ somes es) s1)) s"

fun fetch_sources ::
  "reader \<Rightarrow> node \<Rightarrow> decoder \<Rightarrow> event_source list \<Rightarrow> int \<Rightarrow> int \<Rightarrow> event list \<Rightarrow>
   reader_state \<Rightarrow> reader_state \<times> event list option res" where
  "fetch_sources R N dec [] a b acc s = (s, Inr (Some acc))"
| "fetch_sources R N dec (src # srcs) a b acc s =
     (case log_filter_for_source src (rd_abis R) of
        Inl e \<Rightarrow> (s, Inl e)
      | Inr None \<Rightarrow> fetch_sources R N dec srcs a b acc s
      | Inr (Some f) \<Rightarrow>
          bindS (fetch_requests R N dec src f (block_ranges (rd_batch R) a b) acc) (\<lambda>oes s1.
            case oes of
              None \<Rightarrow> (s1, Inr None)
            | Some acc' \<Rightarrow> fetch_sources R N dec srcs a b acc' s1) s)"

definition fetch_events ::
  "reader \<Rightarrow> node \<Rightarrow> decoder \<Rightarrow> int \<Rightarrow> int \<Rightarrow> reader_state \<Rightarrow>
   reader_state \<times> event list option res" where
  "fetch_events R N dec a b s =
     (if nd_stopped N (length (rs_issued s)) then (s, Inr None)
      else bindS (fetch_sources R N dec (rd_sources R) a b []) (\<lambda>oes s1.
        (s1, Inr (map_option (sort_key position) oes))) s)"

section \<open>Block ranges partition the blocks\<close>

lemma batches_step:
  "1 \<le> n \<Longrightarrow> batches a b n =
     (if b < a then [] else (a, min (a + n - 1) b) # batches (a + n) b n)"
  by (subst batches_def, subst py_range.simps) (simp add: batches_def)

lemma batches_induct:
  assumes "1 \<le> n" "\<And>a. (a \<le> b \<Longrightarrow> P (a + n)) \<Longrightarrow> P (a :: int)"
  shows "P a"
proof (induction "nat (b + 1 - a)" arbitrary: a rule: less_induct)
  case less
  show ?case by (rule assms(2)) (rule less, use assms(1) in simp)
qed

lemma batches_concat:
  assumes "1 \<le> n"
  shows "concat (map (\<lambda>(x, y). [x..y]) (batches a b n)) = [a..b]"
proof (induction a rule: batches_induct [of n b, OF assms])
  case (1 a)
  show ?case
  proof (cases "a \<le> b")
    case True
    with 1 have ih: "concat (map (\<lambda>(x, y). [x..y]) (batches (a + n) b n)) = [a + n..b]" by simp
    show ?thesis
    proof (cases "a + n - 1 \<le> b")
      case c: True
      have "[a..b] = [a..a + n - 1] @ [a + n..b]"
        using upto_split2 [of a "a + n - 1" b] c assms by simp
      with ih True c assms show ?thesis by (simp add: batches_step min_def)
    next
      case False
      with ih True assms show ?thesis by (simp add: batches_step min_def)
    qed
  qed (use assms in \<open>simp add: batches_step\<close>)
qed

lemma batches_bounds:
  assumes "1 \<le> n"
  shows "(x, y) \<in> set (batches a b n) \<Longrightarrow> a \<le> x \<and> x \<le> y \<and> y \<le> b \<and> y - x < n"
proof (induction a rule: batches_induct [of n b, OF assms])
  case (1 a)
  have eq: "batches a b n = (if b < a then [] else (a, min (a + n - 1) b) # batches (a + n) b n)"
    using assms by (rule batches_step)
  show ?case
  proof (cases "b < a")
    case True
    with 1 eq show ?thesis by simp
  next
    case False
    with 1(2) eq consider "x = a" "y = min (a + n - 1) b" | "(x, y) \<in> set (batches (a + n) b n)"
      by auto
    then show ?thesis
    proof cases
      case 1
      with False assms show ?thesis by auto
    next
      case 2
      with 1(1) False assms show ?thesis by auto
    qed
  qed
qed

definition range_size :: "int option \<Rightarrow> int \<Rightarrow> int \<Rightarrow> int" where
  "range_size batch a b =
     (case batch of
        Some n \<Rightarrow> if n = 0 then max (b - a + 1) 1 else n
      | None \<Rightarrow> max (b - a + 1) 1)"

lemma block_ranges_batches: "block_ranges batch a b = batches a b (range_size batch a b)"
  by (simp add: block_ranges_def range_size_def Let_def)

definition batch_ok :: "int option \<Rightarrow> bool" where
  "batch_ok batch \<longleftrightarrow> (case batch of None \<Rightarrow> True | Some n \<Rightarrow> 1 \<le> n)"

lemma range_size_pos: "batch_ok batch \<Longrightarrow> 1 \<le> range_size batch a b"
  by (auto simp: batch_ok_def range_size_def split: option.splits)

section \<open>Fetching from a fixed chain\<close>

text \<open>
  A node that serves a fixed chain: \<open>logs f\<close> are the logs matching a filter and \<open>blk\<close> their
  block numbers, and every request is answered by the logs in its range.
\<close>

definition serves :: "node \<Rightarrow> (log_filter \<Rightarrow> raw_log list) \<Rightarrow> (raw_log \<Rightarrow> int) \<Rightarrow> bool" where
  "serves N logs blk \<longleftrightarrow> (\<forall>n. \<not> nd_stopped N n \<and> \<not> nd_sleep_stopped N n \<and>
     (\<forall>f a b. nd_logs N n (f, a, b) = Reply (filter (\<lambda>l. a \<le> blk l \<and> blk l \<le> b) (logs f))))"

definition in_range :: "(raw_log \<Rightarrow> int) \<Rightarrow> int \<times> int \<Rightarrow> raw_log list \<Rightarrow> raw_log list" where
  "in_range blk r ls = filter (\<lambda>l. fst r \<le> blk l \<and> blk l \<le> snd r) ls"

definition decoded :: "decoder \<Rightarrow> abi_by_topics \<Rightarrow> event_source \<Rightarrow> raw_log list \<Rightarrow> event list" where
  "decoded dec t src ls =
     List.map_filter (\<lambda>l. case log_event dec t src l of Inr oe \<Rightarrow> oe | Inl _ \<Rightarrow> None) ls"

definition decodes :: "decoder \<Rightarrow> abi_by_topics \<Rightarrow> event_source \<Rightarrow> (raw_log \<Rightarrow> int) \<Rightarrow> raw_log list \<Rightarrow> bool" where
  "decodes dec t src blk ls \<longleftrightarrow> (\<forall>l \<in> set ls. \<exists>oe. log_event dec t src l = Inr oe \<and>
     (case oe of None \<Rightarrow> True | Some e \<Rightarrow> ev_block e = blk l))"

lemma mapR_decoded:
  "decodes dec t src blk ls \<Longrightarrow>
   \<exists>os. mapR (log_event dec t src) ls = Inr os \<and> somes os = decoded dec t src ls"
proof (induction ls)
  case (Cons l ls)
  then obtain os oe where "mapR (log_event dec t src) ls = Inr os" "somes os = decoded dec t src ls"
    "log_event dec t src l = Inr oe"
    by (auto simp: decodes_def)
  then show ?case
    by (auto simp: somes_def decoded_def List.map_filter_simps split: option.splits)
qed (simp add: somes_def decoded_def List.map_filter_simps)

lemma get_logs_serves:
  assumes "serves N logs blk"
  shows "\<exists>s'. get_logs R N (f, r) s = (s', Inr (Some (in_range blk r (logs f))))"
proof -
  obtain s1 st where t: "throttle R N s = (s1, st)" by force
  with assms have "\<not> st"
    by (auto simp: throttle_def serves_def Let_def split: option.splits if_splits)
  with t assms show ?thesis
    by (cases r) (simp add: get_logs_def serves_def Let_def in_range_def)
qed

lemma fetch_requests_serves:
  assumes "serves N logs blk" "decodes dec (rd_abis R) src blk (logs f)"
  shows "\<exists>s'. fetch_requests R N dec src f rs acc s =
    (s', Inr (Some (acc @ concat (map (\<lambda>r. decoded dec (rd_abis R) src (in_range blk r (logs f))) rs))))"
proof (induction rs arbitrary: acc s)
  case (Cons r rs)
  from get_logs_serves [OF assms(1)] obtain s1 where
    g: "get_logs R N (f, r) s = (s1, Inr (Some (in_range blk r (logs f))))" by blast
  have "decodes dec (rd_abis R) src blk (in_range blk r (logs f))"
    using assms(2) by (simp add: decodes_def in_range_def)
  from mapR_decoded [OF this] obtain os where
    "mapR (log_event dec (rd_abis R) src) (in_range blk r (logs f)) = Inr os"
    "somes os = decoded dec (rd_abis R) src (in_range blk r (logs f))" by blast
  with g Cons.IH [of "acc @ somes os" s1] show ?case by (simp add: bindS_def)
qed simp

definition source_filter :: "reader \<Rightarrow> event_source \<Rightarrow> log_filter option" where
  "source_filter R src = (case log_filter_for_source src (rd_abis R) of Inr of' \<Rightarrow> of' | Inl _ \<Rightarrow> None)"

definition source_logs :: "reader \<Rightarrow> (log_filter \<Rightarrow> raw_log list) \<Rightarrow> event_source \<Rightarrow> raw_log list" where
  "source_logs R logs src = (case source_filter R src of None \<Rightarrow> [] | Some f \<Rightarrow> logs f)"

definition readable_chain ::
  "reader \<Rightarrow> decoder \<Rightarrow> (log_filter \<Rightarrow> raw_log list) \<Rightarrow> (raw_log \<Rightarrow> int) \<Rightarrow> bool" where
  "readable_chain R dec logs blk \<longleftrightarrow> (\<forall>src \<in> set (rd_sources R).
     (\<exists>of'. log_filter_for_source src (rd_abis R) = Inr of') \<and>
     decodes dec (rd_abis R) src blk (source_logs R logs src))"

lemma fetch_sources_serves:
  assumes "serves N logs blk" "set srcs \<subseteq> set (rd_sources R)" "readable_chain R dec logs blk"
  shows "\<exists>s'. fetch_sources R N dec srcs a b acc s = (s', Inr (Some (acc @ concat (map (\<lambda>src.
    concat (map (\<lambda>r. decoded dec (rd_abis R) src (in_range blk r (source_logs R logs src)))
      (block_ranges (rd_batch R) a b))) srcs))))"
  using assms(2)
proof (induction srcs arbitrary: acc s)
  case (Cons src srcs)
  then have "src \<in> set (rd_sources R)" by simp
  with assms(3) obtain of' where f: "log_filter_for_source src (rd_abis R) = Inr of'"
    and d: "decodes dec (rd_abis R) src blk (source_logs R logs src)"
    unfolding readable_chain_def by blast
  show ?case
  proof (cases of')
    case None
    with f have "source_logs R logs src = []" by (simp add: source_logs_def source_filter_def)
    moreover have "decoded dec (rd_abis R) src [] = []"
      by (simp add: decoded_def List.map_filter_simps)
    ultimately have "concat (map (\<lambda>r. decoded dec (rd_abis R) src (in_range blk r (source_logs R logs src)))
      (block_ranges (rd_batch R) a b)) = []" by (simp add: in_range_def)
    note e = this
    from Cons.IH [of acc s] Cons.prems None f show ?thesis by (simp add: e)
  next
    case (Some g)
    with f have l: "source_logs R logs src = logs g" by (simp add: source_logs_def source_filter_def)
    from fetch_requests_serves [OF assms(1) d [unfolded l]] obtain s1 where
      "fetch_requests R N dec src g (block_ranges (rd_batch R) a b) acc s = (s1, Inr (Some (acc @
         concat (map (\<lambda>r. decoded dec (rd_abis R) src (in_range blk r (logs g)))
           (block_ranges (rd_batch R) a b)))))" by blast
    with f Some l Cons.IH [of "acc @ concat (map (\<lambda>r. decoded dec (rd_abis R) src
        (in_range blk r (logs g))) (block_ranges (rd_batch R) a b))" s1] Cons.prems
    show ?thesis by (simp add: bindS_def)
  qed
qed simp

lemma decoded_simps [simp]:
  "decoded dec t src [] = []"
  "decoded dec t src (l # ls) =
     (case log_event dec t src l of Inr (Some e) \<Rightarrow> [e] | _ \<Rightarrow> []) @ decoded dec t src ls"
  by (auto simp: decoded_def List.map_filter_simps split: sum.splits option.splits)

lemma decoded_class:
  assumes "decodes dec t src blk ls"
  shows "filter (\<lambda>e. position e = p) (decoded dec t src (in_range blk r ls)) =
    (if fst r \<le> fst p \<and> fst p \<le> snd r
     then filter (\<lambda>e. position e = p) (decoded dec t src (filter (\<lambda>l. blk l = fst p) ls)) else [])"
  using assms
proof (induction ls)
  case (Cons l ls)
  then have IH: "filter (\<lambda>e. position e = p) (decoded dec t src (in_range blk r ls)) =
    (if fst r \<le> fst p \<and> fst p \<le> snd r
     then filter (\<lambda>e. position e = p) (decoded dec t src (filter (\<lambda>l. blk l = fst p) ls)) else [])"
    by (simp add: decodes_def)
  from Cons.prems obtain oe where oe: "log_event dec t src l = Inr oe"
    "case oe of None \<Rightarrow> True | Some e \<Rightarrow> ev_block e = blk l"
    by (auto simp: decodes_def)
  show ?case
  proof (cases oe)
    case None
    with oe(1) IH show ?thesis by (simp add: in_range_def)
  next
    case (Some e)
    with oe(2) have "ev_block e = blk l" by simp
    then have "position e = p \<Longrightarrow> blk l = fst p" by (auto simp: position_def)
    with oe(1) Some IH show ?thesis by (auto simp: in_range_def)
  qed
qed (simp add: in_range_def)

lemma batches_pick:
  assumes "1 \<le> n"
  shows "concat (map (\<lambda>r. if fst r \<le> k \<and> k \<le> snd r then xs else []) (batches a b n)) =
    (if a \<le> k \<and> k \<le> b then xs else [])"
proof (induction a rule: batches_induct [of n b, OF assms])
  case (1 a)
  have eq: "batches a b n = (if b < a then [] else (a, min (a + n - 1) b) # batches (a + n) b n)"
    using assms by (rule batches_step)
  show ?case
  proof (cases "b < a")
    case False
    with 1 have ih: "concat (map (\<lambda>r. if fst r \<le> k \<and> k \<le> snd r then xs else []) (batches (a + n) b n)) =
      (if a + n \<le> k \<and> k \<le> b then xs else [])" by simp
    have "concat (map (\<lambda>r. if fst r \<le> k \<and> k \<le> snd r then xs else []) (batches a b n)) =
      (if a \<le> k \<and> k \<le> min (a + n - 1) b then xs else []) @ (if a + n \<le> k \<and> k \<le> b then xs else [])"
      using False by (subst eq) (simp add: ih)
    then show ?thesis using assms by auto
  qed (auto simp: eq)
qed

definition chain_events ::
  "reader \<Rightarrow> decoder \<Rightarrow> (log_filter \<Rightarrow> raw_log list) \<Rightarrow> (raw_log \<Rightarrow> int) \<Rightarrow> int \<Rightarrow> int \<Rightarrow> event list" where
  "chain_events R dec logs blk a b = concat (map (\<lambda>src.
     decoded dec (rd_abis R) src (in_range blk (a, b) (source_logs R logs src))) (rd_sources R))"

lemma batched_class:
  assumes "batch_ok (rd_batch R)" "decodes dec (rd_abis R) src blk ls"
  shows "filter (\<lambda>e. position e = p) (concat (map (\<lambda>r. decoded dec (rd_abis R) src (in_range blk r ls))
      (block_ranges (rd_batch R) a b))) =
    filter (\<lambda>e. position e = p) (decoded dec (rd_abis R) src (in_range blk (a, b) ls))"
proof -
  let ?X = "filter (\<lambda>e. position e = p) (decoded dec (rd_abis R) src (filter (\<lambda>l. blk l = fst p) ls))"
  have "filter (\<lambda>e. position e = p) (concat (map (\<lambda>r. decoded dec (rd_abis R) src (in_range blk r ls))
      (block_ranges (rd_batch R) a b))) =
    concat (map (\<lambda>r. if fst r \<le> fst p \<and> fst p \<le> snd r then ?X else []) (block_ranges (rd_batch R) a b))"
    by (simp add: filter_concat comp_def decoded_class [OF assms(2)])
  also have "\<dots> = (if a \<le> fst p \<and> fst p \<le> b then ?X else [])"
    unfolding block_ranges_batches by (rule batches_pick [OF range_size_pos [OF assms(1)]])
  finally show ?thesis by (simp add: decoded_class [OF assms(2)])
qed

section \<open>Properties\<close>

text \<open>The block ranges of a replay or a log request cover exactly the blocks asked for, each
  once and in order, and no range is empty or longer than the configured batch size.\<close>

theorem block_ranges_partition:
  assumes "1 \<le> n"
  shows "concat (map (\<lambda>(x, y). [x..y]) (block_ranges (Some n) a b)) = [a..b] \<and>
     (\<forall>(x, y) \<in> set (block_ranges (Some n) a b). a \<le> x \<and> x \<le> y \<and> y \<le> b \<and> y - x + 1 \<le> n) \<and>
     block_ranges None a b = (if a \<le> b then [(a, b)] else [])"
proof -
  have s: "block_ranges (Some n) a b = batches a b n"
    using assms by (simp add: block_ranges_def)
  have none: "block_ranges None a b = (if a \<le> b then [(a, b)] else [])"
    unfolding block_ranges_batches range_size_def
    by (subst batches_step, simp, subst batches_step) auto
  from batches_concat [OF assms] batches_bounds [OF assms, of _ _ a b] none show ?thesis
    unfolding s by force
qed

lemma block_ranges_partition_witness:
  "concat (map (\<lambda>(x, y). [x..y]) (block_ranges (Some 4) 10 20)) = [10..20]"
  by (rule block_ranges_partition [THEN conjunct1]) simp

text \<open>C7: on a node that serves a fixed chain, fetching returns exactly the accepted, decoded
  logs of every event source in the block range, in chain order: nothing depends on the batch
  size, the throttling interval or the reader's earlier requests.\<close>

theorem fetch_events_exact:
  assumes "serves N logs blk" "readable_chain R dec logs blk" "batch_ok (rd_batch R)"
  shows "\<exists>s'. fetch_events R N dec a b s =
     (s', Inr (Some (sort_key position (chain_events R dec logs blk a b))))"
proof -
  let ?B = "concat (map (\<lambda>src. concat (map (\<lambda>r. decoded dec (rd_abis R) src
      (in_range blk r (source_logs R logs src))) (block_ranges (rd_batch R) a b))) (rd_sources R))"
  from fetch_sources_serves [OF assms(1) subset_refl assms(2), of a b "[]" s] obtain s' where
    f: "fetch_sources R N dec (rd_sources R) a b [] s = (s', Inr (Some ?B))" by auto
  have "sort_key position ?B = sort_key position (chain_events R dec logs blk a b)"
  proof (rule sort_key_classes)
    fix p
    have "decodes dec (rd_abis R) src blk (source_logs R logs src)" if "src \<in> set (rd_sources R)" for src
      using assms(2) that by (simp add: readable_chain_def)
    then show "filter (\<lambda>e. position e = p) ?B =
        filter (\<lambda>e. position e = p) (chain_events R dec logs blk a b)"
      using batched_class [OF assms(3)]
      by (simp add: chain_events_def filter_concat comp_def cong: map_cong)
  qed
  with f assms(1) show ?thesis by (simp add: fetch_events_def serves_def bindS_def)
qed

definition sample_log :: "nat \<Rightarrow> raw_log" where
  "sample_log n = \<lparr>rl_topics = [''t''], rl_removed = False, rl_block = VInt (int n), rl_payload = n\<rparr>"

definition sample_decoder :: decoder where
  "sample_decoder a l = Inr \<lparr>ed_event = ab_name a, ed_args = [], ed_block = int (rl_payload l),
     ed_tx = ''0x01'', ed_address = ''0xA'', ed_log_index = 0, ed_tx_index = 0\<rparr>"

definition sample_reader :: reader where
  "sample_reader = \<lparr>rd_sources = [\<lparr>es_name = ''module'', es_address = ''0xA'', es_names = None,
       es_predicate = None\<rparr>],
     rd_abis = [(''t'', \<lparr>ab_name = ''A'', ab_inputs = []\<rparr>)], rd_interval = None, rd_batch = Some 2\<rparr>"

definition sample_node :: node where
  "sample_node = \<lparr>nd_logs = (\<lambda>_ (f, a, b). Reply (filter (\<lambda>l. a \<le> int (rl_payload l) \<and> int (rl_payload l) \<le> b)
       [sample_log 5, sample_log 3])),
     nd_stopped = (\<lambda>_. False), nd_sleep_stopped = (\<lambda>_. False), nd_latency = (\<lambda>_. 1)\<rparr>"

lemma fetch_events_exact_witness:
  "\<exists>s'. fetch_events sample_reader sample_node sample_decoder 1 9
       \<lparr>rs_now = 0, rs_last = None, rs_issued = []\<rparr> =
     (s', Inr (Some (sort_key position (chain_events sample_reader sample_decoder
        (\<lambda>_. [sample_log 5, sample_log 3]) (\<lambda>l. int (rl_payload l)) 1 9))))"
proof (rule fetch_events_exact)
  show "serves sample_node (\<lambda>_. [sample_log 5, sample_log 3]) (\<lambda>l. int (rl_payload l))"
    by (simp add: serves_def sample_node_def)
  show "readable_chain sample_reader sample_decoder (\<lambda>_. [sample_log 5, sample_log 3])
      (\<lambda>l. int (rl_payload l))"
    by (simp add: readable_chain_def sample_reader_def log_filter_for_source_def decodes_def
        source_logs_def source_filter_def sample_log_def log_event_def first_topic_def
        decode_event_def sample_decoder_def)
  show "batch_ok (rd_batch sample_reader)" by (simp add: sample_reader_def batch_ok_def)
qed

end
