(* ===== verification/Aggregation.thy ===== *)
theory Aggregation
  imports Models
begin

text \<open>
  Aggregation windows and aggregators, \<open>sentinel/modules/aggregation.py\<close>. The four aggregator
  classes are the constructors of one datatype, each with the fields of the class (its group
  and its event names); \<open>aggregation_key\<close>, \<open>window_for\<close> and \<open>aggregate\<close> dispatch on it. The
  lemmas say which notifications each class builds: a partition of the relevant events that is
  sorted by chain position, or a documented error.
\<close>

named_theorems agg_simps \<open>unfolding the aggregators\<close>

section \<open>Groups, keys and windows\<close>

definition OPERATOR_GROUP_CREATED :: string where
  "OPERATOR_GROUP_CREATED = ''OperatorGroupCreated''"
definition OPERATOR_GROUP_UPDATED :: string where
  "OPERATOR_GROUP_UPDATED = ''OperatorGroupUpdated''"
definition OPERATOR_GROUP_CLEARED :: string where
  "OPERATOR_GROUP_CLEARED = ''OperatorGroupCleared''"
definition NODE_OPERATOR_EFFECTIVE_WEIGHT_CHANGED :: string where
  "NODE_OPERATOR_EFFECTIVE_WEIGHT_CHANGED = ''NodeOperatorEffectiveWeightChanged''"
definition BOND_CURVE_WEIGHT_SET :: string where
  "BOND_CURVE_WEIGHT_SET = ''BondCurveWeightSet''"
definition DISTRIBUTION_REPORT_EVENTS :: "string set" where
  "DISTRIBUTION_REPORT_EVENTS = {''ModuleFeeDistributed'', ''DistributionLogUpdated''}"

definition DISTRIBUTION_REPORTS :: aggregation_group where
  "DISTRIBUTION_REPORTS = \<lparr>ag_name = ''distribution_reports'', ag_window = 1\<rparr>"
definition TOTAL_SIGNING_KEY_COUNTS :: aggregation_group where
  "TOTAL_SIGNING_KEY_COUNTS = \<lparr>ag_name = ''total_signing_key_counts'', ag_window = 1\<rparr>"
definition VALIDATOR_EXIT_REQUESTS :: aggregation_group where
  "VALIDATOR_EXIT_REQUESTS = \<lparr>ag_name = ''validator_exit_requests'', ag_window = 1\<rparr>"
definition VALIDATOR_WITHDRAWALS :: aggregation_group where
  "VALIDATOR_WITHDRAWALS = \<lparr>ag_name = ''validator_withdrawals'', ag_window = 5\<rparr>"
definition OPERATOR_GROUP_CHANGES :: aggregation_group where
  "OPERATOR_GROUP_CHANGES = \<lparr>ag_name = ''operator_group_changes'', ag_window = 1\<rparr>"
definition NODE_OPERATOR_EFFECTIVE_WEIGHT_CHANGES :: aggregation_group where
  "NODE_OPERATOR_EFFECTIVE_WEIGHT_CHANGES =
     \<lparr>ag_name = ''node_operator_effective_weight_changes'', ag_window = 1\<rparr>"
definition BOND_CURVE_WEIGHT_CHANGES :: aggregation_group where
  "BOND_CURVE_WEIGHT_CHANGES = \<lparr>ag_name = ''bond_curve_weight_changes'', ag_window = 1\<rparr>"

record aggregation_key =
  ak_kind :: string
  ak_value :: string

definition global_key :: aggregation_key where
  "global_key = \<lparr>ak_kind = ''global'', ak_value = ''all''\<rparr>"

record window =
  aw_group :: string
  aw_key :: aggregation_key
  aw_start :: int
  aw_end :: int
  aw_names :: "string set"
  aw_events :: "event list"

definition window_contains :: "window \<Rightarrow> int \<Rightarrow> bool" where
  "window_contains w b \<longleftrightarrow> aw_start w \<le> b \<and> b \<le> aw_end w"

definition with_event :: "window \<Rightarrow> event \<Rightarrow> window" where
  "with_event w e =
     (if list_ex (\<lambda>s. log_identity s = log_identity e) (aw_events w) then w
      else w\<lparr>aw_events := aw_events w @ [e]\<rparr>)"

section \<open>Aggregators\<close>

datatype aggregator =
    NodeOperatorEventAggregator (agg_group: aggregation_group) (agg_names: "string set")
  | GlobalEventAggregator (agg_group: aggregation_group) (agg_names: "string set")
  | DistributionReportAggregator (agg_group: aggregation_group) (agg_names: "string set")
  | OperatorGroupChangeAggregator (agg_group: aggregation_group) (agg_names: "string set")

definition distribution_report_aggregator :: aggregator where
  "distribution_report_aggregator =
     DistributionReportAggregator DISTRIBUTION_REPORTS DISTRIBUTION_REPORT_EVENTS"

definition operator_group_change_aggregator :: aggregator where
  "operator_group_change_aggregator = OperatorGroupChangeAggregator OPERATOR_GROUP_CHANGES
     {OPERATOR_GROUP_CREATED, OPERATOR_GROUP_UPDATED, OPERATOR_GROUP_CLEARED}"

definition ev_arg :: "event \<Rightarrow> string \<Rightarrow> pyval res" where
  "ev_arg e k = getitem (VDict (ev_args e)) k"

fun aggregation_key_for :: "codec \<Rightarrow> aggregator \<Rightarrow> event \<Rightarrow> aggregation_key res" where
  "aggregation_key_for C (NodeOperatorEventAggregator g ns) e =
     bindR (ev_arg e ''nodeOperatorId'') (\<lambda>v.
       Inr \<lparr>ak_kind = ''node_operator'', ak_value = val_str C v\<rparr>)"
| "aggregation_key_for C (GlobalEventAggregator g ns) e = Inr global_key"
| "aggregation_key_for C (DistributionReportAggregator g ns) e = Inr global_key"
| "aggregation_key_for C (OperatorGroupChangeAggregator g ns) e = Inr global_key"

fun window_end :: "aggregator \<Rightarrow> event \<Rightarrow> int" where
  "window_end (DistributionReportAggregator g ns) e = ev_block e"
| "window_end a e = ev_block e + ag_window (agg_group a) - 1"

definition window_for :: "codec \<Rightarrow> aggregator \<Rightarrow> event \<Rightarrow> window res" where
  "window_for C a e = bindR (aggregation_key_for C a e) (\<lambda>k.
     Inr \<lparr>aw_group = ag_name (agg_group a), aw_key = k, aw_start = ev_block e,
          aw_end = window_end a e, aw_names = agg_names a, aw_events = []\<rparr>)"

definition relevant_events :: "string set \<Rightarrow> event list \<Rightarrow> event list" where
  "relevant_events ns es = sort_key position (filter (\<lambda>e. ev_name e \<in> ns) es)"

definition operator_key :: "event \<Rightarrow> (string \<times> int) res" where
  "operator_key e =
     bindR (bindR (ev_arg e ''nodeOperatorId'') val_int) (\<lambda>i. Inr (ev_name e, i))"

definition aggregate_node_operator :: "string set \<Rightarrow> event list \<Rightarrow> notification list res" where
  "aggregate_node_operator ns es =
     bindR (mapR (\<lambda>e. bindR (operator_key e) (\<lambda>k. Inr (k, e))) (relevant_events ns es)) (\<lambda>ps.
       mapR (\<lambda>(_, qs). mk_notification (map snd qs)) (sort_key fst (group_by fst ps)))"

definition aggregate_global :: "string set \<Rightarrow> event list \<Rightarrow> notification list res" where
  "aggregate_global ns es = (let src = relevant_events ns es in
     if src = [] then Inr [] else bindR (mk_notification src) (\<lambda>n. Inr [n]))"

text \<open>
  Both warnings of the distribution aggregator read \<open>source_events[0]\<close>, which raises
  \<open>IndexError\<close> when no event is relevant.
\<close>

definition aggregate_distribution :: "string set \<Rightarrow> event list \<Rightarrow> notification list res" where
  "aggregate_distribution ns es = (let src = relevant_events ns es in
     if ns - ev_name ` set src \<noteq> {} then (if src = [] then Inl IndexError else Inr [])
     else if card (ev_tx ` set src) \<noteq> 1 then (if src = [] then Inl IndexError else Inr [])
     else bindR (mk_notification src) (\<lambda>n. Inr [n]))"

definition last_group_info_event :: "event list \<Rightarrow> event option" where
  "last_group_info_event es =
     find (\<lambda>e. ev_name e \<in> {OPERATOR_GROUP_CREATED, OPERATOR_GROUP_UPDATED}) (rev es)"

definition contains_event :: "event list \<Rightarrow> string \<Rightarrow> bool" where
  "contains_event es name = list_ex (\<lambda>e. ev_name e = name) es"

definition notification_for_group :: "event list \<Rightarrow> notification option res" where
  "notification_for_group es =
     (if es = [] then Inl IndexError
      else if ev_name (last es) = OPERATOR_GROUP_CLEARED
      then bindR (mk_notification es) (\<lambda>n. Inr (Some n))
      else (case last_group_info_event es of
              None \<Rightarrow> Inr None
            | Some final \<Rightarrow>
                (let name =
                   (if contains_event es OPERATOR_GROUP_CLEARED then OPERATOR_GROUP_UPDATED
                    else if contains_event es OPERATOR_GROUP_CREATED then OPERATOR_GROUP_CREATED
                    else OPERATOR_GROUP_UPDATED) in
                 if ev_name final = name then bindR (mk_notification es) (\<lambda>n. Inr (Some n))
                 else bindR (mk_notification (es @ [final\<lparr>ev_name := name\<rparr>]))
                        (\<lambda>n. Inr (Some n)))))"

definition group_id :: "event \<Rightarrow> int res" where
  "group_id e = bindR (ev_arg e ''groupId'') val_int"

definition events_by_group_id :: "event list \<Rightarrow> (int \<times> event list) list res" where
  "events_by_group_id es =
     bindR (mapR (\<lambda>e. bindR (group_id e) (\<lambda>i. Inr (i, e))) es) (\<lambda>ps.
       Inr (map (\<lambda>(i, qs). (i, map snd qs)) (group_by fst ps)))"

definition note_position :: "notification \<Rightarrow> int \<times> int \<times> int" where
  "note_position n = (note_block n, ev_tx_index (primary_event n), ev_log_index (primary_event n))"

definition aggregate_operator_group :: "string set \<Rightarrow> event list \<Rightarrow> notification list res" where
  "aggregate_operator_group ns es =
     bindR (events_by_group_id (relevant_events ns es)) (\<lambda>d.
     bindR (mapR notification_for_group (map snd d)) (\<lambda>os.
       Inr (sort_key note_position (List.map_filter (\<lambda>x. x) os))))"

fun aggregate :: "aggregator \<Rightarrow> event list \<Rightarrow> notification list res" where
  "aggregate (NodeOperatorEventAggregator g ns) es = aggregate_node_operator ns es"
| "aggregate (GlobalEventAggregator g ns) es = aggregate_global ns es"
| "aggregate (DistributionReportAggregator g ns) es = aggregate_distribution ns es"
| "aggregate (OperatorGroupChangeAggregator g ns) es = aggregate_operator_group ns es"

definition node_operator_aggregators_from_event_handlers ::
  "(string \<times> 'h event_handler) list \<Rightarrow> aggregator list" where
  "node_operator_aggregators_from_event_handlers hs =
     map (\<lambda>(g, xs). NodeOperatorEventAggregator g (eh_event ` set xs))
       (map (\<lambda>(g, xs). (the g, xs))
         (group_by eh_group (filter (\<lambda>h. eh_group h \<noteq> None) (map snd hs))))"

section \<open>Windows\<close>

lemma with_event_fields [simp]:
  "aw_group (with_event w e) = aw_group w" "aw_key (with_event w e) = aw_key w"
  "aw_start (with_event w e) = aw_start w" "aw_end (with_event w e) = aw_end w"
  "aw_names (with_event w e) = aw_names w"
  by (simp_all add: with_event_def)

lemma with_event_identities:
  "log_identity ` set (aw_events (with_event w e)) =
     insert (log_identity e) (log_identity ` set (aw_events w))"
proof (cases "\<exists>s \<in> set (aw_events w). log_identity s = log_identity e")
  case True
  then obtain s where "s \<in> set (aw_events w)" "log_identity s = log_identity e" by blast
  then have "log_identity e \<in> log_identity ` set (aw_events w)" by (metis image_eqI)
  with True show ?thesis by (auto simp: with_event_def list_ex_iff)
next
  case False
  then show ?thesis by (auto simp: with_event_def list_ex_iff)
qed

lemma with_event_twice [simp]: "with_event (with_event w e) e = with_event w e"
  by (auto simp: with_event_def list_ex_iff)

lemma with_event_distinct:
  "distinct (map log_identity (aw_events w)) \<Longrightarrow>
   distinct (map log_identity (aw_events (with_event w e)))"
  by (auto simp: with_event_def list_ex_iff)

lemma with_event_prefix: "prefix (aw_events w) (aw_events (with_event w e))"
  by (simp add: with_event_def)

lemma window_for_fields:
  "window_for C a e = Inr w \<Longrightarrow>
   aw_group w = ag_name (agg_group a) \<and> aggregation_key_for C a e = Inr (aw_key w) \<and>
   aw_start w = ev_block e \<and> aw_end w = window_end a e \<and> aw_names w = agg_names a \<and>
   aw_events w = []"
  by (auto simp: window_for_def)

lemma window_for_contains:
  "window_for C a e = Inr w \<Longrightarrow> 1 \<le> ag_window (agg_group a) \<Longrightarrow> window_contains w (ev_block e)"
  by (cases a) (auto simp: window_for_def window_contains_def)

section \<open>Relevant events in chain order\<close>

lemma relevant_events_set [simp]:
  "set (relevant_events ns es) = {e \<in> set es. ev_name e \<in> ns}"
  by (simp add: relevant_events_def)

lemma relevant_events_mset [simp]:
  "mset (relevant_events ns es) = mset (filter (\<lambda>e. ev_name e \<in> ns) es)"
  by (simp add: relevant_events_def)

lemma relevant_events_sorted [simp]: "sorted (map position (relevant_events ns es))"
  by (simp add: relevant_events_def)

lemma sorted_positions_filter:
  "sorted (map position es) \<Longrightarrow> sorted (map position (filter P es))"
  by (rule sorted_filter)

lemmas relevant_simps =
  relevant_events_set relevant_events_mset relevant_events_sorted sorted_positions_filter

section \<open>Node operator aggregation\<close>

lemma group_by_keyed_values:
  assumes ps: "map snd ps = xs" "\<forall>p \<in> set ps. f (snd p) = Inr (fst p)"
    and e: "(k, qs) \<in> set (group_by fst ps)"
  shows "map snd qs = filter (\<lambda>x. f x = Inr k) xs" "qs \<noteq> []"
proof -
  from e have qs: "qs = filter (\<lambda>p. fst p = k) ps" by (simp add: group_by_entry)
  from ps(2) have "filter (\<lambda>p. fst p = k) ps = filter (\<lambda>p. f (snd p) = Inr k) ps"
    by (intro filter_cong) auto
  with qs ps(1) show "map snd qs = filter (\<lambda>x. f x = Inr k) xs"
    by (auto simp: filter_map comp_def)
  from e show "qs \<noteq> []" by (rule group_by_nonempty)
qed

lemma aggregate_node_operator_shape:
  assumes "aggregate_node_operator ns es = Inr nts"
  obtains d where
    "nts = map (\<lambda>k. EventNotification
       (filter (\<lambda>e. operator_key e = Inr k) (relevant_events ns es))) d"
    "sorted_wrt (<) d"
    "set d = {k. \<exists>e \<in> set (relevant_events ns es). operator_key e = Inr k}"
    "mset (concat (map source_events nts)) = mset (relevant_events ns es)"
proof -
  let ?R = "relevant_events ns es"
  from assms obtain ps where
    m: "mapR (\<lambda>e. bindR (operator_key e) (\<lambda>k. Inr (k, e))) ?R = Inr ps"
    and nts: "mapR (\<lambda>(_, qs). mk_notification (map snd qs)) (sort_key fst (group_by fst ps)) = Inr nts"
    by (auto simp: aggregate_node_operator_def)
  let ?G = "sort_key fst (group_by fst ps)"
  from mapR_keyed [OF m] have ps: "map snd ps = ?R" "\<forall>p \<in> set ps. operator_key (snd p) = Inr (fst p)"
    by auto
  have "mapR (\<lambda>(_, qs). mk_notification (map snd qs)) ?G
      = Inr (map (\<lambda>(k, qs). EventNotification (map snd qs)) ?G)"
    by (rule mapR_Inr) (auto dest: group_by_nonempty)
  with nts have eq: "nts = map (\<lambda>(k, qs). EventNotification (map snd qs)) ?G" by simp
  have 1: "nts = map (\<lambda>k. EventNotification (filter (\<lambda>e. operator_key e = Inr k) ?R)) (map fst ?G)"
    using group_by_keyed_values [OF ps] by (auto simp: eq)
  have 2: "sorted_wrt (<) (map fst ?G)"
    by (rule strict_sorted_sort_key) (rule distinct_keys_group_by)
  have "set (map fst ?G) = fst ` set ps" by (simp add: keys_group_by)
  also have "\<dots> = {k. \<exists>e \<in> set ?R. operator_key e = Inr k}"
    using ps(2) unfolding ps(1) [symmetric] by (force simp: image_iff)
  finally have 3: "set (map fst ?G) = {k. \<exists>e \<in> set ?R. operator_key e = Inr k}" .
  have "mset (concat (map source_events nts)) = mset (map snd (concat (map snd ?G)))"
    by (simp add: eq map_concat comp_def case_prod_unfold)
  also have "\<dots> = image_mset snd (mset (concat (map snd (group_by fst ps))))"
    using mset_concat_map_cong [of ?G "group_by fst ps" snd] by simp
  also have "\<dots> = mset ?R" using ps(1) by (simp add: mset_group_by flip: mset_map)
  finally show thesis using that [OF 1 2 3] by simp
qed

lemma aggregate_node_operator_total:
  "(\<exists>nts. aggregate_node_operator ns es = Inr nts) \<longleftrightarrow>
   (\<forall>e \<in> set es. ev_name e \<in> ns \<longrightarrow> (\<exists>k. operator_key e = Inr k))"
proof
  assume "\<exists>nts. aggregate_node_operator ns es = Inr nts"
  then obtain ps where "mapR (\<lambda>e. bindR (operator_key e) (\<lambda>k. Inr (k, e))) (relevant_events ns es) = Inr ps"
    by (auto simp: aggregate_node_operator_def)
  then show "\<forall>e \<in> set es. ev_name e \<in> ns \<longrightarrow> (\<exists>k. operator_key e = Inr k)"
    using mapR_total [of "\<lambda>e. bindR (operator_key e) (\<lambda>k. Inr (k, e))" "relevant_events ns es"]
    by auto
next
  assume "\<forall>e \<in> set es. ev_name e \<in> ns \<longrightarrow> (\<exists>k. operator_key e = Inr k)"
  then obtain ps where m: "mapR (\<lambda>e. bindR (operator_key e) (\<lambda>k. Inr (k, e))) (relevant_events ns es) = Inr ps"
    using mapR_total [of "\<lambda>e. bindR (operator_key e) (\<lambda>k. Inr (k, e))" "relevant_events ns es"]
    by fastforce
  have "mapR (\<lambda>(_, qs). mk_notification (map snd qs)) (sort_key fst (group_by fst ps))
      = Inr (map (\<lambda>(k, qs). EventNotification (map snd qs)) (sort_key fst (group_by fst ps)))"
    by (rule mapR_Inr) (auto dest: group_by_nonempty)
  with m show "\<exists>nts. aggregate_node_operator ns es = Inr nts"
    by (simp add: aggregate_node_operator_def)
qed

section \<open>Distribution reports\<close>

lemma card_eq_1_image:
  "xs \<noteq> [] \<Longrightarrow> card (f ` set xs) = 1 \<longleftrightarrow> (\<exists>t. \<forall>x \<in> set xs. f x = t)"
  by (cases xs) (auto simp: card_1_singleton_iff)

lemma aggregate_distribution_cases:
  "aggregate_distribution ns es = (let src = relevant_events ns es in
     if src = [] then Inl IndexError
     else if ns \<subseteq> ev_name ` set src \<and> (\<exists>t. \<forall>e \<in> set src. ev_tx e = t)
     then Inr [EventNotification src] else Inr [])"
proof (cases "relevant_events ns es = []")
  case True
  then show ?thesis by (simp add: aggregate_distribution_def)
next
  case False
  then show ?thesis
    using card_eq_1_image [OF False, of ev_tx]
    by (auto simp: aggregate_distribution_def mk_notification_def Let_def)
qed

section \<open>Operator group changes\<close>

text \<open>
  What one group's changes amount to: a group that ends cleared is reported as it is; otherwise
  its last change is reported, as an update when the block also cleared the group, as a creation
  when it also created it.
\<close>

definition group_outcome :: "event list \<Rightarrow> notification" where
  "group_outcome es =
     (let final = last es;
          name = (if OPERATOR_GROUP_CLEARED \<in> ev_name ` set es then OPERATOR_GROUP_UPDATED
                  else if OPERATOR_GROUP_CREATED \<in> ev_name ` set es then OPERATOR_GROUP_CREATED
                  else OPERATOR_GROUP_UPDATED) in
      if ev_name final = OPERATOR_GROUP_CLEARED \<or> ev_name final = name then EventNotification es
      else EventNotification (es @ [final\<lparr>ev_name := name\<rparr>]))"

definition group_event_names :: "string set" where
  "group_event_names = {OPERATOR_GROUP_CREATED, OPERATOR_GROUP_UPDATED, OPERATOR_GROUP_CLEARED}"

lemma contains_event_iff: "contains_event es name \<longleftrightarrow> name \<in> ev_name ` set es"
  by (auto simp: contains_event_def list_ex_iff)

lemma last_group_info_event_last:
  "es \<noteq> [] \<Longrightarrow> ev_name (last es) \<in> {OPERATOR_GROUP_CREATED, OPERATOR_GROUP_UPDATED} \<Longrightarrow>
   last_group_info_event es = Some (last es)"
  by (cases es rule: rev_cases) (auto simp: last_group_info_event_def)

lemma notification_for_group_outcome:
  assumes "es \<noteq> []" "ev_name ` set es \<subseteq> group_event_names"
  shows "notification_for_group es = Inr (Some (group_outcome es))"
proof (cases "ev_name (last es) = OPERATOR_GROUP_CLEARED")
  case True
  with assms(1) show ?thesis
    by (simp add: notification_for_group_def mk_notification_def group_outcome_def Let_def)
next
  case False
  from assms(1) have "last es \<in> set es" by simp
  with False assms(2) have "ev_name (last es) \<in> {OPERATOR_GROUP_CREATED, OPERATOR_GROUP_UPDATED}"
    by (auto simp: group_event_names_def)
  from last_group_info_event_last [OF assms(1) this] False assms(1) show ?thesis
    by (simp add: notification_for_group_def mk_notification_def group_outcome_def Let_def
        contains_event_iff)
qed

lemma map_filter_map_Some: "List.map_filter (\<lambda>x. x) (map (\<lambda>x. Some (f x)) xs) = map f xs"
  by (induction xs) (auto simp: List.map_filter_simps)

lemma mset_values_by_key:
  assumes "distinct (map fst d)" "\<And>k v. (k, v) \<in> set d \<Longrightarrow> v = g k"
  shows "mset (map snd d) = image_mset g (mset_set (fst ` set d))"
proof -
  from assms(2) have "map snd d = map g (map fst d)" by auto
  then have "mset (map snd d) = image_mset g (mset (map fst d))" by (metis mset_map)
  also have "mset (map fst d) = mset_set (fst ` set d)"
    using mset_set_set [OF assms(1)] by simp
  finally show ?thesis .
qed

lemma aggregate_operator_group_shape:
  assumes "aggregate operator_group_change_aggregator es = Inr nts"
  defines "R \<equiv> relevant_events group_event_names es"
  shows "sorted (map note_position nts)"
    and "mset nts = image_mset (\<lambda>i. group_outcome (filter (\<lambda>e. group_id e = Inr i) R))
           (mset_set {i. \<exists>e \<in> set R. group_id e = Inr i})"
proof -
  from assms(1) obtain d os where d: "events_by_group_id R = Inr d"
    and os: "mapR notification_for_group (map snd d) = Inr os"
    and nts: "nts = sort_key note_position (List.map_filter (\<lambda>x. x) os)"
    by (auto simp: operator_group_change_aggregator_def aggregate_operator_group_def R_def
        group_event_names_def)
  from d obtain ps where m: "mapR (\<lambda>e. bindR (group_id e) (\<lambda>i. Inr (i, e))) R = Inr ps"
    and dd: "d = map (\<lambda>(i, qs). (i, map snd qs)) (group_by fst ps)"
    by (auto simp: events_by_group_id_def)
  from mapR_keyed [OF m] have ps: "map snd ps = R" "\<forall>p \<in> set ps. group_id (snd p) = Inr (fst p)"
    by auto
  have vals: "v = filter (\<lambda>e. group_id e = Inr i) R \<and> v \<noteq> []" if "(i, v) \<in> set d" for i v
    using that group_by_keyed_values [OF ps] by (force simp: dd)
  have keys: "fst ` set d = {i. \<exists>e \<in> set R. group_id e = Inr i}"
  proof -
    have "fst ` set d = fst ` set (group_by fst ps)" by (force simp: dd image_iff)
    also have "\<dots> = fst ` set ps" by (simp add: keys_group_by)
    also have "\<dots> = {i. \<exists>e \<in> set R. group_id e = Inr i}"
      using ps(2) unfolding ps(1) [symmetric] by (force simp: image_iff)
    finally show ?thesis .
  qed
  have dist: "distinct (map fst d)"
    using distinct_keys_group_by [of fst ps] by (simp add: dd comp_def case_prod_unfold)
  have names: "ev_name ` set v \<subseteq> group_event_names" if "(i, v) \<in> set d" for i v
    using vals [OF that] by (auto simp: R_def)
  have "mapR notification_for_group (map snd d) = Inr (map (\<lambda>v. Some (group_outcome v)) (map snd d))"
    by (rule mapR_Inr) (use vals names notification_for_group_outcome in auto)
  with os have "os = map (\<lambda>v. Some (group_outcome v)) (map snd d)" by (simp only: sum.inject)
  then have "List.map_filter (\<lambda>x. x) os = map group_outcome (map snd d)"
    by (simp only: map_filter_map_Some)
  with nts have nts': "nts = sort_key note_position (map group_outcome (map snd d))" by simp
  then show "sorted (map note_position nts)" by simp
  from nts' have "mset nts = image_mset group_outcome (mset (map snd d))"
    by (simp only: mset_sort mset_map)
  also have "mset (map snd d) = image_mset (\<lambda>i. filter (\<lambda>e. group_id e = Inr i) R) (mset_set (fst ` set d))"
    by (rule mset_values_by_key [OF dist]) (use vals in blast)
  finally show "mset nts = image_mset (\<lambda>i. group_outcome (filter (\<lambda>e. group_id e = Inr i) R))
           (mset_set {i. \<exists>e \<in> set R. group_id e = Inr i})"
    by (simp add: keys multiset.map_comp comp_def)
qed

section \<open>Every aggregator\<close>

lemma notification_for_group_nonempty:
  "notification_for_group g = Inr (Some n) \<Longrightarrow> source_events n \<noteq> []"
  by (auto simp: notification_for_group_def Let_def split: if_splits option.splits)

lemma aggregate_operator_group_nonempty:
  assumes "aggregate_operator_group ns es = Inr nts" "n \<in> set nts"
  shows "source_events n \<noteq> []"
proof -
  from assms obtain d os where os: "mapR notification_for_group d = Inr os"
    and "nts = sort_key note_position (List.map_filter (\<lambda>x. x) os)"
    by (auto simp: aggregate_operator_group_def)
  with assms(2) have "Some n \<in> set os" by (auto simp: List.map_filter_def)
  with mapR_mem [OF os] obtain g where "notification_for_group g = Inr (Some n)" by blast
  then show ?thesis by (rule notification_for_group_nonempty)
qed

lemma aggregate_node_operator_nonempty:
  assumes "aggregate_node_operator ns es = Inr nts" "n \<in> set nts"
  shows "source_events n \<noteq> []"
  using assms(1)
proof (rule aggregate_node_operator_shape)
  fix d
  assume "nts = map (\<lambda>k. EventNotification
       (filter (\<lambda>e. operator_key e = Inr k) (relevant_events ns es))) d"
    and "set d = {k. \<exists>e \<in> set (relevant_events ns es). operator_key e = Inr k}"
  with assms(2) show ?thesis by (auto simp: filter_empty_conv)
qed

lemma aggregate_nonempty:
  assumes "aggregate a es = Inr nts" "n \<in> set nts"
  shows "source_events n \<noteq> []"
  using assms aggregate_operator_group_nonempty aggregate_node_operator_nonempty
  by (cases a) (auto simp: aggregate_global_def aggregate_distribution_cases Let_def split: if_splits)

section \<open>Properties\<close>

text \<open>C8: node operator aggregation succeeds exactly when every relevant event carries an integer
  operator id, and then its notifications partition the relevant events: no event is lost,
  added or repeated, each notification holds the events of one operator and one event name in
  chain order, and the notifications come in strictly increasing (name, operator) order.\<close>

theorem node_operator_aggregation:
  "((\<exists>nts. aggregate (NodeOperatorEventAggregator g ns) es = Inr nts) \<longleftrightarrow>
    (\<forall>e \<in> set es. ev_name e \<in> ns \<longrightarrow> (\<exists>k. operator_key e = Inr k))) \<and>
   (\<forall>nts. aggregate (NodeOperatorEventAggregator g ns) es = Inr nts \<longrightarrow>
      mset (concat (map source_events nts)) = mset (filter (\<lambda>e. ev_name e \<in> ns) es) \<and>
      (\<exists>ks. sorted_wrt (<) ks \<and> list_all2 (\<lambda>n k. source_events n \<noteq> [] \<and>
         (\<forall>e \<in> set (source_events n). operator_key e = Inr k) \<and>
         sorted (map position (source_events n))) nts ks))"
proof (intro conjI allI impI)
  show "(\<exists>nts. aggregate (NodeOperatorEventAggregator g ns) es = Inr nts) \<longleftrightarrow>
    (\<forall>e \<in> set es. ev_name e \<in> ns \<longrightarrow> (\<exists>k. operator_key e = Inr k))"
    by (simp add: aggregate_node_operator_total)
next
  fix nts
  assume "aggregate (NodeOperatorEventAggregator g ns) es = Inr nts"
  then have a: "aggregate_node_operator ns es = Inr nts" by simp
  from a show "mset (concat (map source_events nts)) = mset (filter (\<lambda>e. ev_name e \<in> ns) es)"
    by (rule aggregate_node_operator_shape) simp
  from a show "\<exists>ks. sorted_wrt (<) ks \<and> list_all2 (\<lambda>n k. source_events n \<noteq> [] \<and>
         (\<forall>e \<in> set (source_events n). operator_key e = Inr k) \<and>
         sorted (map position (source_events n))) nts ks"
  proof (rule aggregate_node_operator_shape, intro exI conjI)
    fix d
    assume nts: "nts = map (\<lambda>k. EventNotification
         (filter (\<lambda>e. operator_key e = Inr k) (relevant_events ns es))) d"
      and "sorted_wrt (<) d"
      and "set d = {k. \<exists>e \<in> set (relevant_events ns es). operator_key e = Inr k}"
    then show "sorted_wrt (<) d" "list_all2 (\<lambda>n k. source_events n \<noteq> [] \<and>
         (\<forall>e \<in> set (source_events n). operator_key e = Inr k) \<and>
         sorted (map position (source_events n))) nts d"
      by (auto simp: list_all2_conv_all_nth nts filter_empty_conv sorted_positions_filter
          dest: nth_mem)
  qed
qed

lemma node_operator_aggregation_witness:
  "let ns = {''A'', ''B''}; x = sample_event ''A'' ''nodeOperatorId'' 7 1 0;
       y = sample_event ''B'' ''nodeOperatorId'' 7 1 1 in
   \<exists>nts. aggregate (NodeOperatorEventAggregator TOTAL_SIGNING_KEY_COUNTS ns) [y, x] = Inr nts \<and>
     mset (concat (map source_events nts)) = {#x, y#}"
proof -
  let ?x = "sample_event ''A'' ''nodeOperatorId'' 7 1 0"
  let ?y = "sample_event ''B'' ''nodeOperatorId'' 7 1 1"
  have "\<forall>e \<in> set [?y, ?x]. ev_name e \<in> {''A'', ''B''} \<longrightarrow> (\<exists>k. operator_key e = Inr k)"
    by (simp add: sample_event_def operator_key_def ev_arg_def)
  with node_operator_aggregation [of TOTAL_SIGNING_KEY_COUNTS "{''A'', ''B''}" "[?y, ?x]"]
  show ?thesis by (auto simp: Let_def sample_event_def)
qed

text \<open>The distribution aggregator reports a window exactly when every expected event name
  arrived and all of its relevant events come from one transaction, and then reports all of
  them in chain order; an incomplete window is dropped without a notification, and a window
  with no relevant event raises \<open>IndexError\<close> (the warning reads the first event).\<close>

theorem distribution_aggregation:
  "aggregate (DistributionReportAggregator g ns) es =
     (let src = sort_key position (filter (\<lambda>e. ev_name e \<in> ns) es) in
      if \<forall>e \<in> set es. ev_name e \<notin> ns then Inl IndexError
      else if (\<forall>n \<in> ns. \<exists>e \<in> set es. ev_name e = n) \<and>
              (\<exists>t. \<forall>e \<in> set es. ev_name e \<in> ns \<longrightarrow> ev_tx e = t)
      then Inr [EventNotification src] else Inr [])"
proof -
  have "relevant_events ns es = [] \<longleftrightarrow> (\<forall>e \<in> set es. ev_name e \<notin> ns)"
    using relevant_events_set [of ns es] by (auto simp flip: set_empty)
  moreover have "ns \<subseteq> ev_name ` set (relevant_events ns es) \<longleftrightarrow>
      (\<forall>n \<in> ns. \<exists>e \<in> set es. ev_name e = n)"
    by (auto simp: image_iff)
  moreover have "(\<exists>t. \<forall>e \<in> set (relevant_events ns es). ev_tx e = t) \<longleftrightarrow>
      (\<exists>t. \<forall>e \<in> set es. ev_name e \<in> ns \<longrightarrow> ev_tx e = t)"
    by auto
  ultimately show ?thesis
    by (simp only: aggregate.simps aggregate_distribution_cases Let_def relevant_events_def)
qed

lemma distribution_aggregation_witness:
  "aggregate distribution_report_aggregator
     [sample_event ''DistributionLogUpdated'' ''treeRoot'' 0 5 1,
      sample_event ''ModuleFeeDistributed'' ''shares'' 10 5 0] =
   Inr [EventNotification [sample_event ''ModuleFeeDistributed'' ''shares'' 10 5 0,
      sample_event ''DistributionLogUpdated'' ''treeRoot'' 0 5 1]]"
  unfolding distribution_report_aggregator_def
  by (subst distribution_aggregation)
    (simp add: Let_def DISTRIBUTION_REPORT_EVENTS_def sample_event_def position_def)

text \<open>C9: the operator group aggregator emits, ordered by chain position, exactly one
  notification per group with a change: the group's changes in chain order, closed by its final
  state. A cleared group stays cleared, a group cleared on the way is an update, a group
  created on the way is a creation, and anything else an update.\<close>

theorem operator_group_aggregation:
  assumes "aggregate operator_group_change_aggregator es = Inr nts"
  shows "sorted (map note_position nts) \<and>
    mset nts = image_mset
      (\<lambda>i. group_outcome (filter (\<lambda>e. group_id e = Inr i) (relevant_events group_event_names es)))
      (mset_set {i. \<exists>e \<in> set es. ev_name e \<in> group_event_names \<and> group_id e = Inr i})"
proof -
  have "{i. \<exists>e \<in> set (relevant_events group_event_names es). group_id e = Inr i} =
      {i. \<exists>e \<in> set es. ev_name e \<in> group_event_names \<and> group_id e = Inr i}"
    by auto
  with aggregate_operator_group_shape [OF assms] show ?thesis by simp
qed

lemma operator_group_aggregation_witness:
  "let x = sample_event ''OperatorGroupCreated'' ''groupId'' 4 9 0;
       y = sample_event ''OperatorGroupUpdated'' ''groupId'' 4 9 1 in
   \<exists>nts. aggregate operator_group_change_aggregator [y, x] = Inr nts \<and>
     sorted (map note_position nts)"
proof -
  let ?x = "sample_event ''OperatorGroupCreated'' ''groupId'' 4 9 0"
  let ?y = "sample_event ''OperatorGroupUpdated'' ''groupId'' 4 9 1"
  have "aggregate operator_group_change_aggregator [?y, ?x] =
      Inr [EventNotification [?x, ?y, ?y\<lparr>ev_name := ''OperatorGroupCreated''\<rparr>]]"
    by code_simp
  with operator_group_aggregation [of "[?y, ?x]"] show ?thesis
    unfolding Let_def by blast
qed

end
