(* ===== verification/Chat_Store.thy ===== *)
theory Chat_Store
  imports Models
begin

text \<open>
  Runtime identity, the processed block and the chat indexes of \<open>sentinel/app/storage.py\<close>, with
  the module types of \<open>sentinel/module_types.py\<close>. The persisted dictionary is
  \<open>(string \<times> pyval) list\<close>; each helper's constructor normalises one key of it into the typed
  value it then works on: an \<open>int set\<close> for a chat id set, an insertion-ordered dictionary of
  such sets for the operator index, and a \<open>string set\<close> for the subscriptions of a chat.
\<close>

type_synonym raw_data = "(string \<times> pyval) list"

section \<open>Module types\<close>

datatype module_type = COMMUNITY | CURATED

fun module_type_value :: "module_type \<Rightarrow> string" where
  "module_type_value COMMUNITY = ''community-onchain-v1''"
| "module_type_value CURATED = ''curated-onchain-v2''"

definition ModuleType :: "string \<Rightarrow> module_type res" where
  "ModuleType s = (if s = ''community-onchain-v1'' then Inr COMMUNITY
     else if s = ''curated-onchain-v2'' then Inr CURATED else Inl ValueError)"

text \<open>The raw bytes are characters; \<open>utf8_ok\<close> is the well-formedness of a UTF-8 byte string.\<close>

definition cont :: "nat \<Rightarrow> bool" where
  "cont b \<longleftrightarrow> 128 \<le> b \<and> b \<le> 191"

fun utf8_ok :: "nat list \<Rightarrow> bool" where
  "utf8_ok [] = True"
| "utf8_ok (b # bs) =
     (if b < 128 then utf8_ok bs
      else (case bs of
        [] \<Rightarrow> False
      | c1 # bs1 \<Rightarrow>
          if 194 \<le> b \<and> b \<le> 223 then cont c1 \<and> utf8_ok bs1
          else (case bs1 of
            [] \<Rightarrow> False
          | c2 # bs2 \<Rightarrow>
              if 224 \<le> b \<and> b \<le> 239 then
                cont c1 \<and> (b = 224 \<longrightarrow> 160 \<le> c1) \<and> (b = 237 \<longrightarrow> c1 \<le> 159) \<and> cont c2 \<and> utf8_ok bs2
              else (case bs2 of
                [] \<Rightarrow> False
              | c3 # bs3 \<Rightarrow>
                  240 \<le> b \<and> b \<le> 244 \<and> cont c1 \<and> (b = 240 \<longrightarrow> 144 \<le> c1) \<and>
                  (b = 244 \<longrightarrow> c1 \<le> 143) \<and> cont c2 \<and> cont c3 \<and> utf8_ok bs3))))"

definition rstrip_nul :: "string \<Rightarrow> string" where
  "rstrip_nul s = rev (dropWhile (\<lambda>c. c = CHR 0x00) (rev s))"

definition decode_module_type :: "string \<Rightarrow> module_type res" where
  "decode_module_type raw = (let s = rstrip_nul raw in
     if \<not> utf8_ok (map of_char s) then Inl ValueError
     else (case ModuleType s of Inl _ \<Rightarrow> Inl RuntimeError | Inr t \<Rightarrow> Inr t))"

section \<open>Runtime identity\<close>

record identity =
  ri_chain :: int
  ri_address :: string
  ri_type :: module_type

definition SCHEMA_VERSION :: int where
  "SCHEMA_VERSION = 1"

text \<open>The constructor; a \<open>bool\<close> chain id is rejected before anything else.\<close>

definition mk_identity :: "pyval \<Rightarrow> string \<Rightarrow> module_type \<Rightarrow> identity res" where
  "mk_identity chain addr t =
     (case chain of
        VInt c \<Rightarrow>
          if c \<le> 0 then Inl ValueError
          else if addr = [] then Inl ValueError
          else Inr \<lparr>ri_chain = c, ri_address = py_lower addr, ri_type = t\<rparr>
      | VBool _ \<Rightarrow> Inl ValueError
      | _ \<Rightarrow> Inl TypeError)"

definition identity_to_dict :: "identity \<Rightarrow> pyval" where
  "identity_to_dict r = VDict
     [(VStr ''schema_version'', VInt SCHEMA_VERSION),
      (VStr ''chain_id'', VInt (ri_chain r)),
      (VStr ''module_address'', VStr (ri_address r)),
      (VStr ''module_type'', VStr (module_type_value (ri_type r)))]"

definition identity_from_dict :: "pyval \<Rightarrow> identity res" where
  "identity_from_dict v =
     (case bindR (getitem v ''schema_version'') (\<lambda>sv. bindR (getitem v ''chain_id'') (\<lambda>ci.
           bindR (getitem v ''module_address'') (\<lambda>ma. bindR (getitem v ''module_type'') (\<lambda>mt.
             Inr (sv, ci, ma, mt))))) of
        Inl _ \<Rightarrow> Inl RuntimeError
      | Inr (sv, ci, ma, mt) \<Rightarrow>
          (case (sv, ci, ma, mt) of
             (VInt s, VInt c, VStr a, VStr m) \<Rightarrow>
               if s \<noteq> SCHEMA_VERSION \<or> c \<le> 0 \<or> a = [] then Inl RuntimeError
               else (case ModuleType m of
                       Inl _ \<Rightarrow> Inl RuntimeError
                     | Inr t \<Rightarrow> mk_identity (VInt c) a t)
           | _ \<Rightarrow> Inl RuntimeError))"

text \<open>\<open>bind\<close> returns the new persisted data and whether it bound legacy state.\<close>

definition bind_identity :: "identity \<Rightarrow> raw_data \<Rightarrow> (raw_data \<times> bool) res" where
  "bind_identity r d =
     (case map_of d ''runtime_identity'' of
        None \<Rightarrow> Inr (AList.update ''runtime_identity'' (identity_to_dict r) d, True)
      | Some v \<Rightarrow> bindR (identity_from_dict v) (\<lambda>p.
          if p \<noteq> r then Inl RuntimeIdentityMismatch else Inr (d, False)))"

section \<open>Normalising persisted values\<close>

definition ints_of :: "pyval list \<Rightarrow> int set" where
  "ints_of vs = set (List.map_filter (\<lambda>v. case val_int v of Inr i \<Rightarrow> Some i | Inl _ \<Rightarrow> None) vs)"

definition ensure_int_set :: "pyval \<Rightarrow> int set" where
  "ensure_int_set v =
     (case v of
        VNone \<Rightarrow> {}
      | VSet xs \<Rightarrow> ints_of xs
      | _ \<Rightarrow> (case iter_vals v of
                Inl _ \<Rightarrow> {}
              | Inr xs \<Rightarrow> if list_all hashable xs then ints_of xs else {}))"

definition normalise_node_operator_map :: "codec \<Rightarrow> pyval \<Rightarrow> (string \<times> int set) list" where
  "normalise_node_operator_map C v =
     (case v of
        VDict items \<Rightarrow>
          foldl (\<lambda>d (k, x). AList.update (val_str C k) (ensure_int_set x) d) [] items
      | _ \<Rightarrow> [])"

definition normalise_node_operator_ids :: "codec \<Rightarrow> pyval \<Rightarrow> string set" where
  "normalise_node_operator_ids C v =
     (if \<not> truthy v then {}
      else (case iter_vals v of
              Inl _ \<Rightarrow> {}
            | Inr xs \<Rightarrow> val_str C ` {x \<in> set xs. x \<noteq> VNone}))"

definition raw_get :: "raw_data \<Rightarrow> string \<Rightarrow> pyval" where
  "raw_get d k = (case map_of d k of None \<Rightarrow> VNone | Some v \<Rightarrow> v)"

section \<open>Processed block\<close>

definition block_state :: "raw_data \<Rightarrow> int res" where
  "block_state d = (let v = (case map_of d ''block'' of None \<Rightarrow> VInt 0 | Some v \<Rightarrow> v) in
     val_int (if truthy v then v else VInt 0))"

section \<open>Chat id sets\<close>

definition chat_id_set :: "raw_data \<Rightarrow> string \<Rightarrow> int set" where
  "chat_id_set d key = ensure_int_set (raw_get d key)"

definition chats_add :: "int \<Rightarrow> int set \<Rightarrow> int set" where
  "chats_add c s = insert c s"

definition chats_remove :: "int \<Rightarrow> int set \<Rightarrow> int set" where
  "chats_remove c s = s - {c}"

definition chats_contains :: "int \<Rightarrow> int set \<Rightarrow> bool" where
  "chats_contains c s \<longleftrightarrow> c \<in> s"

definition chats_migrate :: "int \<Rightarrow> int \<Rightarrow> int set \<Rightarrow> int set \<times> bool" where
  "chats_migrate old new s =
     (if old = new then (s, False)
      else if old \<notin> s then (s, False)
      else (insert new (s - {old}), True))"

section \<open>Node operator index\<close>

type_synonym operator_index = "(string \<times> int set) list"

definition node_operator_chats :: "codec \<Rightarrow> raw_data \<Rightarrow> operator_index" where
  "node_operator_chats C d = normalise_node_operator_map C (raw_get d ''no_ids_to_chats'')"

definition chats_at :: "operator_index \<Rightarrow> string \<Rightarrow> int set" where
  "chats_at m k = (case map_of m k of None \<Rightarrow> {} | Some s \<Rightarrow> s)"

definition subscribe :: "string \<Rightarrow> int \<Rightarrow> operator_index \<Rightarrow> operator_index" where
  "subscribe k c m = AList.update k (insert c (chats_at m k)) m"

definition unsubscribe :: "string \<Rightarrow> int \<Rightarrow> operator_index \<Rightarrow> operator_index" where
  "unsubscribe k c m =
     (case map_of m k of None \<Rightarrow> m | Some s \<Rightarrow> AList.update k (s - {c}) m)"

definition chats_for :: "operator_index \<Rightarrow> string \<Rightarrow> int set" where
  "chats_for m k = chats_at m k"

definition operator_ids :: "operator_index \<Rightarrow> string set" where
  "operator_ids m = fst ` set m"

definition resolve_targets :: "operator_index \<Rightarrow> string set \<Rightarrow> int set \<Rightarrow> int set" where
  "resolve_targets m ids actual = (\<Union>k \<in> ids. chats_at m k) \<inter> actual"

record subscription_count =
  sc_total :: nat
  sc_users :: nat
  sc_groups :: nat
  sc_channels :: nat

fun subscription_counts_of ::
  "operator_index \<Rightarrow> int set \<Rightarrow> int set \<Rightarrow> int set \<Rightarrow> int set \<Rightarrow>
   (string \<times> subscription_count) list" where
  "subscription_counts_of [] actual us gs cs = []"
| "subscription_counts_of ((k, chats) # m) actual us gs cs =
     (let active = chats \<inter> actual; rest = subscription_counts_of m actual us gs cs in
      if active = {} then rest
      else (k, \<lparr>sc_total = card active, sc_users = card (active \<inter> us),
                sc_groups = card (active \<inter> gs), sc_channels = card (active \<inter> cs)\<rparr>) # rest)"

definition index_migrate :: "int \<Rightarrow> int \<Rightarrow> operator_index \<Rightarrow> operator_index \<times> nat" where
  "index_migrate old new m =
     (if old = new then (m, 0)
      else (map (\<lambda>(k, s). (k, if old \<in> s then insert new (s - {old}) else s)) m,
            length (filter (\<lambda>(k, s). old \<in> s) m)))"

section \<open>Subscriptions of one chat\<close>

definition node_operator_subscriptions :: "codec \<Rightarrow> raw_data \<Rightarrow> string set" where
  "node_operator_subscriptions C d = normalise_node_operator_ids C (raw_get d ''node_operators'')"

definition follow :: "string \<Rightarrow> string set \<Rightarrow> string set" where
  "follow k s = insert k s"

definition unfollow :: "string \<Rightarrow> string set \<Rightarrow> string set \<times> bool" where
  "unfollow k s = (if k \<in> s then (s - {k}, True) else (s, False))"

section \<open>Lemmas on the identity\<close>

lemma lower_char_idem [simp]: "lower_char (lower_char c) = lower_char c"
proof -
  have "of_char (char_of (of_char c + 32 :: nat) :: char) = (of_char c + 32 :: nat)"
    if "of_char c < (224 :: nat)"
    using that by (simp add: of_char_of)
  then show ?thesis by (auto simp: lower_char_def Let_def)
qed

lemma py_lower_idem [simp]: "py_lower (py_lower s) = py_lower s"
  by (simp add: py_lower_def)

lemma py_lower_Nil [simp]: "py_lower s = [] \<longleftrightarrow> s = []"
  by (simp add: py_lower_def)

lemma ModuleType_value [simp]: "ModuleType (module_type_value t) = Inr t"
  by (cases t) (simp_all add: ModuleType_def)

lemma mk_identity_Inr:
  "mk_identity v a t = Inr r \<longleftrightarrow>
   (\<exists>c. v = VInt c \<and> 0 < c \<and> a \<noteq> [] \<and> r = \<lparr>ri_chain = c, ri_address = py_lower a, ri_type = t\<rparr>)"
  by (cases v) (auto simp: mk_identity_def)

lemma identity_roundtrip:
  "mk_identity v a t = Inr r \<Longrightarrow> identity_from_dict (identity_to_dict r) = Inr r"
  by (auto simp: mk_identity_Inr identity_from_dict_def identity_to_dict_def)

section \<open>Lemmas on the chat indexes\<close>

lemma chats_at_update [simp]:
  "chats_at (AList.update k s m) j = (if j = k then s else chats_at m j)"
  by (simp add: chats_at_def update_conv')

lemma chats_at_subscribe [dict_simps]:
  "chats_at (subscribe k c m) j = (if j = k then insert c (chats_at m k) else chats_at m j)"
  by (simp add: subscribe_def)

lemma chats_at_unsubscribe [dict_simps]:
  "chats_at (unsubscribe k c m) j = (if j = k then chats_at m k - {c} else chats_at m j)"
  by (auto simp: unsubscribe_def chats_at_def update_conv' split: option.splits)

lemma map_of_map_values: "map_of (map (\<lambda>(k, s). (k, f s)) m) k = map_option f (map_of m k)"
  by (induction m) auto

lemma chats_at_migrate [dict_simps]:
  "chats_at (fst (index_migrate old new m)) k =
     (if old \<noteq> new \<and> old \<in> chats_at m k then insert new (chats_at m k - {old}) else chats_at m k)"
  by (auto simp: index_migrate_def chats_at_def map_of_map_values split: option.splits)

lemma keys_index_migrate [dict_simps]:
  "map fst (fst (index_migrate old new m)) = map fst m"
  by (simp add: index_migrate_def case_prod_unfold comp_def)

lemma chats_migrate_set:
  "fst (chats_migrate old new s) =
     (if old \<noteq> new \<and> old \<in> s then insert new (s - {old}) else s)"
  by (simp add: chats_migrate_def)

lemma distinct_index_ops:
  "distinct (map fst m) \<Longrightarrow> distinct (map fst (subscribe k c m))"
  "distinct (map fst m) \<Longrightarrow> distinct (map fst (unsubscribe k c m))"
  "distinct (map fst m) \<Longrightarrow> distinct (map fst (fst (index_migrate old new m)))"
  by (simp_all add: subscribe_def unsubscribe_def distinct_keys_update keys_index_migrate
      split: option.splits)

section \<open>The persisted forms\<close>

definition int_set_val :: "int set \<Rightarrow> pyval" where
  "int_set_val s = VSet (map VInt (sorted_list_of_set s))"

definition index_val :: "operator_index \<Rightarrow> pyval" where
  "index_val m = VDict (map (\<lambda>(k, s). (VStr k, int_set_val s)) m)"

definition str_set_val :: "string set \<Rightarrow> pyval" where
  "str_set_val s = VSet (map VStr (sorted_list_of_set s))"

lemma ints_of_VInt [simp]: "ints_of (map VInt xs) = set xs"
  by (induction xs) (auto simp: ints_of_def List.map_filter_simps)

lemma ensure_int_set_val [simp]: "finite s \<Longrightarrow> ensure_int_set (int_set_val s) = s"
  by (simp add: ensure_int_set_def int_set_val_def)

lemma normalise_index_val:
  assumes "distinct (map fst m)" "\<forall>s \<in> snd ` set m. finite s"
  shows "normalise_node_operator_map C (index_val m) = m"
proof -
  have "foldl (\<lambda>d (k, x). AList.update (val_str C k) (ensure_int_set x) d) a
      (map (\<lambda>(k, s). (VStr k, int_set_val s)) m) = a @ m"
    if "distinct (map fst (a @ m))" for a
    using that assms(2)
  proof (induction m arbitrary: a)
    case (Cons p m)
    obtain k s where p: "p = (k, s)" by force
    from Cons.prems p have "AList.update k s a = a @ [(k, s)]"
      by (intro update_fresh) force
    with Cons.IH [of "a @ [(k, s)]"] Cons.prems p show ?case by simp
  qed simp
  from this [of "[]"] assms(1) show ?thesis
    by (simp add: normalise_node_operator_map_def index_val_def)
qed

lemma normalise_str_set_val:
  "finite s \<Longrightarrow> normalise_node_operator_ids C (str_set_val s) = s"
proof -
  assume f: "finite s"
  have "{x \<in> VStr ` s. x \<noteq> VNone} = VStr ` s" by auto
  moreover have "val_str C ` VStr ` s = s" by (force simp: image_iff)
  ultimately show ?thesis
    using f by (auto simp: normalise_node_operator_ids_def str_set_val_def)
qed

lemma finite_ensure_int_set: "finite (ensure_int_set v)"
  by (simp add: ensure_int_set_def ints_of_def split: pyval.splits sum.splits)

section \<open>Properties\<close>

text \<open>Binding a runtime to state that has no identity records it; afterwards every runtime
  of the same chain, module address (in any letter case) and type is accepted without a change
  and every other one is rejected with \<open>RuntimeIdentityMismatch\<close>.\<close>

theorem runtime_identity_binding:
  assumes "mk_identity (VInt c) addr t = Inr r" "mk_identity (VInt c') addr' t' = Inr q"
    and "map_of d ''runtime_identity'' = None"
  shows "\<exists>d'. bind_identity r d = Inr (d', True) \<and>
     bind_identity q d' =
       (if c' = c \<and> py_lower addr' = py_lower addr \<and> t' = t then Inr (d', False)
        else Inl RuntimeIdentityMismatch)"
  using assms(3) identity_roundtrip [OF assms(1)] assms(1,2)
  by (auto simp: bind_identity_def update_conv' mk_identity_Inr)

lemma runtime_identity_binding_witness:
  "\<exists>d'. bind_identity \<lparr>ri_chain = 1, ri_address = ''0xab'', ri_type = CURATED\<rparr> [] = Inr (d', True) \<and>
     bind_identity \<lparr>ri_chain = 1, ri_address = ''0xab'', ri_type = CURATED\<rparr> d' = Inr (d', False)"
proof -
  let ?r = "\<lparr>ri_chain = 1, ri_address = ''0xab'', ri_type = CURATED\<rparr>"
  have "mk_identity (VInt 1) ''0xAB'' CURATED = Inr ?r" by code_simp
  from runtime_identity_binding [OF this this, of "[]"] show ?thesis by simp
qed

end
