(* ===== verification/Event_Store.thy ===== *)
theory Event_Store
  imports Aggregation Chat_Store
begin

text \<open>
  The persisted event buffers of \<open>sentinel/app/storage.py\<close>: the aggregation window store, its
  records and their JSON keys, the digest store, the completion markers of scheduled jobs, and
  the legacy migration of \<open>storage_migrations.py\<close>. The stores keep the records the code
  persists (untyped dictionaries) and parse them on every access, as the code does; the lemmas
  relate them to lists of typed windows and events, and the locale \<open>keyed_store\<close> states the
  contract on which the coordinator and the digests rely.
\<close>

section \<open>JSON keys\<close>

definition hex_digit :: "nat \<Rightarrow> char" where
  "hex_digit n = char_of (if n < 10 then 48 + n else 87 + n)"

definition json_char :: "char \<Rightarrow> string" where
  "json_char c = (let n = (of_char c :: nat) in
     if n = 34 then [CHR 0x5C, CHR 0x22]
     else if n = 92 then [CHR 0x5C, CHR 0x5C]
     else if n = 10 then [CHR 0x5C, CHR ''n'']
     else if n = 13 then [CHR 0x5C, CHR ''r'']
     else if n = 9 then [CHR 0x5C, CHR ''t'']
     else if n = 12 then [CHR 0x5C, CHR ''f'']
     else if n = 8 then [CHR 0x5C, CHR ''b'']
     else if 32 \<le> n \<and> n \<le> 126 then [c]
     else [CHR 0x5C, CHR ''u'', CHR ''0'', CHR ''0'', hex_digit (n div 16), hex_digit (n mod 16)])"

definition json_str :: "string \<Rightarrow> string" where
  "json_str s = CHR 0x22 # concat (map json_char s) @ [CHR 0x22]"

definition window_key :: "window \<Rightarrow> string" where
  "window_key w = ''['' @ py_join '',''
     [json_str (aw_group w), json_str (ak_kind (aw_key w)), json_str (ak_value (aw_key w)),
      int_str (aw_start w), int_str (aw_end w)] @ '']''"

section \<open>Window records\<close>

definition window_to_dict :: "window \<Rightarrow> pyval" where
  "window_to_dict w = VDict
     [(VStr ''group'', VStr (aw_group w)),
      (VStr ''aggregation_key'', VDict
         [(VStr ''kind'', VStr (ak_kind (aw_key w))), (VStr ''value'', VStr (ak_value (aw_key w)))]),
      (VStr ''start_block'', VInt (aw_start w)),
      (VStr ''end_block'', VInt (aw_end w)),
      (VStr ''event_names'', VList (map VStr (sorted_list_of_set (aw_names w)))),
      (VStr ''events'', VList (map event_to_dict (aw_events w)))]"

definition window_from_dict :: "codec \<Rightarrow> pyval \<Rightarrow> window res" where
  "window_from_dict C r =
     bindR (getitem r ''aggregation_key'') (\<lambda>raw_key.
     bindR (getitem r ''group'') (\<lambda>g.
     bindR (getitem raw_key ''kind'') (\<lambda>kind.
     bindR (getitem raw_key ''value'') (\<lambda>val.
     bindR (bindR (getitem r ''start_block'') val_int) (\<lambda>sb.
     bindR (bindR (getitem r ''end_block'') val_int) (\<lambda>eb.
     bindR (bindR (getitem r ''event_names'') iter_vals) (\<lambda>names.
     bindR (bindR (getitem r ''events'') iter_vals) (\<lambda>evs.
     bindR (mapR (event_from_dict C) evs) (\<lambda>es.
       Inr \<lparr>aw_group = val_str C g,
            aw_key = \<lparr>ak_kind = val_str C kind, ak_value = val_str C val\<rparr>,
            aw_start = sb, aw_end = eb,
            aw_names = val_str C ` set names, aw_events = es\<rparr>)))))))))"

section \<open>Aggregation window store\<close>

type_synonym records = "(string \<times> pyval) list"

definition records_from :: "codec \<Rightarrow> pyval list \<Rightarrow> window list res" where
  "records_from C vs = parse_skipping (window_from_dict C) vs"

definition normalise_windows :: "codec \<Rightarrow> pyval \<Rightarrow> records res" where
  "normalise_windows C v =
     (if \<not> truthy v then Inr []
      else (case v of
              VDict d \<Rightarrow> bindR (records_from C (map snd d)) (\<lambda>ws.
                Inr (foldl (\<lambda>r w. AList.update (window_key w) (window_to_dict w) r) [] ws))
            | _ \<Rightarrow> Inr []))"

definition upsert_pending :: "window \<Rightarrow> records \<Rightarrow> records" where
  "upsert_pending w r = AList.update (window_key w) (window_to_dict w) r"

definition discard_window :: "window \<Rightarrow> records \<Rightarrow> records" where
  "discard_window w r = AList.delete (window_key w) r"

definition pending :: "codec \<Rightarrow> records \<Rightarrow> window list res" where
  "pending C r = records_from C (map snd r)"

definition pending_for ::
  "codec \<Rightarrow> string \<Rightarrow> aggregation_key \<Rightarrow> int \<Rightarrow> records \<Rightarrow> window option res" where
  "pending_for C g k b r = bindR (records_from C (map snd r)) (\<lambda>ws.
     Inr (find (\<lambda>w. aw_group w = g \<and> aw_key w = k \<and> window_contains w b) ws))"

section \<open>Digest store\<close>

type_synonym digests = "(string \<times> pyval list) list"

definition parse_events :: "codec \<Rightarrow> pyval \<Rightarrow> event list res" where
  "parse_events C v =
     (if \<not> truthy v then Inr []
      else (case v of VList rs \<Rightarrow> parse_skipping (event_from_dict C) rs | _ \<Rightarrow> Inr []))"

fun normalise_digest_items :: "codec \<Rightarrow> (pyval \<times> pyval) list \<Rightarrow> digests \<Rightarrow> digests res" where
  "normalise_digest_items C [] d = Inr d"
| "normalise_digest_items C ((k, v) # items) d = bindR (parse_events C v) (\<lambda>es.
     normalise_digest_items C items (AList.update (val_str C k) (map event_to_dict es) d))"

definition normalise_digests :: "codec \<Rightarrow> pyval \<Rightarrow> digests res" where
  "normalise_digests C v =
     (if \<not> truthy v then Inr []
      else (case v of VDict d \<Rightarrow> normalise_digest_items C d [] | _ \<Rightarrow> Inr []))"

definition digest_events :: "codec \<Rightarrow> string \<Rightarrow> digests \<Rightarrow> event list res" where
  "digest_events C n d =
     mapR (event_from_dict C) (case map_of d n of None \<Rightarrow> [] | Some rs \<Rightarrow> rs)"

definition dedup_events :: "event list \<Rightarrow> event list" where
  "dedup_events es = map snd (foldl (\<lambda>d e. AList.update (log_identity e) e d) [] es)"

definition digest_replace :: "string \<Rightarrow> event list \<Rightarrow> digests \<Rightarrow> digests" where
  "digest_replace n es d =
     AList.update n (map event_to_dict (sort_key position (dedup_events es))) d"

definition digest_append :: "codec \<Rightarrow> string \<Rightarrow> event \<Rightarrow> digests \<Rightarrow> digests res" where
  "digest_append C n e d =
     bindR (digest_events C n d) (\<lambda>es. Inr (digest_replace n (es @ [e]) d))"

definition digest_extend :: "codec \<Rightarrow> string \<Rightarrow> event list \<Rightarrow> digests \<Rightarrow> digests res" where
  "digest_extend C n new d =
     bindR (digest_events C n d) (\<lambda>es. Inr (digest_replace n (es @ new) d))"

definition digest_discard :: "codec \<Rightarrow> string \<Rightarrow> event list \<Rightarrow> digests \<Rightarrow> digests res" where
  "digest_discard C n gone d =
     bindR (digest_events C n d) (\<lambda>es.
       Inr (digest_replace n (filter (\<lambda>e. log_identity e \<notin> log_identity ` set gone) es) d))"

section \<open>Scheduled job markers\<close>

text \<open>
  A datetime is its instant in microseconds since the epoch and its UTC offset, absent for a
  naive one. The ISO text is a parameter: \<open>iso_format\<close> for \<open>isoformat\<close> and \<open>iso_parse\<close> for
  \<open>datetime.fromisoformat\<close>.
\<close>

record datetime =
  dt_instant :: int
  dt_offset :: "int option"

record iso_text =
  iso_format :: "datetime \<Rightarrow> string"
  iso_parse :: "pyval \<Rightarrow> datetime res"

type_synonym job_markers = "(string \<times> string) list"

definition as_utc :: "datetime \<Rightarrow> datetime" where
  "as_utc t = t\<lparr>dt_offset := Some 0\<rparr>"

definition completed_for :: "iso_text \<Rightarrow> string \<Rightarrow> job_markers \<Rightarrow> datetime option res" where
  "completed_for I job m =
     (case map_of m job of
        None \<Rightarrow> Inr None
      | Some s \<Rightarrow> bindR (iso_parse I (VStr s)) (\<lambda>t. Inr (Some (as_utc t))))"

definition mark_completed ::
  "iso_text \<Rightarrow> string \<Rightarrow> datetime \<Rightarrow> job_markers \<Rightarrow> job_markers res" where
  "mark_completed I job t m =
     (if dt_offset t = None then Inl ValueError
      else Inr (AList.update job (iso_format I (as_utc t)) m))"

definition parse_marker :: "iso_text \<Rightarrow> pyval \<Rightarrow> string res" where
  "parse_marker I raw =
     bindR (bindR (getitem raw ''completed_for'') (iso_parse I)) (\<lambda>t.
       if dt_offset t = None then Inl ValueError else Inr (iso_format I (as_utc t)))"

fun normalise_job_items ::
  "codec \<Rightarrow> iso_text \<Rightarrow> (pyval \<times> pyval) list \<Rightarrow> job_markers \<Rightarrow> job_markers res" where
  "normalise_job_items C I [] m = Inr m"
| "normalise_job_items C I ((k, raw) # items) m =
     (case parse_marker I raw of
        Inr s \<Rightarrow> normalise_job_items C I items (AList.update (val_str C k) s m)
      | Inl e \<Rightarrow> if malformed e then normalise_job_items C I items m else Inl e)"

definition normalise_jobs :: "codec \<Rightarrow> iso_text \<Rightarrow> pyval \<Rightarrow> job_markers res" where
  "normalise_jobs C I v =
     (if \<not> truthy v then Inr []
      else (case v of VDict d \<Rightarrow> normalise_job_items C I d [] | _ \<Rightarrow> Inr []))"

section \<open>Legacy migration\<close>

definition DEPOSITED_SIGNING_KEYS :: string where
  "DEPOSITED_SIGNING_KEYS = ''deposited_signing_keys''"
definition LEGACY_DEPOSIT_AGGREGATION_GROUP :: string where
  "LEGACY_DEPOSIT_AGGREGATION_GROUP = ''deposited_signing_key_counts''"

definition val_get :: "(pyval \<times> pyval) list \<Rightarrow> string \<Rightarrow> pyval" where
  "val_get d k = (case map_of d (VStr k) of None \<Rightarrow> VNone | Some v \<Rightarrow> v)"

text \<open>
  The windows that remain, with the events of the popped ones: every window of the group is
  removed before its events are parsed.
\<close>

fun pop_group_windows ::
  "codec \<Rightarrow> string \<Rightarrow> (pyval \<times> pyval) list \<Rightarrow> (pyval \<times> pyval) list \<times> event list res" where
  "pop_group_windows C g [] = ([], Inr [])"
| "pop_group_windows C g ((k, v) # items) =
     (case v of
        VDict r \<Rightarrow>
          if val_get r ''group'' \<noteq> VStr g
          then (let (kept, es) = pop_group_windows C g items in ((k, v) # kept, es))
          else (case parse_events C (val_get r ''events'') of
                  Inl e \<Rightarrow> (items, Inl e)
                | Inr new \<Rightarrow> (let (kept, es) = pop_group_windows C g items in
                    (kept, bindR es (\<lambda>xs. Inr (new @ xs)))))
      | _ \<Rightarrow> (let (kept, es) = pop_group_windows C g items in ((k, v) # kept, es)))"

definition pop_group_events :: "codec \<Rightarrow> raw_data \<Rightarrow> string \<Rightarrow> raw_data \<times> event list res" where
  "pop_group_events C d g =
     (case map_of d ''aggregation_windows'' of
        Some (VDict items) \<Rightarrow> (let (kept, es) = pop_group_windows C g items in
          (AList.update ''aggregation_windows'' (VDict kept) d, es))
      | _ \<Rightarrow> (d, Inr []))"

definition digests_val :: "digests \<Rightarrow> pyval" where
  "digests_val d = VDict (map (\<lambda>(n, rs). (VStr n, VList rs)) d)"

definition migrate_legacy_storage :: "codec \<Rightarrow> raw_data \<Rightarrow> raw_data \<times> unit res" where
  "migrate_legacy_storage C d =
     (let legacy = raw_get d ''digest_events''; d1 = AList.delete ''digest_events'' d in
      case parse_events C legacy of
        Inl e \<Rightarrow> (d1, Inl e)
      | Inr es1 \<Rightarrow>
          (case pop_group_events C d1 LEGACY_DEPOSIT_AGGREGATION_GROUP of
             (d2, Inl e) \<Rightarrow> (d2, Inl e)
           | (d2, Inr es2) \<Rightarrow>
               if es1 @ es2 = [] then (d2, Inr ())
               else (case normalise_digests C (raw_get d2 ''digests'') of
                       Inl e \<Rightarrow> (d2, Inl e)
                     | Inr s \<Rightarrow>
                         (case digest_extend C DEPOSITED_SIGNING_KEYS (es1 @ es2) s of
                            Inl e \<Rightarrow> (AList.update ''digests'' (digests_val s) d2, Inl e)
                          | Inr s' \<Rightarrow> (AList.update ''digests'' (digests_val s') d2, Inr ())))))"

section \<open>Windows have distinct keys\<close>

definition hex_value :: "char \<Rightarrow> nat" where
  "hex_value c = (let n = (of_char c :: nat) in if n < 58 then n - 48 else n - 87)"

text \<open>A reader of one escaped character, the inverse of \<open>json_char\<close>.\<close>

definition json_next :: "string \<Rightarrow> char \<times> string" where
  "json_next s =
     (if hd s \<noteq> CHR 0x5C then (hd s, tl s)
      else (let e = s ! 1; r = drop 2 s in
        if e = CHR ''u'' then (char_of (16 * hex_value (r ! 2) + hex_value (r ! 3)), drop 4 r)
        else if e = CHR ''n'' then (CHR 10, r)
        else if e = CHR ''r'' then (CHR 13, r)
        else if e = CHR ''t'' then (CHR 9, r)
        else if e = CHR ''f'' then (CHR 12, r)
        else if e = CHR ''b'' then (CHR 8, r)
        else (e, r)))"

lemma hex_value_digit: "n < 16 \<Longrightarrow> hex_value (hex_digit n) = n"
  by (simp add: hex_value_def hex_digit_def of_char_of Let_def)

lemma char_eqI: "(of_char c :: nat) = of_char d \<Longrightarrow> c = d"
  by simp

lemma json_next_char: "json_next (json_char c @ r) = (c, r)"
proof -
  define n where "n = (of_char c :: nat)"
  have c: "c = char_of n" and n: "n < 256" by (simp_all add: n_def)
  have "16 * (n div 16) + n mod 16 = n" by simp
  with n have hex: "16 * hex_value (hex_digit (n div 16)) + hex_value (hex_digit (n mod 16)) = n"
    by (simp add: hex_value_digit)
  consider "n = 34" | "n = 92" | "n = 10" | "n = 13" | "n = 9" | "n = 12" | "n = 8"
    | "n \<notin> {34, 92, 10, 13, 9, 12, 8}" "32 \<le> n \<and> n \<le> 126"
    | "n \<notin> {34, 92, 10, 13, 9, 12, 8}" "\<not> (32 \<le> n \<and> n \<le> 126)"
    by blast
  then show ?thesis
  proof cases
    case 8
    then have "c \<noteq> CHR 0x5C" by (auto simp: n_def)
    with 8 show ?thesis
      by (simp add: json_char_def Let_def json_next_def flip: n_def)
  next
    case 9
    then have "json_char c =
        [CHR 0x5C, CHR ''u'', CHR ''0'', CHR ''0'', hex_digit (n div 16), hex_digit (n mod 16)]"
      by (simp only: json_char_def Let_def n_def [symmetric] if_False insert_iff empty_iff de_Morgan_disj simp_thms)
    then show ?thesis by (simp add: json_next_def hex c [symmetric])
  qed (simp_all add: json_char_def Let_def json_next_def c [symmetric] char_eqI n_def)
qed

lemma hd_json_char: "json_char c \<noteq> [] \<and> hd (json_char c) \<noteq> CHR 0x22"
  by (auto simp: json_char_def Let_def)

lemma json_body_hd: "concat (map json_char (c # s)) @ x = y # ys \<Longrightarrow> y \<noteq> CHR 0x22"
  using hd_json_char [of c] by (cases "json_char c") auto

lemma json_body_inject:
  "concat (map json_char s) @ CHR 0x22 # r = concat (map json_char t) @ CHR 0x22 # r' \<Longrightarrow>
   s = t \<and> r = r'"
proof (induction s arbitrary: t)
  case Nil
  then show ?case
  proof (cases t)
    case (Cons d t')
    with Nil json_body_hd [of d t' "CHR 0x22 # r'" "CHR 0x22" r] show ?thesis by simp
  qed simp
next
  case (Cons c s)
  show ?case
  proof (cases t)
    case Nil
    with Cons.prems json_body_hd [of c s "CHR 0x22 # r" "CHR 0x22" r'] show ?thesis by simp
  next
    case t: (Cons d t')
    with Cons.prems have "json_next (json_char c @ concat (map json_char s) @ CHR 0x22 # r) =
        json_next (json_char d @ concat (map json_char t') @ CHR 0x22 # r')" by simp
    with Cons.IH [of t'] t show ?thesis by (simp add: json_next_char)
  qed
qed

lemma json_str_inject: "json_str s @ r = json_str t @ r' \<Longrightarrow> s = t \<and> r = r'"
  using json_body_inject [of s r t r'] by (simp add: json_str_def)

lemma append_sep_inject:
  "c \<notin> set xs \<Longrightarrow> c \<notin> set ys \<Longrightarrow> xs @ c # u = ys @ c # v \<Longrightarrow> xs = ys \<and> u = v"
  by (induction xs arbitrary: ys) (auto simp: Cons_eq_append_conv)

lemma int_str_chars: "c \<in> set (int_str i) \<Longrightarrow> is_dec c \<or> c = CHR ''-''"
  using nat_str_dec by (auto simp: int_str_def py_isdecimal_def list_all_iff split: if_splits)

lemma int_str_no_sep: "CHR '','' \<notin> set (int_str i)" "CHR '']'' \<notin> set (int_str i)"
  using int_str_chars [of "CHR '',''" i] int_str_chars [of "CHR '']''" i] by (auto simp: is_dec_def)

definition window_id :: "window \<Rightarrow> string \<times> aggregation_key \<times> int \<times> int" where
  "window_id w = (aw_group w, aw_key w, aw_start w, aw_end w)"

lemma window_key_inject [simp]: "window_key v = window_key w \<longleftrightarrow> window_id v = window_id w"
proof
  assume "window_key v = window_key w"
  then have eq: "json_str (aw_group v) @ CHR '','' # json_str (ak_kind (aw_key v)) @ CHR '','' #
      json_str (ak_value (aw_key v)) @ CHR '','' # int_str (aw_start v) @ CHR '','' #
      int_str (aw_end v) @ [CHR '']''] =
      json_str (aw_group w) @ CHR '','' # json_str (ak_kind (aw_key w)) @ CHR '','' #
      json_str (ak_value (aw_key w)) @ CHR '','' # int_str (aw_start w) @ CHR '','' #
      int_str (aw_end w) @ [CHR '']'']"
    by (simp add: window_key_def)
  from json_str_inject [OF eq] have g: "aw_group v = aw_group w" by simp
  from json_str_inject [OF eq] have eq2: "json_str (ak_kind (aw_key v)) @ CHR '','' #
      json_str (ak_value (aw_key v)) @ CHR '','' # int_str (aw_start v) @ CHR '','' #
      int_str (aw_end v) @ [CHR '']''] = json_str (ak_kind (aw_key w)) @ CHR '','' #
      json_str (ak_value (aw_key w)) @ CHR '','' # int_str (aw_start w) @ CHR '','' #
      int_str (aw_end w) @ [CHR '']'']" by simp
  from json_str_inject [OF eq2] have k: "ak_kind (aw_key v) = ak_kind (aw_key w)" by simp
  from json_str_inject [OF eq2] have eq3: "json_str (ak_value (aw_key v)) @ CHR '','' #
      int_str (aw_start v) @ CHR '','' # int_str (aw_end v) @ [CHR '']''] =
      json_str (ak_value (aw_key w)) @ CHR '','' # int_str (aw_start w) @ CHR '','' #
      int_str (aw_end w) @ [CHR '']'']" by simp
  from json_str_inject [OF eq3] have a: "ak_value (aw_key v) = ak_value (aw_key w)" by simp
  from json_str_inject [OF eq3] have eq4: "int_str (aw_start v) @ CHR '','' # int_str (aw_end v) @ [CHR '']''] =
      int_str (aw_start w) @ CHR '','' # int_str (aw_end w) @ [CHR '']'']" by simp
  from append_sep_inject [OF _ _ eq4] int_str_no_sep
  have "aw_start v = aw_start w" "aw_end v = aw_end w" by auto
  with g k a show "window_id v = window_id w" by (simp add: window_id_def aggregation_key.equality)
qed (simp add: window_key_def window_id_def)

section \<open>The contract of a keyed store\<close>

locale keyed_store =
  fixes key :: "'a \<Rightarrow> 'k"
    and content :: "'s \<Rightarrow> 'a list"
    and put :: "'a \<Rightarrow> 's \<Rightarrow> 's"
    and remove :: "'a \<Rightarrow> 's \<Rightarrow> 's"
    and ok :: "'s \<Rightarrow> bool"
    and valid :: "'a \<Rightarrow> bool"
  assumes content_distinct: "ok s \<Longrightarrow> distinct (map key (content s))"
    and put_ok: "ok s \<Longrightarrow> valid x \<Longrightarrow> ok (put x s)"
    and put_set: "ok s \<Longrightarrow> valid x \<Longrightarrow>
      set (content (put x s)) = insert x {y \<in> set (content s). key y \<noteq> key x}"
    and remove_ok: "ok s \<Longrightarrow> ok (remove x s)"
    and remove_content: "ok s \<Longrightarrow> content (remove x s) = filter (\<lambda>y. key y \<noteq> key x) (content s)"
begin

lemma fold_remove:
  "ok s \<Longrightarrow> ok (fold remove xs s) \<and>
   content (fold remove xs s) = filter (\<lambda>y. key y \<notin> key ` set xs) (content s)"
proof (induction xs arbitrary: s)
  case (Cons x xs)
  from Cons.IH [of "remove x s"] Cons.prems show ?case
    by (auto simp: remove_ok remove_content intro!: filter_cong)
qed simp

lemma put_mset:
  assumes "ok s" "valid x"
  shows "mset (content (put x s)) = add_mset x (mset (filter (\<lambda>y. key y \<noteq> key x) (content s)))"
proof -
  have "distinct (content (put x s))" "distinct (content s)"
    using content_distinct put_ok assms by (auto simp: distinct_map)
  then have "distinct (x # filter (\<lambda>y. key y \<noteq> key x) (content s))" by simp
  moreover have "set (content (put x s)) = set (x # filter (\<lambda>y. key y \<noteq> key x) (content s))"
    using put_set [OF assms] by auto
  ultimately have "mset (content (put x s)) = mset (x # filter (\<lambda>y. key y \<noteq> key x) (content s))"
    using \<open>distinct (content (put x s))\<close> set_eq_iff_mset_eq_distinct by blast
  then show ?thesis by simp
qed

lemma put_new_mset:
  assumes "ok s" "valid x" "key x \<notin> key ` set (content s)"
  shows "mset (content (put x s)) = add_mset x (mset (content s))"
proof -
  from assms(3) have "\<forall>y \<in> set (content s). key y \<noteq> key x" by (metis imageI)
  then have "filter (\<lambda>y. key y \<noteq> key x) (content s) = content s" by simp
  with put_mset [OF assms(1,2)] show ?thesis by simp
qed

lemma put_replace_mset:
  assumes "ok s" "valid x" "y \<in> set (content s)" "key y = key x"
  shows "add_mset y (mset (content (put x s))) = add_mset x (mset (content s))"
proof -
  from assms(3) obtain us vs where us: "content s = us @ y # vs" by (meson split_list)
  from content_distinct [OF assms(1)] have "key y \<notin> key ` set us" "key y \<notin> key ` set vs"
    by (simp_all add: us)
  then have "\<forall>z \<in> set us. key z \<noteq> key x" "\<forall>z \<in> set vs. key z \<noteq> key x"
    using assms(4) by (metis imageI)+
  then have "filter (\<lambda>z. key z \<noteq> key x) (content s) = us @ vs"
    using assms(4) by (simp add: us)
  then have "mset (content (put x s)) = add_mset x (mset (us @ vs))"
    by (simp only: put_mset [OF assms(1,2)])
  then show ?thesis by (simp add: us)
qed

lemma put_again: "ok s \<Longrightarrow> valid x \<Longrightarrow> set (content (put x (put x s))) = set (content (put x s))"
  by (auto simp: put_set put_ok)

lemma remove_put:
  "ok s \<Longrightarrow> valid x \<Longrightarrow> key x \<notin> key ` set (content s) \<Longrightarrow>
   set (content (remove x (put x s))) = set (content s)"
  by (auto simp: remove_content put_ok put_set image_iff)

end

section \<open>The window store keeps a list of windows\<close>

definition window_ok :: "codec \<Rightarrow> window \<Rightarrow> bool" where
  "window_ok C w \<longleftrightarrow> finite (aw_names w) \<and> list_all (codec_event_ok C) (aw_events w)"

definition enc_windows :: "window list \<Rightarrow> records" where
  "enc_windows ws = map (\<lambda>w. (window_key w, window_to_dict w)) ws"

definition win_list :: "codec \<Rightarrow> records \<Rightarrow> window list" where
  "win_list C r = (case pending C r of Inr ws \<Rightarrow> ws | Inl _ \<Rightarrow> [])"

definition windows_inv :: "codec \<Rightarrow> records \<Rightarrow> bool" where
  "windows_inv C r \<longleftrightarrow> (let ws = win_list C r in
     r = enc_windows ws \<and> distinct (map window_id ws) \<and> list_all (window_ok C) ws)"

lemma window_roundtrip: "window_ok C w \<Longrightarrow> window_from_dict C (window_to_dict w) = Inr w"
proof -
  assume ok: "window_ok C w"
  have "mapR (event_from_dict C) (map event_to_dict es) = Inr es"
    if "list_all (codec_event_ok C) es" for es
    using that by (induction es) (simp_all add: event_roundtrip)
  with ok show ?thesis
    by (simp add: window_ok_def window_from_dict_def window_to_dict_def image_image)
qed

lemma records_from_enc:
  "list_all (window_ok C) ws \<Longrightarrow> records_from C (map snd (enc_windows ws)) = Inr ws"
  by (induction ws) (simp_all add: enc_windows_def records_from_def window_roundtrip)

lemma win_list_enc: "list_all (window_ok C) ws \<Longrightarrow> win_list C (enc_windows ws) = ws"
  by (simp add: win_list_def pending_def records_from_enc)

lemma windows_invI:
  "distinct (map window_id ws) \<Longrightarrow> list_all (window_ok C) ws \<Longrightarrow> windows_inv C (enc_windows ws)"
  by (simp add: windows_inv_def win_list_enc Let_def)

lemma windows_invE:
  assumes "windows_inv C r"
  obtains ws where "r = enc_windows ws" "win_list C r = ws" "distinct (map window_id ws)"
    "list_all (window_ok C) ws"
  using assms by (auto simp: windows_inv_def Let_def)

lemma pending_inv: "windows_inv C r \<Longrightarrow> pending C r = Inr (win_list C r)"
  by (erule windows_invE) (simp add: pending_def records_from_enc)

lemma pending_for_inv: "windows_inv C r \<Longrightarrow> pending_for C g k b r =
   Inr (find (\<lambda>w. aw_group w = g \<and> aw_key w = k \<and> window_contains w b) (win_list C r))"
  by (erule windows_invE) (simp add: pending_for_def records_from_enc)

lemma windows_inv_Nil [simp]: "windows_inv C []" "win_list C [] = []"
  using windows_invI [of "[]" C] win_list_enc [of C "[]"] by (simp_all add: enc_windows_def)

text \<open>Updating and deleting by the JSON key are updates of the list of windows.\<close>

fun put_window :: "window \<Rightarrow> window list \<Rightarrow> window list" where
  "put_window w [] = [w]"
| "put_window w (v # vs) = (if window_id v = window_id w then w # vs else v # put_window w vs)"

lemma upsert_enc: "upsert_pending w (enc_windows ws) = enc_windows (put_window w ws)"
  by (induction ws) (auto simp: upsert_pending_def enc_windows_def)

lemma discard_enc:
  "discard_window w (enc_windows ws) = enc_windows (filter (\<lambda>v. window_id v \<noteq> window_id w) ws)"
  by (induction ws) (auto simp: discard_window_def enc_windows_def)

lemma put_window_ids:
  "window_id ` set (put_window w ws) = insert (window_id w) (window_id ` set ws)"
  by (induction ws) auto

lemma put_window_distinct:
  "distinct (map window_id ws) \<Longrightarrow> distinct (map window_id (put_window w ws))"
  using put_window_ids by (induction ws) auto

lemma put_window_set:
  "distinct (map window_id ws) \<Longrightarrow>
   set (put_window w ws) = insert w {v \<in> set ws. window_id v \<noteq> window_id w}"
  by (induction ws) (auto simp: image_iff)

interpretation windows: keyed_store window_id "win_list C" upsert_pending discard_window
  "windows_inv C" "window_ok C" for C
proof (unfold_locales, goal_cases)
  case (1 s) then show ?case by (auto elim: windows_invE)
next
  case (2 s x)
  then show ?case
    by (elim windows_invE) (auto simp: upsert_enc put_window_set list_all_iff put_window_distinct
        intro!: windows_invI)
next
  case (3 s x)
  then show ?case
    by (elim windows_invE) (auto simp: upsert_enc win_list_enc put_window_set list_all_iff)
next
  case (4 s x)
  then show ?case
    by (elim windows_invE) (auto simp: discard_enc list_all_iff distinct_map_filter
        intro!: windows_invI)
next
  case (5 s x)
  then show ?case by (elim windows_invE) (auto simp: discard_enc win_list_enc list_all_iff)
qed

section \<open>The digest store keeps sorted events\<close>

definition canonical :: "codec \<Rightarrow> event list \<Rightarrow> bool" where
  "canonical C es \<longleftrightarrow> sorted (map position es) \<and> distinct (map log_identity es)
     \<and> list_all (codec_event_ok C) es"

definition digest_list :: "codec \<Rightarrow> string \<Rightarrow> digests \<Rightarrow> event list" where
  "digest_list C n d = (case digest_events C n d of Inr es \<Rightarrow> es | Inl _ \<Rightarrow> [])"

definition digests_inv :: "codec \<Rightarrow> digests \<Rightarrow> bool" where
  "digests_inv C d \<longleftrightarrow> distinct (map fst d) \<and>
     (\<forall>n \<in> fst ` set d. map_of d n = Some (map event_to_dict (digest_list C n d))
        \<and> canonical C (digest_list C n d))"

definition digest_put :: "codec \<Rightarrow> string \<Rightarrow> event \<Rightarrow> digests \<Rightarrow> digests" where
  "digest_put C n e d = (case digest_append C n e d of Inr d' \<Rightarrow> d' | Inl _ \<Rightarrow> d)"

definition digest_remove :: "codec \<Rightarrow> string \<Rightarrow> event \<Rightarrow> digests \<Rightarrow> digests" where
  "digest_remove C n e d = (case digest_discard C n [e] d of Inr d' \<Rightarrow> d' | Inl _ \<Rightarrow> d)"

lemma parse_enc_events:
  "list_all (codec_event_ok C) es \<Longrightarrow> mapR (event_from_dict C) (map event_to_dict es) = Inr es"
  by (induction es) (simp_all add: event_roundtrip)

lemma digest_events_some:
  "map_of d n = Some (map event_to_dict es) \<Longrightarrow> list_all (codec_event_ok C) es \<Longrightarrow>
   digest_events C n d = Inr es"
  by (simp add: digest_events_def parse_enc_events)

lemma digest_events_inv:
  assumes "digests_inv C d"
  shows "digest_events C n d = Inr (digest_list C n d)" "canonical C (digest_list C n d)"
proof -
  have "digest_events C n d = Inr (digest_list C n d) \<and> canonical C (digest_list C n d)"
  proof (cases "n \<in> fst ` set d")
    case True
    with assms show ?thesis
      by (auto simp: digests_inv_def canonical_def intro!: digest_events_some)
  next
    case False
    then have "map_of d n = None" by (simp add: map_of_eq_None_iff)
    then show ?thesis by (simp add: digest_list_def digest_events_def canonical_def)
  qed
  then show "digest_events C n d = Inr (digest_list C n d)" "canonical C (digest_list C n d)"
    by simp_all
qed

text \<open>The dictionary of the latest event per log identity.\<close>

lemma dedup_fold:
  "let d = foldl (\<lambda>d e. AList.update (log_identity e) e d) [] es in
   distinct (map fst d) \<and> (\<forall>(k, e) \<in> set d. k = log_identity e \<and> e \<in> set es) \<and>
   fst ` set d = log_identity ` set es"
proof (induction es rule: rev_induct)
  case (snoc e es)
  define d where "d = foldl (\<lambda>d e. AList.update (log_identity e) e d) [] es"
  from snoc have d: "distinct (map fst d)" "\<forall>(k, e) \<in> set d. k = log_identity e \<and> e \<in> set es"
    "fst ` set d = log_identity ` set es"
    by (simp_all add: d_def Let_def)
  have "fst ` set (AList.update (log_identity e) e d) = insert (log_identity e) (fst ` set d)"
    by (auto simp: set_update_distinct [OF d(1)] image_iff)
  with d show ?case
    by (auto simp: Let_def d_def [symmetric] set_update_distinct distinct_keys_update)
qed simp

lemma dedup_events_ids:
  "map log_identity (dedup_events es) =
     map fst (foldl (\<lambda>d e. AList.update (log_identity e) e d) [] es)"
  using dedup_fold [of es] by (auto simp: dedup_events_def Let_def)

lemma dedup_events_distinct [simp]: "distinct (map log_identity (dedup_events es))"
  using dedup_fold [of es] by (simp add: dedup_events_ids Let_def)

lemma dedup_events_subset: "set (dedup_events es) \<subseteq> set es"
  using dedup_fold [of es] by (auto simp: dedup_events_def Let_def)

lemma dedup_events_identities [simp]: "log_identity ` set (dedup_events es) = log_identity ` set es"
  using dedup_fold [of es] dedup_events_ids [of es] by (metis (no_types, lifting) list.set_map)

lemma dedup_events_id: "distinct (map log_identity es) \<Longrightarrow> dedup_events es = es"
  using foldl_update_fresh [of log_identity es "[]" "\<lambda>e. e"] by (simp add: dedup_events_def comp_def)

lemma dedup_events_snoc_set:
  "set (dedup_events (es @ [e])) =
     insert e {x \<in> set (dedup_events es). log_identity x \<noteq> log_identity e}"
proof -
  define d where "d = foldl (\<lambda>d e. AList.update (log_identity e) e d) [] es"
  have d: "distinct (map fst d)" "\<forall>(k, e) \<in> set d. k = log_identity e"
    using dedup_fold [of es] by (auto simp: d_def Let_def)
  then show ?thesis
    by (auto simp: dedup_events_def d_def [symmetric] set_update_distinct image_iff)
qed

lemma distinct_map_sort [simp]: "distinct (map f (sort_key g xs)) \<longleftrightarrow> distinct (map f xs)"
  by (simp add: distinct_map)

lemma canonical_dedup:
  "list_all (codec_event_ok C) es \<Longrightarrow> canonical C (sort_key position (dedup_events es))"
  using dedup_events_subset [of es] by (auto simp: canonical_def list_all_iff)

lemma canonical_filter: "canonical C es \<Longrightarrow> canonical C (filter P es)"
  by (auto simp: canonical_def list_all_iff distinct_map_filter sorted_positions_filter)

lemma canonical_fixpoint: "canonical C es \<Longrightarrow> sort_key position (dedup_events es) = es"
  by (simp add: canonical_def dedup_events_id sort_key_id)

lemma digest_replace_inv:
  assumes "digests_inv C d" "list_all (codec_event_ok C) es"
  shows "digests_inv C (digest_replace n es d)"
    and "digest_list C m (digest_replace n es d) =
      (if m = n then sort_key position (dedup_events es) else digest_list C m d)"
proof -
  let ?es = "sort_key position (dedup_events es)"
  have c: "canonical C ?es" using assms(2) by (rule canonical_dedup)
  then have n: "digest_events C n (digest_replace n es d) = Inr ?es"
    by (intro digest_events_some) (auto simp: digest_replace_def update_conv' canonical_def)
  have other: "digest_events C m (digest_replace n es d) = digest_events C m d" if "m \<noteq> n" for m
    using that by (simp add: digest_events_def digest_replace_def update_conv')
  from n other show list: "digest_list C m (digest_replace n es d) =
      (if m = n then ?es else digest_list C m d)" for m
    by (simp add: digest_list_def)
  from assms(1) c show "digests_inv C (digest_replace n es d)"
    unfolding digests_inv_def list
    by (auto simp: digest_replace_def distinct_keys_update update_conv' dom_update)
qed

lemma digest_append_inv:
  assumes "digests_inv C d" "codec_event_ok C e"
  shows "digest_append C n e d = Inr (digest_replace n (digest_list C n d @ [e]) d)"
    and "list_all (codec_event_ok C) (digest_list C n d @ [e])"
  using assms digest_events_inv [OF assms(1)] by (simp_all add: digest_append_def canonical_def)

lemma digest_discard_inv:
  assumes "digests_inv C d"
  shows "digest_discard C n gone d = Inr (digest_replace n
      (filter (\<lambda>e. log_identity e \<notin> log_identity ` set gone) (digest_list C n d)) d)"
  using digest_events_inv [OF assms] by (simp add: digest_discard_def)

lemma digest_discard_list:
  assumes "digests_inv C d" "digest_discard C n gone d = Inr d'"
  shows "digests_inv C d'"
    and "digest_list C m d' = (if m = n
      then filter (\<lambda>e. log_identity e \<notin> log_identity ` set gone) (digest_list C n d)
      else digest_list C m d)"
proof -
  let ?es = "filter (\<lambda>e. log_identity e \<notin> log_identity ` set gone) (digest_list C n d)"
  have c: "canonical C ?es"
    using digest_events_inv [OF assms(1)] by (intro canonical_filter) simp
  then have ok: "list_all (codec_event_ok C) ?es" by (simp add: canonical_def)
  from assms have d': "d' = digest_replace n ?es d" by (simp add: digest_discard_inv)
  from digest_replace_inv [OF assms(1) ok] canonical_fixpoint [OF c]
  show "digests_inv C d'" "digest_list C m d' = (if m = n then ?es else digest_list C m d)"
    by (simp_all add: d')
qed

lemma digest_append_list:
  assumes "digests_inv C d" "codec_event_ok C e" "digest_append C n e d = Inr d'"
  shows "digests_inv C d'"
    and "m \<noteq> n \<Longrightarrow> digest_list C m d' = digest_list C m d"
    and "set (digest_list C n d') =
      insert e {x \<in> set (digest_list C n d). log_identity x \<noteq> log_identity e}"
proof -
  note ap = digest_append_inv [OF assms(1,2), of n]
  with assms(3) have d': "d' = digest_replace n (digest_list C n d @ [e]) d" by simp
  from digest_replace_inv [OF assms(1) ap(2)]
  show "digests_inv C d'" "m \<noteq> n \<Longrightarrow> digest_list C m d' = digest_list C m d"
    by (simp_all add: d')
  have "dedup_events (digest_list C n d) = digest_list C n d"
    using digest_events_inv(2) [OF assms(1)] by (simp add: canonical_def dedup_events_id)
  with digest_replace_inv(2) [OF assms(1) ap(2), of n n]
  show "set (digest_list C n d') =
      insert e {x \<in> set (digest_list C n d). log_identity x \<noteq> log_identity e}"
    by (simp add: d' dedup_events_snoc_set)
qed

interpretation digest: keyed_store log_identity "digest_list C n" "digest_put C n"
  "digest_remove C n" "digests_inv C" "codec_event_ok C" for C n
proof (unfold_locales, goal_cases)
  case (1 s)
  then show ?case using digest_events_inv(2) [of C s n] by (simp add: canonical_def)
next
  case (2 s x)
  then show ?case
    using digest_append_inv(1) [of C s x n] digest_append_list(1) [of C s x n]
    by (simp add: digest_put_def)
next
  case (3 s x)
  then show ?case
    using digest_append_inv(1) [of C s x n] digest_append_list(3) [of C s x n]
    by (simp add: digest_put_def)
next
  case (4 s x)
  then show ?case
    using digest_discard_inv [of C s n "[x]"] digest_discard_list(1) [of C s n "[x]"]
    by (simp add: digest_remove_def)
next
  case (5 s x)
  then show ?case
    using digest_discard_inv [of C s n "[x]"] digest_discard_list(2) [of C s n "[x]" _ n]
    by (simp add: digest_remove_def)
qed

section \<open>Reloading persisted state\<close>

lemma normalise_windows_enc:
  "distinct (map window_id ws) \<Longrightarrow> list_all (window_ok C) ws \<Longrightarrow>
   normalise_windows C (VDict (map (\<lambda>(k, v). (VStr k, v)) (enc_windows ws))) = Inr (enc_windows ws)"
proof -
  assume d: "distinct (map window_id ws)" and ok: "list_all (window_ok C) ws"
  have dk: "distinct (map window_key ws)"
    using d by (induction ws) (auto simp: image_iff)
  let ?d = "map (\<lambda>(k, v). (VStr k, v)) (enc_windows ws)"
  have "map snd ?d = map snd (enc_windows ws)"
    by (simp add: case_prod_unfold comp_def)
  with records_from_enc [OF ok] have recs: "records_from C (map snd ?d) = Inr ws" by (simp only:)
  have enc: "foldl (\<lambda>r w. AList.update (window_key w) (window_to_dict w) r) [] ws = enc_windows ws"
    using foldl_update_fresh [OF dk, of "[]" window_to_dict] by (simp add: enc_windows_def)
  show ?thesis
  proof (cases "ws = []")
    case True
    then show ?thesis by (simp add: normalise_windows_def enc_windows_def)
  next
    case False
    then have "truthy (VDict ?d)" by (simp add: enc_windows_def)
    then show ?thesis by (simp only: normalise_windows_def pyval.case recs bindR.simps enc if_False simp_thms)
  qed
qed

lemma parse_events_enc:
  "list_all (codec_event_ok C) es \<Longrightarrow> parse_events C (VList (map event_to_dict es)) = Inr es"
proof -
  assume ok: "list_all (codec_event_ok C) es"
  then have "parse_skipping (event_from_dict C) (map event_to_dict es) = Inr es"
    by (induction es) (simp_all add: event_roundtrip)
  then show ?thesis by (cases es) (simp_all add: parse_events_def)
qed

lemma normalise_digest_items_enc:
  "distinct (map fst (a @ d)) \<Longrightarrow>
   \<forall>p \<in> set d. \<exists>es. snd p = map event_to_dict es \<and> list_all (codec_event_ok C) es \<Longrightarrow>
   normalise_digest_items C (map (\<lambda>(n, rs). (VStr n, VList rs)) d) a = Inr (a @ d)"
proof (induction d arbitrary: a)
  case (Cons p d)
  obtain n rs where p: "p = (n, rs)" by force
  with Cons.prems(2) obtain es where es: "rs = map event_to_dict es" "list_all (codec_event_ok C) es"
    by auto
  from Cons.prems(1) p have "AList.update n rs a = a @ [(n, rs)]" by (intro update_fresh) force
  with Cons.IH [of "a @ [(n, rs)]"] Cons.prems p es show ?case by (simp add: parse_events_enc)
qed simp

lemma normalise_digests_enc:
  assumes "digests_inv C d"
  shows "normalise_digests C (digests_val d) = Inr d"
proof (cases "d = []")
  case False
  have dist: "distinct (map fst d)" using assms by (simp add: digests_inv_def)
  have "\<forall>p \<in> set d. \<exists>es. snd p = map event_to_dict es \<and> list_all (codec_event_ok C) es"
  proof
    fix p
    assume "p \<in> set d"
    then obtain n rs where p: "p = (n, rs)" "(n, rs) \<in> set d" by (metis surj_pair)
    with dist have "map_of d n = Some rs" by simp
    with assms p show "\<exists>es. snd p = map event_to_dict es \<and> list_all (codec_event_ok C) es"
      by (force simp: digests_inv_def canonical_def)
  qed
  with normalise_digest_items_enc [of "[]" d C] dist False show ?thesis
    by (simp add: normalise_digests_def digests_val_def)
qed (simp add: normalise_digests_def digests_val_def)

lemma pop_group_windows_kept:
  "pop_group_windows C g items = (kept, Inr es) \<Longrightarrow> pop_group_windows C g kept = (kept, Inr [])"
proof (induction items arbitrary: kept es)
  case (Cons p items)
  obtain k v where p: "p = (k, v)" by force
  obtain kept' res where rest: "pop_group_windows C g items = (kept', res)" by force
  show ?case
  proof (cases "\<exists>r. v = VDict r \<and> val_get r ''group'' = VStr g")
    case True
    then obtain r where "v = VDict r" "val_get r ''group'' = VStr g" by blast
    with Cons p rest show ?thesis by (cases res) (auto split: sum.splits)
  next
    case False
    with Cons.prems p rest have "kept = (k, v) # kept'" "res = Inr es"
      by (auto split: pyval.splits if_splits)
    with Cons.IH rest False show ?thesis by (cases v) auto
  qed
qed simp

lemma pop_group_events_fixpoint:
  "pop_group_events C d g = (d, Inr []) \<longleftrightarrow>
   (\<forall>items. map_of d ''aggregation_windows'' = Some (VDict items) \<longrightarrow>
      pop_group_windows C g items = (items, Inr []))"
proof (cases "\<exists>items. map_of d ''aggregation_windows'' = Some (VDict items)")
  case True
  then obtain items where items: "map_of d ''aggregation_windows'' = Some (VDict items)" by blast
  obtain kept es where k: "pop_group_windows C g items = (kept, es)" by force
  have "AList.update ''aggregation_windows'' (VDict kept) d = d \<longleftrightarrow> kept = items"
  proof
    assume "AList.update ''aggregation_windows'' (VDict kept) d = d"
    then have "map_of (AList.update ''aggregation_windows'' (VDict kept) d) ''aggregation_windows'' =
        map_of d ''aggregation_windows''" by simp
    with items show "kept = items" by (simp add: update_conv')
  qed (simp add: items update_same)
  with items k show ?thesis by (simp add: pop_group_events_def)
next
  case False
  then show ?thesis by (auto simp: pop_group_events_def split: option.splits pyval.splits)
qed

lemma pop_group_events_again:
  assumes "pop_group_events C d g = (d', Inr es)"
  shows "pop_group_events C d' g = (d', Inr [])"
    and "k \<noteq> ''aggregation_windows'' \<Longrightarrow> map_of d' k = map_of d k"
proof -
  show "pop_group_events C d' g = (d', Inr [])"
    unfolding pop_group_events_fixpoint
    using assms by (auto simp: pop_group_events_def update_conv'
        split: option.splits pyval.splits prod.splits dest: pop_group_windows_kept)
  show "k \<noteq> ''aggregation_windows'' \<Longrightarrow> map_of d' k = map_of d k"
    using assms by (auto simp: pop_group_events_def update_conv'
        split: option.splits pyval.splits prod.splits)
qed

section \<open>Properties\<close>

text \<open>Two windows share the JSON key under which they are persisted exactly when they have
  the same group, aggregation key and block range, whatever characters the texts contain.\<close>

theorem window_key_identity:
  "window_key v = window_key w \<longleftrightarrow>
     aw_group v = aw_group w \<and> aw_key v = aw_key w \<and>
     aw_start v = aw_start w \<and> aw_end v = aw_end w"
  by (simp add: window_id_def)

text \<open>C10: the persisted window store refines a set of typed windows: after an upsert exactly the
  window itself and the windows of another identity are pending, a discard removes exactly the
  window of that identity, and reloading the persisted dictionary changes nothing.\<close>

theorem window_store_refinement:
  assumes "windows_inv C r" "window_ok C w"
  shows "\<exists>ws us ds. pending C r = Inr ws \<and> pending C (upsert_pending w r) = Inr us \<and>
     pending C (discard_window w r) = Inr ds \<and>
     set us = insert w {v \<in> set ws. window_id v \<noteq> window_id w} \<and>
     ds = filter (\<lambda>v. window_id v \<noteq> window_id w) ws \<and>
     distinct (map window_id us) \<and>
     normalise_windows C (VDict (map (\<lambda>(k, v). (VStr k, v)) (upsert_pending w r))) =
       Inr (upsert_pending w r)"
proof -
  note up = windows.put_ok [OF assms]
  have "normalise_windows C (VDict (map (\<lambda>(k, v). (VStr k, v)) (upsert_pending w r))) =
      Inr (upsert_pending w r)"
    using up by (rule windows_invE) (simp add: normalise_windows_enc)
  with pending_inv [OF assms(1)] pending_inv [OF up] pending_inv [OF windows.remove_ok [OF assms(1)]]
    windows.put_set [OF assms] windows.remove_content [OF assms(1)] windows.content_distinct [OF up]
  show ?thesis by blast
qed

lemma sample_window_ok: "window_ok sample_codec w \<longleftrightarrow> finite (aw_names w)"
  by (simp add: window_ok_def list_all_iff)

lemma window_store_refinement_witness:
  "let w = \<lparr>aw_group = ''g'', aw_key = global_key, aw_start = 1, aw_end = 5,
        aw_names = {''A''}, aw_events = [sample_event ''A'' ''k'' 7 1 0]\<rparr> in
   \<exists>us. pending sample_codec (upsert_pending w []) = Inr us \<and> set us = {w}"
  using window_store_refinement [of sample_codec "[]" "\<lparr>aw_group = ''g'', aw_key = global_key,
      aw_start = 1, aw_end = 5, aw_names = {''A''}, aw_events = [sample_event ''A'' ''k'' 7 1 0]\<rparr>"]
  by (auto simp: sample_window_ok Let_def pending_inv)

text \<open>C11: a digest holds its pending events sorted by chain position and at most once per log:
  appending an event (again) leaves exactly that event and the events of other logs, discarding
  removes exactly the logs discarded, other digests are untouched, and reloading the persisted
  digests changes nothing.\<close>

theorem digest_store_refinement:
  assumes "digests_inv C d" "codec_event_ok C e"
  shows "\<exists>d1 d2 es es1 es2. digest_events C n d = Inr es \<and>
     digest_append C n e d = Inr d1 \<and> digest_events C n d1 = Inr es1 \<and>
     set es1 = insert e {x \<in> set es. log_identity x \<noteq> log_identity e} \<and>
     sorted (map position es1) \<and> distinct (map log_identity es1) \<and>
     digest_discard C n gone d = Inr d2 \<and> digest_events C n d2 = Inr es2 \<and>
     es2 = filter (\<lambda>x. log_identity x \<notin> log_identity ` set gone) es \<and>
     (\<forall>m. m \<noteq> n \<longrightarrow> digest_events C m d1 = digest_events C m d \<and>
        digest_events C m d2 = digest_events C m d) \<and>
     normalise_digests C (digests_val d1) = Inr d1"
proof -
  from digest_append_inv(1) [OF assms, of n] obtain d1 where d1: "digest_append C n e d = Inr d1"
    by simp
  from digest_discard_inv [OF assms(1), of n gone] obtain d2 where d2: "digest_discard C n gone d = Inr d2"
    by simp
  note a = digest_append_list [OF assms d1] and b = digest_discard_list [OF assms(1) d2]
  note ev = digest_events_inv(1)
  have c: "canonical C (digest_list C n d1)" using digest_events_inv(2) [OF a(1)] .
  have "\<forall>m. m \<noteq> n \<longrightarrow> digest_events C m d1 = digest_events C m d \<and>
        digest_events C m d2 = digest_events C m d"
    using a(2) b(2) by (simp add: ev [OF assms(1)] ev [OF a(1)] ev [OF b(1)])
  with c a(3) b(2) [of n] normalise_digests_enc [OF a(1)] d1 d2 show ?thesis
    by (simp add: ev [OF assms(1)] ev [OF a(1)] ev [OF b(1)] canonical_def)
qed

lemma digest_store_refinement_witness:
  "\<exists>d1 es1. digest_append sample_codec ''n'' (sample_event ''A'' ''k'' 7 1 0) [] = Inr d1 \<and>
     digest_events sample_codec ''n'' d1 = Inr es1 \<and> set es1 = {sample_event ''A'' ''k'' 7 1 0}"
proof -
  have "digests_inv sample_codec []" by (simp add: digests_inv_def)
  from digest_store_refinement [OF this sample_codec_ok, of "''n''" "sample_event ''A'' ''k'' 7 1 0" "[]"]
  show ?thesis by (auto simp: digest_events_def)
qed

text \<open>The legacy migration is done once: after a successful run the legacy digest key is
  gone, no window of the legacy group is left, and a second run changes nothing.\<close>

theorem legacy_migration_once:
  assumes "migrate_legacy_storage C d = (d', Inr ())"
  shows "map_of d' ''digest_events'' = None \<and> migrate_legacy_storage C d' = (d', Inr ())"
proof -
  let ?d1 = "AList.delete ''digest_events'' d"
  let ?g = LEGACY_DEPOSIT_AGGREGATION_GROUP
  from assms obtain d2 es2 where pop: "pop_group_events C ?d1 ?g = (d2, Inr es2)"
    and d': "d' = d2 \<or> (\<exists>s. d' = AList.update ''digests'' (digests_val s) d2)"
    by (auto simp: migrate_legacy_storage_def Let_def split: sum.splits prod.splits if_splits)
  have gone: "map_of d' ''digest_events'' = None"
    using d' pop_group_events_again(2) [OF pop, of "''digest_events''"]
    by (auto simp: map_of_delete update_conv')
  have again: "pop_group_events C d' ?g = (d', Inr [])"
    using d' pop_group_events_again(1) [OF pop]
    by (auto simp: pop_group_events_fixpoint update_conv')
  have "''digest_events'' \<notin> fst ` set d'" using gone by (simp add: map_of_eq_None_iff)
  then have "AList.delete ''digest_events'' d' = d'" by (simp add: delete_id)
  with gone again show ?thesis
    by (simp add: migrate_legacy_storage_def Let_def raw_get_def parse_events_def)
qed

lemma legacy_migration_once_witness:
  "\<exists>d'. migrate_legacy_storage sample_codec [(''digest_events'',
      VList [event_to_dict (sample_event ''A'' ''k'' 7 1 0)])] = (d', Inr ()) \<and>
    migrate_legacy_storage sample_codec d' = (d', Inr ())"
proof -
  let ?e = "sample_event ''A'' ''k'' 7 1 0"
  have "migrate_legacy_storage sample_codec [(''digest_events'', VList [event_to_dict ?e])] =
      ([(''digests'', VDict [(VStr DEPOSITED_SIGNING_KEYS, VList [event_to_dict ?e])])], Inr ())"
    by (simp add: migrate_legacy_storage_def Let_def raw_get_def parse_events_def event_roundtrip
        pop_group_events_def normalise_digests_def digest_extend_def digest_events_def
        digest_replace_def dedup_events_def digests_val_def)
  with legacy_migration_once [OF this] show ?thesis by blast
qed

end
