(* ===== verification/Bot_Storage.thy ===== *)
theory Bot_Storage
  imports Event_Store
begin

text \<open>
  \<open>BotStorage\<close> of \<open>sentinel/app/storage.py\<close>: the application-wide state, built from the
  persisted dictionary by the constructors of its parts, and the operations that span several
  parts, chat migration and target resolution.
\<close>

record bot_storage =
  bs_block :: int
  bs_users :: "int set"
  bs_groups :: "int set"
  bs_channels :: "int set"
  bs_operators :: operator_index
  bs_digests :: digests
  bs_windows :: records
  bs_jobs :: job_markers

definition BotStorage :: "codec \<Rightarrow> iso_text \<Rightarrow> raw_data \<Rightarrow> bot_storage res" where
  "BotStorage C I d =
     bindR (block_state d) (\<lambda>b.
     bindR (normalise_digests C (raw_get d ''digests'')) (\<lambda>ds.
     bindR (normalise_windows C (raw_get d ''aggregation_windows'')) (\<lambda>ws.
     bindR (normalise_jobs C I (raw_get d ''scheduled_jobs'')) (\<lambda>js.
       Inr \<lparr>bs_block = b,
            bs_users = chat_id_set d ''user_ids'',
            bs_groups = chat_id_set d ''group_ids'',
            bs_channels = chat_id_set d ''channel_ids'',
            bs_operators = node_operator_chats C d,
            bs_digests = ds, bs_windows = ws, bs_jobs = js\<rparr>))))"

definition update_block :: "int \<Rightarrow> bot_storage \<Rightarrow> bot_storage" where
  "update_block b s = s\<lparr>bs_block := b\<rparr>"

definition actual_chat_ids :: "bot_storage \<Rightarrow> int set" where
  "actual_chat_ids s = bs_users s \<union> bs_groups s \<union> bs_channels s"

definition resolve_target_chats :: "bot_storage \<Rightarrow> string set \<Rightarrow> int set" where
  "resolve_target_chats s ids = resolve_targets (bs_operators s) ids (actual_chat_ids s)"

definition subscription_counts :: "bot_storage \<Rightarrow> (string \<times> subscription_count) list" where
  "subscription_counts s = subscription_counts_of (bs_operators s) (actual_chat_ids s)
     (bs_users s) (bs_groups s) (bs_channels s)"

definition migrate_chat_id :: "int \<Rightarrow> int \<Rightarrow> bot_storage \<Rightarrow> bot_storage" where
  "migrate_chat_id old new s =
     s\<lparr>bs_users := fst (chats_migrate old new (bs_users s)),
       bs_groups := fst (chats_migrate old new (bs_groups s)),
       bs_channels := fst (chats_migrate old new (bs_channels s)),
       bs_operators := fst (index_migrate old new (bs_operators s))\<rparr>"

section \<open>Persisting and reloading\<close>

definition bot_data_of :: "bot_storage \<Rightarrow> raw_data" where
  "bot_data_of s =
     [(''block'', VInt (bs_block s)),
      (''user_ids'', int_set_val (bs_users s)),
      (''group_ids'', int_set_val (bs_groups s)),
      (''channel_ids'', int_set_val (bs_channels s)),
      (''no_ids_to_chats'', index_val (bs_operators s)),
      (''digests'', digests_val (bs_digests s)),
      (''aggregation_windows'', VDict (map (\<lambda>(k, v). (VStr k, v)) (bs_windows s))),
      (''scheduled_jobs'', VDict (map (\<lambda>(k, s). (VStr k, VDict [(VStr ''completed_for'', VStr s)]))
         (bs_jobs s)))]"

text \<open>
  A stored marker is the ISO text of an aware datetime in UTC, which the parser reads back.
\<close>

definition marker_ok :: "iso_text \<Rightarrow> string \<Rightarrow> bool" where
  "marker_ok I s \<longleftrightarrow> (case iso_parse I (VStr s) of
     Inl _ \<Rightarrow> False | Inr t \<Rightarrow> dt_offset t \<noteq> None \<and> iso_format I (as_utc t) = s)"

definition bot_storage_inv :: "codec \<Rightarrow> iso_text \<Rightarrow> bot_storage \<Rightarrow> bool" where
  "bot_storage_inv C I s \<longleftrightarrow>
     finite (bs_users s) \<and> finite (bs_groups s) \<and> finite (bs_channels s) \<and>
     distinct (map fst (bs_operators s)) \<and> (\<forall>c \<in> snd ` set (bs_operators s). finite c) \<and>
     digests_inv C (bs_digests s) \<and> windows_inv C (bs_windows s) \<and>
     distinct (map fst (bs_jobs s)) \<and> (\<forall>p \<in> set (bs_jobs s). marker_ok I (snd p))"

lemma normalise_job_items_enc:
  "distinct (map fst (a @ m)) \<Longrightarrow> \<forall>p \<in> set m. marker_ok I (snd p) \<Longrightarrow>
   normalise_job_items C I (map (\<lambda>(k, s). (VStr k, VDict [(VStr ''completed_for'', VStr s)])) m) a
     = Inr (a @ m)"
proof (induction m arbitrary: a)
  case (Cons p m)
  obtain k s where p: "p = (k, s)" by force
  with Cons.prems(2) have "parse_marker I (VDict [(VStr ''completed_for'', VStr s)]) = Inr s"
    by (auto simp: marker_ok_def parse_marker_def split: sum.splits)
  moreover from Cons.prems(1) p have "AList.update k s a = a @ [(k, s)]"
    by (intro update_fresh) force
  ultimately show ?case using Cons.IH [of "a @ [(k, s)]"] Cons.prems p by simp
qed simp

lemma normalise_jobs_enc:
  "distinct (map fst m) \<Longrightarrow> \<forall>p \<in> set m. marker_ok I (snd p) \<Longrightarrow>
   normalise_jobs C I (VDict (map (\<lambda>(k, s). (VStr k, VDict [(VStr ''completed_for'', VStr s)])) m))
     = Inr m"
  using normalise_job_items_enc [of "[]" m I C] by (cases m) (simp_all add: normalise_jobs_def)

lemma normalise_windows_inv:
  "windows_inv C r \<Longrightarrow> normalise_windows C (VDict (map (\<lambda>(k, v). (VStr k, v)) r)) = Inr r"
  by (erule windows_invE) (simp add: normalise_windows_enc)

section \<open>Renaming a chat\<close>

definition rename_chat :: "int \<Rightarrow> int \<Rightarrow> int \<Rightarrow> int" where
  "rename_chat old new c = (if c = old then new else c)"

lemma chats_migrate_rename: "fst (chats_migrate old new s) = rename_chat old new ` s"
  by (auto simp: chats_migrate_def rename_chat_def image_iff split: if_splits)

lemma index_migrate_rename:
  "chats_at (fst (index_migrate old new m)) k = rename_chat old new ` chats_at m k"
  by (auto simp: chats_at_migrate rename_chat_def image_iff split: if_splits)

lemma rename_chat_inj: "new \<notin> A \<Longrightarrow> inj_on (rename_chat old new) A"
  by (auto simp: inj_on_def rename_chat_def split: if_splits)

text \<open>A second migration finds nothing to rename.\<close>

lemma chats_migrate_again [simp]:
  "fst (chats_migrate old new (fst (chats_migrate old new A))) = fst (chats_migrate old new A)"
  by (simp add: chats_migrate_def)

lemma index_migrate_again [simp]:
  "fst (index_migrate old new (fst (index_migrate old new m))) = fst (index_migrate old new m)"
  by (auto simp: index_migrate_def)

lemma migrate_chat_id_again:
  "migrate_chat_id old new (migrate_chat_id old new s) = migrate_chat_id old new s"
  by (simp add: migrate_chat_id_def)

section \<open>Properties\<close>

text \<open>C12: a restart loses nothing: building the storage from the persisted form of a well-formed
  state gives that state back.\<close>

theorem bot_storage_reload:
  assumes "bot_storage_inv C I s"
  shows "BotStorage C I (bot_data_of s) = Inr s"
  using assms
  by (simp add: bot_storage_inv_def BotStorage_def bot_data_of_def block_state_def raw_get_def
      normalise_digests_enc normalise_windows_inv normalise_jobs_enc chat_id_set_def
      node_operator_chats_def normalise_index_val)

definition sample_iso :: iso_text where
  "sample_iso = \<lparr>iso_format = (\<lambda>t. int_str (dt_instant t)),
     iso_parse = (\<lambda>v. case v of
        VStr s \<Rightarrow> bindR (py_int s) (\<lambda>i. Inr \<lparr>dt_instant = i, dt_offset = Some 0\<rparr>)
      | _ \<Rightarrow> Inl TypeError)\<rparr>"

lemma bot_storage_reload_witness:
  "let s = \<lparr>bs_block = 7, bs_users = {1, 2}, bs_groups = {- 5}, bs_channels = {},
       bs_operators = [(''3'', {1, - 5})], bs_digests = [], bs_windows = [],
       bs_jobs = [(''deposit_digest'', ''5'')]\<rparr> in
   BotStorage sample_codec sample_iso (bot_data_of s) = Inr s"
proof -
  have "''5'' = int_str 5" by code_simp
  then have "marker_ok sample_iso ''5''"
    by (simp add: marker_ok_def sample_iso_def py_simps as_utc_def)
  then show ?thesis
    unfolding Let_def
    by (intro bot_storage_reload) (simp add: bot_storage_inv_def digests_inv_def)
qed

text \<open>C13: migrating a chat renames it everywhere, whatever the state: in the users, the groups,
  the channels and the subscriptions of every operator the old id is replaced by the new one
  (where both were known they merge), nothing else of the storage changes, and the old id is
  gone. The chats resolved for a set of operators are the renamed subscribers among the renamed
  known chats, so a chat that was reached before is reached under its new id; when the new id was
  unknown before they are exactly the renamed chats resolved before. Migrating again, as the
  second of Telegram's two service messages does, changes nothing.\<close>

theorem chat_migration:
  assumes "r = (\<lambda>c. if c = old then new else c)" "s' = migrate_chat_id old new s"
  shows "bs_users s' = r ` bs_users s \<and> bs_groups s' = r ` bs_groups s \<and>
     bs_channels s' = r ` bs_channels s \<and>
     map fst (bs_operators s') = map fst (bs_operators s) \<and>
     (\<forall>k. chats_at (bs_operators s') k = r ` chats_at (bs_operators s) k) \<and>
     s' = s\<lparr>bs_users := bs_users s', bs_groups := bs_groups s', bs_channels := bs_channels s',
            bs_operators := bs_operators s'\<rparr> \<and>
     (old = new \<or> old \<notin> actual_chat_ids s' \<and> (\<forall>k. old \<notin> chats_at (bs_operators s') k)) \<and>
     resolve_target_chats s' ids =
       r ` (\<Union>k \<in> ids. chats_at (bs_operators s) k) \<inter> r ` actual_chat_ids s \<and>
     r ` resolve_target_chats s ids \<subseteq> resolve_target_chats s' ids \<and>
     (new \<notin> actual_chat_ids s \<longrightarrow> (\<forall>k. new \<notin> chats_at (bs_operators s) k) \<longrightarrow>
        resolve_target_chats s' ids = r ` resolve_target_chats s ids) \<and>
     migrate_chat_id old new s' = s'"
proof -
  let ?S = "\<Union>k \<in> ids. chats_at (bs_operators s) k"
  have r: "r = rename_chat old new" by (simp add: assms(1) rename_chat_def fun_eq_iff)
  have sets: "bs_users s' = r ` bs_users s" "bs_groups s' = r ` bs_groups s"
    "bs_channels s' = r ` bs_channels s"
    by (simp_all add: assms(2) migrate_chat_id_def chats_migrate_rename r)
  have ops: "chats_at (bs_operators s') k = r ` chats_at (bs_operators s) k" for k
    by (simp add: assms(2) migrate_chat_id_def index_migrate_rename r)
  have act: "actual_chat_ids s' = r ` actual_chat_ids s"
    by (simp add: actual_chat_ids_def sets image_Un)
  have res: "resolve_target_chats s' ids = r ` ?S \<inter> r ` actual_chat_ids s"
    by (simp add: resolve_target_chats_def resolve_targets_def act ops image_UN)
  have exact: "resolve_target_chats s' ids = r ` resolve_target_chats s ids"
    if "new \<notin> actual_chat_ids s" "\<forall>k. new \<notin> chats_at (bs_operators s) k"
  proof -
    have "inj_on r (?S \<union> actual_chat_ids s)"
      unfolding r using that by (intro rename_chat_inj) auto
    then have "r ` ?S \<inter> r ` actual_chat_ids s = r ` (?S \<inter> actual_chat_ids s)"
      by (simp add: inj_on_image_Int)
    then show ?thesis
      by (simp only: res) (simp add: resolve_target_chats_def resolve_targets_def)
  qed
  have sub: "r ` resolve_target_chats s ids \<subseteq> resolve_target_chats s' ids"
    unfolding res by (auto simp: resolve_target_chats_def resolve_targets_def)
  have gone: "old = new \<or> old \<notin> r ` A" for A
    by (auto simp: assms(1))
  have keys: "map fst (bs_operators s') = map fst (bs_operators s)"
    by (simp add: assms(2) migrate_chat_id_def keys_index_migrate)
  have frame: "s' = s\<lparr>bs_users := bs_users s', bs_groups := bs_groups s',
      bs_channels := bs_channels s', bs_operators := bs_operators s'\<rparr>"
    by (simp add: assms(2) migrate_chat_id_def)
  have again: "migrate_chat_id old new s' = s'"
    unfolding assms(2) by (rule migrate_chat_id_again)
  show ?thesis
    using sets ops act exact sub gone [of "actual_chat_ids s"] gone keys frame again res
    by (intro conjI allI impI) (assumption | simp only: | blast)+
qed

lemma chat_migration_witness:
  "let s = \<lparr>bs_block = 7, bs_users = {}, bs_groups = {- 5}, bs_channels = {},
       bs_operators = [(''3'', {- 5})], bs_digests = [], bs_windows = [], bs_jobs = []\<rparr> in
   resolve_target_chats (migrate_chat_id (- 5) (- 1005) s) {''3''} =
     (\<lambda>c. if c = - 5 then - 1005 else c) ` resolve_target_chats s {''3''}"
proof -
  let ?s = "\<lparr>bs_block = 7, bs_users = {}, bs_groups = {- 5}, bs_channels = {},
      bs_operators = [(''3'', {- 5})], bs_digests = [], bs_windows = [], bs_jobs = []\<rparr>"
  have "- 1005 \<notin> actual_chat_ids ?s" "\<forall>k. - 1005 \<notin> chats_at (bs_operators ?s) k"
    by (simp_all add: actual_chat_ids_def chats_at_def)
  with chat_migration [OF refl refl, of "- 5" "- 1005" ?s "{''3''}"] show ?thesis
    unfolding Let_def by blast
qed

end
