(* ===== verification/Coordinator.thy ===== *)
theory Coordinator
  imports Bot_Storage
begin

text \<open>
  The aggregation coordinator, \<open>sentinel/services/aggregation.py\<close>: events are accumulated in
  persisted windows and flushed at processed block boundaries. The state is the bot storage
  together with the log of emitted notifications; the emitter is a parameter \<open>em\<close> that says
  for the notifications emitted so far whether emitting the next one raises. The adapter state
  \<open>'m\<close> is carried along for the module runtime.
\<close>

record 'm pipeline =
  pl_store :: bot_storage
  pl_sent :: "notification list"
  pl_adapter :: 'm

type_synonym emitter = "notification list \<Rightarrow> notification \<Rightarrow> py_error option"

definition set_windows :: "records \<Rightarrow> 'm pipeline \<Rightarrow> 'm pipeline" where
  "set_windows r s = s\<lparr>pl_store := (pl_store s)\<lparr>bs_windows := r\<rparr>\<rparr>"

definition windows_of :: "'m pipeline \<Rightarrow> records" where
  "windows_of s = bs_windows (pl_store s)"

definition aggregator_for_group :: "aggregator list \<Rightarrow> string \<Rightarrow> aggregator option" where
  "aggregator_for_group ags g = find (\<lambda>a. ag_name (agg_group a) = g) (rev ags)"

definition aggregator_for_event :: "aggregator list \<Rightarrow> string \<Rightarrow> aggregator option" where
  "aggregator_for_event ags ev = find (\<lambda>a. ev \<in> agg_names a) (rev ags)"

definition pending_window_count :: "codec \<Rightarrow> 'm pipeline \<Rightarrow> nat res" where
  "pending_window_count C s = bindR (pending C (windows_of s)) (\<lambda>ws. Inr (length ws))"

record prepared =
  pn_notifications :: "notification list"
  pn_window :: "window option"

definition emit_notification :: "emitter \<Rightarrow> notification \<Rightarrow> 'm pipeline \<Rightarrow> 'm pipeline \<times> unit res" where
  "emit_notification em n s =
     (case em (pl_sent s) n of
        Some e \<Rightarrow> (s, Inl e)
      | None \<Rightarrow> (s\<lparr>pl_sent := pl_sent s @ [n]\<rparr>, Inr ()))"

fun emit_all :: "emitter \<Rightarrow> notification list \<Rightarrow> 'm pipeline \<Rightarrow> 'm pipeline \<times> unit res" where
  "emit_all em [] s = (s, Inr ())"
| "emit_all em (n # ns) s = bindS (emit_notification em n) (\<lambda>_. emit_all em ns) s"

definition emit_prepared :: "emitter \<Rightarrow> prepared \<Rightarrow> 'm pipeline \<Rightarrow> 'm pipeline \<times> unit res" where
  "emit_prepared em p = bindS (emit_all em (pn_notifications p)) (\<lambda>_ s.
     case pn_window p of
       None \<Rightarrow> (s, Inr ())
     | Some w \<Rightarrow> (set_windows (discard_window w (windows_of s)) s, Inr ()))"

definition prepare ::
  "codec \<Rightarrow> aggregator list \<Rightarrow> event \<Rightarrow> 'm pipeline \<Rightarrow> 'm pipeline \<times> prepared res" where
  "prepare C ags e s =
     (case aggregator_for_event ags (ev_name e) of
        None \<Rightarrow> (s, bindR (from_event e) (\<lambda>n. Inr \<lparr>pn_notifications = [n], pn_window = None\<rparr>))
      | Some a \<Rightarrow>
          (case bindR (aggregation_key_for C a e) (\<lambda>k.
                bindR (pending_for C (ag_name (agg_group a)) k (ev_block e) (windows_of s)) (\<lambda>ow.
                  (case ow of None \<Rightarrow> window_for C a e | Some w \<Rightarrow> Inr w))) of
             Inl err \<Rightarrow> (s, Inl err)
           | Inr w \<Rightarrow> (set_windows (upsert_pending (with_event w e) (windows_of s)) s,
                       Inr \<lparr>pn_notifications = [], pn_window = None\<rparr>)))"

definition coordinator_handle_event ::
  "codec \<Rightarrow> emitter \<Rightarrow> aggregator list \<Rightarrow> event \<Rightarrow> 'm pipeline \<Rightarrow> 'm pipeline \<times> unit res" where
  "coordinator_handle_event C em ags e = bindS (prepare C ags e) (\<lambda>p. emit_prepared em p)"

definition flush_order :: "window \<Rightarrow> int \<times> int \<times> string \<times> string \<times> string" where
  "flush_order w = (aw_end w, aw_start w, aw_group w, ak_kind (aw_key w), ak_value (aw_key w))"

definition ready_windows :: "int \<Rightarrow> window list \<Rightarrow> window list" where
  "ready_windows b ws = sort_key flush_order (filter (\<lambda>w. aw_end w \<le> b) ws)"

definition flush_window ::
  "emitter \<Rightarrow> aggregator list \<Rightarrow> window \<Rightarrow> 'm pipeline \<Rightarrow> 'm pipeline \<times> unit res" where
  "flush_window em ags w s =
     (case aggregator_for_group ags (aw_group w) of
        None \<Rightarrow> (set_windows (discard_window w (windows_of s)) s, Inr ())
      | Some a \<Rightarrow> bindS (liftS (aggregate a (aw_events w))) (\<lambda>ns.
          emit_prepared em \<lparr>pn_notifications = ns, pn_window = Some w\<rparr>) s)"

fun flush_windows ::
  "emitter \<Rightarrow> aggregator list \<Rightarrow> window list \<Rightarrow> 'm pipeline \<Rightarrow> 'm pipeline \<times> unit res" where
  "flush_windows em ags [] s = (s, Inr ())"
| "flush_windows em ags (w # ws) s =
     bindS (flush_window em ags w) (\<lambda>_. flush_windows em ags ws) s"

definition flush_ready_windows ::
  "codec \<Rightarrow> emitter \<Rightarrow> aggregator list \<Rightarrow> int \<Rightarrow> 'm pipeline \<Rightarrow> 'm pipeline \<times> unit res" where
  "flush_ready_windows C em ags b s =
     bindS (liftS (pending C (windows_of s))) (\<lambda>ws. flush_windows em ags (ready_windows b ws)) s"

definition coordinator_handle_block ::
  "codec \<Rightarrow> emitter \<Rightarrow> aggregator list \<Rightarrow> int \<Rightarrow> 'm pipeline \<Rightarrow> 'm pipeline \<times> unit res" where
  "coordinator_handle_block C em ags b = flush_ready_windows C em ags b"

definition resume_pending ::
  "codec \<Rightarrow> emitter \<Rightarrow> aggregator list \<Rightarrow> 'm pipeline \<Rightarrow> 'm pipeline \<times> unit res" where
  "resume_pending C em ags s = flush_ready_windows C em ags (bs_block (pl_store s)) s"

section \<open>Emitting and flushing\<close>

lemma windows_of_set [simp]: "windows_of (set_windows r s) = r"
  by (simp add: windows_of_def set_windows_def)

lemma set_windows_fields [simp]:
  "pl_sent (set_windows r s) = pl_sent s" "pl_adapter (set_windows r s) = pl_adapter s"
  "bs_block (pl_store (set_windows r s)) = bs_block (pl_store s)"
  "bs_digests (pl_store (set_windows r s)) = bs_digests (pl_store s)"
  by (simp_all add: set_windows_def)

lemma windows_of_sent [simp]: "windows_of (s\<lparr>pl_sent := x\<rparr>) = windows_of s"
  by (simp add: windows_of_def)

lemma emit_all_cases:
  "emit_all em ns s = (s', r) \<Longrightarrow> \<exists>part. s' = s\<lparr>pl_sent := pl_sent s @ part\<rparr> \<and>
     (r = Inr () \<longrightarrow> part = ns) \<and> (r \<noteq> Inr () \<longrightarrow> strict_prefix part ns)"
proof (induction ns arbitrary: s)
  case Nil
  then show ?case by (intro exI [of _ "[]"]) auto
next
  case (Cons n ns)
  show ?case
  proof (cases "em (pl_sent s) n")
    case (Some e)
    with Cons.prems have "s' = s" "r = Inl e"
      by (auto simp: emit_notification_def bindS_def)
    then show ?thesis by (intro exI [of _ "[]"]) simp
  next
    case None
    let ?s = "s\<lparr>pl_sent := pl_sent s @ [n]\<rparr>"
    from None Cons.prems have "emit_all em ns ?s = (s', r)"
      by (simp add: emit_notification_def bindS_def)
    from Cons.IH [OF this] obtain part where "s' = ?s\<lparr>pl_sent := pl_sent ?s @ part\<rparr>"
      "r = Inr () \<longrightarrow> part = ns" "r \<noteq> Inr () \<longrightarrow> strict_prefix part ns"
      by blast
    then show ?thesis by (intro exI [of _ "n # part"]) simp
  qed
qed

definition notes_of :: "aggregator list \<Rightarrow> window \<Rightarrow> notification list res" where
  "notes_of ags w = (case aggregator_for_group ags (aw_group w) of
     None \<Rightarrow> Inr [] | Some a \<Rightarrow> aggregate a (aw_events w))"

text \<open>A window is discarded only after all of its notifications have been emitted.\<close>

lemma flush_window_cases:
  assumes "flush_window em ags w s = (s', r)"
  obtains (flushed) ns where "r = Inr ()" "notes_of ags w = Inr ns"
      "s' = set_windows (discard_window w (windows_of s)) (s\<lparr>pl_sent := pl_sent s @ ns\<rparr>)"
  | (failed) e part where "r = Inl e" "s' = s\<lparr>pl_sent := pl_sent s @ part\<rparr>"
      "part = [] \<or> (\<exists>ns. notes_of ags w = Inr ns \<and> strict_prefix part ns)"
proof (cases "aggregator_for_group ags (aw_group w)")
  case None
  with assms have "r = Inr ()" "notes_of ags w = Inr []"
    "s' = set_windows (discard_window w (windows_of s)) (s\<lparr>pl_sent := pl_sent s @ []\<rparr>)"
    by (auto simp: flush_window_def notes_of_def)
  then show thesis by (rule flushed)
next
  case (Some a)
  show thesis
  proof (cases "aggregate a (aw_events w)")
    case (Inl e)
    with Some assms have "r = Inl e" "s' = s\<lparr>pl_sent := pl_sent s @ []\<rparr>"
      by (auto simp: flush_window_def bindS_def liftS_def)
    then show thesis by (rule failed) simp
  next
    case (Inr ns)
    with Some have n: "notes_of ags w = Inr ns" by (simp add: notes_of_def)
    obtain t q where t: "emit_all em ns s = (t, q)" by force
    from emit_all_cases [OF t] obtain part where part: "t = s\<lparr>pl_sent := pl_sent s @ part\<rparr>"
      "q = Inr () \<longrightarrow> part = ns" "q \<noteq> Inr () \<longrightarrow> strict_prefix part ns"
      by blast
    show thesis
    proof (cases q)
      case (Inl e)
      with Some Inr assms t have "r = Inl e" "s' = t"
        by (auto simp: flush_window_def bindS_def liftS_def emit_prepared_def)
      with part n Inl failed show thesis by blast
    next
      case q: (Inr u)
      with Some Inr assms t have "r = Inr ()" "s' = set_windows (discard_window w (windows_of t)) t"
        by (auto simp: flush_window_def bindS_def liftS_def emit_prepared_def)
      with part q n flushed show thesis by (simp add: windows_of_def)
    qed
  qed
qed

lemma flush_windows_cases:
  assumes "flush_windows em ags ws s = (s', r)"
  shows "\<exists>flushed rest parts part. ws = flushed @ rest \<and>
     windows_of s' = fold discard_window flushed (windows_of s) \<and>
     bs_digests (pl_store s') = bs_digests (pl_store s) \<and>
     bs_block (pl_store s') = bs_block (pl_store s) \<and>
     list_all2 (\<lambda>w ns. notes_of ags w = Inr ns) flushed parts \<and>
     pl_sent s' = pl_sent s @ concat parts @ part \<and>
     (r = Inr () \<longrightarrow> rest = [] \<and> part = []) \<and>
     (r \<noteq> Inr () \<longrightarrow> rest \<noteq> [] \<and>
        (part = [] \<or> (\<exists>ns. notes_of ags (hd rest) = Inr ns \<and> strict_prefix part ns)))"
  using assms
proof (induction ws arbitrary: s)
  case Nil
  then show ?case by (intro exI [of _ "[]"]) auto
next
  case (Cons w ws)
  obtain t q where t: "flush_window em ags w s = (t, q)" by force
  then show ?case
  proof (cases rule: flush_window_cases)
    case (failed e part)
    with Cons.prems t have "s' = t" "r = Inl e" by (auto simp: bindS_def)
    with failed show ?thesis
      by (intro exI [of _ "[]"] exI [of _ "w # ws"] exI [of _ part]) auto
  next
    case (flushed ns)
    with Cons.prems t have "flush_windows em ags ws t = (s', r)" by (simp add: bindS_def)
    from Cons.IH [OF this] obtain flushed rest parts part where ih:
      "ws = flushed @ rest" "windows_of s' = fold discard_window flushed (windows_of t)"
      "bs_digests (pl_store s') = bs_digests (pl_store t)"
      "bs_block (pl_store s') = bs_block (pl_store t)"
      "list_all2 (\<lambda>w ns. notes_of ags w = Inr ns) flushed parts"
      "pl_sent s' = pl_sent t @ concat parts @ part"
      "r = Inr () \<longrightarrow> rest = [] \<and> part = []"
      "r \<noteq> Inr () \<longrightarrow> rest \<noteq> [] \<and>
        (part = [] \<or> (\<exists>ns. notes_of ags (hd rest) = Inr ns \<and> strict_prefix part ns))"
      by blast
    with flushed show ?thesis
      by (intro exI [of _ "w # flushed"] exI [of _ rest] exI [of _ "ns # parts"] exI [of _ part]) simp
  qed
qed

lemma ready_windows_set [simp]: "set (ready_windows b ws) = {w \<in> set ws. aw_end w \<le> b}"
  by (simp add: ready_windows_def)

lemma flush_ready_cases:
  assumes "windows_inv C (windows_of s)" "flush_ready_windows C em ags b s = (s', r)"
  shows "\<exists>flushed rest parts part. ready_windows b (win_list C (windows_of s)) = flushed @ rest \<and>
     windows_inv C (windows_of s') \<and>
     win_list C (windows_of s') = filter (\<lambda>w. w \<notin> set flushed) (win_list C (windows_of s)) \<and>
     bs_digests (pl_store s') = bs_digests (pl_store s) \<and>
     bs_block (pl_store s') = bs_block (pl_store s) \<and>
     list_all2 (\<lambda>w ns. notes_of ags w = Inr ns) flushed parts \<and>
     pl_sent s' = pl_sent s @ concat parts @ part \<and>
     (r = Inr () \<longrightarrow> rest = [] \<and> part = []) \<and>
     (r \<noteq> Inr () \<longrightarrow> rest \<noteq> [] \<and>
        (part = [] \<or> (\<exists>ns. notes_of ags (hd rest) = Inr ns \<and> strict_prefix part ns)))"
proof -
  let ?ws = "win_list C (windows_of s)"
  from assms have "flush_windows em ags (ready_windows b ?ws) s = (s', r)"
    by (simp add: flush_ready_windows_def pending_inv bindS_def liftS_def)
  from flush_windows_cases [OF this] obtain flushed rest parts part where f:
    "ready_windows b ?ws = flushed @ rest"
    "windows_of s' = fold discard_window flushed (windows_of s)"
    "bs_digests (pl_store s') = bs_digests (pl_store s)"
    "bs_block (pl_store s') = bs_block (pl_store s)"
    "list_all2 (\<lambda>w ns. notes_of ags w = Inr ns) flushed parts"
    "pl_sent s' = pl_sent s @ concat parts @ part"
    "r = Inr () \<longrightarrow> rest = [] \<and> part = []"
    "r \<noteq> Inr () \<longrightarrow> rest \<noteq> [] \<and>
        (part = [] \<or> (\<exists>ns. notes_of ags (hd rest) = Inr ns \<and> strict_prefix part ns))"
    by blast
  have sub: "set flushed \<subseteq> set ?ws" using f(1) ready_windows_set [of b ?ws] by auto
  have inj: "inj_on window_id (set ?ws)"
    using windows.content_distinct [OF assms(1)] by (simp add: distinct_map)
  have "filter (\<lambda>w. window_id w \<notin> window_id ` set flushed) ?ws = filter (\<lambda>w. w \<notin> set flushed) ?ws"
    by (intro filter_cong refl) (use sub inj in \<open>auto dest: inj_onD\<close>)
  with windows.fold_remove [OF assms(1), of flushed]
  have "windows_inv C (windows_of s')"
    "win_list C (windows_of s') = filter (\<lambda>w. w \<notin> set flushed) ?ws"
    by (simp_all add: f(2))
  with f show ?thesis by blast
qed

section \<open>Accumulating an event\<close>

definition well_configured :: "aggregator list \<Rightarrow> bool" where
  "well_configured ags \<longleftrightarrow> distinct (map (\<lambda>a. ag_name (agg_group a)) ags) \<and>
     (\<forall>a \<in> set ags. finite (agg_names a) \<and> 1 \<le> ag_window (agg_group a))"

definition matches :: "string \<Rightarrow> aggregation_key \<Rightarrow> int \<Rightarrow> window \<Rightarrow> bool" where
  "matches g k b w \<longleftrightarrow> aw_group w = g \<and> aw_key w = k \<and> window_contains w b"

lemma aggregator_for_event_in:
  "aggregator_for_event ags ev = Some a \<Longrightarrow> a \<in> set ags \<and> ev \<in> agg_names a"
  by (auto simp: aggregator_for_event_def dest: find_SomeD)

lemma aggregator_for_group_unique:
  "well_configured ags \<Longrightarrow> a \<in> set ags \<Longrightarrow>
   aggregator_for_group ags (ag_name (agg_group a)) = Some a"
  unfolding aggregator_for_group_def well_configured_def
  using find_unique [of "\<lambda>a. ag_name (agg_group a)" "rev ags" a] by (simp add: rev_map [symmetric])

definition target_window :: "aggregator \<Rightarrow> aggregation_key \<Rightarrow> event \<Rightarrow> window list \<Rightarrow> window" where
  "target_window a k e ws =
     (case find (matches (ag_name (agg_group a)) k (ev_block e)) ws of
        Some w \<Rightarrow> w
      | None \<Rightarrow> \<lparr>aw_group = ag_name (agg_group a), aw_key = k, aw_start = ev_block e,
                 aw_end = window_end a e, aw_names = agg_names a, aw_events = []\<rparr>)"

lemma handle_event_accumulates:
  assumes "windows_inv C (windows_of s)" "aggregator_for_event ags (ev_name e) = Some a"
    "aggregation_key_for C a e = Inr k"
  shows "coordinator_handle_event C em ags e s =
    (set_windows (upsert_pending (with_event (target_window a k e (win_list C (windows_of s))) e)
       (windows_of s)) s, Inr ())"
  using assms
  by (auto simp: coordinator_handle_event_def prepare_def bindS_def emit_prepared_def
      pending_for_inv window_for_def target_window_def matches_def [abs_def] split: option.splits)

lemma handle_event_key_error:
  assumes "aggregator_for_event ags (ev_name e) = Some a" "aggregation_key_for C a e = Inl err"
  shows "coordinator_handle_event C em ags e s = (s, Inl err)"
  using assms by (simp add: coordinator_handle_event_def prepare_def bindS_def)

lemma handle_event_immediate:
  assumes "aggregator_for_event ags (ev_name e) = None"
  shows "coordinator_handle_event C em ags e s = emit_notification em (EventNotification [e]) s"
  using assms
  by (auto simp: coordinator_handle_event_def prepare_def bindS_def from_event_def
      mk_notification_def emit_prepared_def split: prod.splits sum.splits)

lemma target_window_matches:
  assumes "well_configured ags" "a \<in> set ags"
  shows "matches (ag_name (agg_group a)) k (ev_block e) (target_window a k e ws)"
proof (cases "find (matches (ag_name (agg_group a)) k (ev_block e)) ws")
  case None
  with assms show ?thesis
    by (cases a) (auto simp: target_window_def matches_def window_contains_def well_configured_def)
qed (auto simp: target_window_def dest: find_SomeD)

lemma target_window_ok:
  assumes "well_configured ags" "a \<in> set ags" "list_all (window_ok C) ws" "codec_event_ok C e"
  shows "window_ok C (with_event (target_window a k e ws) e)"
proof -
  have "window_ok C (target_window a k e ws)"
    using assms(1-3)
    by (auto simp: target_window_def window_ok_def well_configured_def list_all_iff
        dest: find_SomeD split: option.splits)
  with assms(4) show ?thesis by (simp add: window_ok_def with_event_def)
qed

lemma win_list_upsert:
  assumes "windows_inv C r" "window_ok C w"
  shows "win_list C (upsert_pending w r) = put_window w (win_list C r)"
  using assms(1)
proof (rule windows_invE)
  fix ws
  assume r: "r = enc_windows ws" "win_list C r = ws" "distinct (map window_id ws)"
    "list_all (window_ok C) ws"
  then have "list_all (window_ok C) (put_window w ws)"
    using assms(2) by (simp add: put_window_set list_all_iff)
  with r show ?thesis by (simp add: upsert_enc win_list_enc)
qed

lemma find_put_window:
  assumes "P w" "\<forall>v. find P ws = Some v \<longrightarrow> window_id v = window_id w"
  shows "find P (put_window w ws) = Some w"
  using assms(2)
proof (induction ws)
  case (Cons v ws)
  show ?case
  proof (cases "window_id v = window_id w")
    case False
    with Cons.prems have "\<not> P v" by auto
    with False Cons show ?thesis by simp
  qed (simp add: assms(1))
qed (simp add: assms(1))

lemma matches_window_id: "window_id u = window_id v \<Longrightarrow> matches g k b u = matches g k b v"
  by (simp add: window_id_def matches_def window_contains_def)

lemma window_id_with_event [simp]: "window_id (with_event w e) = window_id w"
  by (simp add: window_id_def)

lemma target_window_again:
  assumes "well_configured ags" "a \<in> set ags" and w_def: "w = with_event (target_window a k e ws) e"
  shows "target_window a k e (put_window w ws) = w"
proof -
  let ?P = "matches (ag_name (agg_group a)) k (ev_block e)"
  have "find ?P (put_window w ws) = Some w"
  proof (rule find_put_window)
    show "?P w"
      using target_window_matches [OF assms(1,2)] matches_window_id [of w "target_window a k e ws"]
      by (simp add: w_def)
    show "\<forall>v. find ?P ws = Some v \<longrightarrow> window_id v = window_id w"
      by (simp add: w_def target_window_def)
  qed
  then show ?thesis by (simp add: target_window_def)
qed

lemma upsert_idem [simp]: "upsert_pending w (upsert_pending w r) = upsert_pending w r"
  by (simp add: upsert_pending_def update_conv' update_same)

section \<open>Nothing is lost\<close>

text \<open>
  An aggregator reports all of its events; a group change aggregator does when it aggregates the
  three group events, as the one of the code does, and a distribution aggregator when the report
  is complete: every name arrived, and in one transaction.
\<close>

definition keeps_events :: "aggregator \<Rightarrow> bool" where
  "keeps_events a \<longleftrightarrow>
     (case a of OperatorGroupChangeAggregator g ns \<Rightarrow> ns = group_event_names | _ \<Rightarrow> True)"

definition complete_report :: "string set \<Rightarrow> event list \<Rightarrow> bool" where
  "complete_report ns es \<longleftrightarrow> (\<forall>n \<in> ns. \<exists>e \<in> set es. ev_name e = n) \<and>
     (\<exists>t. \<forall>e \<in> set es. ev_name e \<in> ns \<longrightarrow> ev_tx e = t)"

text \<open>The windows whose events a flush drops.\<close>

definition incomplete_window :: "aggregator list \<Rightarrow> window \<Rightarrow> bool" where
  "incomplete_window ags w \<longleftrightarrow>
     (\<exists>g ns. aggregator_for_group ags (aw_group w) = Some (DistributionReportAggregator g ns) \<and>
       \<not> complete_report ns (aw_events w))"

lemma aggregate_keeps_node_operator:
  assumes "aggregate_node_operator ns es = Inr nts" "e \<in> set es" "ev_name e \<in> ns"
  shows "\<exists>n \<in> set nts. e \<in> set (source_events n)"
proof -
  from assms(1) have "mset (concat (map source_events nts)) = mset (relevant_events ns es)"
    by (rule aggregate_node_operator_shape)
  then have "set (concat (map source_events nts)) = set (relevant_events ns es)"
    by (rule mset_eq_setD)
  with assms(2,3) have "e \<in> set (concat (map source_events nts))" by simp
  then show ?thesis by simp
qed

lemma aggregate_keeps_operator_group:
  assumes "aggregate operator_group_change_aggregator es = Inr nts" "e \<in> set es"
    "ev_name e \<in> group_event_names"
  shows "\<exists>n \<in> set nts. e \<in> set (source_events n)"
proof -
  let ?R = "relevant_events group_event_names es"
  from assms(1) obtain d where "events_by_group_id ?R = Inr d"
    by (auto simp: operator_group_change_aggregator_def aggregate_operator_group_def
        group_event_names_def)
  then obtain ps where "mapR (\<lambda>e. bindR (group_id e) (\<lambda>i. Inr (i, e))) ?R = Inr ps"
    by (auto simp: events_by_group_id_def)
  then have "\<forall>x \<in> set ?R. \<exists>y. bindR (group_id x) (\<lambda>i. Inr (i, x)) = Inr y"
    by (intro iffD1 [OF mapR_total] exI)
  moreover have "e \<in> set ?R" using assms(2,3) by simp
  ultimately obtain y where "bindR (group_id e) (\<lambda>i. Inr (i, e)) = Inr y" by blast
  then obtain i where i: "group_id e = Inr i" by (cases "group_id e") auto
  let ?g = "group_outcome (filter (\<lambda>e. group_id e = Inr i) ?R)"
  have "finite {i. \<exists>e \<in> set ?R. group_id e = Inr i}"
  proof -
    have "{i. \<exists>e \<in> set ?R. group_id e = Inr i} \<subseteq> (\<lambda>e. projr (group_id e)) ` set ?R"
    proof
      fix j
      assume "j \<in> {i. \<exists>e \<in> set ?R. group_id e = Inr i}"
      then obtain x where "x \<in> set ?R" "group_id x = Inr j" by blast
      then have "x \<in> set ?R" "j = projr (group_id x)" by simp_all
      then show "j \<in> (\<lambda>e. projr (group_id e)) ` set ?R" by blast
    qed
    then show ?thesis by (rule finite_subset) (rule finite_imageI, rule finite_set)
  qed
  with i assms(2,3) aggregate_operator_group_shape(2) [OF assms(1)]
  have "?g \<in># mset nts" by auto
  moreover have "e \<in> set (source_events ?g)"
    using i assms(2,3) by (auto simp: group_outcome_def Let_def)
  ultimately show ?thesis by auto
qed

lemma aggregate_keeps_distribution:
  assumes "aggregate_distribution ns es = Inr nts" "complete_report ns es"
    and "e \<in> set es" "ev_name e \<in> ns"
  shows "\<exists>n \<in> set nts. e \<in> set (source_events n)"
proof -
  have "e \<in> set (relevant_events ns es)" using assms(3,4) by simp
  moreover from this have "relevant_events ns es \<noteq> []"
    by (intro notI) (simp del: relevant_events_set)
  moreover have "ns \<subseteq> ev_name ` set (relevant_events ns es)"
    "\<exists>t. \<forall>e \<in> set (relevant_events ns es). ev_tx e = t"
    using assms(2) by (auto simp: complete_report_def image_iff)
  ultimately show ?thesis
    using assms(1) by (auto simp: aggregate_distribution_cases Let_def simp del: relevant_events_set)
qed

lemma aggregate_keeps:
  assumes "keeps_events a" "aggregate a es = Inr nts" "e \<in> set es" "ev_name e \<in> agg_names a"
    and "\<And>g ns. a = DistributionReportAggregator g ns \<Longrightarrow> complete_report ns es"
  shows "\<exists>n \<in> set nts. e \<in> set (source_events n)"
proof (cases a)
  case (NodeOperatorEventAggregator g ns)
  with assms aggregate_keeps_node_operator show ?thesis by simp
next
  case (GlobalEventAggregator g ns)
  with assms have "e \<in> set (relevant_events ns es)" by simp
  with GlobalEventAggregator assms(2) show ?thesis
    by (auto simp: aggregate_global_def Let_def simp del: relevant_events_set split: if_splits)
next
  case (OperatorGroupChangeAggregator g ns)
  with assms have "aggregate operator_group_change_aggregator es = Inr nts"
    "ev_name e \<in> group_event_names"
    by (auto simp: keeps_events_def operator_group_change_aggregator_def group_event_names_def)
  with assms(3) aggregate_keeps_operator_group show ?thesis by blast
next
  case (DistributionReportAggregator g ns)
  with assms aggregate_keeps_distribution show ?thesis by simp
qed

definition windows_named :: "aggregator list \<Rightarrow> window list \<Rightarrow> bool" where
  "windows_named ags ws \<longleftrightarrow> (\<forall>w \<in> set ws. \<forall>a. aggregator_for_group ags (aw_group w) = Some a \<longrightarrow>
     (\<forall>x \<in> set (aw_events w). ev_name x \<in> agg_names a))"

definition retained :: "codec \<Rightarrow> aggregator list \<Rightarrow> 'm pipeline \<Rightarrow> string \<times> string \<times> int \<Rightarrow> bool" where
  "retained C ags s i \<longleftrightarrow>
     (\<exists>w \<in> set (win_list C (windows_of s)).
        (\<exists>a. aggregator_for_group ags (aw_group w) = Some a \<and> keeps_events a) \<and>
        i \<in> log_identity ` set (aw_events w)) \<or>
     (\<exists>n \<in> set (pl_sent s). i \<in> log_identity ` set (source_events n))"

definition coord_inv :: "codec \<Rightarrow> aggregator list \<Rightarrow> 'm pipeline \<Rightarrow> bool" where
  "coord_inv C ags s \<longleftrightarrow> windows_inv C (windows_of s) \<and>
     windows_named ags (win_list C (windows_of s))"

text \<open>The events the coordinator must not lose.\<close>

definition kept_event :: "aggregator list \<Rightarrow> event \<Rightarrow> bool" where
  "kept_event ags e \<longleftrightarrow>
     (case aggregator_for_event ags (ev_name e) of None \<Rightarrow> True | Some a \<Rightarrow> keeps_events a)"

lemma handle_event_retains:
  assumes wc: "well_configured ags" and inv: "coord_inv C ags s" and e: "codec_event_ok C e"
    and run: "coordinator_handle_event C em ags e s = (s', Inr ())"
  shows "coord_inv C ags s' \<and> (\<forall>i. retained C ags s i \<longrightarrow> retained C ags s' i) \<and>
     (kept_event ags e \<longrightarrow> retained C ags s' (log_identity e))"
proof (cases "aggregator_for_event ags (ev_name e)")
  case None
  with run inv show ?thesis
    by (auto simp: handle_event_immediate emit_notification_def coord_inv_def retained_def
        split: option.splits)
next
  case (Some a)
  let ?ws = "win_list C (windows_of s)"
  from inv have winv: "windows_inv C (windows_of s)" and named: "windows_named ags ?ws"
    by (simp_all add: coord_inv_def)
  from Some have a: "a \<in> set ags" "ev_name e \<in> agg_names a" by (auto dest: aggregator_for_event_in)
  have "aggregation_key_for C a e \<noteq> Inl err" for err
    using run handle_event_key_error [OF Some, of C err em s] by auto
  then obtain k where k: "aggregation_key_for C a e = Inr k"
    by (cases "aggregation_key_for C a e") auto
  let ?t = "target_window a k e ?ws" and ?w = "with_event (target_window a k e ?ws) e"
  from run handle_event_accumulates [OF winv Some k]
  have s': "s' = set_windows (upsert_pending ?w (windows_of s)) s" by simp
  have ok: "window_ok C ?w"
    using winv target_window_ok [OF wc a(1) _ e] by (elim windows_invE) simp
  have sent: "pl_sent s' = pl_sent s" by (simp add: s')
  have winv': "windows_inv C (windows_of s')" by (simp add: s' windows.put_ok [OF winv ok])
  have set': "set (win_list C (windows_of s')) = insert ?w {v \<in> set ?ws. window_id v \<noteq> window_id ?w}"
    by (simp add: s' windows.put_set [OF winv ok])
  have grp: "aw_group ?t = ag_name (agg_group a)"
    using target_window_matches [OF wc a(1), of k e ?ws] by (simp add: matches_def)
  have ag: "aggregator_for_group ags (aw_group ?w) = Some a"
    using grp aggregator_for_group_unique [OF wc a(1)] by simp
  have t_old: "aw_events ?t = [] \<or> ?t \<in> set ?ws"
    by (auto simp: target_window_def split: option.splits dest: find_SomeD)
  have "windows_named ags (win_list C (windows_of s'))"
    using named t_old ag a(2) unfolding windows_named_def set'
    by (auto simp: with_event_def split: if_splits)
  with winv' have 1: "coord_inv C ags s'" by (simp add: coord_inv_def)
  have same: "v = ?t" if "v \<in> set ?ws" "window_id v = window_id ?w" for v
  proof -
    have "matches (ag_name (agg_group a)) k (ev_block e) v"
      using matches_window_id [of v ?t] that(2) target_window_matches [OF wc a(1), of k e ?ws] by simp
    with that(1) obtain u where "find (matches (ag_name (agg_group a)) k (ev_block e)) ?ws = Some u"
      by (metis find_None_iff not_Some_eq)
    then have "?t \<in> set ?ws" by (auto simp: target_window_def dest: find_SomeD)
    with that windows.content_distinct [OF winv] show ?thesis
      by (auto simp: distinct_map inj_on_def)
  qed
  have 2: "retained C ags s' i" if "retained C ags s i" for i
  proof -
    from that consider (sent) "\<exists>n \<in> set (pl_sent s). i \<in> log_identity ` set (source_events n)"
      | (win) v b where "v \<in> set ?ws" "aggregator_for_group ags (aw_group v) = Some b"
        "keeps_events b" "i \<in> log_identity ` set (aw_events v)"
      by (auto simp: retained_def)
    then show ?thesis
    proof cases
      case sent
      with \<open>pl_sent s' = pl_sent s\<close> show ?thesis by (simp add: retained_def)
    next
      case win
      show ?thesis
      proof (cases "window_id v = window_id ?w")
        case False
        with win set' show ?thesis by (auto simp: retained_def)
      next
        case True
        with same win(1) have "v = ?t" by blast
        with win(4) have "i \<in> log_identity ` set (aw_events ?w)"
          by (simp add: with_event_identities)
        with win(2,3) \<open>v = ?t\<close> set' show ?thesis by (auto simp: retained_def)
      qed
    qed
  qed
  have 3: "retained C ags s' (log_identity e)" if "kept_event ags e"
  proof -
    have "keeps_events a" using that Some by (simp add: kept_event_def)
    moreover have "log_identity e \<in> log_identity ` set (aw_events ?w)"
      by (simp add: with_event_identities)
    ultimately show ?thesis using ag set' by (auto simp: retained_def)
  qed
  from 1 2 3 show ?thesis by blast
qed

lemma flush_retains:
  assumes inv: "coord_inv C ags s" and run: "flush_ready_windows C em ags b s = (s', r)"
  shows "coord_inv C ags s' \<and> (\<forall>i. retained C ags s i \<longrightarrow> retained C ags s' i \<or>
    (\<exists>w \<in> set (win_list C (windows_of s)) - set (win_list C (windows_of s')).
       incomplete_window ags w \<and> i \<in> log_identity ` set (aw_events w)))"
    (is "_ \<and> (\<forall>i. _ \<longrightarrow> _ \<or> ?dropped i)")
proof -
  let ?ws = "win_list C (windows_of s)"
  from inv have winv: "windows_inv C (windows_of s)" and named: "windows_named ags ?ws"
    by (simp_all add: coord_inv_def)
  from flush_ready_cases [OF winv run] obtain flushed rest parts part where f:
    "ready_windows b ?ws = flushed @ rest" "windows_inv C (windows_of s')"
    "win_list C (windows_of s') = filter (\<lambda>w. w \<notin> set flushed) ?ws"
    "list_all2 (\<lambda>w ns. notes_of ags w = Inr ns) flushed parts"
    "pl_sent s' = pl_sent s @ concat parts @ part"
    by blast
  have "windows_named ags (win_list C (windows_of s'))"
    using named unfolding f(3) windows_named_def by auto
  with f(2) have 1: "coord_inv C ags s'" by (simp add: coord_inv_def)
  have 2: "retained C ags s' i \<or> ?dropped i" if "retained C ags s i" for i
  proof -
    from that consider (sent) "\<exists>n \<in> set (pl_sent s). i \<in> log_identity ` set (source_events n)"
      | (win) w a where "w \<in> set ?ws" "aggregator_for_group ags (aw_group w) = Some a"
        "keeps_events a" "i \<in> log_identity ` set (aw_events w)"
      by (auto simp: retained_def)
    then show ?thesis
    proof cases
      case sent
      with f(5) show ?thesis by (auto simp: retained_def)
    next
      case win
      show ?thesis
      proof (cases "w \<in> set flushed")
        case False
        with win f(3) show ?thesis by (auto simp: retained_def)
      next
        case True
        show ?thesis
        proof (cases "incomplete_window ags w")
          case incomplete: True
          from True f(3) have "w \<notin> set (win_list C (windows_of s'))" by simp
          with incomplete win(1,4) show ?thesis by blast
        next
          case False
          from list_all2_mem1 [OF f(4) True]
          obtain ns where ns: "notes_of ags w = Inr ns" "ns \<in> set parts" by blast
          from win(4) obtain x where x: "x \<in> set (aw_events w)" "i = log_identity x" by blast
          with named win have "ev_name x \<in> agg_names a" by (auto simp: windows_named_def)
          moreover have "complete_report ms (aw_events w)"
            if "a = DistributionReportAggregator g ms" for g ms
            using False that win(2) by (auto simp: incomplete_window_def)
          ultimately obtain n where "n \<in> set ns" "x \<in> set (source_events n)"
            using ns(1) win x aggregate_keeps [of a "aw_events w" ns x] by (auto simp: notes_of_def)
          with ns(2) x(2) f(5)
          have "\<exists>n \<in> set (pl_sent s'). i \<in> log_identity ` set (source_events n)" by auto
          then show ?thesis by (simp add: retained_def)
        qed
      qed
    qed
  qed
  from 1 2 show ?thesis by blast
qed

lemma handle_event_error:
  assumes "windows_inv C (windows_of s)" "coordinator_handle_event C em ags e s = (s', Inl err)"
  shows "s' = s"
proof (cases "aggregator_for_event ags (ev_name e)")
  case None
  with assms(2) show ?thesis
    by (auto simp: handle_event_immediate emit_notification_def split: option.splits)
next
  case (Some a)
  show ?thesis
  proof (cases "aggregation_key_for C a e")
    case (Inl x)
    with assms(2) handle_event_key_error [OF Some Inl, of em s] show ?thesis by simp
  next
    case (Inr k)
    with assms(2) handle_event_accumulates [OF assms(1) Some Inr, of em] show ?thesis by simp
  qed
qed

section \<open>Properties\<close>

definition sample_store :: bot_storage where
  "sample_store = \<lparr>bs_block = 0, bs_users = {}, bs_groups = {}, bs_channels = {},
     bs_operators = [], bs_digests = [], bs_windows = [], bs_jobs = []\<rparr>"

definition sample_pipeline :: "unit pipeline" where
  "sample_pipeline = \<lparr>pl_store = sample_store, pl_sent = [], pl_adapter = ()\<rparr>"

definition sample_aggregators :: "aggregator list" where
  "sample_aggregators = [NodeOperatorEventAggregator VALIDATOR_WITHDRAWALS {''W''}]"

lemma sample_configured: "well_configured sample_aggregators"
  by (simp add: well_configured_def sample_aggregators_def VALIDATOR_WITHDRAWALS_def)

lemma sample_windows: "windows_of sample_pipeline = []"
  by (simp add: sample_pipeline_def sample_store_def windows_of_def)

lemma sample_coord_inv: "coord_inv sample_codec sample_aggregators sample_pipeline"
  by (simp add: coord_inv_def sample_windows windows_named_def)

text \<open>C5: flushing is exact and in order: at a block boundary the coordinator completes an
  initial segment of the ready windows (those ending at or before the block) in the fixed
  order, emits exactly what the aggregators build from them, and only then drops them. When it
  returns normally every ready window is done and exactly the later ones stay pending; when
  something raises, the window at fault and all later ones stay pending.\<close>

theorem coordinator_flush_exact:
  assumes "windows_inv C (windows_of s)" "coordinator_handle_block C em ags b s = (s', r)"
  shows "\<exists>ws flushed rest parts part. pending C (windows_of s) = Inr ws \<and>
     sort_key flush_order (filter (\<lambda>w. aw_end w \<le> b) ws) = flushed @ rest \<and>
     pending C (windows_of s') = Inr (filter (\<lambda>w. w \<notin> set flushed) ws) \<and>
     list_all2 (\<lambda>w ns. notes_of ags w = Inr ns) flushed parts \<and>
     pl_sent s' = pl_sent s @ concat parts @ part \<and>
     (r = Inr () \<longrightarrow> pending C (windows_of s') = Inr (filter (\<lambda>w. b < aw_end w) ws) \<and> part = []) \<and>
     (r \<noteq> Inr () \<longrightarrow> rest \<noteq> [] \<and> hd rest \<in> set (filter (\<lambda>w. w \<notin> set flushed) ws))"
proof -
  let ?ws = "win_list C (windows_of s)"
  from assms(2) have "flush_ready_windows C em ags b s = (s', r)"
    by (simp add: coordinator_handle_block_def)
  from flush_ready_cases [OF assms(1) this] obtain flushed rest parts part where f:
    "ready_windows b ?ws = flushed @ rest" "windows_inv C (windows_of s')"
    "win_list C (windows_of s') = filter (\<lambda>w. w \<notin> set flushed) ?ws"
    "list_all2 (\<lambda>w ns. notes_of ags w = Inr ns) flushed parts"
    "pl_sent s' = pl_sent s @ concat parts @ part"
    "r = Inr () \<longrightarrow> rest = [] \<and> part = []" "r \<noteq> Inr () \<longrightarrow> rest \<noteq> []"
    by blast
  have set_fr: "set flushed \<union> set rest = {w \<in> set ?ws. aw_end w \<le> b}"
    by (simp only: ready_windows_set [symmetric] f(1) set_append)
  have mem: "w \<in> set flushed \<or> w \<in> set rest \<longleftrightarrow> w \<in> set ?ws \<and> aw_end w \<le> b" for w
    using set_fr by (simp add: set_eq_iff)
  have later: "filter (\<lambda>w. w \<notin> set flushed) ?ws = filter (\<lambda>w. b < aw_end w) ?ws" if "r = Inr ()"
  proof (rule filter_cong [OF refl])
    fix w
    assume w: "w \<in> set ?ws"
    from that f(6) have "w \<notin> set rest" by simp
    then have "w \<in> set flushed \<longleftrightarrow> aw_end w \<le> b" using mem [of w] w by simp
    then show "w \<notin> set flushed \<longleftrightarrow> b < aw_end w" by linarith
  qed
  have dist: "distinct (flushed @ rest)"
    using windows.content_distinct [OF assms(1)]
    by (simp add: distinct_map ready_windows_def flip: f(1))
  have "hd rest \<in> set ?ws \<and> hd rest \<notin> set flushed" if "r \<noteq> Inr ()"
  proof -
    from that f(7) have r: "rest \<noteq> []" by simp
    then have "hd rest \<in> set rest" by simp
    with mem [of "hd rest"] dist show ?thesis by auto
  qed
  with f later show ?thesis
    unfolding pending_inv [OF assms(1)] pending_inv [OF f(2)] ready_windows_def
    by (intro exI [of _ ?ws] exI [of _ flushed] exI [of _ rest] exI [of _ parts] exI [of _ part]) simp
qed

lemma coordinator_flush_exact_witness:
  "\<exists>s'. coordinator_handle_block sample_codec (\<lambda>_ _. None) sample_aggregators 9 sample_pipeline = (s', Inr ()) \<and>
     pending sample_codec (windows_of s') = Inr []"
proof -
  have p: "pending sample_codec [] = Inr []" by (simp add: pending_def records_from_def)
  have run: "coordinator_handle_block sample_codec (\<lambda>_ _. None) sample_aggregators 9 sample_pipeline =
      (sample_pipeline, Inr ())"
    by (simp add: coordinator_handle_block_def flush_ready_windows_def sample_windows p bindS_def
        liftS_def ready_windows_def)
  from coordinator_flush_exact [OF _ run] show ?thesis
    by (simp add: sample_windows p run)
qed

text \<open>An aggregated event ends up in exactly one pending window, of its own group and key
  and around its block; no other window changes and nothing is emitted. Delivering the event
  again (a replay overlaps the live stream) changes nothing at all.\<close>

theorem event_accumulation:
  assumes "well_configured ags" "windows_inv C (windows_of s)" "codec_event_ok C e"
    "aggregator_for_event ags (ev_name e) = Some a" "aggregation_key_for C a e = Inr k"
  shows "\<exists>s' w ws ws'. coordinator_handle_event C em ags e s = (s', Inr ()) \<and>
     pl_sent s' = pl_sent s \<and>
     pending C (windows_of s) = Inr ws \<and> pending C (windows_of s') = Inr ws' \<and>
     w \<in> set ws' \<and> aw_group w = ag_name (agg_group a) \<and> aw_key w = k \<and>
     window_contains w (ev_block e) \<and> log_identity e \<in> log_identity ` set (aw_events w) \<and>
     set ws' - {w} = {v \<in> set ws. window_id v \<noteq> window_id w} \<and>
     coordinator_handle_event C em ags e s' = (s', Inr ())"
proof -
  let ?ws = "win_list C (windows_of s)"
  let ?t = "target_window a k e ?ws"
  let ?w = "with_event ?t e"
  let ?s = "set_windows (upsert_pending ?w (windows_of s)) s"
  from assms(4) have a: "a \<in> set ags" by (auto dest: aggregator_for_event_in)
  have ok: "window_ok C ?w"
    using assms(2) target_window_ok [OF assms(1) a _ assms(3)] by (elim windows_invE) simp
  have inv': "windows_inv C (windows_of ?s)" by (simp add: windows.put_ok [OF assms(2) ok])
  have m: "matches (ag_name (agg_group a)) k (ev_block e) ?w"
    using target_window_matches [OF assms(1) a] matches_window_id [of ?w ?t] by simp
  have "target_window a k e (win_list C (windows_of ?s)) = ?w"
    using target_window_again [OF assms(1) a refl] by (simp add: win_list_upsert [OF assms(2) ok])
  with handle_event_accumulates [OF inv' assms(4,5)]
  have again: "coordinator_handle_event C em ags e ?s = (?s, Inr ())"
    by (simp add: set_windows_def windows_of_def)
  have "set (win_list C (windows_of ?s)) - {?w} = {v \<in> set ?ws. window_id v \<noteq> window_id ?w}"
    by (auto simp: windows.put_set [OF assms(2) ok])
  moreover have "?w \<in> set (win_list C (windows_of ?s))"
    by (simp add: windows.put_set [OF assms(2) ok])
  ultimately show ?thesis
    using handle_event_accumulates [OF assms(2,4,5), of em] pending_inv [OF assms(2)]
      pending_inv [OF inv'] m again with_event_identities [of ?t e]
    by (intro exI [of _ ?s] exI [of _ ?w] exI [of _ ?ws] exI [of _ "win_list C (windows_of ?s)"])
      (simp add: matches_def)
qed

lemma event_accumulation_witness:
  "\<exists>s' w ws'. pending sample_codec (windows_of s') = Inr ws' \<and> w \<in> set ws' \<and>
     log_identity (sample_event ''W'' ''nodeOperatorId'' 7 1 0) \<in> log_identity ` set (aw_events w) \<and>
     coordinator_handle_event sample_codec (\<lambda>_ _. None) sample_aggregators
       (sample_event ''W'' ''nodeOperatorId'' 7 1 0) s' = (s' :: unit pipeline, Inr ())"
proof -
  let ?e = "sample_event ''W'' ''nodeOperatorId'' 7 1 0"
  let ?a = "NodeOperatorEventAggregator VALIDATOR_WITHDRAWALS {''W''}"
  have a: "aggregator_for_event sample_aggregators (ev_name ?e) = Some ?a"
    by (simp add: aggregator_for_event_def sample_aggregators_def sample_event_def)
  have k: "aggregation_key_for sample_codec ?a ?e =
      Inr \<lparr>ak_kind = ''node_operator'', ak_value = int_str 7\<rparr>"
    by (simp add: ev_arg_def sample_event_def)
  have w: "windows_inv sample_codec (windows_of sample_pipeline)" by (simp add: sample_windows)
  from event_accumulation [OF sample_configured w sample_codec_ok a k, of "\<lambda>_ _. None"]
  show ?thesis by blast
qed

end
