(* ===== verification/Module_Runtime.thy ===== *)
theory Module_Runtime
  imports Coordinator
begin

text \<open>
  Digests (\<open>sentinel/services/digest.py\<close>) and the module runtime
  (\<open>ModuleRuntime\<close> of \<open>sentinel/services/subscription.py\<close>), which routes every event to its
  side effects and then to a digest or to the aggregation coordinator, and moves the persisted
  checkpoint after each processed block. The side effects are a parameter \<open>fx\<close> acting on the
  adapter state; the digest lock makes each digest operation one step.
\<close>

section \<open>Digests\<close>

record digest =
  dg_name :: string
  dg_event :: string

definition set_digests :: "digests \<Rightarrow> 'm pipeline \<Rightarrow> 'm pipeline" where
  "set_digests d s = s\<lparr>pl_store := (pl_store s)\<lparr>bs_digests := d\<rparr>\<rparr>"

definition digests_of :: "'m pipeline \<Rightarrow> digests" where
  "digests_of s = bs_digests (pl_store s)"

definition digest_pending_count :: "codec \<Rightarrow> digest \<Rightarrow> 'm pipeline \<Rightarrow> nat res" where
  "digest_pending_count C g s =
     bindR (digest_events C (dg_name g) (digests_of s)) (\<lambda>es. Inr (length es))"

definition digest_handle_event ::
  "codec \<Rightarrow> digest \<Rightarrow> event \<Rightarrow> 'm pipeline \<Rightarrow> 'm pipeline \<times> bool res" where
  "digest_handle_event C g e s =
     (if ev_name e \<noteq> dg_event g then (s, Inr False)
      else (case digest_append C (dg_name g) e (digests_of s) of
              Inl err \<Rightarrow> (s, Inl err)
            | Inr d \<Rightarrow> (set_digests d s, Inr True)))"

definition flush_through ::
  "codec \<Rightarrow> emitter \<Rightarrow> digest \<Rightarrow> int \<Rightarrow> 'm pipeline \<Rightarrow> 'm pipeline \<times> nat res" where
  "flush_through C em g b s =
     (case digest_events C (dg_name g) (digests_of s) of
        Inl err \<Rightarrow> (s, Inl err)
      | Inr es \<Rightarrow> (let ready = filter (\<lambda>e. ev_block e \<le> b) es in
          if ready = [] then (s, Inr 0)
          else bindS (liftS (mk_notification ready)) (\<lambda>n.
               bindS (emit_notification em n) (\<lambda>_ s1.
                 (case digest_discard C (dg_name g) ready (digests_of s1) of
                    Inl err \<Rightarrow> (s1, Inl err)
                  | Inr d \<Rightarrow> (set_digests d s1, Inr 1)))) s))"

fun build_digests_from ::
  "'h event_handler list \<Rightarrow> (string \<times> string) list \<Rightarrow> (string \<times> string) list res" where
  "build_digests_from [] d = Inr d"
| "build_digests_from (h # hs) d =
     (case eh_digest h of
        None \<Rightarrow> build_digests_from hs d
      | Some n \<Rightarrow>
          (if map_of d n \<noteq> None then Inl RuntimeError
           else build_digests_from hs (AList.update n (eh_event h) d)))"

definition build_digests :: "(string \<times> 'h event_handler) list \<Rightarrow> digest list res" where
  "build_digests hs = bindR (build_digests_from (map snd hs) []) (\<lambda>d.
     Inr (map (\<lambda>(n, ev). \<lparr>dg_name = n, dg_event = ev\<rparr>) d))"

section \<open>Module runtime\<close>

record 'm module_runtime =
  mr_aggregators :: "aggregator list"
  mr_digests :: "digest list"
  mr_effects :: "event \<Rightarrow> 'm \<Rightarrow> 'm \<times> unit res"

definition run_effects ::
  "(event \<Rightarrow> 'm \<Rightarrow> 'm \<times> unit res) \<Rightarrow> event \<Rightarrow> 'm pipeline \<Rightarrow> 'm pipeline \<times> unit res" where
  "run_effects fx e s =
     (let (m, r) = fx e (pl_adapter s) in (s\<lparr>pl_adapter := m\<rparr>, r))"

fun offer_to_digests ::
  "codec \<Rightarrow> digest list \<Rightarrow> event \<Rightarrow> 'm pipeline \<Rightarrow> 'm pipeline \<times> bool res" where
  "offer_to_digests C [] e s = (s, Inr False)"
| "offer_to_digests C (g # gs) e s = bindS (digest_handle_event C g e) (\<lambda>taken.
     if taken then (\<lambda>s. (s, Inr True)) else offer_to_digests C gs e) s"

definition runtime_handle_event ::
  "codec \<Rightarrow> emitter \<Rightarrow> 'm module_runtime \<Rightarrow> event \<Rightarrow> 'm pipeline \<Rightarrow> 'm pipeline \<times> unit res" where
  "runtime_handle_event C em R e =
     bindS (run_effects (mr_effects R) e) (\<lambda>_.
     bindS (offer_to_digests C (mr_digests R) e) (\<lambda>taken.
       if taken then (\<lambda>s. (s, Inr ()))
       else coordinator_handle_event C em (mr_aggregators R) e))"

definition advance_block :: "int \<Rightarrow> 'm pipeline \<Rightarrow> 'm pipeline" where
  "advance_block b s =
     s\<lparr>pl_store := update_block (max (bs_block (pl_store s)) b) (pl_store s)\<rparr>"

definition runtime_handle_block ::
  "codec \<Rightarrow> emitter \<Rightarrow> 'm module_runtime \<Rightarrow> block \<Rightarrow> 'm pipeline \<Rightarrow> 'm pipeline \<times> unit res" where
  "runtime_handle_block C em R b =
     bindS (coordinator_handle_block C em (mr_aggregators R) (bl_number b)) (\<lambda>_ s.
       (advance_block (bl_number b) s, Inr ()))"

definition resume_pending_aggregations ::
  "codec \<Rightarrow> emitter \<Rightarrow> 'm module_runtime \<Rightarrow> 'm pipeline \<Rightarrow> 'm pipeline \<times> unit res" where
  "resume_pending_aggregations C em R = resume_pending C em (mr_aggregators R)"

definition flush_digest ::
  "codec \<Rightarrow> emitter \<Rightarrow> 'm module_runtime \<Rightarrow> string \<Rightarrow> int \<Rightarrow> 'm pipeline \<Rightarrow> 'm pipeline \<times> nat res" where
  "flush_digest C em R n b s =
     (case find (\<lambda>g. dg_name g = n) (mr_digests R) of
        None \<Rightarrow> (s, Inl KeyError)
      | Some g \<Rightarrow> flush_through C em g b s)"

section \<open>Digest lemmas\<close>

lemma digests_of_simps [simp]:
  "digests_of (set_digests d s) = d" "pl_sent (set_digests d s) = pl_sent s"
  "windows_of (set_digests d s) = windows_of s"
  "digests_of (s\<lparr>pl_sent := x\<rparr>) = digests_of s" "digests_of (set_windows r s) = digests_of s"
  "digests_of (s\<lparr>pl_adapter := m\<rparr>) = digests_of s" "windows_of (s\<lparr>pl_adapter := m\<rparr>) = windows_of s"
  by (simp_all add: set_digests_def digests_of_def windows_of_def set_windows_def)

lemma flush_through_cases:
  assumes "digests_inv C (digests_of s)" "flush_through C em g b s = (s', r)"
    and es: "es = digest_list C (dg_name g) (digests_of s)"
    and ready: "ready = filter (\<lambda>e. ev_block e \<le> b) es"
  shows "ready = [] \<and> s' = s \<and> r = Inr 0 \<or>
    ready \<noteq> [] \<and> s' = s \<and> (\<exists>e. r = Inl e) \<or>
    (\<exists>d. ready \<noteq> [] \<and> r = Inr 1 \<and>
      s' = set_digests d (s\<lparr>pl_sent := pl_sent s @ [EventNotification ready]\<rparr>) \<and>
      digests_inv C d \<and> digest_list C (dg_name g) d = filter (\<lambda>e. b < ev_block e) es \<and>
      (\<forall>m. m \<noteq> dg_name g \<longrightarrow> digest_list C m d = digest_list C m (digests_of s)))"
proof -
  note ev = digest_events_inv [OF assms(1), of "dg_name g"]
  show ?thesis
  proof (cases "ready = []")
    case True
    with assms(2) ev have "s' = s \<and> r = Inr 0" by (simp add: flush_through_def ready es)
    with True show ?thesis by blast
  next
    case False
    obtain d where d: "digest_discard C (dg_name g) ready (digests_of s) = Inr d"
      using digest_discard_inv [OF assms(1)] by simp
    show ?thesis
    proof (cases "em (pl_sent s) (EventNotification ready)")
      case (Some e)
      with False assms(2) ev have "s' = s \<and> r = Inl e"
        by (simp add: flush_through_def ready es bindS_def liftS_def mk_notification_def
            emit_notification_def)
      with False show ?thesis by blast
    next
      case None
      have keep: "filter (\<lambda>e. log_identity e \<notin> log_identity ` set ready) es = filter (\<lambda>e. b < ev_block e) es"
      proof (rule filter_cong [OF refl])
        fix x
        assume x: "x \<in> set es"
        have inj: "inj_on log_identity (set es)"
          using ev(2) by (simp add: canonical_def distinct_map es)
        have "log_identity x \<in> log_identity ` set ready \<longleftrightarrow> x \<in> set ready"
          using inj x by (intro inj_on_image_mem_iff) (auto simp: ready)
        then show "log_identity x \<notin> log_identity ` set ready \<longleftrightarrow> b < ev_block x"
          using x by (auto simp: ready)
      qed
      from False None assms(2) ev d
      have "s' = set_digests d (s\<lparr>pl_sent := pl_sent s @ [EventNotification ready]\<rparr>) \<and> r = Inr 1"
        by (simp add: flush_through_def ready es bindS_def liftS_def mk_notification_def
            emit_notification_def)
      with False digest_discard_list [OF assms(1) d] keep show ?thesis
        by (intro disjI2 exI [of _ d]) (simp add: es)
    qed
  qed
qed

section \<open>Routing keeps every event\<close>

definition in_digest :: "codec \<Rightarrow> 'm module_runtime \<Rightarrow> 'm pipeline \<Rightarrow> string \<times> string \<times> int \<Rightarrow> bool" where
  "in_digest C R s i \<longleftrightarrow> (\<exists>g \<in> set (mr_digests R).
     i \<in> log_identity ` set (digest_list C (dg_name g) (digests_of s)))"

definition runtime_inv :: "codec \<Rightarrow> 'm module_runtime \<Rightarrow> 'm pipeline \<Rightarrow> bool" where
  "runtime_inv C R s \<longleftrightarrow> coord_inv C (mr_aggregators R) s \<and> digests_inv C (digests_of s)"

definition safe :: "codec \<Rightarrow> 'm module_runtime \<Rightarrow> 'm pipeline \<Rightarrow> string \<times> string \<times> int \<Rightarrow> bool" where
  "safe C R s i \<longleftrightarrow> retained C (mr_aggregators R) s i \<or> in_digest C R s i"

definition routed_event :: "'m module_runtime \<Rightarrow> event \<Rightarrow> bool" where
  "routed_event R e \<longleftrightarrow>
     (\<exists>g \<in> set (mr_digests R). dg_event g = ev_name e) \<or> kept_event (mr_aggregators R) e"

lemma offer_cases:
  assumes "digests_inv C (digests_of s)" "offer_to_digests C gs e s = (s', r)"
  shows "(r = Inr False \<and> s' = s \<and> (\<forall>g \<in> set gs. dg_event g \<noteq> ev_name e)) \<or>
    (\<exists>g d. g \<in> set gs \<and> dg_event g = ev_name e \<and> r = Inr True \<and>
       digest_append C (dg_name g) e (digests_of s) = Inr d \<and> s' = set_digests d s)"
  using assms(2)
proof (induction gs)
  case (Cons g gs)
  show ?case
  proof (cases "ev_name e = dg_event g")
    case True
    obtain d where "digest_append C (dg_name g) e (digests_of s) = Inr d"
      using digest_events_inv(1) [OF assms(1)] by (simp add: digest_append_def)
    with True Cons.prems show ?thesis by (auto simp: digest_handle_event_def bindS_def)
  next
    case False
    with Cons.prems have "offer_to_digests C gs e s = (s', r)"
      by (simp add: digest_handle_event_def bindS_def)
    from Cons.IH [OF this] False show ?thesis by auto
  qed
qed simp

lemma retained_adapter [simp]:
  "retained C ags (s\<lparr>pl_adapter := m\<rparr>) i = retained C ags s i"
  "coord_inv C ags (s\<lparr>pl_adapter := m\<rparr>) = coord_inv C ags s"
  by (simp_all add: retained_def coord_inv_def)

lemma retained_set_digests [simp]:
  "retained C ags (set_digests d s) i = retained C ags s i"
  "coord_inv C ags (set_digests d s) = coord_inv C ags s"
  by (simp_all add: retained_def coord_inv_def)

lemma prepare_digests:
  assumes "prepare C ags e s = (t, r)"
  shows "digests_of t = digests_of s"
proof -
  have "\<exists>w. t = s \<or> t = set_windows w s"
    using assms unfolding prepare_def by (auto split: option.split_asm sum.split_asm)
  then show ?thesis by auto
qed

lemma emit_prepared_digests:
  assumes "emit_prepared em p s = (t, r)"
  shows "digests_of t = digests_of s"
proof -
  obtain u q where u: "emit_all em (pn_notifications p) s = (u, q)" by force
  from emit_all_cases [OF u] have "digests_of u = digests_of s" by auto
  with u assms show ?thesis
    by (cases q) (auto simp: emit_prepared_def bindS_def split: option.splits)
qed

lemma coordinator_digests:
  assumes "coordinator_handle_event C em ags e s = (t, r)"
  shows "digests_of t = digests_of s"
proof -
  obtain u q where u: "prepare C ags e s = (u, q)" by force
  show ?thesis
  proof (cases q)
    case (Inl err)
    with u assms show ?thesis
      by (auto simp: coordinator_handle_event_def bindS_def dest: prepare_digests)
  next
    case (Inr p)
    with u assms have "emit_prepared em p u = (t, r)"
      by (simp add: coordinator_handle_event_def bindS_def)
    with emit_prepared_digests prepare_digests [OF u] show ?thesis by metis
  qed
qed

lemma runtime_event_safe:
  assumes wc: "well_configured (mr_aggregators R)" and inv: "runtime_inv C R s"
    and run: "runtime_handle_event C em R e s = (s', r)"
    and ok: "r = Inr () \<Longrightarrow> codec_event_ok C e"
  shows "runtime_inv C R s' \<and> (\<forall>i. safe C R s i \<longrightarrow> safe C R s' i) \<and>
    (r = Inr () \<longrightarrow> routed_event R e \<longrightarrow> safe C R s' (log_identity e))"
proof -
  obtain m q where fx: "mr_effects R e (pl_adapter s) = (m, q)" by force
  let ?s = "s\<lparr>pl_adapter := m\<rparr>"
  have inv1: "runtime_inv C R ?s" and safe1: "safe C R ?s = safe C R s"
    using inv by (auto simp: runtime_inv_def safe_def in_digest_def)
  show ?thesis
  proof (cases q)
    case (Inl err)
    with run fx have "s' = ?s" "r = Inl err"
      by (auto simp: runtime_handle_event_def run_effects_def bindS_def)
    with inv1 safe1 show ?thesis by simp
  next
    case (Inr u)
    obtain t taken where t: "offer_to_digests C (mr_digests R) e ?s = (t, taken)" by force
    from inv1 have "digests_inv C (digests_of ?s)" by (simp add: runtime_inv_def)
    from offer_cases [OF this t] show ?thesis
    proof (elim disjE exE conjE)
      fix g d
      assume g: "g \<in> set (mr_digests R)" "dg_event g = ev_name e" "taken = Inr True"
        "digest_append C (dg_name g) e (digests_of ?s) = Inr d" "t = set_digests d ?s"
      with run fx Inr t have s': "s' = set_digests d ?s" "r = Inr ()"
        by (auto simp: runtime_handle_event_def run_effects_def bindS_def)
      note ap = digest_append_list [OF \<open>digests_inv C (digests_of ?s)\<close> ok [OF s'(2)] g(4)]
      have ids: "log_identity ` set (digest_list C (dg_name g) d) =
          insert (log_identity e) (log_identity ` set (digest_list C (dg_name g) (digests_of s)))"
        using ap(3) by auto
      have ds: "digests_of s' = d" by (simp add: s')
      have "in_digest C R s' i" if "in_digest C R s i" for i
      proof -
        from that obtain h where h: "h \<in> set (mr_digests R)"
          "i \<in> log_identity ` set (digest_list C (dg_name h) (digests_of s))"
          by (auto simp: in_digest_def)
        have "i \<in> log_identity ` set (digest_list C (dg_name h) d)"
          using h(2) ids ap(2) by (cases "dg_name h = dg_name g") simp_all
        with h(1) show ?thesis unfolding in_digest_def ds by blast
      qed
      moreover have "in_digest C R s' (log_identity e)"
        unfolding in_digest_def ds using g(1) ids by blast
      moreover have "runtime_inv C R s'"
        using inv1 ap(1) by (simp add: runtime_inv_def s')
      ultimately show ?thesis by (auto simp: safe_def s')
    next
      assume a: "taken = Inr False" "t = ?s" "\<forall>g \<in> set (mr_digests R). dg_event g \<noteq> ev_name e"
      with run fx Inr t have c: "coordinator_handle_event C em (mr_aggregators R) e ?s = (s', r)"
        by (auto simp: runtime_handle_event_def run_effects_def bindS_def)
      from inv1 have ci: "coord_inv C (mr_aggregators R) ?s" by (simp add: runtime_inv_def)
      have d: "digests_of s' = digests_of s" using coordinator_digests [OF c] by simp
      show ?thesis
      proof (cases r)
        case (Inl err)
        with c ci have "s' = ?s" by (intro handle_event_error) (auto simp: coord_inv_def)
        with inv1 safe1 Inl show ?thesis by simp
      next
        case (Inr u)
        then have r: "r = Inr ()" by simp
        from handle_event_retains [OF wc ci ok [OF r] c [unfolded r]] d a(3) inv1 show ?thesis
          by (auto simp: safe_def in_digest_def runtime_inv_def routed_event_def)
      qed
    qed
  qed
qed

text \<open>The pending windows a step completes: they are no longer pending after it.\<close>

definition completed_windows :: "codec \<Rightarrow> 'm pipeline \<Rightarrow> 'm pipeline \<Rightarrow> window set" where
  "completed_windows C s s' =
     {w. (\<exists>ws. pending C (windows_of s) = Inr ws \<and> w \<in> set ws) \<and>
         \<not> (\<exists>ws. pending C (windows_of s') = Inr ws \<and> w \<in> set ws)}"

text \<open>Events lost to an incomplete report among the windows \<open>W\<close>.\<close>

definition dropped :: "'m module_runtime \<Rightarrow> window set \<Rightarrow> string \<times> string \<times> int \<Rightarrow> bool" where
  "dropped R W i \<longleftrightarrow> (\<exists>w \<in> W. incomplete_window (mr_aggregators R) w \<and>
     i \<in> log_identity ` set (aw_events w))"

lemma dropped_union [simp]: "dropped R (W \<union> V) i \<longleftrightarrow> dropped R W i \<or> dropped R V i"
  by (auto simp: dropped_def)

lemma runtime_flush_safe:
  assumes inv: "runtime_inv C R s" and run: "flush_ready_windows C em (mr_aggregators R) b s = (s', r)"
  shows "runtime_inv C R s' \<and>
    (\<forall>i. safe C R s i \<longrightarrow> safe C R s' i \<or> dropped R (completed_windows C s s') i)"
proof -
  from inv have ci: "coord_inv C (mr_aggregators R) s" by (simp add: runtime_inv_def)
  then have w: "windows_inv C (windows_of s)" by (simp add: coord_inv_def)
  from flush_ready_cases [OF w run] have d: "digests_of s' = digests_of s"
    by (auto simp: digests_of_def)
  note keep = flush_retains [OF ci run]
  then have "windows_inv C (windows_of s')" by (simp add: coord_inv_def)
  with w have "completed_windows C s s' =
      set (win_list C (windows_of s)) - set (win_list C (windows_of s'))"
    by (auto simp: completed_windows_def pending_inv)
  with keep have "retained C (mr_aggregators R) s i \<Longrightarrow>
      retained C (mr_aggregators R) s' i \<or> dropped R (completed_windows C s s') i" for i
    unfolding dropped_def by metis
  moreover have "in_digest C R s' = in_digest C R s" by (simp add: in_digest_def d fun_eq_iff)
  moreover have "runtime_inv C R s'" using keep inv d by (simp add: runtime_inv_def)
  ultimately show ?thesis unfolding safe_def by metis
qed

lemma advance_block_simps [simp]:
  "windows_of (advance_block b s) = windows_of s" "digests_of (advance_block b s) = digests_of s"
  "pl_sent (advance_block b s) = pl_sent s"
  "bs_block (pl_store (advance_block b s)) = max (bs_block (pl_store s)) b"
  by (simp_all add: advance_block_def windows_of_def digests_of_def update_block_def)

lemma advance_block_safe [simp]:
  "runtime_inv C R (advance_block b s) = runtime_inv C R s"
  "safe C R (advance_block b s) i = safe C R s i"
  by (simp_all add: runtime_inv_def safe_def coord_inv_def retained_def in_digest_def)

lemma runtime_block_cases:
  assumes "runtime_handle_block C em R b s = (s', r)"
  shows "\<exists>t. flush_ready_windows C em (mr_aggregators R) (bl_number b) s = (t, r) \<and>
     (s' = t \<and> r \<noteq> Inr () \<or> s' = advance_block (bl_number b) t \<and> r = Inr ())"
  using assms
  by (auto simp: runtime_handle_block_def coordinator_handle_block_def bindS_def
      split: prod.splits sum.splits)

lemma digest_flush_safe:
  assumes inv: "runtime_inv C R s" and g: "g \<in> set (mr_digests R)"
    and run: "flush_through C em g b s = (s', r)"
  shows "runtime_inv C R s' \<and> (\<forall>i. safe C R s i \<longrightarrow> safe C R s' i)"
proof -
  let ?es = "digest_list C (dg_name g) (digests_of s)"
  let ?ready = "filter (\<lambda>e. ev_block e \<le> b) ?es"
  from inv have d: "digests_inv C (digests_of s)" by (simp add: runtime_inv_def)
  from flush_through_cases [OF d run refl refl] show ?thesis
  proof (elim disjE exE conjE)
    fix d
    assume f: "s' = set_digests d (s\<lparr>pl_sent := pl_sent s @ [EventNotification ?ready]\<rparr>)"
      "digests_inv C d" "digest_list C (dg_name g) d = filter (\<lambda>e. b < ev_block e) ?es"
      "\<forall>m. m \<noteq> dg_name g \<longrightarrow> digest_list C m d = digest_list C m (digests_of s)"
    have ret: "retained C (mr_aggregators R) s' i \<longleftrightarrow>
        retained C (mr_aggregators R) s i \<or> i \<in> log_identity ` set ?ready" for i
      by (auto simp: retained_def f(1))
    have "safe C R s' i" if "in_digest C R s i" for i
    proof -
      from that obtain h x where h: "h \<in> set (mr_digests R)"
        "x \<in> set (digest_list C (dg_name h) (digests_of s))" "i = log_identity x"
        by (auto simp: in_digest_def)
      show ?thesis
      proof (cases "dg_name h = dg_name g \<and> ev_block x \<le> b")
        case True
        with h have "i \<in> log_identity ` set ?ready" by auto
        with ret show ?thesis by (simp add: safe_def)
      next
        case False
        then have "x \<in> set (digest_list C (dg_name h) d)"
          using h(2) f(3,4) by (cases "dg_name h = dg_name g") auto
        with h(1,3) show ?thesis by (auto simp: safe_def in_digest_def f(1))
      qed
    qed
    moreover have "runtime_inv C R s'"
      using inv f(2) by (simp add: runtime_inv_def f(1) coord_inv_def)
    ultimately show ?thesis using ret by (auto simp: safe_def)
  qed (use inv in simp_all)
qed

text \<open>
  Runs of the runtime: events, blocks, resumptions and digest flushes in any order, each
  returning or raising, with the set \<open>H\<close> of the events whose handling returned and the set \<open>W\<close>
  of the windows that were completed.
\<close>

inductive runtime_reach ::
  "codec \<Rightarrow> emitter \<Rightarrow> 'm module_runtime \<Rightarrow> 'm pipeline \<Rightarrow> 'm pipeline \<Rightarrow> event set \<Rightarrow>
   window set \<Rightarrow> bool"
  for C em R s0 where
  start: "runtime_reach C em R s0 s0 {} {}"
| event: "runtime_reach C em R s0 s H W \<Longrightarrow> codec_event_ok C e \<Longrightarrow>
    runtime_handle_event C em R e s = (s', Inr ()) \<Longrightarrow> runtime_reach C em R s0 s' (insert e H) W"
| event_error: "runtime_reach C em R s0 s H W \<Longrightarrow>
    runtime_handle_event C em R e s = (s', Inl err) \<Longrightarrow> runtime_reach C em R s0 s' H W"
| block: "runtime_reach C em R s0 s H W \<Longrightarrow>
    runtime_handle_block C em R b s = (s', r) \<Longrightarrow>
    runtime_reach C em R s0 s' H (W \<union> completed_windows C s s')"
| resume: "runtime_reach C em R s0 s H W \<Longrightarrow>
    resume_pending_aggregations C em R s = (s', r) \<Longrightarrow>
    runtime_reach C em R s0 s' H (W \<union> completed_windows C s s')"
| flush: "runtime_reach C em R s0 s H W \<Longrightarrow>
    flush_digest C em R n b s = (s', q) \<Longrightarrow> runtime_reach C em R s0 s' H W"

lemma runtime_reach_inv:
  assumes "runtime_reach C em R s0 s H W" "well_configured (mr_aggregators R)" "runtime_inv C R s0"
  shows "runtime_inv C R s \<and>
    (\<forall>e \<in> H. routed_event R e \<longrightarrow> safe C R s (log_identity e) \<or> dropped R W (log_identity e))"
  using assms(1)
proof induction
  case start
  then show ?case using assms(3) by simp
next
  case (event s H W e s')
  from runtime_event_safe [OF assms(2) _ event.hyps(3) event.hyps(2)] event.IH show ?case by blast
next
  case (event_error s H W e s' err)
  from runtime_event_safe [OF assms(2) _ event_error.hyps(2)] event_error.IH show ?case by blast
next
  case (block s H W b s' r)
  from runtime_block_cases [OF block.hyps(2)] obtain t where
    t: "flush_ready_windows C em (mr_aggregators R) (bl_number b) s = (t, r)"
    and s': "s' = t \<or> s' = advance_block (bl_number b) t" by blast
  from s' have c: "completed_windows C s s' = completed_windows C s t"
    by (auto simp: completed_windows_def)
  from block.IH runtime_flush_safe [OF _ t] have "runtime_inv C R t \<and> (\<forall>e \<in> H. routed_event R e \<longrightarrow>
      safe C R t (log_identity e) \<or> dropped R (W \<union> completed_windows C s t) (log_identity e))"
    by (simp only: dropped_union) blast
  with s' show ?case unfolding c by auto
next
  case (resume s H W s' r)
  then have "flush_ready_windows C em (mr_aggregators R) (bs_block (pl_store s)) s = (s', r)"
    by (simp add: resume_pending_aggregations_def resume_pending_def)
  from runtime_flush_safe [OF _ this] resume.IH show ?case by (simp only: dropped_union) blast
next
  case (flush s H W n b s' q)
  show ?case
  proof (cases "find (\<lambda>g. dg_name g = n) (mr_digests R)")
    case None
    with flush show ?thesis by (simp add: flush_digest_def)
  next
    case (Some g)
    with flush.hyps(2) have "flush_through C em g b s = (s', q)" by (simp add: flush_digest_def)
    from digest_flush_safe [OF _ _ this] find_SomeD [OF Some] flush.IH show ?thesis by blast
  qed
qed

section \<open>Properties\<close>

text \<open>C1: no handled event is lost: after any run of the module runtime (events, blocks,
  resumptions, digest flushes, each of which may raise at any emission) every event whose
  handling returned, distribution events included, is in a digest of the runtime, in a pending
  window of a registered aggregator, or in an emitted notification. The one exception the code
  makes: an event of a completed window of a distribution aggregator whose report is incomplete,
  that is, one of its event names never arrived or its events come from several transactions.\<close>

theorem runtime_loses_no_event:
  assumes "well_configured (mr_aggregators R)" "runtime_inv C R s0"
    and "runtime_reach C em R s0 s H W" "e \<in> H"
    and "\<And>g ns. OperatorGroupChangeAggregator g ns \<in> set (mr_aggregators R) \<Longrightarrow> ns = group_event_names"
  shows "(\<exists>g \<in> set (mr_digests R). \<exists>es. digest_events C (dg_name g) (digests_of s) = Inr es \<and>
       log_identity e \<in> log_identity ` set es) \<or>
     (\<exists>w ws. pending C (windows_of s) = Inr ws \<and> w \<in> set ws \<and>
       aggregator_for_group (mr_aggregators R) (aw_group w) \<noteq> None \<and>
       log_identity e \<in> log_identity ` set (aw_events w)) \<or>
     (\<exists>n \<in> set (pl_sent s). log_identity e \<in> log_identity ` set (source_events n)) \<or>
     (\<exists>w \<in> W. \<exists>g ns. log_identity e \<in> log_identity ` set (aw_events w) \<and>
       aggregator_for_group (mr_aggregators R) (aw_group w) = Some (DistributionReportAggregator g ns) \<and>
       \<not> ((\<forall>n \<in> ns. \<exists>x \<in> set (aw_events w). ev_name x = n) \<and>
          (\<exists>t. \<forall>x \<in> set (aw_events w). ev_name x \<in> ns \<longrightarrow> ev_tx x = t)))"
proof -
  have "keeps_events a" if "a \<in> set (mr_aggregators R)" for a
    using assms(5) that by (cases a) (simp_all add: keeps_events_def)
  then have "routed_event R e"
    by (auto simp: routed_event_def kept_event_def split: option.split dest: aggregator_for_event_in)
  with runtime_reach_inv [OF assms(3,1,2)] assms(4)
  have inv: "runtime_inv C R s" and "safe C R s (log_identity e) \<or> dropped R W (log_identity e)"
    by auto
  then consider (digest) "in_digest C R s (log_identity e)"
    | (kept) "retained C (mr_aggregators R) s (log_identity e)"
    | (dropped) "dropped R W (log_identity e)"
    unfolding safe_def by blast
  then show ?thesis
  proof cases
    case digest
    then obtain g where g: "g \<in> set (mr_digests R)"
      "log_identity e \<in> log_identity ` set (digest_list C (dg_name g) (digests_of s))"
      by (auto simp only: in_digest_def)
    moreover from inv have "digest_events C (dg_name g) (digests_of s) =
        Inr (digest_list C (dg_name g) (digests_of s))"
      unfolding runtime_inv_def by (intro digest_events_inv(1)) simp
    ultimately show ?thesis by (intro disjI1) blast
  next
    case kept
    from inv have p: "pending C (windows_of s) = Inr (win_list C (windows_of s))"
      unfolding runtime_inv_def coord_inv_def by (intro pending_inv) simp
    from kept consider
      (pending) w a where "w \<in> set (win_list C (windows_of s))"
        "aggregator_for_group (mr_aggregators R) (aw_group w) = Some a"
        "log_identity e \<in> log_identity ` set (aw_events w)"
      | (sent) "\<exists>n \<in> set (pl_sent s). log_identity e \<in> log_identity ` set (source_events n)"
      unfolding retained_def by blast
    then show ?thesis
    proof cases
      case pending
      with p show ?thesis by (intro disjI2 disjI1 exI [of _ w] exI [of _ "win_list C (windows_of s)"]) simp
    next
      case sent
      then show ?thesis by (intro disjI2 disjI1)
    qed
  next
    case dropped
    then show ?thesis
      unfolding dropped_def incomplete_window_def complete_report_def by (intro disjI2) blast
  qed
qed

definition sample_runtime :: "unit module_runtime" where
  "sample_runtime = \<lparr>mr_aggregators = sample_aggregators,
     mr_digests = [\<lparr>dg_name = ''d'', dg_event = ''D''\<rparr>], mr_effects = (\<lambda>_ m. (m, Inr ()))\<rparr>"

lemma sample_runtime_inv: "runtime_inv sample_codec sample_runtime sample_pipeline"
  using sample_coord_inv
  by (simp add: runtime_inv_def sample_runtime_def digests_inv_def digests_of_def
      sample_pipeline_def sample_store_def)

lemma runtime_loses_no_event_witness:
  "let e = sample_event ''D'' ''nodeOperatorId'' 7 1 0 in
   \<exists>s. runtime_reach sample_codec (\<lambda>_ _. None) sample_runtime sample_pipeline s {e} {} \<and>
     ((\<exists>g \<in> set (mr_digests sample_runtime). \<exists>es.
        digest_events sample_codec (dg_name g) (digests_of s) = Inr es \<and>
        log_identity e \<in> log_identity ` set es) \<or>
      (\<exists>w ws. pending sample_codec (windows_of s) = Inr ws \<and> w \<in> set ws \<and>
        aggregator_for_group (mr_aggregators sample_runtime) (aw_group w) \<noteq> None \<and>
        log_identity e \<in> log_identity ` set (aw_events w)) \<or>
      (\<exists>n \<in> set (pl_sent s). log_identity e \<in> log_identity ` set (source_events n)))"
proof -
  let ?e = "sample_event ''D'' ''nodeOperatorId'' 7 1 0"
  have "\<exists>s'. runtime_handle_event sample_codec (\<lambda>_ _. None) sample_runtime ?e sample_pipeline = (s', Inr ())"
    by (simp add: runtime_handle_event_def run_effects_def sample_runtime_def bindS_def
        digest_handle_event_def sample_event_def digest_append_def digest_events_def
        digests_of_def sample_pipeline_def sample_store_def)
  then obtain s' where
    "runtime_handle_event sample_codec (\<lambda>_ _. None) sample_runtime ?e sample_pipeline = (s', Inr ())"
    by blast
  then have r: "runtime_reach sample_codec (\<lambda>_ _. None) sample_runtime sample_pipeline s' {?e} {}"
    by (intro runtime_reach.event [OF runtime_reach.start]) simp_all
  have w: "well_configured (mr_aggregators sample_runtime)"
    using sample_configured by (simp add: sample_runtime_def)
  have "OperatorGroupChangeAggregator g ns \<notin> set (mr_aggregators sample_runtime)" for g ns
    by (simp add: sample_runtime_def sample_aggregators_def)
  with runtime_loses_no_event [OF w sample_runtime_inv r, of ?e] r show ?thesis
    unfolding Let_def by blast
qed

text \<open>C2: the checkpoint is safe: handling a block never moves the persisted block back; when
  it returns, the checkpoint covers the block and no window that ends at or before it is
  pending; when it raises, the checkpoint has not moved, so the block is replayed.\<close>

theorem checkpoint_safety:
  assumes "windows_inv C (windows_of s)" "runtime_handle_block C em R b s = (s', r)"
  shows "(r = Inr () \<longrightarrow>
       bs_block (pl_store s') = max (bs_block (pl_store s)) (bl_number b) \<and>
       (\<exists>ws. pending C (windows_of s') = Inr ws \<and> (\<forall>w \<in> set ws. bl_number b < aw_end w))) \<and>
     (r \<noteq> Inr () \<longrightarrow> bs_block (pl_store s') = bs_block (pl_store s))"
proof -
  from runtime_block_cases [OF assms(2)] obtain t where
    t: "flush_ready_windows C em (mr_aggregators R) (bl_number b) s = (t, r)"
    and s': "s' = t \<and> r \<noteq> Inr () \<or> s' = advance_block (bl_number b) t \<and> r = Inr ()" by blast
  from flush_ready_cases [OF assms(1) t] obtain flushed rest where f:
    "ready_windows (bl_number b) (win_list C (windows_of s)) = flushed @ rest"
    "windows_inv C (windows_of t)"
    "win_list C (windows_of t) = filter (\<lambda>w. w \<notin> set flushed) (win_list C (windows_of s))"
    "bs_block (pl_store t) = bs_block (pl_store s)" "r = Inr () \<longrightarrow> rest = []" by blast
  have "bl_number b < aw_end w" if "r = Inr ()" "w \<in> set (win_list C (windows_of t))" for w
  proof -
    from that(1) f(5) have "rest = []" by blast
    with f(1) have "set flushed = {w \<in> set (win_list C (windows_of s)). aw_end w \<le> bl_number b}"
      using ready_windows_set [of "bl_number b" "win_list C (windows_of s)"] by simp
    moreover from that(2) f(3) have "w \<in> set (win_list C (windows_of s))" "w \<notin> set flushed"
      by simp_all
    ultimately show ?thesis by simp
  qed
  with s' f(4) pending_inv [OF f(2)] show ?thesis by auto
qed

lemma checkpoint_safety_witness:
  "\<exists>s'. runtime_handle_block sample_codec (\<lambda>_ _. None) sample_runtime \<lparr>bl_number = 9\<rparr> sample_pipeline = (s', Inr ()) \<and>
     bs_block (pl_store s') = max (bs_block (pl_store sample_pipeline)) 9"
proof -
  have w: "windows_inv sample_codec (windows_of sample_pipeline)" by (simp add: sample_windows)
  have p: "pending sample_codec [] = Inr []" by (simp add: pending_def records_from_def)
  have run: "runtime_handle_block sample_codec (\<lambda>_ _. None) sample_runtime \<lparr>bl_number = 9\<rparr> sample_pipeline =
      (advance_block 9 sample_pipeline, Inr ())"
    by (simp add: runtime_handle_block_def coordinator_handle_block_def flush_ready_windows_def
        sample_windows p bindS_def liftS_def ready_windows_def)
  with checkpoint_safety [OF w run] show ?thesis by auto
qed

text \<open>C6: flushing a digest through a block emits all of its events up to that block in chain
  order as one notification and then keeps exactly the later ones; without such events it does
  nothing, and when emitting raises the digest is as it was. Other digests never change.\<close>

theorem digest_flush_exact:
  assumes "digests_inv C (digests_of s)" "flush_through C em g b s = (s', r)"
  shows "\<exists>es es'. digest_events C (dg_name g) (digests_of s) = Inr es \<and>
     digest_events C (dg_name g) (digests_of s') = Inr es' \<and>
     sorted (map position es) \<and>
     (let ready = filter (\<lambda>e. ev_block e \<le> b) es in
      case r of
        Inl _ \<Rightarrow> ready \<noteq> [] \<and> s' = s
      | Inr k \<Rightarrow>
          k = (if ready = [] then 0 else 1) \<and>
          pl_sent s' = pl_sent s @ (if ready = [] then [] else [EventNotification ready]) \<and>
          es' = filter (\<lambda>e. b < ev_block e) es) \<and>
     (\<forall>m. m \<noteq> dg_name g \<longrightarrow> digest_events C m (digests_of s') = digest_events C m (digests_of s))"
proof -
  let ?es = "digest_list C (dg_name g) (digests_of s)"
  let ?ready = "filter (\<lambda>e. ev_block e \<le> b) ?es"
  note ev = digest_events_inv [OF assms(1)]
  have sorted: "sorted (map position ?es)" using ev(2) [of "dg_name g"] by (simp add: canonical_def)
  from flush_through_cases [OF assms refl refl] show ?thesis
  proof (elim disjE exE conjE)
    assume n: "?ready = []" "s' = s" "r = Inr 0"
    then have "filter (\<lambda>e. b < ev_block e) ?es = ?es" by (force simp: filter_empty_conv filter_id_conv)
    with n sorted ev(1) show ?thesis by (simp add: Let_def)
  next
    fix e
    assume "?ready \<noteq> []" "s' = s" "r = Inl e"
    with sorted ev(1) show ?thesis by (simp add: Let_def)
  next
    fix d
    assume f: "?ready \<noteq> []" "r = Inr 1"
      "s' = set_digests d (s\<lparr>pl_sent := pl_sent s @ [EventNotification ?ready]\<rparr>)"
      "digests_inv C d" "digest_list C (dg_name g) d = filter (\<lambda>e. b < ev_block e) ?es"
      "\<forall>m. m \<noteq> dg_name g \<longrightarrow> digest_list C m d = digest_list C m (digests_of s)"
    with sorted ev(1) digest_events_inv(1) [OF f(4)] show ?thesis by (simp add: Let_def)
  qed
qed

lemma digest_flush_exact_witness:
  "let e = sample_event ''D'' ''nodeOperatorId'' 7 1 0;
       s = set_digests (digest_replace ''d'' [e] []) sample_pipeline in
   \<exists>s' r es'. flush_through sample_codec (\<lambda>_ _. None) \<lparr>dg_name = ''d'', dg_event = ''D''\<rparr> 3 s = (s', r) \<and>
     digest_events sample_codec ''d'' (digests_of s') = Inr es' \<and>
     (\<forall>m. m \<noteq> ''d'' \<longrightarrow> digest_events sample_codec m (digests_of s') = digest_events sample_codec m (digests_of s))"
proof -
  let ?e = "sample_event ''D'' ''nodeOperatorId'' 7 1 0"
  let ?g = "\<lparr>dg_name = ''d'', dg_event = ''D''\<rparr>"
  let ?s = "set_digests (digest_replace ''d'' [?e] []) sample_pipeline"
  have "digests_inv sample_codec []" by (simp add: digests_inv_def)
  then have inv: "digests_inv sample_codec (digests_of ?s)"
    by (simp add: digest_replace_inv(1))
  obtain s' r where run: "flush_through sample_codec (\<lambda>_ _. None) ?g 3 ?s = (s', r)" by force
  from digest_flush_exact [OF inv run] run show ?thesis by (auto simp: Let_def)
qed

end
