(* ===== verification/Stream_Buffer.thy ===== *)
theory Stream_Buffer
  imports Log_Reader Module_Runtime
begin

text \<open>
  The chain event stream, class \<open>Subscription\<close> of \<open>sentinel/rpc.py\<close>: live logs and heads are
  delivered to the consumers, or buffered while a replay of past blocks is running and flushed
  in chain order after it. Consumers are numbered and act on a state \<open>'w\<close> through the parameter
  \<open>D\<close>. While the code awaits a consumer during a replay, other tasks run: \<open>st_env\<close> lists for
  each such point the live items that arrive and whether shutdown is requested. Calls of the
  health state are recorded in \<open>st_health\<close>.
\<close>

datatype item = IEvent event | IBlock block

datatype health_mark =
  MarkProgress | MarkActive | MarkInactive | MarkCatchupStarted | MarkCatchupComplete

record 'w stream =
  st_shutdown :: bool
  st_started :: bool
  st_detached :: bool
  st_unsubscribes :: nat
  st_threshold :: "int option"
  st_buffer :: "item list option"
  st_event_consumers :: "nat list"
  st_block_consumers :: "nat list"
  st_env :: "(item list \<times> bool) list"
  st_health :: "health_mark list"
  st_world :: 'w

type_synonym 'w consumer = "nat \<Rightarrow> item \<Rightarrow> 'w \<Rightarrow> 'w \<times> unit res"

definition mk_stream :: "int option \<Rightarrow> (item list \<times> bool) list \<Rightarrow> 'w \<Rightarrow> 'w stream" where
  "mk_stream threshold env w =
     \<lparr>st_shutdown = False, st_started = False, st_detached = False, st_unsubscribes = 0,
      st_threshold = threshold, st_buffer = None, st_event_consumers = [],
      st_block_consumers = [], st_env = env, st_health = [], st_world = w\<rparr>"

fun item_key :: "item \<Rightarrow> int \<times> int \<times> int \<times> int" where
  "item_key (IEvent e) = (ev_block e, 0, ev_tx_index e, ev_log_index e)"
| "item_key (IBlock b) = (bl_number b, 1, 0, 0)"

fun item_block :: "item \<Rightarrow> int" where
  "item_block (IEvent e) = ev_block e"
| "item_block (IBlock b) = bl_number b"

section \<open>Consumers\<close>

definition add_event_consumer :: "nat \<Rightarrow> 'w stream \<Rightarrow> 'w stream" where
  "add_event_consumer c s = (if c \<in> set (st_event_consumers s) then s
     else s\<lparr>st_event_consumers := st_event_consumers s @ [c]\<rparr>)"

definition remove_event_consumer :: "nat \<Rightarrow> 'w stream \<Rightarrow> 'w stream" where
  "remove_event_consumer c s = s\<lparr>st_event_consumers := remove1 c (st_event_consumers s)\<rparr>"

definition add_block_consumer :: "nat \<Rightarrow> 'w stream \<Rightarrow> 'w stream" where
  "add_block_consumer c s = (if c \<in> set (st_block_consumers s) then s
     else s\<lparr>st_block_consumers := st_block_consumers s @ [c]\<rparr>)"

definition remove_block_consumer :: "nat \<Rightarrow> 'w stream \<Rightarrow> 'w stream" where
  "remove_block_consumer c s = s\<lparr>st_block_consumers := remove1 c (st_block_consumers s)\<rparr>"

section \<open>Delivery\<close>

definition request_stream_shutdown :: "'w stream \<Rightarrow> 'w stream" where
  "request_stream_shutdown s = s\<lparr>st_shutdown := True\<rparr>"

definition above_threshold :: "item \<Rightarrow> 'w stream \<Rightarrow> bool" where
  "above_threshold i s \<longleftrightarrow>
     (case st_threshold s of None \<Rightarrow> True | Some t \<Rightarrow> t < item_block i)"

text \<open>A live item that arrives while the stream is buffering.\<close>

definition buffer_item :: "item \<Rightarrow> 'w stream \<Rightarrow> 'w stream" where
  "buffer_item i s =
     (if st_shutdown s \<or> \<not> above_threshold i s then s
      else (case st_buffer s of
              None \<Rightarrow> s
            | Some b \<Rightarrow> s\<lparr>st_buffer := Some (b @ [i])\<rparr>))"

definition await_point :: "'w stream \<Rightarrow> 'w stream" where
  "await_point s =
     (if st_buffer s = None then s
      else (case st_env s of
              [] \<Rightarrow> s
            | (arrivals, stop) # env \<Rightarrow>
                (let s1 = fold buffer_item arrivals (s\<lparr>st_env := env\<rparr>) in
                 if stop then request_stream_shutdown s1 else s1)))"

fun emit_to :: "'w consumer \<Rightarrow> nat list \<Rightarrow> item \<Rightarrow> 'w stream \<Rightarrow> 'w stream \<times> unit res" where
  "emit_to D [] i s = (s, Inr ())"
| "emit_to D (c # cs) i s =
     (if st_shutdown s then (s, Inr ())
      else (let (w, r) = D c i (st_world s); s1 = await_point (s\<lparr>st_world := w\<rparr>) in
        (case r of Inl e \<Rightarrow> (s1, Inl e) | Inr _ \<Rightarrow> emit_to D cs i s1)))"

definition consumers_of :: "item \<Rightarrow> 'w stream \<Rightarrow> nat list" where
  "consumers_of i s =
     (case i of IEvent _ \<Rightarrow> st_event_consumers s | IBlock _ \<Rightarrow> st_block_consumers s)"

definition emit_item :: "'w consumer \<Rightarrow> item \<Rightarrow> 'w stream \<Rightarrow> 'w stream \<times> unit res" where
  "emit_item D i s =
     (if st_shutdown s then (s, Inr ()) else emit_to D (consumers_of i s) i s)"

text \<open>\<open>_emit_subscription_event\<close> and \<open>_emit_subscription_block\<close>.\<close>

definition emit_subscription_item :: "'w consumer \<Rightarrow> item \<Rightarrow> 'w stream \<Rightarrow> 'w stream \<times> unit res" where
  "emit_subscription_item D i s =
     (if st_shutdown s then (s, Inr ())
      else if \<not> above_threshold i s then (s, Inr ())
      else (case st_buffer s of
              Some b \<Rightarrow> (s\<lparr>st_buffer := Some (b @ [i])\<rparr>, Inr ())
            | None \<Rightarrow> emit_item D i s))"

definition mark_health :: "health_mark \<Rightarrow> 'w stream \<Rightarrow> 'w stream" where
  "mark_health m s = s\<lparr>st_health := st_health s @ [m]\<rparr>"

section \<open>Live handlers\<close>

definition handle_event_log ::
  "decoder \<Rightarrow> abi_by_topics \<Rightarrow> (event \<Rightarrow> bool) option \<Rightarrow> 'w consumer \<Rightarrow> raw_log \<Rightarrow> 'w stream \<Rightarrow>
   'w stream \<times> unit res" where
  "handle_event_log dec t predicate D l s =
     (if rl_removed l then
        (s, bindR (normalize_block_number (rl_block l)) (\<lambda>_. Inr ()))
      else (case first_topic l of
              Inl e \<Rightarrow> (s, Inl e)
            | Inr topic \<Rightarrow>
                (case map_of t topic of
                   None \<Rightarrow> (s, Inr ())
                 | Some a \<Rightarrow>
                     (case decode_event dec a l of
                        Inl e \<Rightarrow> (s, Inl e)
                      | Inr e \<Rightarrow>
                          if (case predicate of None \<Rightarrow> False | Some p \<Rightarrow> \<not> p e) then (s, Inr ())
                          else emit_subscription_item D (IEvent e) (mark_health MarkProgress s)))))"

definition handle_new_head :: "'w consumer \<Rightarrow> pyval \<Rightarrow> 'w stream \<Rightarrow> 'w stream \<times> unit res" where
  "handle_new_head D number s =
     (case normalize_block_number number of
        Inl e \<Rightarrow> (s, Inl e)
      | Inr n \<Rightarrow>
          if n \<le> 0 then (s, Inr ())
          else emit_subscription_item D (IBlock \<lparr>bl_number = n - 1\<rparr>) (mark_health MarkProgress s))"

datatype subscription_request =
    LogsSubscription log_filter "(event \<Rightarrow> bool) option"
  | NewHeadsSubscription

fun logs_subscriptions :: "abi_by_topics \<Rightarrow> event_source list \<Rightarrow> subscription_request list res" where
  "logs_subscriptions t [] = Inr []"
| "logs_subscriptions t (src # srcs) =
     bindR (log_filter_for_source src t) (\<lambda>of'.
     bindR (logs_subscriptions t srcs) (\<lambda>rest.
       Inr (case of' of None \<Rightarrow> rest | Some f \<Rightarrow> LogsSubscription f (es_predicate src) # rest)))"

definition build_subscriptions :: "binding_set \<Rightarrow> subscription_request list res" where
  "build_subscriptions B =
     bindR (logs_subscriptions (bg_abis B) (bg_sources B)) (\<lambda>ls. Inr (ls @ [NewHeadsSubscription]))"

section \<open>Flushing the buffer\<close>

text \<open>
  One round delivers the items taken from the buffer; the flag of the result says whether the
  shutdown flag ended it.
\<close>

fun flush_items :: "'w consumer \<Rightarrow> item list option \<Rightarrow> item list \<Rightarrow> 'w stream \<Rightarrow> 'w stream \<times> bool res" where
  "flush_items D previous [] s = (s, Inr False)"
| "flush_items D previous (i # is) s =
     (if st_shutdown s then (s\<lparr>st_buffer := previous\<rparr>, Inr True)
      else (case emit_item D i s of
              (s1, Inl e) \<Rightarrow> (s1, Inl e)
            | (s1, Inr _) \<Rightarrow> flush_items D previous is s1))"

definition backlog :: "'w stream \<Rightarrow> nat" where
  "backlog s = length (case st_buffer s of None \<Rightarrow> [] | Some b \<Rightarrow> b)
     + sum_list (map (\<lambda>(arrivals, _). length arrivals) (st_env s))"

lemma buffer_item_fields [simp]:
  "st_env (buffer_item i s) = st_env s" "st_shutdown (buffer_item i s) = st_shutdown s"
  "st_world (buffer_item i s) = st_world s" "st_threshold (buffer_item i s) = st_threshold s"
  "st_event_consumers (buffer_item i s) = st_event_consumers s"
  "st_block_consumers (buffer_item i s) = st_block_consumers s"
  by (simp_all add: buffer_item_def split: option.splits)

lemma fold_buffer_fields [simp]:
  "st_env (fold buffer_item is s) = st_env s" "st_shutdown (fold buffer_item is s) = st_shutdown s"
  "st_world (fold buffer_item is s) = st_world s"
  "st_threshold (fold buffer_item is s) = st_threshold s"
  "st_event_consumers (fold buffer_item is s) = st_event_consumers s"
  "st_block_consumers (fold buffer_item is s) = st_block_consumers s"
  by (induction "is" arbitrary: s) simp_all

text \<open>The items that enter the buffer from a list of arrivals.\<close>

definition accepted :: "'w stream \<Rightarrow> item list \<Rightarrow> item list" where
  "accepted s is = (if st_shutdown s then [] else filter (\<lambda>i. above_threshold i s) is)"

lemma fold_buffer_item:
  "st_buffer s = Some b \<Longrightarrow> st_buffer (fold buffer_item is s) = Some (b @ accepted s is)"
proof (induction "is" arbitrary: s b)
  case (Cons i "is")
  have "accepted (buffer_item i s) is = accepted s is"
    by (simp add: accepted_def above_threshold_def)
  with Cons.IH [of "buffer_item i s" "b @ accepted s [i]"] Cons.prems show ?case
    by (auto simp: buffer_item_def accepted_def)
qed (simp add: accepted_def)

lemma await_point_backlog: "backlog (await_point s) \<le> backlog s"
proof (cases "st_buffer s")
  case (Some b)
  show ?thesis
  proof (cases "st_env s")
    case (Cons p env)
    obtain arrivals stop where p: "p = (arrivals, stop)" by force
    have "length (accepted (s\<lparr>st_env := env\<rparr>) arrivals) \<le> length arrivals"
      by (simp add: accepted_def)
    with Some Cons p show ?thesis
      by (simp add: await_point_def Let_def backlog_def request_stream_shutdown_def
          fold_buffer_item [of _ b])
  qed (simp add: await_point_def Some)
qed (simp add: await_point_def)

lemma emit_to_backlog: "backlog (fst (emit_to D cs i s)) \<le> backlog s"
proof (induction cs arbitrary: s)
  case (Cons c cs)
  obtain w r where d: "D c i (st_world s) = (w, r)" by force
  have a: "backlog (await_point (s\<lparr>st_world := w\<rparr>)) \<le> backlog s"
    using await_point_backlog [of "s\<lparr>st_world := w\<rparr>"] by (simp add: backlog_def)
  show ?case
    using a Cons.IH [of "await_point (s\<lparr>st_world := w\<rparr>)"] d
    by (cases r) (auto simp: Let_def)
qed simp

lemma emit_item_backlog: "emit_item D i s = (s', r) \<Longrightarrow> backlog s' \<le> backlog s"
  using emit_to_backlog [of D "consumers_of i s" i s] by (auto simp: emit_item_def split: if_splits)

lemma flush_items_backlog:
  "flush_items D previous is s = (s', Inr False) \<Longrightarrow> backlog s' \<le> backlog s"
proof (induction "is" arbitrary: s)
  case (Cons i "is")
  then have "\<not> st_shutdown s" by (auto split: if_splits)
  obtain s1 q where e: "emit_item D i s = (s1, q)" by force
  with Cons.prems \<open>\<not> st_shutdown s\<close> obtain u where "q = Inr u" by (cases q) auto
  with e Cons.prems \<open>\<not> st_shutdown s\<close> have "flush_items D previous is s1 = (s', Inr False)" by simp
  from Cons.IH [OF this] emit_item_backlog [OF e] show ?case by simp
qed simp

text \<open>The loop ends: each round takes at least one item out of a finite backlog.\<close>

function flush_buffer :: "'w consumer \<Rightarrow> item list option \<Rightarrow> 'w stream \<Rightarrow> 'w stream \<times> unit res" where
  "flush_buffer D previous s =
     (case st_buffer s of
        None \<Rightarrow> (s\<lparr>st_buffer := previous\<rparr>, Inr ())
      | Some b \<Rightarrow>
          (if b = [] \<or> st_shutdown s then (s\<lparr>st_buffer := previous\<rparr>, Inr ())
           else (case flush_items D previous (sort_key item_key b) (s\<lparr>st_buffer := Some []\<rparr>) of
                   (s1, Inl e) \<Rightarrow> (s1, Inl e)
                 | (s1, Inr stopped) \<Rightarrow>
                     if stopped then (s1, Inr ()) else flush_buffer D previous s1)))"
  by pat_completeness auto
termination
proof (relation "measure (\<lambda>(D, previous, s). backlog s)", goal_cases)
  case (2 D previous s b s1 r stopped)
  then have "backlog s1 \<le> backlog (s\<lparr>st_buffer := Some []\<rparr>)"
    using flush_items_backlog [of D previous "sort_key item_key b" "s\<lparr>st_buffer := Some []\<rparr>" s1]
    by simp
  also have "\<dots> < backlog s" using 2 by (simp add: backlog_def)
  finally show ?case by simp
qed simp

declare flush_buffer.simps [simp del]

section \<open>Replaying past blocks\<close>

text \<open>
  The log reader is reached through \<open>F\<close>, an instance of \<open>fetch_events\<close>; it acts on its own
  state \<open>'r\<close>, kept beside the stream. It returns nothing when the stop event, which is the
  shutdown event of the stream, is set. \<open>head\<close> answers \<open>eth_blockNumber\<close>.
\<close>

type_synonym 'r fetcher = "int \<Rightarrow> int \<Rightarrow> 'r \<Rightarrow> 'r \<times> event list option res"

definition fetch_batch ::
  "'r fetcher \<Rightarrow> int \<Rightarrow> int \<Rightarrow> 'w stream \<times> 'r \<Rightarrow> ('w stream \<times> 'r) \<times> event list option res" where
  "fetch_batch F a b S = (let (s, rs) = S in
     if st_shutdown s then (S, Inr None)
     else (let (rs', r) = F a b rs; s' = await_point s in
       ((s', rs'), if st_shutdown s' then Inr None else r)))"

text \<open>After each event the loop yields to other tasks once more.\<close>

fun replay_events :: "'w consumer \<Rightarrow> event list \<Rightarrow> 'w stream \<Rightarrow> 'w stream \<times> unit res" where
  "replay_events D [] s = (s, Inr ())"
| "replay_events D (e # es) s =
     (case emit_item D (IEvent e) s of
        (s1, Inl err) \<Rightarrow> (s1, Inl err)
      | (s1, Inr _) \<Rightarrow>
          if st_shutdown s1 then (s1, Inr ()) else replay_events D es (await_point s1))"

fun replay_batches ::
  "'w consumer \<Rightarrow> 'r fetcher \<Rightarrow> (int \<times> int) list \<Rightarrow> 'w stream \<times> 'r \<Rightarrow> ('w stream \<times> 'r) \<times> unit res" where
  "replay_batches D F [] S = (S, Inr ())"
| "replay_batches D F ((a, b) # rest) S =
     (case fetch_batch F a b S of
        (S1, Inl err) \<Rightarrow> (S1, Inl err)
      | (S1, Inr None) \<Rightarrow> (S1, Inr ())
      | ((s1, rs), Inr (Some es)) \<Rightarrow>
          (case replay_events D es s1 of
             (s2, Inl err) \<Rightarrow> ((s2, rs), Inl err)
           | (s2, Inr _) \<Rightarrow>
               if st_shutdown s2 then ((s2, rs), Inr ())
               else (case emit_item D (IBlock \<lparr>bl_number = b\<rparr>) s2 of
                       (s3, Inl err) \<Rightarrow> ((s3, rs), Inl err)
                     | (s3, Inr _) \<Rightarrow> replay_batches D F rest (mark_health MarkProgress s3, rs))))"

definition replay_range ::
  "'w consumer \<Rightarrow> 'r fetcher \<Rightarrow> int res \<Rightarrow> int \<Rightarrow> int \<Rightarrow> int option \<Rightarrow> 'w stream \<times> 'r \<Rightarrow>
   ('w stream \<times> 'r) \<times> unit res" where
  "replay_range D F head batch start end_block S =
     (if st_shutdown (fst S) then (S, Inr ())
      else (case (case end_block of
                    Some n \<Rightarrow> if n = 0 then head else Inr n
                  | None \<Rightarrow> head) of
              Inl err \<Rightarrow> (S, Inl err)
            | Inr last_block \<Rightarrow>
                if last_block < start then (S, Inr ())
                else if batch = 0 then (S, Inl ValueError)
                else replay_batches D F (batches start last_block batch) S))"

definition suppress_live_until :: "int option \<Rightarrow> 'w stream \<Rightarrow> 'w stream" where
  "suppress_live_until u s =
     (case u of
        None \<Rightarrow> s
      | Some n \<Rightarrow>
          s\<lparr>st_threshold := Some (max (case st_threshold s of None \<Rightarrow> 0 | Some t \<Rightarrow> t) n)\<rparr>)"

definition replay_blocks ::
  "'w consumer \<Rightarrow> 'r fetcher \<Rightarrow> int res \<Rightarrow> int \<Rightarrow> int \<Rightarrow> int option \<Rightarrow> int option \<Rightarrow>
   'w stream \<times> 'r \<Rightarrow> ('w stream \<times> 'r) \<times> unit res" where
  "replay_blocks D F head batch start end_block suppress S =
     (let s0 = suppress_live_until suppress (fst S); previous = st_buffer s0 in
      (case replay_range D F head batch start end_block (s0\<lparr>st_buffer := Some []\<rparr>, snd S) of
         ((s1, rs), Inl err) \<Rightarrow> ((s1\<lparr>st_buffer := previous\<rparr>, rs), Inl err)
       | ((s1, rs), Inr _) \<Rightarrow>
           if st_shutdown s1 then ((s1\<lparr>st_buffer := previous\<rparr>, rs), Inr ())
           else (let (s2, r) = flush_buffer D previous s1 in ((s2, rs), r))))"

section \<open>Subscribing and stopping\<close>

text \<open>
  \<open>connect\<close> and \<open>listen\<close> say whether connecting and subscribing, and the listener itself, return
  or raise an RPC availability error, \<open>stopped\<close> whether shutdown was requested while they ran.
  \<open>stream_start\<close> ends with \<open>None\<close> when the subscriptions are active and the listener runs.
  The provider's own connection state is not modelled.
\<close>

datatype subscribe_result = SubscribeDone | SubscribeRpcError | SubscribeListenerStopped

definition stream_start :: "bool \<Rightarrow> bool \<Rightarrow> 'w stream \<Rightarrow> 'w stream \<times> subscribe_result option" where
  "stream_start connect stopped s =
     (let s1 = (if stopped then request_stream_shutdown s else s) in
      if st_shutdown s then (s, Some SubscribeDone)
      else if connect then (mark_health MarkActive (s1\<lparr>st_started := True\<rparr>), None)
      else (mark_health MarkInactive s1,
            Some (if stopped then SubscribeDone else SubscribeRpcError)))"

definition stream_finish :: "bool \<Rightarrow> 'w stream \<Rightarrow> 'w stream \<times> subscribe_result" where
  "stream_finish listen s =
     (if \<not> listen then
        (mark_health MarkInactive s, if st_shutdown s then SubscribeDone else SubscribeRpcError)
      else if st_shutdown s then (s, SubscribeDone)
      else (mark_health MarkInactive s, SubscribeListenerStopped))"

definition stream_stop :: "bool \<Rightarrow> 'w stream \<Rightarrow> 'w stream" where
  "stream_stop detach s =
     (let s1 = request_stream_shutdown s;
          s2 = (if st_detached s1 then s1
                else s1\<lparr>st_detached := True,
                  st_unsubscribes := st_unsubscribes s1 + (if detach then 1 else 0)\<rparr>) in
      mark_health MarkInactive s2)"

section \<open>What a flush and a replay deliver\<close>

text \<open>A consumer that records what it is given, and never raises.\<close>

definition recorder :: "item list consumer" where
  "recorder c i w = (w @ [i], Inr ())"

definition recording :: "item list stream \<Rightarrow> bool" where
  "recording s \<longleftrightarrow> \<not> st_shutdown s \<and> st_event_consumers s = [0] \<and> st_block_consumers s = [0] \<and>
     (\<forall>p \<in> set (st_env s). \<not> snd p)"

definition arrived :: "'w stream \<Rightarrow> nat \<Rightarrow> item list" where
  "arrived s n = filter (\<lambda>i. above_threshold i s) (concat (map fst (take n (st_env s))))"

definition same_setup :: "'w stream \<Rightarrow> 'w stream \<Rightarrow> bool" where
  "same_setup s t \<longleftrightarrow> st_threshold t = st_threshold s \<and>
     st_event_consumers t = st_event_consumers s \<and> st_block_consumers t = st_block_consumers s"

lemma await_recording:
  assumes "recording s" "st_buffer s = Some b"
  shows "recording (await_point s) \<and> same_setup s (await_point s) \<and>
    st_buffer (await_point s) = Some (b @ arrived s 1) \<and>
    st_env (await_point s) = drop 1 (st_env s) \<and> st_world (await_point s) = st_world s"
proof (cases "st_env s")
  case Nil
  with assms show ?thesis
    by (simp add: await_point_def same_setup_def arrived_def)
next
  case (Cons p env)
  obtain arrivals stop where p: "p = (arrivals, stop)" by force
  have "\<not> stop" using assms(1) Cons p by (simp add: recording_def)
  moreover have "accepted (s\<lparr>st_env := env\<rparr>) arrivals = arrived s 1"
    using assms(1) Cons p by (simp add: accepted_def arrived_def recording_def above_threshold_def)
  ultimately show ?thesis
    using assms Cons p fold_buffer_item [of "s\<lparr>st_env := env\<rparr>" b arrivals]
    by (simp add: await_point_def recording_def same_setup_def)
qed

lemma emit_recording:
  assumes "recording s" "st_buffer s = Some b"
  shows "\<exists>s'. emit_item recorder i s = (s', Inr ()) \<and> recording s' \<and> same_setup s s' \<and>
    st_buffer s' = Some (b @ arrived s 1) \<and> st_env s' = drop 1 (st_env s) \<and>
    st_world s' = st_world s @ [i]"
proof -
  let ?t = "s\<lparr>st_world := st_world s @ [i]\<rparr>"
  have r: "recording ?t" "st_buffer ?t = Some b" using assms by (simp_all add: recording_def)
  have cs: "consumers_of i s = [0]" using assms(1) by (auto simp: consumers_of_def recording_def split: item.splits)
  have "emit_item recorder i s = (await_point ?t, Inr ())"
    using assms(1) cs by (simp add: emit_item_def recorder_def Let_def recording_def)
  with await_recording [OF r] show ?thesis
    by (simp add: same_setup_def arrived_def above_threshold_def)
qed

lemma arrived_split:
  "same_setup s t \<Longrightarrow> st_env t = drop n (st_env s) \<Longrightarrow> arrived s (n + m) = arrived s n @ arrived t m"
  by (simp add: arrived_def take_add same_setup_def above_threshold_def)

lemma same_setup_trans: "same_setup s t \<Longrightarrow> same_setup t u \<Longrightarrow> same_setup s u"
  by (simp add: same_setup_def)

lemma flush_items_recording:
  assumes "recording s" "st_buffer s = Some b"
  shows "\<exists>s'. flush_items recorder previous is s = (s', Inr False) \<and> recording s' \<and> same_setup s s' \<and>
    st_buffer s' = Some (b @ arrived s (length is)) \<and> st_env s' = drop (length is) (st_env s) \<and>
    st_world s' = st_world s @ is"
  using assms
proof (induction "is" arbitrary: s b)
  case Nil
  then show ?case by (simp add: same_setup_def arrived_def)
next
  case (Cons i "is")
  from emit_recording [OF Cons.prems, of i] obtain t where t:
    "emit_item recorder i s = (t, Inr ())" "recording t" "same_setup s t"
    "st_buffer t = Some (b @ arrived s 1)" "st_env t = drop 1 (st_env s)"
    "st_world t = st_world s @ [i]" by blast
  from Cons.IH [OF t(2,4)] obtain u where u:
    "flush_items recorder previous is t = (u, Inr False)" "recording u" "same_setup t u"
    "st_buffer u = Some ((b @ arrived s 1) @ arrived t (length is))"
    "st_env u = drop (length is) (st_env t)" "st_world u = st_world t @ is" by blast
  have "\<not> st_shutdown s" using Cons.prems(1) by (simp add: recording_def)
  with t u arrived_split [OF t(3,5), of "length is"] show ?case
    by (auto simp: same_setup_trans [of s t u])
qed

text \<open>
  The specification of a flush, over the lists of items that arrive at the points awaited: a
  round takes the whole buffer, and while its items are delivered, one point awaited for each,
  the items accepted at these points become the next round.
\<close>

function flush_rounds :: "(item \<Rightarrow> bool) \<Rightarrow> item list \<Rightarrow> item list list \<Rightarrow> item list list" where
  "flush_rounds P b env =
     (if b = [] then []
      else b # flush_rounds P (filter P (concat (take (length b) env))) (drop (length b) env))"
  by pat_completeness auto
termination
proof (relation "measure (\<lambda>(P, b, env). length b + length (concat env))", goal_cases)
  case (2 P b env)
  have "length (concat env) =
      length (concat (take (length b) env)) + length (concat (drop (length b) env))"
    by (metis append_take_drop_id concat_append length_append)
  moreover have "0 < length b" using 2 by simp
  moreover note length_filter_le [of P "concat (take (length b) env)"]
  ultimately have "length (filter P (concat (take (length b) env)))
      + length (concat (drop (length b) env)) < length b + length (concat env)" by linarith
  then show ?case by simp
qed simp

declare flush_rounds.simps [simp del]

lemma flush_rounds_Nil [simp]: "flush_rounds P [] env = []"
  by (simp add: flush_rounds.simps)

lemma flush_rounds_step:
  "b \<noteq> [] \<Longrightarrow> flush_rounds P b env =
     b # flush_rounds P (filter P (concat (take (length b) env))) (drop (length b) env)"
  by (subst flush_rounds.simps) simp

text \<open>The rounds together hold the buffer and all that was accepted at the points awaited.\<close>

lemma flush_rounds_concat:
  "concat (flush_rounds P b env) =
     b @ filter P (concat (take (length (concat (flush_rounds P b env))) env))"
proof (induction P b env rule: flush_rounds.induct)
  case (1 P b env)
  show ?case
  proof (cases "b = []")
    case False
    from 1 [OF False] show ?thesis
      by (simp add: flush_rounds_step [OF False] take_add)
  qed simp
qed

definition accepted_rounds :: "'w stream \<Rightarrow> item list \<Rightarrow> item list list" where
  "accepted_rounds s b = flush_rounds (\<lambda>i. above_threshold i s) b (map fst (st_env s))"

text \<open>A flush delivers the rounds of its specification, each of them sorted.\<close>

lemma flush_buffer_recording:
  assumes "recording s" "st_buffer s = Some b"
  shows "\<exists>s'. flush_buffer recorder previous s = (s', Inr ()) \<and> recording s' \<and>
    same_setup s s' \<and> st_buffer s' = previous \<and>
    st_env s' = drop (length (concat (accepted_rounds s b))) (st_env s) \<and>
    st_world s' = st_world s @ concat (map (sort_key item_key) (accepted_rounds s b))"
  using assms
proof (induction "backlog s" arbitrary: s b rule: less_induct)
  case less
  show ?case
  proof (cases "b = []")
    case True
    with less.prems show ?thesis
      by (subst flush_buffer.simps) (auto simp: recording_def same_setup_def accepted_rounds_def)
  next
    case False
    let ?s0 = "s\<lparr>st_buffer := Some []\<rparr>" and ?is = "sort_key item_key b"
    have r0: "recording ?s0" "st_buffer ?s0 = Some []"
      using less.prems by (simp_all add: recording_def)
    from flush_items_recording [OF r0, of previous ?is] obtain t where t:
      "flush_items recorder previous ?is ?s0 = (t, Inr False)" "recording t" "same_setup ?s0 t"
      "st_buffer t = Some (arrived s (length b))" "st_env t = drop (length b) (st_env s)"
      "st_world t = st_world s @ ?is" by (auto simp: arrived_def above_threshold_def)
    have st: "same_setup s t" using t(3) by (simp add: same_setup_def)
    have rounds: "accepted_rounds s b = b # accepted_rounds t (arrived s (length b))"
      using st by (simp add: accepted_rounds_def flush_rounds_step [OF False] arrived_def t(5)
          same_setup_def above_threshold_def take_map drop_map)
    have "0 < length b" using False by simp
    moreover have "backlog s = length b + backlog ?s0" using less.prems(2) by (simp add: backlog_def)
    ultimately have "backlog t < backlog s" using flush_items_backlog [OF t(1)] by linarith
    from less.hyps [OF this t(2,4)] obtain u where u:
      "flush_buffer recorder previous t = (u, Inr ())" "recording u" "same_setup t u"
      "st_buffer u = previous"
      "st_env u = drop (length (concat (accepted_rounds t (arrived s (length b))))) (st_env t)"
      "st_world u = st_world t @
        concat (map (sort_key item_key) (accepted_rounds t (arrived s (length b))))"
      by blast
    have "flush_buffer recorder previous s = (u, Inr ())"
      using less.prems False t(1) u(1) by (subst flush_buffer.simps) (simp add: recording_def)
    with u(2,4-6) t(5,6) same_setup_trans [OF st u(3)] show ?thesis
      by (simp add: rounds drop_drop add.commute)
  qed
qed

definition serves_batches :: "'r fetcher \<Rightarrow> (int \<Rightarrow> int \<Rightarrow> event list) \<Rightarrow> bool" where
  "serves_batches F evs \<longleftrightarrow> (\<forall>a b rs. snd (F a b rs) = Inr (Some (evs a b)))"

definition replayed :: "(int \<Rightarrow> int \<Rightarrow> event list) \<Rightarrow> (int \<times> int) list \<Rightarrow> item list" where
  "replayed evs bs = concat (map (\<lambda>(a, b). map IEvent (evs a b) @ [IBlock \<lparr>bl_number = b\<rparr>]) bs)"

text \<open>
  One recorded step of a replay: the number of points awaited, whose accepted arrivals are
  buffered, and what was delivered.
\<close>

definition advances ::
  "nat \<Rightarrow> item list stream \<Rightarrow> item list stream \<Rightarrow> item list \<Rightarrow> bool" where
  "advances n s t out \<longleftrightarrow> recording t \<and> same_setup s t \<and> st_world t = st_world s @ out \<and>
     st_env t = drop n (st_env s) \<and>
     (\<forall>b. st_buffer s = Some b \<longrightarrow> st_buffer t = Some (b @ arrived s n))"

lemma advances_trans:
  assumes "advances n s t xs" "advances m t u ys" "st_buffer s = Some b"
  shows "advances (n + m) s u (xs @ ys)"
proof -
  from assms have "same_setup s t" "st_env t = drop n (st_env s)" by (simp_all add: advances_def)
  from arrived_split [OF this, of m] assms show ?thesis
    by (auto simp: advances_def same_setup_trans [of s t u] drop_drop add.commute)
qed

lemma advances_buffer: "advances n s t xs \<Longrightarrow> st_buffer s = Some b \<Longrightarrow> \<exists>b'. st_buffer t = Some b'"
  by (auto simp: advances_def)

lemma advances_recording: "advances n s t xs \<Longrightarrow> recording t"
  by (simp add: advances_def)

lemma await_advances:
  assumes "recording s" "st_buffer s = Some b"
  shows "advances 1 s (await_point s) []"
  using await_recording [OF assms] assms(2) by (auto simp: advances_def)

lemma emit_advances:
  assumes "recording s" "st_buffer s = Some b"
  shows "\<exists>t. emit_item recorder i s = (t, Inr ()) \<and> advances 1 s t [i]"
  using emit_recording [OF assms, of i] assms(2) by (auto simp: advances_def)

lemma replay_events_advances:
  assumes "recording s" "st_buffer s = Some b"
  shows "\<exists>t. replay_events recorder es s = (t, Inr ()) \<and>
    advances (2 * length es) s t (map IEvent es)"
  using assms
proof (induction es arbitrary: s b)
  case Nil
  then show ?case by (auto simp: advances_def same_setup_def arrived_def)
next
  case (Cons e es)
  from emit_advances [OF Cons.prems] obtain t where
    t: "emit_item recorder (IEvent e) s = (t, Inr ())" "advances 1 s t [IEvent e]" by blast
  from advances_buffer [OF t(2) Cons.prems(2)] obtain bt where bt: "st_buffer t = Some bt" by blast
  note rt = advances_recording [OF t(2)]
  note a = await_advances [OF rt bt]
  from advances_buffer [OF a bt] obtain ba where ba: "st_buffer (await_point t) = Some ba" by blast
  from Cons.IH [OF advances_recording [OF a] ba] obtain u where
    u: "replay_events recorder es (await_point t) = (u, Inr ())"
      "advances (2 * length es) (await_point t) u (map IEvent es)" by blast
  from advances_trans [OF advances_trans [OF t(2) a Cons.prems(2)] u(2) Cons.prems(2)]
  have "advances (2 * length (e # es)) s u (map IEvent (e # es))" by simp
  with t(1) u(1) rt show ?case by (simp add: recording_def)
qed

lemma mark_health_advances [simp]:
  "advances n s (mark_health m t) xs = advances n s t xs"
  by (simp add: advances_def mark_health_def recording_def same_setup_def)

lemma fetch_advances:
  assumes "recording s" "st_buffer s = Some b" "serves_batches F evs"
  shows "\<exists>t rs'. fetch_batch F x y (s, rs) = ((t, rs'), Inr (Some (evs x y))) \<and>
    advances 1 s t []"
proof -
  obtain rs' r where f: "F x y rs = (rs', r)" by force
  with assms(3) have "r = Inr (Some (evs x y))" by (auto simp: serves_batches_def dest: spec [of _ x]) (metis snd_conv)
  moreover have "\<not> st_shutdown (await_point s)"
    using await_recording [OF assms(1,2)] by (simp add: recording_def)
  ultimately show ?thesis
    using await_advances [OF assms(1,2)] f assms(1) by (simp add: fetch_batch_def recording_def)
qed

text \<open>The points a replay awaits: each fetch, two for each event, and each block.\<close>

definition replay_awaits :: "(int \<Rightarrow> int \<Rightarrow> event list) \<Rightarrow> (int \<times> int) list \<Rightarrow> nat" where
  "replay_awaits evs bs = sum_list (map (\<lambda>(a, b). 2 * length (evs a b) + 2) bs)"

lemma replay_batches_advances:
  assumes "recording s" "st_buffer s = Some b" "serves_batches F evs"
  shows "\<exists>t rs'. replay_batches recorder F bs (s, rs) = ((t, rs'), Inr ()) \<and>
    advances (replay_awaits evs bs) s t (replayed evs bs)"
  using assms(1,2)
proof (induction bs arbitrary: s b rs)
  case Nil
  then show ?case
    by (auto simp: replayed_def replay_awaits_def advances_def same_setup_def arrived_def)
next
  case (Cons p bs)
  obtain x y where p: "p = (x, y)" by force
  from fetch_advances [OF Cons.prems assms(3)] obtain s1 rs1 where
    1: "fetch_batch F x y (s, rs) = ((s1, rs1), Inr (Some (evs x y)))" "advances 1 s s1 []" by blast
  from advances_buffer [OF 1(2) Cons.prems(2)] obtain b1 where b1: "st_buffer s1 = Some b1" by blast
  from replay_events_advances [OF advances_recording [OF 1(2)] b1] obtain s2 where
    2: "replay_events recorder (evs x y) s1 = (s2, Inr ())"
      "advances (2 * length (evs x y)) s1 s2 (map IEvent (evs x y))" by blast
  from advances_buffer [OF 2(2) b1] obtain b2 where b2: "st_buffer s2 = Some b2" by blast
  from emit_advances [OF advances_recording [OF 2(2)] b2] obtain s3 where
    3: "emit_item recorder (IBlock \<lparr>bl_number = y\<rparr>) s2 = (s3, Inr ())"
      "advances 1 s2 s3 [IBlock \<lparr>bl_number = y\<rparr>]" by blast
  let ?s3 = "mark_health MarkProgress s3"
  have h3: "advances 1 s2 ?s3 [IBlock \<lparr>bl_number = y\<rparr>]" using 3(2) by simp
  from advances_buffer [OF h3 b2] obtain b3 where b3: "st_buffer ?s3 = Some b3" by blast
  from Cons.IH [OF advances_recording [OF h3] b3] obtain t rs' where
    4: "replay_batches recorder F bs (?s3, rs1) = ((t, rs'), Inr ())"
      "advances (replay_awaits evs bs) ?s3 t (replayed evs bs)" by blast
  note sb = Cons.prems(2)
  from advances_trans [OF advances_trans [OF advances_trans [OF 1(2) 2(2) sb] h3 sb] 4(2) sb]
  have "advances (replay_awaits evs (p # bs)) s t (replayed evs (p # bs))"
    by (simp add: replayed_def replay_awaits_def p)
  moreover have "\<not> st_shutdown s2" using advances_recording [OF 2(2)] by (simp add: recording_def)
  ultimately show ?case using p 1(1) 2(1) 3(1) 4(1) by simp
qed

section \<open>Properties\<close>

text \<open>C4: a flush always ends, and what it delivers is determined by what the buffer holds and
  by what arrives while it runs: in rounds, the first of which is the whole buffer and each later
  one all the live items (above the threshold) that arrived while the items of the round before
  were being delivered, every item exactly once, each round sorted by block, events before the
  block itself and by log position; it ends with the first round that is empty, so nothing that
  arrived is left behind, and puts the stream back in the mode it was in before the replay.\<close>

theorem flush_delivers_everything:
  assumes "recording s" "st_buffer s = Some b"
    and "rounds = flush_rounds (\<lambda>i. above_threshold i s) b (map fst (st_env s))"
  shows "\<exists>s'. flush_buffer recorder previous s = (s', Inr ()) \<and> st_buffer s' = previous \<and>
    st_env s' = drop (length (concat rounds)) (st_env s) \<and>
    st_world s' = st_world s @ concat (map (sort_key item_key) rounds) \<and>
    mset (st_world s') = mset (st_world s) + mset b + mset (filter (\<lambda>i. above_threshold i s)
      (concat (map fst (take (length (concat rounds)) (st_env s)))))"
proof -
  have r: "accepted_rounds s b = rounds" by (simp add: accepted_rounds_def assms(3))
  have "mset (concat (map (sort_key item_key) rs)) = mset (concat rs)" for rs
    by (induction rs) simp_all
  moreover have "mset (concat rounds) = mset b + mset (filter (\<lambda>i. above_threshold i s)
      (concat (map fst (take (length (concat rounds)) (st_env s)))))"
    using flush_rounds_concat [of "\<lambda>i. above_threshold i s" b "map fst (st_env s)"]
    unfolding assms(3) [symmetric] take_map by (metis mset_append)
  ultimately show ?thesis
    using flush_buffer_recording [OF assms(1,2), of previous, unfolded r] by auto
qed

definition sample_stream :: "(item list \<times> bool) list \<Rightarrow> item list option \<Rightarrow> item list stream" where
  "sample_stream env buf = \<lparr>st_shutdown = False, st_started = True, st_detached = False,
     st_unsubscribes = 0, st_threshold = None, st_buffer = buf, st_event_consumers = [0],
     st_block_consumers = [0], st_env = env, st_health = [], st_world = []\<rparr>"

lemma flush_delivers_everything_witness:
  "let s = sample_stream [([IBlock \<lparr>bl_number = 9\<rparr>], False)]
     (Some [IBlock \<lparr>bl_number = 8\<rparr>, IBlock \<lparr>bl_number = 7\<rparr>]) in
   \<exists>s'. flush_buffer recorder None s = (s', Inr ()) \<and> st_buffer s' = None \<and>
     st_world s' = [IBlock \<lparr>bl_number = 7\<rparr>, IBlock \<lparr>bl_number = 8\<rparr>, IBlock \<lparr>bl_number = 9\<rparr>]"
proof -
  let ?b = "[IBlock \<lparr>bl_number = 8\<rparr>, IBlock \<lparr>bl_number = 7\<rparr>]"
  let ?s = "sample_stream [([IBlock \<lparr>bl_number = 9\<rparr>], False)] (Some ?b)"
  have h: "recording ?s" "st_buffer ?s = Some ?b" "st_world ?s = []"
    by (simp_all add: recording_def sample_stream_def)
  have r: "[?b, [IBlock \<lparr>bl_number = 9\<rparr>]] =
      flush_rounds (\<lambda>i. above_threshold i ?s) ?b (map fst (st_env ?s))"
    by (simp add: flush_rounds_step sample_stream_def above_threshold_def)
  from flush_delivers_everything [OF h(1,2) r, of None] h(3) show ?thesis
    unfolding Let_def by fastforce
qed

text \<open>C3: replay and live stream join without a gap or an overlap: replaying up to the head and
  suppressing live items up to it delivers, batch by batch, the events of every block range
  followed by the range's last block, and then all the live items above the head that arrived
  meanwhile and no other: first, sorted, those that arrived while the replay was running (at one
  of its \<open>k\<close> points awaited), then the rounds of those that arrived while the ones before were
  being delivered, until nothing is left; live delivery is then on again.\<close>

theorem replay_then_live:
  assumes "recording s" "st_buffer s = None" "serves_batches F evs" "1 \<le> batch"
    and "start \<le> last_block" "last_block \<noteq> 0" "st_threshold s = None"
    and "bs = batches start last_block batch" "k = replay_awaits evs bs"
    and "rounds = (let P = (\<lambda>i. max 0 last_block < item_block i) in
      flush_rounds P (filter P (concat (map fst (take k (st_env s))))) (map fst (drop k (st_env s))))"
  shows "\<exists>s' rs'.
    replay_blocks recorder F head batch start (Some last_block) (Some last_block) (s, rs)
      = ((s', rs'), Inr ()) \<and>
    st_buffer s' = None \<and> st_threshold s' = Some (max 0 last_block) \<and>
    st_env s' = drop (k + length (concat rounds)) (st_env s) \<and>
    st_world s' = st_world s @ replayed evs bs @ concat (map (sort_key item_key) rounds) \<and>
    concat rounds = filter (\<lambda>i. max 0 last_block < item_block i)
      (concat (map fst (take (k + length (concat rounds)) (st_env s))))"
proof -
  let ?P = "\<lambda>i. max 0 last_block < item_block i"
  let ?s0 = "suppress_live_until (Some last_block) s\<lparr>st_buffer := Some []\<rparr>"
  have r0: "recording ?s0" "st_buffer ?s0 = Some []"
    using assms(1) by (simp_all add: recording_def suppress_live_until_def)
  have th: "st_threshold ?s0 = Some (max 0 last_block)" and env0: "st_env ?s0 = st_env s"
    and w0: "st_world ?s0 = st_world s"
    using assms(7) by (simp_all add: suppress_live_until_def)
  from replay_batches_advances [OF r0 assms(3), of bs rs]
  obtain t rs' where t: "replay_batches recorder F bs (?s0, rs) = ((t, rs'), Inr ())"
    "advances k ?s0 t (replayed evs bs)" unfolding assms(9) by blast
  let ?b = "filter ?P (concat (map fst (take k (st_env s))))"
  from t(2) r0(2) th have n: "recording t" "same_setup ?s0 t" "st_env t = drop k (st_env s)"
    "st_buffer t = Some ?b" "st_world t = st_world s @ replayed evs bs"
    "st_threshold t = Some (max 0 last_block)"
    by (auto simp: advances_def env0 w0 same_setup_def arrived_def above_threshold_def)
  have r: "accepted_rounds t ?b = rounds"
    by (simp add: accepted_rounds_def assms(10) Let_def n(3,6) above_threshold_def)
  from flush_buffer_recording [OF n(1,4), of None, unfolded r] obtain u where u:
    "flush_buffer recorder None t = (u, Inr ())" "same_setup t u" "st_buffer u = None"
    "st_env u = drop (length (concat rounds)) (st_env t)"
    "st_world u = st_world t @ concat (map (sort_key item_key) rounds)" by blast
  have "\<not> st_shutdown ?s0" "\<not> st_shutdown t" using r0(1) n(1) by (simp_all add: recording_def)
  then have "replay_blocks recorder F head batch start (Some last_block) (Some last_block) (s, rs)
      = ((u, rs'), Inr ())"
    using assms(2,4-6,8) t(1) u(1)
    by (simp add: replay_blocks_def replay_range_def Let_def suppress_live_until_def)
  moreover have "concat rounds = filter ?P (concat (map fst (take (k + length (concat rounds)) (st_env s))))"
    using flush_rounds_concat [of ?P ?b "map fst (drop k (st_env s))"]
    unfolding assms(10) [unfolded Let_def, symmetric] by (simp add: take_add take_map)
  moreover have "st_threshold u = Some (max 0 last_block)"
    using u(2) n(6) by (simp add: same_setup_def)
  moreover have "st_env u = drop (k + length (concat rounds)) (st_env s)"
    using u(4) n(3) by (simp add: drop_drop add.commute)
  ultimately show ?thesis using u(3,5) n(5) by auto
qed

lemma replay_then_live_witness:
  "let s = sample_stream [([IBlock \<lparr>bl_number = 9\<rparr>, IBlock \<lparr>bl_number = 7\<rparr>], False)] None;
       F = (\<lambda>a b rs. (rs, Inr (Some [])) :: unit \<times> event list option res) in
   \<exists>s' rs'. replay_blocks recorder F (Inr 8) 10 5 (Some 8) (Some 8) (s, ()) = ((s', rs'), Inr ()) \<and>
     st_world s' = [IBlock \<lparr>bl_number = 8\<rparr>, IBlock \<lparr>bl_number = 9\<rparr>]"
proof -
  let ?s = "sample_stream [([IBlock \<lparr>bl_number = 9\<rparr>, IBlock \<lparr>bl_number = 7\<rparr>], False)] None"
  let ?F = "(\<lambda>a b rs. (rs, Inr (Some [])) :: unit \<times> event list option res)"
  have h: "recording ?s" "st_buffer ?s = None" "st_threshold ?s = None" "st_world ?s = []"
    by (simp_all add: recording_def sample_stream_def)
  have f: "serves_batches ?F (\<lambda>_ _. [])" by (simp add: serves_batches_def)
  have b: "[(5, 8)] = batches 5 8 10" by (simp add: batches_step)
  have k: "2 = replay_awaits (\<lambda>_ _. []) [(5, 8)]" by (simp add: replay_awaits_def)
  have r: "[[IBlock \<lparr>bl_number = 9\<rparr>]] = (let P = (\<lambda>i. max 0 8 < item_block i) in
      flush_rounds P (filter P (concat (map fst (take 2 (st_env ?s))))) (map fst (drop 2 (st_env ?s))))"
    by (simp add: flush_rounds_step sample_stream_def)
  from replay_then_live [OF h(1,2) f _ _ _ h(3) b k r, of "Inr 8" "()"] h(4) show ?thesis
    unfolding Let_def by (auto simp: replayed_def)
qed

end
