(* ===== verification/Supervisor.thy ===== *)
theory Supervisor
  imports Stream_Buffer
begin

text \<open>
  \<open>ModuleRuntimeSupervisor\<close> of \<open>sentinel/services/subscription.py\<close>: it runs the module runtime on
  a chain event stream, replaces both after an RPC failure, replays the blocks missed meanwhile,
  and catches up with past blocks at startup. The consumer of a stream is the module runtime of
  \<open>Module_Runtime\<close>, so the world of the stream is the pipeline with its persisted checkpoint.

  What other tasks and the node do at an await point is part of the environment of a session
  (\<open>session\<close>) or of a catch-up attempt (\<open>attempt\<close>): whether connecting succeeds, which live
  items are delivered, when shutdown is requested, and what \<open>eth_blockNumber\<close> answers. A live
  item whose handling raises ends the delivery of the items after it.
\<close>

section \<open>State\<close>

record ('m, 'r) sv_ctx =
  cx_codec :: codec
  cx_emitter :: emitter
  cx_runtime :: "'m module_runtime"
  cx_fetch :: "'r fetcher"
  cx_batch :: int

record ('m, 'r) supervisor =
  sv_stream :: "'m pipeline stream"
  sv_reader :: 'r
  sv_runtime :: nat
  sv_shutdown :: bool
  sv_restarted :: bool
  sv_catchup_until :: "int option"
  sv_pending_replay :: "int option"
  sv_recoveries :: "string list"
  sv_arrivals :: "(item list \<times> bool) list list"

definition runtime_consumer ::
  "codec \<Rightarrow> emitter \<Rightarrow> 'm module_runtime \<Rightarrow> 'm pipeline consumer" where
  "runtime_consumer C em R c i w =
     (case i of
        IEvent e \<Rightarrow> runtime_handle_event C em R e w
      | IBlock b \<Rightarrow> runtime_handle_block C em R b w)"

definition sv_consumer :: "('m, 'r) sv_ctx \<Rightarrow> 'm pipeline consumer" where
  "sv_consumer X = runtime_consumer (cx_codec X) (cx_emitter X) (cx_runtime X)"

definition checkpoint :: "'m pipeline \<Rightarrow> int" where
  "checkpoint w = bs_block (pl_store w)"

definition sv_checkpoint :: "('m, 'r) supervisor \<Rightarrow> int" where
  "sv_checkpoint s = checkpoint (st_world (sv_stream s))"

text \<open>
  \<open>build_module_runtime\<close>: a fresh stream with the runtime as its consumer. The health state and
  the pipeline are shared by all runtimes.
\<close>

definition build_module_runtime ::
  "int option \<Rightarrow> (item list \<times> bool) list \<Rightarrow> health_mark list \<Rightarrow> 'm pipeline \<Rightarrow> 'm pipeline stream" where
  "build_module_runtime threshold arrivals health w =
     add_block_consumer 0 (add_event_consumer 0 ((mk_stream threshold arrivals w)\<lparr>st_health := health\<rparr>))"

definition mk_supervisor ::
  "(item list \<times> bool) list list \<Rightarrow> 'r \<Rightarrow> 'm pipeline \<Rightarrow> ('m, 'r) supervisor" where
  "mk_supervisor arrivals reader w =
     \<lparr>sv_stream = build_module_runtime None (concat (take 1 arrivals)) [] w, sv_reader = reader,
      sv_runtime = 0, sv_shutdown = False, sv_restarted = False, sv_catchup_until = None,
      sv_pending_replay = None, sv_recoveries = [], sv_arrivals = drop 1 arrivals\<rparr>"

section \<open>Operations\<close>

definition request_shutdown :: "('m, 'r) supervisor \<Rightarrow> ('m, 'r) supervisor" where
  "request_shutdown s =
     s\<lparr>sv_shutdown := True, sv_stream := request_stream_shutdown (sv_stream s), sv_restarted := True\<rparr>"

definition restart_after_rpc_disconnect :: "string \<Rightarrow> ('m, 'r) supervisor \<Rightarrow> ('m, 'r) supervisor" where
  "restart_after_rpc_disconnect reason s =
     (let start = max (sv_checkpoint s + 1) 1;
          old = stream_stop False (request_stream_shutdown (mark_health MarkCatchupStarted (sv_stream s))) in
      s\<lparr>sv_pending_replay := Some start,
        sv_stream := build_module_runtime (sv_catchup_until s) (concat (take 1 (sv_arrivals s)))
          (st_health old) (st_world old),
        sv_arrivals := drop 1 (sv_arrivals s),
        sv_runtime := Suc (sv_runtime s),
        sv_recoveries := sv_recoveries s @ [reason]\<rparr>)"

fun deliver_items :: "'w consumer \<Rightarrow> item list \<Rightarrow> 'w stream \<Rightarrow> 'w stream" where
  "deliver_items D [] s = s"
| "deliver_items D (i # is) s =
     (case emit_subscription_item D i s of
        (s1, Inl _) \<Rightarrow> s1
      | (s1, Inr _) \<Rightarrow> deliver_items D is s1)"

definition deliver_live :: "('m, 'r) sv_ctx \<Rightarrow> item list \<Rightarrow> ('m, 'r) supervisor \<Rightarrow> ('m, 'r) supervisor" where
  "deliver_live X is s = s\<lparr>sv_stream := deliver_items (sv_consumer X) is (sv_stream s)\<rparr>"

text \<open>
  A replay of the current stream up to a head answered by the node, with live items suppressed
  up to it. A stop that its environment requests meanwhile is \<open>request_shutdown\<close>.
\<close>

definition run_replay ::
  "('m, 'r) sv_ctx \<Rightarrow> int \<Rightarrow> int \<Rightarrow> ('m, 'r) supervisor \<Rightarrow> ('m, 'r) supervisor \<times> unit res" where
  "run_replay X start head s =
     (let ((t, rs), r) = replay_blocks (sv_consumer X) (cx_fetch X) (Inr head) (cx_batch X) start
            (Some head) (Some head) (sv_stream s, sv_reader s);
          s1 = s\<lparr>sv_stream := t, sv_reader := rs\<rparr> in
      (if st_shutdown t \<and> \<not> sv_shutdown s then request_shutdown s1 else s1, r))"

definition replay_pending_blocks_after_restart ::
  "('m, 'r) sv_ctx \<Rightarrow> int res \<Rightarrow> ('m, 'r) supervisor \<Rightarrow> ('m, 'r) supervisor \<times> unit res" where
  "replay_pending_blocks_after_restart X head s =
     (case sv_pending_replay s of
        None \<Rightarrow> (s, Inr ())
      | Some start \<Rightarrow>
          (case head of
             Inl e \<Rightarrow> (s, Inl e)
           | Inr h \<Rightarrow>
               (case run_replay X start h (s\<lparr>sv_catchup_until := Some h\<rparr>) of
                  (s1, Inl e) \<Rightarrow> (s1\<lparr>sv_catchup_until := None\<rparr>, Inl e)
                | (s1, Inr _) \<Rightarrow>
                    (s1\<lparr>sv_stream := mark_health MarkCatchupComplete (sv_stream s1),
                       sv_catchup_until := None, sv_pending_replay := None\<rparr>, Inr ()))))"

definition handle_subscription_result ::
  "subscribe_result \<Rightarrow> ('m, 'r) supervisor \<Rightarrow> ('m, 'r) supervisor \<times> bool" where
  "handle_subscription_result r s =
     (if sv_shutdown s then (s, False)
      else if r = SubscribeDone then (restart_after_rpc_disconnect ''listener_stopped'' s, True)
      else (restart_after_rpc_disconnect ''rpc_disconnect'' s, True))"

record session =
  ss_connects :: bool
  ss_stop_early :: bool
  ss_live_before :: "item list"
  ss_head :: "int res"
  ss_live_after :: "item list"
  ss_stop :: bool
  ss_listens :: bool

definition stop_stream :: "('m, 'r) supervisor \<Rightarrow> ('m, 'r) supervisor" where
  "stop_stream s = s\<lparr>sv_stream := stream_stop True (sv_stream s)\<rparr>"

definition listen_until_end ::
  "('m, 'r) sv_ctx \<Rightarrow> session \<Rightarrow> ('m, 'r) supervisor \<Rightarrow> ('m, 'r) supervisor \<times> bool res" where
  "listen_until_end X ss s =
     (let s1 = deliver_live X (ss_live_after ss) s;
          s2 = (if ss_stop ss then request_shutdown s1 else s1) in
      if sv_restarted s2 then (stop_stream s2, Inr True)
      else (let (t, r) = stream_finish (ss_listens ss) (sv_stream s2);
                (s3, again) = handle_subscription_result r (s2\<lparr>sv_stream := t\<rparr>) in (s3, Inr again)))"

definition subscribe_until_restarted_or_stopped ::
  "('m, 'r) sv_ctx \<Rightarrow> session \<Rightarrow> ('m, 'r) supervisor \<Rightarrow> ('m, 'r) supervisor \<times> bool res" where
  "subscribe_until_restarted_or_stopped X ss s0 =
     (let (w, r0) = resume_pending_aggregations (cx_codec X) (cx_emitter X) (cx_runtime X)
            (st_world (sv_stream s0));
          s = s0\<lparr>sv_stream := (sv_stream s0)\<lparr>st_world := w\<rparr>\<rparr> in
      case r0 of
        Inl e \<Rightarrow> (s, Inl e)
      | Inr _ \<Rightarrow>
          (let s1 = s\<lparr>sv_restarted := False\<rparr> in
           if ss_stop_early ss then (stop_stream (request_shutdown s1), Inr True)
           else (case stream_start (ss_connects ss) False (sv_stream s1) of
                   (t, Some r) \<Rightarrow>
                     (let (s2, again) = handle_subscription_result r (s1\<lparr>sv_stream := t\<rparr>) in (s2, Inr again))
                 | (t, None) \<Rightarrow>
                     (let s2 = deliver_live X (ss_live_before ss) (s1\<lparr>sv_stream := t\<rparr>) in
                      (case replay_pending_blocks_after_restart X (ss_head ss) s2 of
                         (s3, Inr _) \<Rightarrow> listen_until_end X ss s3
                       | (s3, Inl e) \<Rightarrow>
                           if e \<noteq> RpcUnavailable then (s3, Inl e)
                           else if sv_shutdown s3 then (s3, Inr False)
                           else (restart_after_rpc_disconnect ''rpc_disconnect'' s3, Inr True))))))"

text \<open>
  \<open>subscribe\<close>: sessions until one asks not to continue or shutdown is requested. The result is
  \<open>None\<close> when the listed sessions are over and the loop would go on.
\<close>

fun supervise ::
  "('m, 'r) sv_ctx \<Rightarrow> session list \<Rightarrow> ('m, 'r) supervisor \<Rightarrow> ('m, 'r) supervisor \<times> unit option res" where
  "supervise X [] s = (s, Inr (if sv_shutdown s then Some () else None))"
| "supervise X (ss # rest) s =
     (if sv_shutdown s then (s, Inr (Some ()))
      else (case subscribe_until_restarted_or_stopped X ss s of
              (s1, Inl e) \<Rightarrow> (s1, Inl e)
            | (s1, Inr again) \<Rightarrow> if again then supervise X rest s1 else (s1, Inr (Some ()))))"

definition establish_initial_checkpoint :: "int res \<Rightarrow> ('m, 'r) supervisor \<Rightarrow> ('m, 'r) supervisor \<times> int res" where
  "establish_initial_checkpoint head s =
     (case head of
        Inl e \<Rightarrow> (s, Inl e)
      | Inr h \<Rightarrow>
          (let w = st_world (sv_stream s);
               w' = w\<lparr>pl_store := update_block (max (h - 1) 0) (pl_store w)\<rparr> in
           (s\<lparr>sv_stream := (sv_stream s)\<lparr>st_world := w'\<rparr>\<rparr>, Inr (max (h - 1) 0))))"

section \<open>Catching up\<close>

record attempt =
  at_live :: "item list"
  at_replaced :: bool
  at_head :: "int res"
  at_sleep :: "item list"
  at_stop :: bool

datatype catch_up_result = CaughtUp | CatchUpLeft | CatchUpRunning

definition finish_catch_up :: "('m, 'r) supervisor \<Rightarrow> ('m, 'r) supervisor" where
  "finish_catch_up s = s\<lparr>sv_catchup_until := None\<rparr>"

text \<open>
  One attempt asks for the head, while live items are handled and the supervisor may replace the
  runtime, and replays from \<open>start\<close> up to it. After an RPC failure the next attempt starts
  behind the checkpoint. \<open>CatchUpLeft\<close> is a return because of a shutdown or a replaced runtime,
  \<open>CatchUpRunning\<close> says that the listed attempts are over.
\<close>

fun catch_up_attempts ::
  "('m, 'r) sv_ctx \<Rightarrow> attempt list \<Rightarrow> nat \<Rightarrow> int \<Rightarrow> ('m, 'r) supervisor \<Rightarrow>
   ('m, 'r) supervisor \<times> catch_up_result res" where
  "catch_up_attempts X [] runtime start s = (s, Inr CatchUpRunning)"
| "catch_up_attempts X (a # as) runtime start s =
     (if sv_shutdown s \<or> sv_runtime s \<noteq> runtime then (finish_catch_up s, Inr CatchUpLeft)
      else
        (let s1 = deliver_live X (at_live a) s;
             s2 = (if at_replaced a then restart_after_rpc_disconnect ''rpc_disconnect'' s1 else s1);
             (s3, r) =
               (case at_head a of
                  Inl e \<Rightarrow> (s2, Inl e)
                | Inr h \<Rightarrow>
                    if sv_runtime s2 \<noteq> runtime then (s2, Inr CatchUpLeft)
                    else (case run_replay X start h (s2\<lparr>sv_catchup_until := Some h\<rparr>) of
                            (t, Inl e) \<Rightarrow> (t, Inl e)
                          | (t, Inr _) \<Rightarrow> (t, Inr CaughtUp))) in
         (case r of
            Inr q \<Rightarrow> (finish_catch_up s3, Inr q)
          | Inl e \<Rightarrow>
              if e \<noteq> RpcUnavailable then (finish_catch_up s3, Inl e)
              else if sv_shutdown s3 \<or> sv_runtime s3 \<noteq> runtime then (finish_catch_up s3, Inr CatchUpLeft)
              else (let s4 = deliver_live X (at_sleep a) s3 in
                    catch_up_attempts X as runtime (max start (sv_checkpoint s3 + 1))
                      (if at_stop a then request_shutdown s4 else s4)))))"

definition catch_up_from ::
  "('m, 'r) sv_ctx \<Rightarrow> attempt list \<Rightarrow> int \<Rightarrow> ('m, 'r) supervisor \<Rightarrow>
   ('m, 'r) supervisor \<times> catch_up_result res" where
  "catch_up_from X as start s = catch_up_attempts X as (sv_runtime s) start s"


section \<open>Relations that every delivery keeps\<close>

lemma await_world [simp]: "st_world (await_point s) = st_world s"
  by (auto simp: await_point_def Let_def request_stream_shutdown_def split: list.splits)

lemma fetch_batch_world: "fetch_batch F a b (s, rs) = ((t, rs'), r) \<Longrightarrow> st_world t = st_world s"
  by (auto simp: fetch_batch_def Let_def split: if_splits prod.splits)

lemma mark_health_world [simp]: "st_world (mark_health m s) = st_world s"
  by (simp add: mark_health_def)

lemma suppress_live_world [simp]: "st_world (suppress_live_until u s) = st_world s"
  by (simp add: suppress_live_until_def split: option.splits)

text \<open>
  A preorder on worlds that the consumer respects for the admitted items is respected by their
  delivery; when all items are admitted, also by flushing and replaying.
\<close>

locale world_rel =
  fixes D :: "'w consumer" and ok :: "item \<Rightarrow> bool" and Q :: "'w \<Rightarrow> 'w \<Rightarrow> bool"
  assumes refl: "Q w w"
    and trans: "Q w w' \<Longrightarrow> Q w' w'' \<Longrightarrow> Q w w''"
    and step: "ok i \<Longrightarrow> D c i w = (w', r) \<Longrightarrow> Q w w'"
begin

lemma emit_to_rel: "ok i \<Longrightarrow> Q (st_world s) (st_world (fst (emit_to D cs i s)))"
proof (induction cs arbitrary: s)
  case (Cons c cs)
  obtain w r where d: "D c i (st_world s) = (w, r)" by force
  have "Q (st_world s) w" by (rule step [OF Cons.prems d])
  moreover have "Q w (st_world (fst (emit_to D cs i (await_point (s\<lparr>st_world := w\<rparr>)))))"
    using Cons.IH [of "await_point (s\<lparr>st_world := w\<rparr>)"] Cons.prems by simp
  ultimately show ?case using d trans by (cases r) (auto simp: Let_def refl)
qed (simp add: refl)

lemma emit_item_rel: "emit_item D i s = (t, r) \<Longrightarrow> ok i \<Longrightarrow> Q (st_world s) (st_world t)"
  using emit_to_rel [of i s "consumers_of i s"] by (auto simp: emit_item_def refl split: if_splits)

lemma replay_events_rel: "replay_events D es s = (t, r) \<Longrightarrow> (\<And>e. ok (IEvent e)) \<Longrightarrow> Q (st_world s) (st_world t)"
proof (induction es arbitrary: s)
  case (Cons e es)
  obtain u q where u: "emit_item D (IEvent e) s = (u, q)" by force
  note step = emit_item_rel [OF this Cons.prems(2)]
  show ?case
  proof (cases "q = Inr () \<and> \<not> st_shutdown u")
    case True
    with u Cons.prems(1) have "replay_events D es (await_point u) = (t, r)" by simp
    from Cons.IH [OF this Cons.prems(2)] step show ?thesis by (auto intro: trans)
  next
    case False
    with u Cons.prems(1) step show ?thesis by (cases q) auto
  qed
qed (auto simp: refl)

end

locale world_rel_all = world_rel +
  assumes all: "ok i"
begin

lemma emit_subscription_rel: "emit_subscription_item D i s = (t, r) \<Longrightarrow> Q (st_world s) (st_world t)"
  by (auto simp: emit_subscription_item_def refl intro: emit_item_rel [OF _ all] split: if_splits option.splits)

lemma deliver_items_rel: "Q (st_world s) (st_world (deliver_items D is s))"
proof (induction "is" arbitrary: s)
  case (Cons i "is")
  obtain t r where t: "emit_subscription_item D i s = (t, r)" by force
  note emit_subscription_rel [OF this]
  with t Cons.IH [of t] show ?case by (cases r) (auto intro: trans)
qed (simp add: refl)

lemma flush_items_rel: "flush_items D previous is s = (t, r) \<Longrightarrow> Q (st_world s) (st_world t)"
proof (induction "is" arbitrary: s)
  case (Cons i "is")
  obtain u q where u: "emit_item D i s = (u, q)" by force
  from emit_item_rel [OF this all] Cons u show ?case
    by (cases q) (auto simp: refl split: if_splits intro: trans)
qed (auto simp: refl)

lemma flush_buffer_rel: "flush_buffer D previous s = (t, r) \<Longrightarrow> Q (st_world s) (st_world t)"
proof (induction "backlog s" arbitrary: s rule: less_induct)
  case less
  show ?case
  proof (cases "st_buffer s = None \<or> st_buffer s = Some [] \<or> st_shutdown s")
    case True
    with less.prems show ?thesis
      by (subst (asm) flush_buffer.simps) (auto simp: refl split: option.splits if_splits)
  next
    case False
    then obtain b where b: "st_buffer s = Some b" "b \<noteq> []" "\<not> st_shutdown s" by auto
    let ?s0 = "s\<lparr>st_buffer := Some []\<rparr>"
    obtain u q where u: "flush_items D previous (sort_key item_key b) ?s0 = (u, q)" by force
    have w: "Q (st_world s) (st_world u)" using flush_items_rel [OF u] by simp
    show ?thesis
    proof (cases "q = Inr False")
      case True
      have "backlog u \<le> backlog ?s0" using flush_items_backlog [OF u [unfolded True]] .
      also have "\<dots> < backlog s" using b by (cases b) (simp_all add: backlog_def)
      finally have "backlog u < backlog s" .
      moreover have "flush_buffer D previous u = (t, r)"
        using less.prems b u True by (subst (asm) flush_buffer.simps) simp
      ultimately show ?thesis using less.hyps w by (blast intro: trans)
    next
      case False
      with less.prems b u w show ?thesis
        by (subst (asm) flush_buffer.simps) (cases q; auto)
    qed
  qed
qed

lemma replay_batches_rel:
  "replay_batches D F bs (s, rs) = ((t, rs'), r) \<Longrightarrow> Q (st_world s) (st_world t)"
proof (induction bs arbitrary: s rs)
  case (Cons p bs)
  obtain a b where p: "p = (a, b)" by force
  obtain s1 rs1 q where f: "fetch_batch F a b (s, rs) = ((s1, rs1), q)" by (metis prod.exhaust)
  note w1 = fetch_batch_world [OF f]
  show ?case
  proof (cases "\<exists>es. q = Inr (Some es)")
    case False
    then consider e where "q = Inl e" | "q = Inr None" by (metis not_None_eq sum.exhaust)
    then show ?thesis using f p w1 Cons.prems by cases (auto simp: refl)
  next
    case True
    then obtain es where es: "q = Inr (Some es)" by blast
    obtain s2 q2 where e: "replay_events D es s1 = (s2, q2)" by force
    note w2 = replay_events_rel [OF e all]
    show ?thesis
    proof (cases "q2 = Inr () \<and> \<not> st_shutdown s2")
      case False
      with f p es e w1 w2 Cons.prems show ?thesis by (cases q2) auto
    next
      case True
      obtain s3 q3 where b: "emit_item D (IBlock \<lparr>bl_number = b\<rparr>) s2 = (s3, q3)" by force
      note w3 = emit_item_rel [OF b all]
      show ?thesis
      proof (cases q3)
        case (Inl err)
        with f p es e True b w1 w2 w3 Cons.prems show ?thesis by (auto intro: trans)
      next
        case (Inr u)
        with f p es e True b Cons.prems
        have "replay_batches D F bs (mark_health MarkProgress s3, rs1) = ((t, rs'), r)" by simp
        from Cons.IH [OF this] w1 w2 w3 show ?thesis by (auto intro: trans)
      qed
    qed
  qed
qed (auto simp: refl)

lemma replay_range_rel:
  "replay_range D F head batch start last_block (s, rs) = ((t, rs'), r) \<Longrightarrow> Q (st_world s) (st_world t)"
  by (auto simp: replay_range_def refl split: if_splits sum.splits option.splits
      dest: replay_batches_rel)

lemma replay_blocks_rel:
  assumes "replay_blocks D F head batch start last_block u (s, rs) = ((t, rs'), r)"
  shows "Q (st_world s) (st_world t)"
proof -
  let ?s0 = "(suppress_live_until u s)\<lparr>st_buffer := Some []\<rparr>"
  obtain s1 rs1 q where q: "replay_range D F head batch start last_block (?s0, rs) = ((s1, rs1), q)"
    by (metis prod.exhaust)
  have w: "Q (st_world s) (st_world s1)" using replay_range_rel [OF q] by simp
  obtain s2 q2 where f: "flush_buffer D (st_buffer (suppress_live_until u s)) s1 = (s2, q2)" by force
  from flush_buffer_rel [OF f] w q f assms show ?thesis
    by (cases q) (auto simp: replay_blocks_def Let_def intro: trans split: if_splits)
qed

end


section \<open>The checkpoint\<close>

text \<open>Computations that leave the checkpoint and the adapter state alone.\<close>

named_theorems keeps_intros \<open>steps that keep checkpoint and adapter\<close>

definition core :: "'m pipeline \<Rightarrow> int \<times> 'm" where
  "core w = (checkpoint w, pl_adapter w)"

definition keeps :: "('m pipeline \<Rightarrow> 'm pipeline \<times> 'a) \<Rightarrow> bool" where
  "keeps m \<longleftrightarrow> (\<forall>s. core (fst (m s)) = core s)"

lemma keepsD: "keeps m \<Longrightarrow> m s = (t, r) \<Longrightarrow> core t = core s"
  by (metis fst_conv keeps_def)

lemma keeps_bindS [keeps_intros]:
  "keeps m \<Longrightarrow> (\<And>x. keeps (f x)) \<Longrightarrow> keeps (bindS m f)"
  by (auto simp: keeps_def bindS_def split: prod.splits sum.splits) (metis fst_conv)+

lemma keeps_basic [keeps_intros]:
  "keeps (liftS m)" "keeps (\<lambda>s. (s, r s))" "keeps (\<lambda>s. (set_windows (w s) s, r s))"
  "keeps (\<lambda>s. (set_digests (d s) s, r s))"
  by (simp_all add: keeps_def liftS_def core_def checkpoint_def set_windows_def set_digests_def)

lemma keeps_emit [keeps_intros]: "keeps (emit_notification em n)"
  by (auto simp: keeps_def emit_notification_def core_def checkpoint_def split: option.splits)

lemma keeps_emit_all [keeps_intros]: "keeps (emit_all em ns)"
proof (induction ns)
  case (Cons n ns)
  have "emit_all em (n # ns) = bindS (emit_notification em n) (\<lambda>_. emit_all em ns)" by (rule ext) simp
  with Cons show ?case by (simp add: keeps_bindS keeps_emit)
qed (simp add: keeps_def)

lemma keeps_emit_prepared [keeps_intros]: "keeps (emit_prepared em p)"
  unfolding emit_prepared_def by (rule keeps_bindS, rule keeps_emit_all)
    (auto simp: keeps_def core_def checkpoint_def set_windows_def split: option.splits)

lemma keeps_prepare [keeps_intros]: "keeps (prepare C ags e)"
  by (auto simp: keeps_def prepare_def core_def checkpoint_def set_windows_def split: option.splits sum.splits)

lemma keeps_coordinator [keeps_intros]: "keeps (coordinator_handle_event C em ags e)"
  unfolding coordinator_handle_event_def by (intro keeps_intros)

lemma keeps_flush_window [keeps_intros]:
  "keeps (flush_window em ags w :: 'm pipeline \<Rightarrow> 'm pipeline \<times> unit res)"
proof (cases "aggregator_for_group ags (aw_group w)")
  case None
  then show ?thesis by (simp add: keeps_def flush_window_def core_def checkpoint_def set_windows_def)
next
  case (Some a)
  then have "(flush_window em ags w :: 'm pipeline \<Rightarrow> _) = bindS (liftS (aggregate a (aw_events w)))
      (\<lambda>ns. emit_prepared em \<lparr>pn_notifications = ns, pn_window = Some w\<rparr>)"
    by (simp add: flush_window_def fun_eq_iff)
  then show ?thesis by (simp add: keeps_bindS keeps_basic keeps_emit_prepared)
qed

lemma keeps_flush_windows [keeps_intros]: "keeps (flush_windows em ags ws)"
proof (induction ws)
  case (Cons w ws)
  have "flush_windows em ags (w # ws) = bindS (flush_window em ags w) (\<lambda>_. flush_windows em ags ws)"
    by (rule ext) simp
  with Cons show ?case by (simp add: keeps_bindS keeps_flush_window)
qed (simp add: keeps_def)

lemma keeps_flush_ready [keeps_intros]:
  "keeps (flush_ready_windows C em ags b :: 'm pipeline \<Rightarrow> 'm pipeline \<times> unit res)"
proof -
  have "keeps (bindS (liftS q) (\<lambda>ws. flush_windows em ags (ready_windows b ws))
      :: 'm pipeline \<Rightarrow> 'm pipeline \<times> unit res)" for q
    by (intro keeps_intros)
  then show ?thesis by (simp add: keeps_def flush_ready_windows_def)
qed

lemma keeps_offer [keeps_intros]: "keeps (offer_to_digests C gs e)"
proof (induction gs)
  case (Cons g gs)
  have h: "keeps (digest_handle_event C g e)"
    by (auto simp: keeps_def digest_handle_event_def core_def checkpoint_def set_digests_def split: sum.splits)
  have eq: "offer_to_digests C (g # gs) e = bindS (digest_handle_event C g e) (\<lambda>taken.
      if taken then (\<lambda>s. (s, Inr True)) else offer_to_digests C gs e)"
    by (rule ext) simp
  show ?case unfolding eq by (rule keeps_bindS [OF h]) (use Cons in \<open>simp add: keeps_def\<close>)
qed (simp add: keeps_def)

lemma runtime_event_core:
  assumes "runtime_handle_event C em R e w = (w', r)"
  shows "core w' = (checkpoint w, fst (mr_effects R e (pl_adapter w)))"
proof -
  have "keeps (if taken then (\<lambda>s. (s, Inr ())) else coordinator_handle_event C em ags e
      :: 'm pipeline \<Rightarrow> 'm pipeline \<times> unit res)" for taken ags
    by (simp add: keeps_basic keeps_coordinator)
  then have k: "keeps (bindS (offer_to_digests C (mr_digests R) e) (\<lambda>taken.
      if taken then (\<lambda>s. (s, Inr ())) else coordinator_handle_event C em ags e)
      :: 'm pipeline \<Rightarrow> 'm pipeline \<times> unit res)" for ags
    by (intro keeps_bindS keeps_offer)
  obtain m q where m: "mr_effects R e (pl_adapter w) = (m, q)" by force
  show ?thesis
  proof (cases q)
    case (Inl err)
    with m assms show ?thesis
      by (auto simp: runtime_handle_event_def run_effects_def bindS_def core_def checkpoint_def)
  next
    case (Inr x)
    with m assms have "bindS (offer_to_digests C (mr_digests R) e) (\<lambda>taken.
        if taken then (\<lambda>s. (s, Inr ())) else coordinator_handle_event C em (mr_aggregators R) e)
        (w\<lparr>pl_adapter := m\<rparr>) = (w', r)"
      by (simp add: runtime_handle_event_def run_effects_def bindS_def [of "run_effects _ _"])
    from keepsD [OF k this] m show ?thesis by (simp add: core_def checkpoint_def)
  qed
qed

lemma runtime_block_core:
  assumes "runtime_handle_block C em R b w = (w', r)"
  shows "core w' = (if r = Inr () then max (checkpoint w) (bl_number b) else checkpoint w, pl_adapter w)"
proof -
  from runtime_block_cases [OF assms] obtain t where
    t: "flush_ready_windows C em (mr_aggregators R) (bl_number b) w = (t, r)"
    and s': "w' = t \<and> r \<noteq> Inr () \<or> w' = advance_block (bl_number b) t \<and> r = Inr ()" by blast
  have "core t = core w" by (rule keepsD [OF keeps_flush_ready t])
  moreover have "pl_adapter (advance_block (bl_number b) t) = pl_adapter t" by (simp add: advance_block_def)
  ultimately show ?thesis using s' by (auto simp: core_def checkpoint_def)
qed

lemma runtime_consumer_core:
  assumes "runtime_consumer C em R c i w = (w', r)"
  shows "checkpoint w' = (case i of IEvent e \<Rightarrow> checkpoint w
      | IBlock b \<Rightarrow> if r = Inr () then max (checkpoint w) (bl_number b) else checkpoint w)"
    "pl_adapter w' = (case i of IEvent e \<Rightarrow> fst (mr_effects R e (pl_adapter w)) | IBlock b \<Rightarrow> pl_adapter w)"
  using assms runtime_event_core [of C em R _ w w' r] runtime_block_core [of C em R _ w w' r]
  by (auto simp: runtime_consumer_def core_def split: item.splits)

interpretation cp: world_rel_all "runtime_consumer C em R" "\<lambda>i. True"
    "\<lambda>w w'. checkpoint w \<le> checkpoint w'" for C em R
  by unfold_locales (auto dest!: runtime_consumer_core(1) split: item.splits)

text \<open>Delivering events, and blocks up to \<open>b\<close>, moves the checkpoint at most to \<open>b\<close>.\<close>

definition block_upto :: "int \<Rightarrow> item \<Rightarrow> bool" where
  "block_upto b i \<longleftrightarrow> (case i of IEvent _ \<Rightarrow> True | IBlock k \<Rightarrow> bl_number k \<le> b)"

interpretation upto: world_rel "runtime_consumer C em R" "block_upto b"
    "\<lambda>w w'. checkpoint w' \<le> max (checkpoint w) b" for C em R b
  by unfold_locales (auto dest!: runtime_consumer_core(1) simp: block_upto_def split: item.splits)

interpretation event: world_rel "runtime_consumer C em R" "\<lambda>i. \<exists>e. i = IEvent e"
    "\<lambda>w w'. checkpoint w' = checkpoint w" for C em R
  by unfold_locales (auto dest!: runtime_consumer_core(1))

text \<open>
  An adapter whose state says, by \<open>h\<close>, which events its side effects were run for: no delivery
  forgets one.
\<close>

definition records_events :: "('m \<Rightarrow> event set) \<Rightarrow> 'm module_runtime \<Rightarrow> bool" where
  "records_events h R \<longleftrightarrow> (\<forall>e m. insert e (h m) \<subseteq> h (fst (mr_effects R e m)))"

interpretation handled: world_rel_all "runtime_consumer C em R" "\<lambda>i. True"
    "\<lambda>w w'. records_events h R \<longrightarrow> h (pl_adapter w) \<subseteq> h (pl_adapter w')" for C em R h
proof unfold_locales
  fix c i w w' r
  assume "runtime_consumer C em R c i w = (w', r)"
  from runtime_consumer_core(2) [OF this]
  show "records_events h R \<longrightarrow> h (pl_adapter w) \<subseteq> h (pl_adapter w')"
    by (auto simp: records_events_def split: item.splits)
qed auto

section \<open>Supervisor steps and the checkpoint\<close>

lemma sv_checkpoint_simps [simp]:
  "sv_checkpoint (request_shutdown s) = sv_checkpoint s"
  "sv_checkpoint (stop_stream s) = sv_checkpoint s"
  "sv_checkpoint (finish_catch_up s) = sv_checkpoint s"
  "sv_checkpoint (restart_after_rpc_disconnect reason s) = sv_checkpoint s"
  by (simp_all add: sv_checkpoint_def request_shutdown_def stop_stream_def finish_catch_up_def
      restart_after_rpc_disconnect_def Let_def stream_stop_def request_stream_shutdown_def
      build_module_runtime_def add_block_consumer_def add_event_consumer_def mk_stream_def mark_health_def)

lemma deliver_live_checkpoint: "sv_checkpoint s \<le> sv_checkpoint (deliver_live X is s)"
  using cp.deliver_items_rel by (simp add: deliver_live_def sv_checkpoint_def sv_consumer_def)

lemma run_replay_checkpoint:
  assumes "run_replay X start head s = (t, r)"
  shows "sv_checkpoint s \<le> sv_checkpoint t"
proof -
  obtain u rs q where u: "replay_blocks (sv_consumer X) (cx_fetch X) (Inr head) (cx_batch X) start
      (Some head) (Some head) (sv_stream s, sv_reader s) = ((u, rs), q)" by (metis prod.exhaust)
  from cp.replay_blocks_rel [OF u [unfolded sv_consumer_def]] u assms show ?thesis
    by (auto simp: run_replay_def sv_checkpoint_def Let_def request_shutdown_def
        request_stream_shutdown_def split: if_splits)
qed

lemma handle_result_checkpoint:
  "handle_subscription_result r s = (t, again) \<Longrightarrow> sv_checkpoint t = sv_checkpoint s"
  by (auto simp: handle_subscription_result_def split: if_splits)

lemma replay_pending_checkpoint:
  assumes "replay_pending_blocks_after_restart X head s = (t, r)"
  shows "sv_checkpoint s \<le> sv_checkpoint t"
proof (cases "sv_pending_replay s")
  case None
  with assms show ?thesis by (simp add: replay_pending_blocks_after_restart_def)
next
  case (Some start)
  show ?thesis
  proof (cases head)
    case (Inl e)
    with Some assms show ?thesis by (simp add: replay_pending_blocks_after_restart_def)
  next
    case (Inr h)
    obtain u q where u: "run_replay X start h (s\<lparr>sv_catchup_until := Some h\<rparr>) = (u, q)" by force
    from run_replay_checkpoint [OF u] u Some Inr assms show ?thesis
      by (cases q) (auto simp: replay_pending_blocks_after_restart_def sv_checkpoint_def mark_health_def)
  qed
qed

lemma stream_start_world: "stream_start c stop s = (t, r) \<Longrightarrow> st_world t = st_world s"
  by (auto simp: stream_start_def Let_def request_stream_shutdown_def mark_health_def split: if_splits)

lemma stream_finish_world: "stream_finish l s = (t, r) \<Longrightarrow> st_world t = st_world s"
  by (auto simp: stream_finish_def mark_health_def split: if_splits)

lemma listen_checkpoint:
  assumes "listen_until_end X ss s = (t, r)"
  shows "sv_checkpoint s \<le> sv_checkpoint t"
proof -
  let ?s1 = "deliver_live X (ss_live_after ss) s"
  let ?s2 = "if ss_stop ss then request_shutdown ?s1 else ?s1"
  have le: "sv_checkpoint s \<le> sv_checkpoint ?s2" using deliver_live_checkpoint [of s X] by simp
  obtain u q where u: "stream_finish (ss_listens ss) (sv_stream ?s2) = (u, q)" by force
  obtain v again where v: "handle_subscription_result q (?s2\<lparr>sv_stream := u\<rparr>) = (v, again)" by force
  have "sv_checkpoint v = sv_checkpoint ?s2"
    using handle_result_checkpoint [OF v] stream_finish_world [OF u] by (simp add: sv_checkpoint_def)
  with le u v assms show ?thesis
    by (auto simp: listen_until_end_def Let_def split: if_splits)
qed

lemma session_checkpoint:
  assumes "subscribe_until_restarted_or_stopped X ss s0 = (t, r)"
  shows "sv_checkpoint s0 \<le> sv_checkpoint t"
proof -
  obtain w r0 where w: "resume_pending_aggregations (cx_codec X) (cx_emitter X) (cx_runtime X)
      (st_world (sv_stream s0)) = (w, r0)" by force
  have "checkpoint w = checkpoint (st_world (sv_stream s0))"
    using keepsD [OF keeps_flush_ready w [unfolded resume_pending_aggregations_def resume_pending_def]]
    by (simp add: core_def)
  then have cw: "sv_checkpoint (s0\<lparr>sv_stream := (sv_stream s0)\<lparr>st_world := w\<rparr>\<rparr>) = sv_checkpoint s0"
    by (simp add: sv_checkpoint_def)
  show ?thesis
  proof (cases r0)
    case (Inl e)
    with w cw assms show ?thesis by (simp add: subscribe_until_restarted_or_stopped_def)
  next
    case (Inr x)
    let ?s1 = "s0\<lparr>sv_stream := (sv_stream s0)\<lparr>st_world := w\<rparr>, sv_restarted := False\<rparr>"
    note run = assms [unfolded subscribe_until_restarted_or_stopped_def w Inr Let_def, simplified]
    have c1: "sv_checkpoint ?s1 = sv_checkpoint s0" using cw by (simp add: sv_checkpoint_def)
    show ?thesis
    proof (cases "ss_stop_early ss")
      case True
      with run c1 show ?thesis by auto
    next
      case early: False
      obtain u o1 where u: "stream_start (ss_connects ss) False (sv_stream ?s1) = (u, o1)" by force
      have cu: "sv_checkpoint (?s1\<lparr>sv_stream := u\<rparr>) = sv_checkpoint s0"
        using stream_start_world [OF u] c1 by (simp add: sv_checkpoint_def)
      show ?thesis
      proof (cases o1)
        case (Some q)
        obtain v again where v: "handle_subscription_result q (?s1\<lparr>sv_stream := u\<rparr>) = (v, again)"
          by force
        from handle_result_checkpoint [OF v] v Some u early run cu show ?thesis by auto
      next
        case None
        let ?s2 = "deliver_live X (ss_live_before ss) (?s1\<lparr>sv_stream := u\<rparr>)"
        obtain v q where v: "replay_pending_blocks_after_restart X (ss_head ss) ?s2 = (v, q)" by force
        have cv: "sv_checkpoint s0 \<le> sv_checkpoint v"
          using replay_pending_checkpoint [OF v] cu
            deliver_live_checkpoint [of "?s1\<lparr>sv_stream := u\<rparr>" X "ss_live_before ss"] by linarith
        show ?thesis
        proof (cases q)
          case (Inl e)
          with v None u early run cv show ?thesis by (auto split: if_splits)
        next
          case (Inr y)
          with v None u early run have "listen_until_end X ss v = (t, r)" by simp
          from listen_checkpoint [OF this] cv show ?thesis by simp
        qed
      qed
    qed
  qed
qed

lemma supervise_checkpoint:
  "supervise X sss s = (t, r) \<Longrightarrow> sv_checkpoint s \<le> sv_checkpoint t"
proof (induction sss arbitrary: s)
  case (Cons ss sss)
  obtain u q where u: "subscribe_until_restarted_or_stopped X ss s = (u, q)" by force
  note session_checkpoint [OF this]
  with u Cons show ?case by (cases q) (fastforce split: if_splits)+
qed auto

section \<open>What a replay delivers\<close>

text \<open>
  The reader serves a fixed chain, whose block \<open>k\<close> has the events \<open>evs k\<close>, or raises. Events of
  the blocks \<open>a\<close> to \<open>b\<close> are delivered when the side effects of the runtime have seen them.
\<close>

definition serves_chain :: "'r fetcher \<Rightarrow> (int \<Rightarrow> event list) \<Rightarrow> bool" where
  "serves_chain F evs \<longleftrightarrow> (\<forall>a b rs. case snd (F a b rs) of
     Inl e \<Rightarrow> True
   | Inr None \<Rightarrow> False
   | Inr (Some es) \<Rightarrow> set es = (\<Union>k \<in> {a..b}. set (evs k)))"

lemma serves_chainD:
  assumes "serves_chain F evs" "F a b rs = (rs', r)"
  shows "r \<noteq> Inr None" "\<And>es. r = Inr (Some es) \<Longrightarrow> set es = (\<Union>k \<in> {a..b}. set (evs k))"
proof -
  have "case r of Inl e \<Rightarrow> True | Inr None \<Rightarrow> False
      | Inr (Some es) \<Rightarrow> set es = (\<Union>k \<in> {a..b}. set (evs k))"
    using assms unfolding serves_chain_def by (metis snd_conv)
  then show "r \<noteq> Inr None" "\<And>es. r = Inr (Some es) \<Longrightarrow> set es = (\<Union>k \<in> {a..b}. set (evs k))"
    by auto
qed

definition delivered :: "('m \<Rightarrow> event set) \<Rightarrow> (int \<Rightarrow> event list) \<Rightarrow> int \<Rightarrow> int \<Rightarrow> 'm pipeline \<Rightarrow> bool" where
  "delivered h evs a b w \<longleftrightarrow> (\<forall>k. a \<le> k \<and> k \<le> b \<longrightarrow> set (evs k) \<subseteq> h (pl_adapter w))"

lemma delivered_mono:
  "delivered h evs a b w \<Longrightarrow> h (pl_adapter w) \<subseteq> h (pl_adapter w') \<Longrightarrow> delivered h evs a b w'"
  by (fastforce simp: delivered_def)

lemma delivered_empty [simp]: "b < a \<Longrightarrow> delivered h evs a b w"
  by (auto simp: delivered_def)

lemma delivered_join:
  assumes "delivered h evs a b w" "delivered h evs c d w" "c \<le> b + 1"
  shows "delivered h evs a d w"
  unfolding delivered_def
proof (intro allI impI)
  fix k
  assume "a \<le> k \<and> k \<le> d"
  with assms show "set (evs k) \<subseteq> h (pl_adapter w)"
    by (cases "k \<le> b") (auto simp: delivered_def)
qed

text \<open>While a replay runs, the stream buffers and the runtime is its event consumer.\<close>

definition replaying :: "'w stream \<Rightarrow> bool" where
  "replaying s \<longleftrightarrow> st_buffer s \<noteq> None \<and> st_event_consumers s = [0]"

lemma await_replaying: "replaying s \<Longrightarrow> replaying (await_point s)"
  by (auto simp: replaying_def await_point_def Let_def request_stream_shutdown_def fold_buffer_item
      split: list.splits)

lemma emit_to_replaying: "replaying s \<Longrightarrow> replaying (fst (emit_to D cs i s))"
proof (induction cs arbitrary: s)
  case (Cons c cs)
  obtain w q where d: "D c i (st_world s) = (w, q)" by force
  have "replaying (await_point (s\<lparr>st_world := w\<rparr>))"
    using await_replaying [of "s\<lparr>st_world := w\<rparr>"] Cons.prems by (simp add: replaying_def)
  with Cons.IH [of "await_point (s\<lparr>st_world := w\<rparr>)"] d Cons.prems show ?case
    by (cases q) (auto simp: Let_def)
qed simp

lemma emit_replaying: "emit_item D i s = (t, r) \<Longrightarrow> replaying s \<Longrightarrow> replaying t"
  using emit_to_replaying [of s D "consumers_of i s" i] by (auto simp: emit_item_def split: if_splits)

lemma emit_event_handled:
  assumes "emit_item (runtime_consumer C em R) (IEvent e) s = (t, r)" "records_events h R"
    "replaying s" "\<not> st_shutdown s"
  shows "e \<in> h (pl_adapter (st_world t))"
proof -
  obtain w q where w: "runtime_consumer C em R 0 (IEvent e) (st_world s) = (w, q)" by force
  have "e \<in> h (pl_adapter w)"
    using runtime_consumer_core(2) [OF w] assms(2) by (auto simp: records_events_def)
  moreover have "st_world t = w"
    using assms(1,3,4) w by (cases q)
      (auto simp: emit_item_def consumers_of_def replaying_def Let_def split: if_splits)
  ultimately show ?thesis by simp
qed

lemma replay_events_delivers:
  assumes "replay_events (runtime_consumer C em R) es s = (t, r)" "records_events h R"
    "replaying s" "\<not> st_shutdown s"
  shows "replaying t \<and> (r = Inr () \<and> \<not> st_shutdown t \<longrightarrow> set es \<subseteq> h (pl_adapter (st_world t)))"
  using assms(1,3,4)
proof (induction es arbitrary: s)
  case (Cons e es)
  obtain u q where u: "emit_item (runtime_consumer C em R) (IEvent e) s = (u, q)" by force
  have ru: "replaying u" by (rule emit_replaying [OF u Cons.prems(2)])
  have eu: "e \<in> h (pl_adapter (st_world u))" by (rule emit_event_handled [OF u assms(2) Cons.prems(2,3)])
  show ?case
  proof (cases "q = Inr () \<and> \<not> st_shutdown u")
    case False
    with u Cons.prems(1) ru show ?thesis by (cases q) auto
  next
    case True
    with u Cons.prems(1) have run: "replay_events (runtime_consumer C em R) es (await_point u) = (t, r)"
      by simp
    have ra: "replaying (await_point u)" by (rule await_replaying [OF ru])
    have mono: "h (pl_adapter (st_world u)) \<subseteq> h (pl_adapter (st_world t))"
      using handled.replay_events_rel [OF run, of h] assms(2) by simp
    show ?thesis
    proof (cases "st_shutdown (await_point u)")
      case True
      with run have "t = await_point u" by (cases es) (auto simp: emit_item_def)
      with True ra show ?thesis by simp
    next
      case False
      from Cons.IH [OF run ra False] eu mono show ?thesis by auto
    qed
  qed
qed simp


lemma replay_delivers:
  assumes "1 \<le> n" "serves_chain F evs" "records_events h R" "replaying s" "\<not> st_shutdown s"
  shows "replay_batches (runtime_consumer C em R) F (batches a b n) (s, rs) = ((t, rs'), r) \<Longrightarrow>
    (r = Inr () \<and> \<not> st_shutdown t \<longrightarrow> delivered h evs a b (st_world t)) \<and>
    (\<exists>c \<ge> a - 1. delivered h evs a c (st_world t) \<and> checkpoint (st_world t) \<le> max (checkpoint (st_world s)) c)"
  using assms(4,5)
proof (induction a arbitrary: s rs rule: batches_induct [of n b, OF assms(1)])
  case (1 a)
  let ?D = "runtime_consumer C em R"
  have eq: "batches a b n = (if b < a then [] else (a, min (a + n - 1) b) # batches (a + n) b n)"
    using assms(1) by (rule batches_step)
  let ?e = "min (a + n - 1) b"
  have unmoved: "\<exists>c \<ge> a - 1. delivered h evs a c (st_world t) \<and>
      checkpoint (st_world t) \<le> max (checkpoint (st_world s)) c"
    if "checkpoint (st_world t) = checkpoint (st_world s)"
    using that by (auto intro!: exI [of _ "a - 1"])
  show ?case
  proof (cases "b < a")
    case True
    with 1(2) eq have "t = s" by simp
    with True show ?thesis by (auto intro!: exI [of _ "a - 1"])
  next
    case False
    with 1(2) eq have run: "replay_batches ?D F ((a, ?e) # batches (a + n) b n) (s, rs) = ((t, rs'), r)"
      by simp
    obtain s1 rs1 q where f: "fetch_batch F a ?e (s, rs) = ((s1, rs1), q)" by (metis prod.exhaust)
    have w1: "st_world s1 = st_world s" by (rule fetch_batch_world [OF f])
    have r1: "replaying s1" using f 1(3,4) await_replaying [of s]
      by (auto simp: fetch_batch_def Let_def split: prod.splits)
    show ?thesis
    proof (cases "\<exists>es. q = Inr (Some es)")
      case no: False
      have t: "r = Inr () \<longrightarrow> st_shutdown t" "t = s1"
      proof -
        from no consider err where "q = Inl err" | "q = Inr None" by (metis not_None_eq sum.exhaust)
        then have "t = s1 \<and> (r = Inr () \<longrightarrow> q = Inr None)" using run f by cases auto
        moreover have "st_shutdown s1" if "q = Inr None"
        proof -
          obtain z o1 where z: "F a ?e rs = (z, o1)" by force
          have "o1 \<noteq> Inr None" by (rule serves_chainD(1) [OF assms(2) z])
          with f z that 1(4) show ?thesis by (auto simp: fetch_batch_def Let_def split: if_splits)
        qed
        ultimately show "r = Inr () \<longrightarrow> st_shutdown t" "t = s1" by auto
      qed
      have "checkpoint (st_world t) = checkpoint (st_world s)" using t(2) w1 by simp
      note c = unmoved [OF this]
      show ?thesis by (rule conjI [OF _ c]) (use t(1) in auto)
    next
      case yes: True
      then obtain es where es: "q = Inr (Some es)" by blast
      have sh1: "\<not> st_shutdown s1" and es_set: "set es = (\<Union>k \<in> {a..?e}. set (evs k))"
      proof -
        obtain z o1 where z: "F a ?e rs = (z, o1)" by force
        from f z es 1(4) have "o1 = Inr (Some es)" "\<not> st_shutdown s1"
          by (auto simp: fetch_batch_def Let_def split: if_splits)
        with serves_chainD(2) [OF assms(2) z]
        show "\<not> st_shutdown s1" "set es = (\<Union>k \<in> {a..?e}. set (evs k))" by blast+
      qed
      obtain s2 q2 where e: "replay_events ?D es s1 = (s2, q2)" by force
      have w2: "checkpoint (st_world s2) = checkpoint (st_world s)"
        using event.replay_events_rel [OF e] w1 by auto
      note d2 = replay_events_delivers [OF e assms(3) r1 sh1]
      show ?thesis
      proof (cases "q2 = Inr () \<and> \<not> st_shutdown s2")
        case no: False
        then have "t = s2" "\<not> (r = Inr () \<and> \<not> st_shutdown t)" using run f es e by (cases q2; auto)+
        then have "checkpoint (st_world t) = checkpoint (st_world s)" using w2 by simp
        note c = unmoved [OF this]
        show ?thesis by (rule conjI [OF _ c]) (use \<open>\<not> (r = Inr () \<and> \<not> st_shutdown t)\<close> in auto)
      next
        case ok: True
        with d2 have "set es \<subseteq> h (pl_adapter (st_world s2))" by blast
        then have "\<Union> ((\<lambda>k. set (evs k)) ` {a..?e}) \<subseteq> h (pl_adapter (st_world s2))" by (simp only: es_set)
        then have de: "delivered h evs a ?e (st_world s2)"
          unfolding delivered_def by (meson UN_subset_iff atLeastAtMost_iff)
        obtain s3 q3 where b: "emit_item ?D (IBlock \<lparr>bl_number = ?e\<rparr>) s2 = (s3, q3)" by force
        have w3: "checkpoint (st_world s3) \<le> max (checkpoint (st_world s)) ?e"
          using upto.emit_item_rel [OF b, of ?e] w2 by (simp add: block_upto_def)
        have r3: "replaying s3" using emit_replaying [OF b] d2 by simp
        have de3: "delivered h evs a ?e (st_world s3)"
          using delivered_mono [OF de] handled.emit_item_rel [OF b, of h] assms(3) by simp
        show ?thesis
        proof (cases "q3 = Inr () \<and> \<not> st_shutdown s3")
          case no: False
          let ?u = "mark_health MarkProgress s3"
          have "st_world t = st_world s3 \<and> \<not> (r = Inr () \<and> \<not> st_shutdown t)"
          proof (cases q3)
            case (Inl err)
            with run f es e ok b show ?thesis by auto
          next
            case (Inr x)
            with no have sh: "st_shutdown ?u" by (simp add: mark_health_def)
            from Inr run f es e ok b
            have run': "replay_batches ?D F (batches (a + n) b n) (?u, rs1) = ((t, rs'), r)" by auto
            have "t = ?u"
            proof (cases "batches (a + n) b n")
              case Nil
              with run' show ?thesis by simp
            next
              case (Cons p ps)
              with run' sh show ?thesis by (cases p) (auto simp: fetch_batch_def)
            qed
            with sh show ?thesis by simp
          qed
          with de3 w3 False assms(1) show ?thesis by (auto intro!: exI [of _ ?e])
        next
          case go: True
          let ?u = "mark_health MarkProgress s3"
          have u: "replaying ?u" "\<not> st_shutdown ?u" using r3 go by (simp_all add: replaying_def mark_health_def)
          have run': "replay_batches ?D F (batches (a + n) b n) (?u, rs1) = ((t, rs'), r)"
            using run f es e ok b go by auto
          from 1(1) [OF _ run' u] False obtain c where ih:
            "r = Inr () \<and> \<not> st_shutdown t \<longrightarrow> delivered h evs (a + n) b (st_world t)"
            "a + n - 1 \<le> c" "delivered h evs (a + n) c (st_world t)"
            "checkpoint (st_world t) \<le> max (checkpoint (st_world s3)) c" by auto
          have det: "delivered h evs a ?e (st_world t)"
            using delivered_mono [OF de3] handled.replay_batches_rel [OF run', of h] assms(3) by simp
          show ?thesis
          proof (cases "a + n - 1 \<le> b")
            case True
            have "delivered h evs a c (st_world t)" if "delivered h evs (a + n) c (st_world t)" for c
              by (rule delivered_join [OF det that]) (use True in simp)
            with ih w3 True assms(1) show ?thesis by (auto intro!: exI [of _ c])
          next
            case last: False
            then have "batches (a + n) b n = []" using batches_step [OF assms(1), of "a + n" b] by simp
            with run' have t: "t = ?u" by simp
            from last have "?e = b" by simp
            with t det w3 False show ?thesis by (auto intro!: exI [of _ b])
          qed
        qed
      qed
    qed
  qed
qed


text \<open>The consumers of a stream stay the same.\<close>

lemma await_consumers [simp]: "st_event_consumers (await_point s) = st_event_consumers s"
  by (auto simp: await_point_def Let_def request_stream_shutdown_def split: list.splits)

lemma emit_to_consumers: "st_event_consumers (fst (emit_to D cs i s)) = st_event_consumers s"
proof (induction cs arbitrary: s)
  case (Cons c cs)
  obtain w q where "D c i (st_world s) = (w, q)" by force
  with Cons.IH [of "await_point (s\<lparr>st_world := w\<rparr>)"] show ?case by (cases q) (auto simp: Let_def)
qed simp

lemma emit_consumers: "emit_item D i s = (t, r) \<Longrightarrow> st_event_consumers t = st_event_consumers s"
  using emit_to_consumers [of D "consumers_of i s" i s] by (auto simp: emit_item_def split: if_splits)

lemma deliver_items_consumers:
  "st_event_consumers (deliver_items D is s) = st_event_consumers s"
proof (induction "is" arbitrary: s)
  case (Cons i "is")
  obtain t r where t: "emit_subscription_item D i s = (t, r)" by force
  then have "st_event_consumers t = st_event_consumers s"
    by (auto simp: emit_subscription_item_def dest: emit_consumers split: if_splits option.splits)
  with t Cons.IH [of t] show ?case by (cases r) auto
qed simp

lemma flush_items_consumers:
  "flush_items D previous is s = (t, r) \<Longrightarrow> st_event_consumers t = st_event_consumers s"
proof (induction "is" arbitrary: s)
  case (Cons i "is")
  obtain u q where u: "emit_item D i s = (u, q)" by force
  from emit_consumers [OF this] Cons u show ?case by (cases q) (auto split: if_splits)
qed simp

lemma flush_buffer_consumers:
  "flush_buffer D previous s = (t, r) \<Longrightarrow> st_event_consumers t = st_event_consumers s"
proof (induction D previous s rule: flush_buffer.induct)
  case (1 D previous s)
  show ?case
  proof (cases "st_buffer s = None \<or> st_buffer s = Some [] \<or> st_shutdown s")
    case True
    with 1(2) show ?thesis by (subst (asm) flush_buffer.simps) (auto split: option.splits if_splits)
  next
    case False
    then obtain b where b: "st_buffer s = Some b" "\<not> (b = [] \<or> st_shutdown s)" by auto
    obtain u q where u: "flush_items D previous (sort_key item_key b) (s\<lparr>st_buffer := Some []\<rparr>) = (u, q)"
      by force
    from flush_items_consumers [OF u] have c: "st_event_consumers u = st_event_consumers s" by simp
    show ?thesis
    proof (cases "q = Inr False")
      case True
      with 1(2) b u have "flush_buffer D previous u = (t, r)" by (subst (asm) flush_buffer.simps) simp
      with 1(1) [OF b] u True c show ?thesis by force
    next
      case False
      with 1(2) b u c show ?thesis by (subst (asm) flush_buffer.simps) (cases q; auto)
    qed
  qed
qed

lemma replay_events_consumers:
  "replay_events D es s = (t, r) \<Longrightarrow> st_event_consumers t = st_event_consumers s"
proof (induction es arbitrary: s)
  case (Cons e es)
  obtain u q where u: "emit_item D (IEvent e) s = (u, q)" by force
  from emit_consumers [OF this] Cons u show ?case by (cases q) (fastforce split: if_splits)+
qed simp

lemma replay_batches_consumers:
  "replay_batches D F bs (s, rs) = ((t, rs'), r) \<Longrightarrow> st_event_consumers t = st_event_consumers s"
proof (induction bs arbitrary: s rs)
  case (Cons p bs)
  obtain a b where p: "p = (a, b)" by force
  obtain s1 rs1 q where f: "fetch_batch F a b (s, rs) = ((s1, rs1), q)" by (metis prod.exhaust)
  have c1: "st_event_consumers s1 = st_event_consumers s"
    using f by (auto simp: fetch_batch_def Let_def split: if_splits prod.splits)
  show ?case
  proof (cases "\<exists>es. q = Inr (Some es)")
    case False
    then consider e where "q = Inl e" | "q = Inr None" by (metis not_None_eq sum.exhaust)
    then show ?thesis using f p c1 Cons.prems by cases auto
  next
    case True
    then obtain es where es: "q = Inr (Some es)" by blast
    obtain s2 q2 where e: "replay_events D es s1 = (s2, q2)" by force
    note c2 = replay_events_consumers [OF e]
    obtain s3 q3 where b: "emit_item D (IBlock \<lparr>bl_number = b\<rparr>) s2 = (s3, q3)" by force
    note c3 = emit_consumers [OF b]
    show ?thesis
    proof (cases "q2 = Inr () \<and> \<not> st_shutdown s2 \<and> q3 = Inr ()")
      case False
      with f p es e b c1 c2 c3 Cons.prems show ?thesis
        by (cases q2; cases q3) (auto split: if_splits)
    next
      case True
      with f p es e b Cons.prems
      have "replay_batches D F bs (mark_health MarkProgress s3, rs1) = ((t, rs'), r)" by simp
      from Cons.IH [OF this] c1 c2 c3 show ?thesis by (simp add: mark_health_def)
    qed
  qed
qed simp

text \<open>A supervisor whose stream is live: neither is shutting down.\<close>

definition sv_live :: "('m, 'r) supervisor \<Rightarrow> bool" where
  "sv_live s \<longleftrightarrow> st_event_consumers (sv_stream s) = [0] \<and> \<not> st_shutdown (sv_stream s) \<and> \<not> sv_shutdown s"

definition sv_delivered :: "('m \<Rightarrow> event set) \<Rightarrow> (int \<Rightarrow> event list) \<Rightarrow> int \<Rightarrow> int \<Rightarrow> ('m, 'r) supervisor \<Rightarrow> bool" where
  "sv_delivered h evs a b s \<longleftrightarrow> delivered h evs a b (st_world (sv_stream s))"

lemma run_replay_delivers:
  assumes "run_replay X start last_block s = (t, r)" "1 \<le> cx_batch X" "serves_chain (cx_fetch X) evs"
    "records_events h (cx_runtime X)" "sv_live s"
  shows "(r = Inr () \<and> \<not> sv_shutdown t \<longrightarrow> sv_delivered h evs start last_block t) \<and>
    (sv_delivered h evs start last_block t \<or>
      (\<exists>c \<ge> start - 1. sv_delivered h evs start c t \<and> sv_checkpoint t \<le> max (sv_checkpoint s) c)) \<and>
    h (pl_adapter (st_world (sv_stream s))) \<subseteq> h (pl_adapter (st_world (sv_stream t))) \<and>
    sv_runtime t = sv_runtime s \<and> (\<not> sv_shutdown t \<longrightarrow> sv_live t)"
proof -
  let ?D = "sv_consumer X" and ?F = "cx_fetch X"
  let ?s0 = "(suppress_live_until (Some last_block) (sv_stream s))\<lparr>st_buffer := Some []\<rparr>"
  let ?prev = "st_buffer (suppress_live_until (Some last_block) (sv_stream s))"
  have s0: "replaying ?s0" "\<not> st_shutdown ?s0" "st_world ?s0 = st_world (sv_stream s)"
    "st_event_consumers ?s0 = [0]"
    using assms(5) by (simp_all add: sv_live_def replaying_def suppress_live_until_def)
  obtain u rs q where u: "replay_batches ?D ?F (batches start last_block (cx_batch X)) (?s0, sv_reader s) =
      ((u, rs), q)" by (metis prod.exhaust)
  have range: "replay_range ?D ?F (Inr last_block) (cx_batch X) start (Some last_block) (?s0, sv_reader s) =
      ((u, rs), q)"
    using u s0(2) assms(2) batches_step [OF assms(2), of start last_block]
    by (auto simp: replay_range_def)
  note d = replay_delivers [OF assms(2-4) s0(1,2) u [unfolded sv_consumer_def]]
  have cu: "st_event_consumers u = [0]" using replay_batches_consumers [OF u] s0(4) by simp
  have hu: "h (pl_adapter (st_world (sv_stream s))) \<subseteq> h (pl_adapter (st_world u))"
    using handled.replay_batches_rel [OF u [unfolded sv_consumer_def], of h] assms(4) s0(3) by simp
  obtain v p where v: "flush_buffer ?D ?prev u = (v, p)" by force
  have cv: "st_event_consumers v = [0]" using flush_buffer_consumers [OF v] cu by simp
  have hv: "h (pl_adapter (st_world u)) \<subseteq> h (pl_adapter (st_world v))"
    using handled.flush_buffer_rel [OF v [unfolded sv_consumer_def], of h] assms(4) by simp
  let ?w = "if q = Inr () \<and> \<not> st_shutdown u then v else u\<lparr>st_buffer := ?prev\<rparr>"
  let ?r = "if q = Inr () \<and> \<not> st_shutdown u then p else q"
  have run: "replay_blocks ?D ?F (Inr last_block) (cx_batch X) start (Some last_block) (Some last_block)
      (sv_stream s, sv_reader s) = ((?w, rs), ?r)"
    using range v by (cases q) (auto simp: replay_blocks_def Let_def)
  have nosd: "\<not> sv_shutdown s" using assms(5) by (simp add: sv_live_def)
  have t: "sv_stream t = (if st_shutdown ?w then request_stream_shutdown ?w else ?w)" "r = ?r"
    "sv_shutdown t = st_shutdown ?w" "sv_runtime t = sv_runtime s"
  proof -
    obtain w where w: "w = ?w" by blast
    have "((if st_shutdown w then request_shutdown (s\<lparr>sv_stream := w, sv_reader := rs\<rparr>)
        else s\<lparr>sv_stream := w, sv_reader := rs\<rparr>), ?r) = (t, r)"
      using assms(1) nosd unfolding run_replay_def run w [symmetric] by (simp add: Let_def)
    then show "sv_stream t = (if st_shutdown ?w then request_stream_shutdown ?w else ?w)" "r = ?r"
      "sv_shutdown t = st_shutdown ?w" "sv_runtime t = sv_runtime s"
      using nosd unfolding w [symmetric] by (auto simp: request_shutdown_def split: if_split_asm)
  qed
  have tw: "st_world (sv_stream t) = st_world ?w" "st_event_consumers (sv_stream t) = [0]"
    using cv cu by (simp_all add: t(1) request_stream_shutdown_def)
  have ht: "h (pl_adapter (st_world u)) \<subseteq> h (pl_adapter (st_world (sv_stream t)))"
    using hv tw by simp
  show ?thesis
  proof (cases "q = Inr () \<and> \<not> st_shutdown u")
    case True
    with d s0(3) delivered_mono [OF _ ht]
    have "sv_delivered h evs start last_block t" by (simp add: sv_delivered_def)
    with hu ht t tw show ?thesis by (auto simp: sv_live_def)
  next
    case False
    from d obtain c where "c \<ge> start - 1" "delivered h evs start c (st_world u)"
      "checkpoint (st_world u) \<le> max (checkpoint (st_world (sv_stream s))) c" using s0(3) by auto
    with False tw have "\<exists>c \<ge> start - 1. sv_delivered h evs start c t \<and> sv_checkpoint t \<le> max (sv_checkpoint s) c"
      by (auto simp: sv_delivered_def sv_checkpoint_def)
    with False hu ht t tw show ?thesis by (auto simp: sv_live_def)
  qed
qed


lemma delivered_prefix: "delivered h evs a b w \<Longrightarrow> c \<le> b \<Longrightarrow> delivered h evs a c w"
  by (auto simp: delivered_def)

lemma delivered_from: "delivered h evs a b w \<Longrightarrow> a \<le> c \<Longrightarrow> delivered h evs c b w"
  by (auto simp: delivered_def)

lemma delivered_none: "b < a \<Longrightarrow> delivered h evs a b w"
  by (auto simp: delivered_def)

lemma deliver_live_Nil [simp]: "deliver_live X [] s = s"
  by (simp add: deliver_live_def)

lemma catch_up_shutdown:
  "sv_shutdown s \<Longrightarrow> catch_up_attempts X as runtime start s \<noteq> (t, Inr CaughtUp)"
  by (cases as) auto

lemma sv_live_finish [simp]:
  "sv_live (finish_catch_up s) = sv_live s" "sv_delivered h evs a b (finish_catch_up s) = sv_delivered h evs a b s"
  "sv_shutdown (finish_catch_up s) = sv_shutdown s"
  by (simp_all add: sv_live_def sv_delivered_def finish_catch_up_def)

text \<open>
  The blocks from \<open>start0\<close> on are delivered: a retry starts behind the checkpoint, which is only
  behind \<open>start0\<close> or what a replay delivered.
\<close>

lemma catch_up_delivers:
  assumes "1 \<le> cx_batch X" "serves_chain (cx_fetch X) evs" "records_events h (cx_runtime X)"
  shows "catch_up_attempts X as runtime start s = (t, Inr CaughtUp) \<Longrightarrow>
    \<forall>a \<in> set as. at_live a = [] \<and> at_sleep a = [] \<and> (\<forall>k. at_head a = Inr k \<longrightarrow> h0 \<le> k) \<Longrightarrow>
    sv_live s \<Longrightarrow> sv_checkpoint s < max start start0 \<Longrightarrow>
    sv_delivered h evs start0 (min (start - 1) h0) s \<Longrightarrow> \<not> sv_shutdown t \<Longrightarrow>
    sv_delivered h evs start0 h0 t"
proof (induction as arbitrary: start s)
  case (Cons a as)
  note run = Cons.prems(1) [simplified catch_up_attempts.simps Let_def]
  have a: "at_live a = []" "at_sleep a = []" "\<And>k. at_head a = Inr k \<Longrightarrow> h0 \<le> k"
    using Cons.prems(2) by auto
  have rt: "sv_runtime s = runtime" "\<not> sv_shutdown s" "\<not> at_replaced a"
    using run a by (auto simp: restart_after_rpc_disconnect_def Let_def split: if_splits sum.splits prod.splits)
  have again: "sv_delivered h evs start0 h0 t"
    if u: "catch_up_attempts X as runtime (max start (sv_checkpoint u + 1))
        (if at_stop a then request_shutdown u else u) = (t, Inr CaughtUp)"
      and live: "sv_live u" "\<not> sv_shutdown u"
      and d: "sv_delivered h evs start0 (min (max start (sv_checkpoint u + 1) - 1) h0) u" for u
  proof -
    have "sv_shutdown (request_shutdown u)" by (simp add: request_shutdown_def)
    then have no_stop: "\<not> at_stop a" using u catch_up_shutdown by (metis (full_types))
    have "catch_up_attempts X as runtime (max start (sv_checkpoint u + 1)) u = (t, Inr CaughtUp)"
      using u by (simp only: no_stop if_False)
    moreover have "\<forall>a \<in> set as. at_live a = [] \<and> at_sleep a = [] \<and> (\<forall>k. at_head a = Inr k \<longrightarrow> h0 \<le> k)"
      using Cons.prems(2) by simp
    moreover have "sv_checkpoint u < max (max start (sv_checkpoint u + 1)) start0" by linarith
    ultimately show ?thesis using Cons.IH live(1) d Cons.prems(6) by blast
  qed
  show ?case
  proof (cases "at_head a")
    case (Inl e)
    with run rt a have "e = RpcUnavailable" and
      u: "catch_up_attempts X as runtime (max start (sv_checkpoint s + 1))
        (if at_stop a then request_shutdown s else s) = (t, Inr CaughtUp)"
      by (auto split: if_splits)
    have "sv_delivered h evs start0 (min (max start (sv_checkpoint s + 1) - 1) h0) s"
    proof (cases "sv_checkpoint s < start")
      case True
      then have "max start (sv_checkpoint s + 1) = start" by simp
      with Cons.prems(5) show ?thesis by simp
    next
      case False
      then show ?thesis
        using Cons.prems(4) by (simp add: sv_delivered_def delivered_none)
    qed
    with again [OF u Cons.prems(3) rt(2)] show ?thesis by blast
  next
    case (Inr k)
    obtain u q where u: "run_replay X start k (s\<lparr>sv_catchup_until := Some k\<rparr>) = (u, q)" by force
    have live: "sv_live (s\<lparr>sv_catchup_until := Some k\<rparr>)"
      "sv_checkpoint (s\<lparr>sv_catchup_until := Some k\<rparr>) = sv_checkpoint s"
      "sv_stream (s\<lparr>sv_catchup_until := Some k\<rparr>) = sv_stream s"
      "sv_runtime (s\<lparr>sv_catchup_until := Some k\<rparr>) = sv_runtime s"
      using Cons.prems(3) by (simp_all add: sv_live_def sv_checkpoint_def)
    note d = run_replay_delivers [OF u assms live(1), unfolded live]
    have old: "sv_delivered h evs start0 (min (start - 1) h0) u"
      using Cons.prems(5) d delivered_mono by (fastforce simp: sv_delivered_def)
    have join: "sv_delivered h evs start0 (min c h0) u" if "sv_delivered h evs start c u" for c
    proof -
      consider "start0 \<le> start" "start - 1 \<le> h0" | "\<not> start0 \<le> start" | "\<not> start - 1 \<le> h0"
        by blast
      then show ?thesis
      proof cases
        case 1
        with old that delivered_join [of h evs start0 "start - 1" _ start c]
        have "delivered h evs start0 c (st_world (sv_stream u))" by (simp add: sv_delivered_def)
        from delivered_prefix [OF this] show ?thesis by (simp add: sv_delivered_def)
      next
        case 2
        with that delivered_from [of h evs start c _ start0]
        have "delivered h evs start0 c (st_world (sv_stream u))" by (simp add: sv_delivered_def)
        from delivered_prefix [OF this] show ?thesis by (simp add: sv_delivered_def)
      next
        case 3
        with old delivered_prefix [of h evs start0 h0 _ "min c h0"] show ?thesis
          by (simp add: sv_delivered_def)
      qed
    qed
    show ?thesis
    proof (cases q)
      case (Inr x)
      with run rt a \<open>at_head a = Inr k\<close> u have t: "t = finish_catch_up u" by simp
      with Cons.prems(6) d Inr have "sv_delivered h evs start k u" by simp
      from join [OF this] a(3) [OF \<open>at_head a = Inr k\<close>] show ?thesis by (simp add: t min_absorb2)
    next
      case (Inl e)
      with run rt a \<open>at_head a = Inr k\<close> u have c: "e = RpcUnavailable" "\<not> sv_shutdown u"
        "catch_up_attempts X as runtime (max start (sv_checkpoint u + 1))
          (if at_stop a then request_shutdown u else u) = (t, Inr CaughtUp)"
        by (auto split: if_splits)
      have "sv_delivered h evs start0 (min (max start (sv_checkpoint u + 1) - 1) h0) u"
      proof (cases "sv_delivered h evs start k u")
        case True
        from join [OF this] a(3) [OF \<open>at_head a = Inr k\<close>] delivered_prefix show ?thesis
          by (fastforce simp: sv_delivered_def min_absorb2)
      next
        case False
        with d obtain b where b: "b \<ge> start - 1" "sv_delivered h evs start b u"
          "sv_checkpoint u \<le> max (sv_checkpoint s) b" by auto
        show ?thesis
        proof (cases "max start (sv_checkpoint u + 1) - 1 \<le> max b (start0 - 1)")
          case near: True
          show ?thesis
          proof (cases "max start (sv_checkpoint u + 1) \<le> start0")
            case True
            then have "min (max start (sv_checkpoint u + 1) - 1) h0 < start0" by linarith
            from delivered_none [OF this] show ?thesis by (simp only: sv_delivered_def)
          next
            case False
            with near have "min (max start (sv_checkpoint u + 1) - 1) h0 \<le> min b h0" by linarith
            with join [OF b(2)] delivered_prefix show ?thesis by (fastforce simp: sv_delivered_def)
          qed
        next
          case False
          with b Cons.prems(4) show ?thesis by linarith
        qed
      qed
      with again [OF c(3)] d c(2) show ?thesis by blast
    qed
  qed
qed simp

text \<open>An attempt that succeeds has replayed from its start block.\<close>

lemma catch_up_first:
  assumes "1 \<le> cx_batch X" "serves_chain (cx_fetch X) evs" "records_events h (cx_runtime X)"
    and run: "catch_up_attempts X [a] runtime start s = (t, Inr CaughtUp)"
    and a: "at_live a = [] \<and> at_sleep a = [] \<and> (\<forall>k. at_head a = Inr k \<longrightarrow> h0 \<le> k)"
    and live: "sv_live s" and up: "\<not> sv_shutdown t"
  shows "sv_delivered h evs start h0 t"
proof -
  note run = run [simplified catch_up_attempts.simps Let_def]
  have rt: "sv_runtime s = runtime" "\<not> sv_shutdown s" "\<not> at_replaced a"
    using run a by (auto simp: restart_after_rpc_disconnect_def Let_def split: if_splits sum.splits prod.splits)
  from run rt a obtain k where k: "at_head a = Inr k" by (cases "at_head a") (auto split: if_splits)
  obtain u q where u: "run_replay X start k (s\<lparr>sv_catchup_until := Some k\<rparr>) = (u, q)" by force
  from run rt a k u obtain x where q: "q = Inr x" and t: "t = finish_catch_up u"
    by (cases q) (auto split: if_splits)
  have "sv_live (s\<lparr>sv_catchup_until := Some k\<rparr>)" using live by (simp add: sv_live_def)
  from run_replay_delivers [OF u assms(1-3) this] q up t
  have "sv_delivered h evs start k u" by simp
  with a k have "sv_delivered h evs start h0 u"
    by (auto simp: sv_delivered_def intro: delivered_prefix)
  then show ?thesis by (simp add: t)
qed

section \<open>Properties\<close>

text \<open>C16: no session of the supervisor, whatever the connection, the node and the live stream do,
  and no catch-up moves the persisted checkpoint back.\<close>

theorem supervisor_checkpoint_monotone:
  "sv_checkpoint s \<le> sv_checkpoint (fst (supervise X sessions s)) \<and>
   sv_checkpoint s \<le> sv_checkpoint (fst (catch_up_from X attempts start s))"
proof -
  have "sv_checkpoint s \<le> sv_checkpoint (fst (catch_up_attempts X as runtime start s))" for as runtime
  proof (induction "as" arbitrary: start s)
    case (Cons a as)
    let ?s1 = "deliver_live X (at_live a) s"
    let ?s2 = "if at_replaced a then restart_after_rpc_disconnect ''rpc_disconnect'' ?s1 else ?s1"
    have c2: "sv_checkpoint s \<le> sv_checkpoint ?s2" using deliver_live_checkpoint [of s X] by simp
    have go: "sv_checkpoint s \<le> sv_checkpoint (fst (catch_up_attempts X as runtime b
        (if at_stop a then request_shutdown (deliver_live X is u) else deliver_live X is u)))"
      if "sv_checkpoint s \<le> sv_checkpoint u" for u b "is"
      using Cons.IH [of "deliver_live X is u" b] Cons.IH [of "request_shutdown (deliver_live X is u)" b]
        deliver_live_checkpoint [of u X "is"] that by (auto intro: order_trans)
    show ?case
    proof (cases "at_head a")
      case (Inl e)
      with c2 go [OF c2] show ?thesis by (auto simp: Let_def)
    next
      case (Inr k)
      obtain u q where u: "run_replay X start k (?s2\<lparr>sv_catchup_until := Some k\<rparr>) = (u, q)" by force
      have cu: "sv_checkpoint s \<le> sv_checkpoint u"
        using run_replay_checkpoint [OF u] c2 by (simp add: sv_checkpoint_def)
      from Inr u cu c2 go [OF cu] show ?thesis by (cases q) (auto simp: Let_def)
    qed
  qed simp
  moreover obtain t r where "supervise X sessions s = (t, r)" by force
  ultimately show ?thesis using supervise_checkpoint by (fastforce simp: catch_up_from_def)
qed

text \<open>C14: catching up misses nothing across RPC failures and retries from the checkpoint on: when
  it reports success and no live item was handled between its replays, every event of the blocks
  up to the lowest head the node answered has reached the runtime, whatever arrived while a replay
  was buffering: from the start block on when it lies behind the checkpoint, as it does when it
  is computed from the checkpoint, or when only one attempt is made, and else (\<open>BLOCK_FROM\<close> at or
  before the checkpoint and a retry) from the block after the checkpoint on.\<close>

theorem catch_up_complete:
  assumes "catch_up_from X attempts start s = (t, Inr CaughtUp)" "\<not> sv_shutdown t"
    "1 \<le> cx_batch X" "serves_chain (cx_fetch X) evs" "records_events h (cx_runtime X)"
    "\<forall>a \<in> set attempts. at_live a = [] \<and> at_sleep a = [] \<and> (\<forall>k. at_head a = Inr k \<longrightarrow> head \<le> k)"
    "sv_live s" "start \<le> k" "k \<le> head"
    "sv_checkpoint s < k \<or> length attempts = 1"
  shows "set (evs k) \<subseteq> h (pl_adapter (st_world (sv_stream t)))"
proof (cases "length attempts = 1")
  case True
  then obtain a where a: "attempts = [a]" by (auto simp: length_Suc_conv)
  have "at_live a = [] \<and> at_sleep a = [] \<and> (\<forall>k. at_head a = Inr k \<longrightarrow> head \<le> k)"
    using assms(6) by (simp add: a)
  from catch_up_first [OF assms(3-5) assms(1) [unfolded catch_up_from_def a] this assms(7,2)]
  show ?thesis using assms(8,9) by (simp add: sv_delivered_def delivered_def)
next
  case False
  let ?lo = "max start (sv_checkpoint s + 1)"
  have "sv_delivered h evs ?lo (min (start - 1) head) s"
    by (simp add: sv_delivered_def delivered_none)
  from catch_up_delivers [OF assms(3-5) assms(1) [unfolded catch_up_from_def] assms(6,7) _ this assms(2)]
  have "sv_delivered h evs ?lo head t" by simp
  moreover have "?lo \<le> k" using False assms(8,10) by auto
  ultimately show ?thesis using assms(9) by (simp add: sv_delivered_def delivered_def)
qed

text \<open>
  The exception is real: with a start block at or before the checkpoint, one failed attempt makes the
  retry start behind the checkpoint, and the blocks in between are not fetched.
\<close>

lemma catch_up_retry_jumps:
  assumes "sv_live s" "start \<le> sv_checkpoint s"
    "a = \<lparr>at_live = [], at_replaced = False, at_head = Inl RpcUnavailable, at_sleep = [], at_stop = False\<rparr>"
  shows "catch_up_from X (a # rest) start s = catch_up_from X rest (sv_checkpoint s + 1) s"
  using assms by (simp add: catch_up_from_def sv_live_def Let_def max_absorb2)

text \<open>C15: a live block that is handled while catch-up is asking for the head is not harmless: if
  that request fails, the retry starts behind the block, and the blocks between the start and
  it are not fetched by it.\<close>

theorem catch_up_skips_gap:
  assumes "sv_live s" "st_buffer (sv_stream s) = None" "st_threshold (sv_stream s) = None"
    "st_block_consumers (sv_stream s) = [0]"
    "runtime_handle_block (cx_codec X) (cx_emitter X) (cx_runtime X) \<lparr>bl_number = b\<rparr> (st_world (sv_stream s)) = (w, Inr ())"
    "a = \<lparr>at_live = [IBlock \<lparr>bl_number = b\<rparr>], at_replaced = False, at_head = Inl RpcUnavailable,
      at_sleep = [], at_stop = False\<rparr>" "sv_checkpoint s < b"
  shows "catch_up_from X (a # rest) start s =
    catch_up_from X rest (max start (b + 1)) (s\<lparr>sv_stream := (sv_stream s)\<lparr>st_world := w\<rparr>\<rparr>)"
proof -
  have cw: "checkpoint w = b"
    using runtime_block_core [OF assms(5)] assms(7) by (simp add: core_def sv_checkpoint_def)
  have "deliver_items (sv_consumer X) [IBlock \<lparr>bl_number = b\<rparr>] (sv_stream s) = (sv_stream s)\<lparr>st_world := w\<rparr>"
    using assms(1-5)
    by (simp add: emit_subscription_item_def above_threshold_def emit_item_def consumers_of_def sv_live_def
        sv_consumer_def runtime_consumer_def await_point_def Let_def)
  then have "deliver_live X (at_live a) s = s\<lparr>sv_stream := (sv_stream s)\<lparr>st_world := w\<rparr>\<rparr>"
    by (simp add: deliver_live_def assms(6))
  moreover have "sv_checkpoint (s\<lparr>sv_stream := (sv_stream s)\<lparr>st_world := w\<rparr>\<rparr>) = b"
    by (simp add: sv_checkpoint_def cw)
  ultimately show ?thesis
    using assms(1) by (simp add: catch_up_from_def sv_live_def assms(6) Let_def)
qed

text \<open>When a subscription ends without a shutdown, the supervisor continues on a fresh runtime
  whose replay begins right after the checkpoint (never before block 1), with the pipeline as it
  is and nothing buffered or suppressed; after a shutdown it ends.\<close>

theorem subscription_end_recovers:
  "handle_subscription_result q s = (t, again) \<Longrightarrow>
   again = (\<not> sv_shutdown s) \<and> (\<not> again \<longrightarrow> t = s) \<and>
   (again \<longrightarrow> sv_pending_replay t = Some (max (sv_checkpoint s + 1) 1) \<and>
     sv_checkpoint t = sv_checkpoint s \<and> st_world (sv_stream t) = st_world (sv_stream s) \<and>
     sv_runtime t = Suc (sv_runtime s) \<and> \<not> st_shutdown (sv_stream t) \<and> st_buffer (sv_stream t) = None \<and>
     st_event_consumers (sv_stream t) = [0] \<and> st_block_consumers (sv_stream t) = [0] \<and>
     st_threshold (sv_stream t) = sv_catchup_until s \<and>
     MarkCatchupStarted \<in> set (st_health (sv_stream t)))"
  by (auto simp: handle_subscription_result_def restart_after_rpc_disconnect_def Let_def stream_stop_def
      request_stream_shutdown_def build_module_runtime_def add_block_consumer_def add_event_consumer_def
      mk_stream_def mark_health_def sv_checkpoint_def split: if_splits)

section \<open>Witnesses\<close>

text \<open>A runtime whose adapter keeps the events it has seen, on a chain with one event in block 3.\<close>

definition watching_runtime :: "event list module_runtime" where
  "watching_runtime = \<lparr>mr_aggregators = [], mr_digests = [], mr_effects = (\<lambda>e es. (es @ [e], Inr ()))\<rparr>"

definition one_event_chain :: "int \<Rightarrow> event list" where
  "one_event_chain k = (if k = 3 then [sample_event ''Paused'' ''0xaa'' 3 0 0] else [])"

definition watching_ctx :: "(event list, unit) sv_ctx" where
  "watching_ctx = \<lparr>cx_codec = sample_codec, cx_emitter = (\<lambda>_ _. None), cx_runtime = watching_runtime,
     cx_fetch = (\<lambda>a b rs. (rs, Inr (Some (concat (map one_event_chain [a..b]))))), cx_batch = 10\<rparr>"

definition watching_supervisor :: "(event list, unit) supervisor" where
  "watching_supervisor = mk_supervisor [] () \<lparr>pl_store = sample_store, pl_sent = [], pl_adapter = []\<rparr>"

lemma watching_serves: "serves_chain (cx_fetch watching_ctx) one_event_chain"
  by (auto simp: serves_chain_def watching_ctx_def)

lemma watching_records: "records_events set (cx_runtime watching_ctx)"
  by (auto simp: records_events_def watching_ctx_def watching_runtime_def)

lemma watching_live: "sv_live watching_supervisor" "sv_checkpoint watching_supervisor = 0"
  by (simp_all add: sv_live_def sv_checkpoint_def watching_supervisor_def mk_supervisor_def checkpoint_def
      build_module_runtime_def add_block_consumer_def add_event_consumer_def mk_stream_def sample_store_def)

lemma catch_up_skips_gap_witness:
  "\<exists>w. catch_up_from watching_ctx [\<lparr>at_live = [IBlock \<lparr>bl_number = 9\<rparr>], at_replaced = False,
       at_head = Inl RpcUnavailable, at_sleep = [], at_stop = False\<rparr>] 1 watching_supervisor =
     catch_up_from watching_ctx [] 10 (watching_supervisor\<lparr>sv_stream := (sv_stream watching_supervisor)\<lparr>st_world := w\<rparr>\<rparr>)"
proof -
  have p: "pending sample_codec [] = Inr []" by (simp add: pending_def records_from_def)
  have "\<exists>w. runtime_handle_block (cx_codec watching_ctx) (cx_emitter watching_ctx) (cx_runtime watching_ctx)
      \<lparr>bl_number = 9\<rparr> (st_world (sv_stream watching_supervisor)) = (w, Inr ())"
    by (simp add: runtime_handle_block_def coordinator_handle_block_def flush_ready_windows_def
        watching_ctx_def watching_supervisor_def mk_supervisor_def build_module_runtime_def
        add_block_consumer_def add_event_consumer_def mk_stream_def windows_of_def sample_store_def p
        bindS_def liftS_def ready_windows_def)
  then obtain w where w: "runtime_handle_block (cx_codec watching_ctx) (cx_emitter watching_ctx)
      (cx_runtime watching_ctx) \<lparr>bl_number = 9\<rparr> (st_world (sv_stream watching_supervisor)) = (w, Inr ())" ..
  from catch_up_skips_gap [OF watching_live(1) _ _ _ w refl, of "[]" 1] watching_live(2) show ?thesis
    by (intro exI [of _ w]) (simp add: watching_supervisor_def mk_supervisor_def build_module_runtime_def
        add_block_consumer_def add_event_consumer_def mk_stream_def)
qed


lemma watching_catch_up:
  "\<exists>t. catch_up_from watching_ctx [\<lparr>at_live = [], at_replaced = False, at_head = Inr 5, at_sleep = [],
       at_stop = False\<rparr>] 1 watching_supervisor = (t, Inr CaughtUp) \<and> \<not> sv_shutdown t"
proof -
  have p: "pending sample_codec [] = Inr []" by (simp add: pending_def records_from_def)
  have b: "batches 1 5 10 = [(1, 5)]" using batches_step [of 10 1 5] batches_step [of 10 11 5] by simp
  have e: "concat (map one_event_chain [1..5]) = [sample_event ''Paused'' ''0xaa'' 3 0 0]"
    by (simp add: one_event_chain_def upto.simps)
  have f: "from_event (sample_event ''Paused'' ''0xaa'' 3 0 0) =
      Inr (EventNotification [sample_event ''Paused'' ''0xaa'' 3 0 0])"
    by (simp add: from_event_def mk_notification_def)
  show ?thesis
    by (simp add: catch_up_from_def watching_supervisor_def mk_supervisor_def build_module_runtime_def
        add_block_consumer_def add_event_consumer_def mk_stream_def run_replay_def watching_ctx_def
        replay_blocks_def suppress_live_until_def replay_range_def b Let_def fetch_batch_def e await_point_def
        emit_item_def consumers_of_def sv_consumer_def runtime_consumer_def runtime_handle_event_def
        watching_runtime_def run_effects_def bindS_def coordinator_handle_event_def prepare_def
        aggregator_for_event_def f emit_prepared_def emit_notification_def runtime_handle_block_def
        coordinator_handle_block_def flush_ready_windows_def windows_of_def sample_store_def p liftS_def
        ready_windows_def mark_health_def flush_buffer.simps finish_catch_up_def)
qed

lemma catch_up_complete_witness:
  "\<exists>t. catch_up_from watching_ctx [\<lparr>at_live = [], at_replaced = False, at_head = Inr 5, at_sleep = [],
       at_stop = False\<rparr>] 1 watching_supervisor = (t, Inr CaughtUp) \<and>
     sample_event ''Paused'' ''0xaa'' 3 0 0 \<in> set (pl_adapter (st_world (sv_stream t)))"
proof -
  from watching_catch_up obtain t where t: "catch_up_from watching_ctx [\<lparr>at_live = [], at_replaced = False,
      at_head = Inr 5, at_sleep = [], at_stop = False\<rparr>] 1 watching_supervisor = (t, Inr CaughtUp)"
    "\<not> sv_shutdown t" by blast
  have "set (one_event_chain 3) \<subseteq> set (pl_adapter (st_world (sv_stream t)))"
    by (rule catch_up_complete [OF t _ watching_serves watching_records _ watching_live(1), where head = 5])
      (simp_all add: watching_ctx_def watching_live(2))
  with t show ?thesis by (auto simp: one_event_chain_def)
qed

lemma subscription_end_recovers_witness:
  "\<exists>t. handle_subscription_result SubscribeRpcError watching_supervisor = (t, True) \<and>
     sv_pending_replay t = Some 1 \<and> sv_runtime t = 1"
proof -
  have "handle_subscription_result SubscribeRpcError watching_supervisor =
      (restart_after_rpc_disconnect ''rpc_disconnect'' watching_supervisor, True)"
    by (simp add: handle_subscription_result_def watching_supervisor_def mk_supervisor_def)
  from subscription_end_recovers [OF this] this watching_live(2) show ?thesis
    by (auto simp: watching_supervisor_def mk_supervisor_def)
qed

end
