(* ===== verification/Jobs.thy ===== *)
theory Jobs
  imports Supervisor
begin

text \<open>
  The scheduled jobs, \<open>sentinel/jobs.py\<close>: the daily deposit digest with its persisted completion
  marker, the recovery run at startup, the chain head poll, the stalled chain alert and the
  secret rotation check. The clock is a parameter; instants are microseconds since the epoch as
  in \<open>Event_Store\<close>. The job queue is the list of its registrations; the lock of the digest job
  makes it one step. The state the digest job works on is the pipeline of \<open>Module_Runtime\<close>.
\<close>

section \<open>Schedules\<close>

definition day_length :: int where
  "day_length = 86400 * 10 ^ 6"

text \<open>A time of day: microseconds since midnight and the UTC offset, absent for a naive one.\<close>

record clock_time =
  ct_micro :: int
  ct_offset :: "int option"

definition latest_scheduled_for :: "datetime \<Rightarrow> clock_time \<Rightarrow> datetime res" where
  "latest_scheduled_for now scheduled =
     (case (dt_offset now, ct_offset scheduled) of
        (Some _, Some off) \<Rightarrow>
          (let midnight = dt_instant now div day_length * day_length;
               candidate = midnight + ct_micro scheduled - off in
           Inr \<lparr>dt_instant = (if dt_instant now < candidate then candidate - day_length else candidate),
                dt_offset = Some 0\<rparr>)
      | _ \<Rightarrow> Inl ValueError)"

definition SCHEDULED_DIGESTS :: "string set" where
  "SCHEDULED_DIGESTS = {DEPOSITED_SIGNING_KEYS}"

definition DEPOSIT_DIGEST_JOB_NAME :: string where
  "DEPOSIT_DIGEST_JOB_NAME = ''deposit_digest''"

record job_context =
  jc_alerted :: bool
  jc_chain_head :: int
  jc_last_checked :: int
  jc_digest_time :: clock_time
  jc_secret_version :: "int option"

definition mk_job_context :: "clock_time \<Rightarrow> string set \<Rightarrow> int option \<Rightarrow> job_context res" where
  "mk_job_context time digest_names secret =
     (if digest_names \<noteq> SCHEDULED_DIGESTS then Inl RuntimeError
      else Inr \<lparr>jc_alerted = False, jc_chain_head = 0, jc_last_checked = 0, jc_digest_time = time,
             jc_secret_version = secret\<rparr>)"

text \<open>Registered jobs: name with interval and first run in seconds, daily time, or run once.\<close>

datatype job =
    Repeating string int int
  | Daily string clock_time
  | Once string int

definition set_jobs :: "job_markers \<Rightarrow> 'm pipeline \<Rightarrow> 'm pipeline" where
  "set_jobs m s = s\<lparr>pl_store := (pl_store s)\<lparr>bs_jobs := m\<rparr>\<rparr>"

definition jobs_of :: "'m pipeline \<Rightarrow> job_markers" where
  "jobs_of s = bs_jobs (pl_store s)"

text \<open>
  What \<open>schedule\<close> does about the daily digest: an initial marker, a recovery run, or nothing.
\<close>

definition recovery_jobs ::
  "codec \<Rightarrow> iso_text \<Rightarrow> datetime \<Rightarrow> 'm pipeline \<Rightarrow> 'm pipeline \<times> job list res" where
  "recovery_jobs C I due s =
     bindS (liftS (completed_for I DEPOSIT_DIGEST_JOB_NAME (jobs_of s))) (\<lambda>completed.
     bindS (liftS (digest_events C DEPOSITED_SIGNING_KEYS (digests_of s))) (\<lambda>pending_digest s.
       if completed = None \<and> pending_digest = [] then
         (case mark_completed I DEPOSIT_DIGEST_JOB_NAME due (jobs_of s) of
            Inl e \<Rightarrow> (s, Inl e)
          | Inr m \<Rightarrow> (set_jobs m s, Inr []))
       else if (case completed of None \<Rightarrow> True | Some c \<Rightarrow> dt_instant c < dt_instant due) then
         (s, Inr [Once ''deposit_digest_recovery'' 0])
       else (s, Inr []))) s"

definition schedule ::
  "codec \<Rightarrow> iso_text \<Rightarrow> bool \<Rightarrow> datetime \<Rightarrow> job_context \<Rightarrow> 'm pipeline \<Rightarrow> 'm pipeline \<times> job list res" where
  "schedule C I has_queue now J =
     bindS (liftS (if has_queue then Inr () else Inl RuntimeError)) (\<lambda>_.
     bindS (liftS (latest_scheduled_for now (jc_digest_time J))) (\<lambda>due.
     bindS (recovery_jobs C I due) (\<lambda>recovery s.
       (s, Inr ([Repeating ''block_processing_check'' (60 * 30) 0,
                 Daily DEPOSIT_DIGEST_JOB_NAME (jc_digest_time J)] @ recovery @
                [Repeating ''chain_head_poll'' (5 * 60) 0] @
                (if jc_secret_version J = None then []
                 else [Repeating ''secret_rotation_check'' 5 5]))))))"

section \<open>The daily digest\<close>

definition flush_deposit_digest ::
  "codec \<Rightarrow> iso_text \<Rightarrow> emitter \<Rightarrow> 'm module_runtime \<Rightarrow> datetime \<Rightarrow> job_context \<Rightarrow> 'm pipeline \<Rightarrow>
   'm pipeline \<times> bool res" where
  "flush_deposit_digest C I em R now J s =
     bindS (liftS (latest_scheduled_for now (jc_digest_time J))) (\<lambda>slot.
     bindS (liftS (completed_for I DEPOSIT_DIGEST_JOB_NAME (jobs_of s))) (\<lambda>completed.
       if (case completed of None \<Rightarrow> False | Some c \<Rightarrow> dt_instant slot \<le> dt_instant c) then
         (\<lambda>s. (s, Inr True))
       else bindS (\<lambda>s. flush_digest C em R DEPOSITED_SIGNING_KEYS (bs_block (pl_store s)) s) (\<lambda>_ s.
         (case mark_completed I DEPOSIT_DIGEST_JOB_NAME slot (jobs_of s) of
            Inl e \<Rightarrow> (s, Inl e)
          | Inr m \<Rightarrow> (set_jobs m s, Inr True))))) s"

section \<open>Chain head and alerts\<close>

text \<open>The alert a stalled chain causes: receiver, minutes, block.\<close>

type_synonym alert = "int \<times> int \<times> int"

definition poll_chain_head :: "int res \<Rightarrow> job_context \<Rightarrow> job_context \<times> bool" where
  "poll_chain_head head J =
     (case head of Inr h \<Rightarrow> (J\<lparr>jc_chain_head := h\<rparr>, True) | Inl _ \<Rightarrow> (J, False))"

definition notify_admins :: "int list \<Rightarrow> int \<Rightarrow> alert list" where
  "notify_admins admins block = map (\<lambda>a. (a, 30, block)) admins"

definition block_processing_check :: "int list \<Rightarrow> job_context \<Rightarrow> job_context \<times> alert list" where
  "block_processing_check admins J =
     (if jc_chain_head J = 0 then (J, [])
      else if jc_last_checked J = 0 then (J\<lparr>jc_last_checked := jc_chain_head J\<rparr>, [])
      else if jc_chain_head J \<le> jc_last_checked J then
        (if jc_alerted J then (J, [])
         else (J\<lparr>jc_alerted := True\<rparr>, notify_admins admins (jc_chain_head J)))
      else (J\<lparr>jc_last_checked := jc_chain_head J, jc_alerted := False\<rparr>, []))"

section \<open>Secret rotation\<close>

definition parse_version :: "string option \<Rightarrow> int res" where
  "parse_version raw =
     (case raw of
        None \<Rightarrow> Inl RuntimeError
      | Some t \<Rightarrow> bindR (py_int t) (\<lambda>v. if v \<le> 0 then Inl RuntimeError else Inr v))"

text \<open>
  \<open>read\<close> is the version entry of the secret file, or nothing when the file cannot be read. A
  changed version removes the job and stops the supervisor.
\<close>

definition check_secret_rotation ::
  "string option option \<Rightarrow> job_context \<Rightarrow> ('m, 'r) supervisor \<Rightarrow> ('m, 'r) supervisor \<times> bool \<times> bool" where
  "check_secret_rotation read J s =
     (case jc_secret_version J of
        None \<Rightarrow> (s, True, False)
      | Some version \<Rightarrow>
          (case read of
             None \<Rightarrow> (s, False, False)
           | Some raw \<Rightarrow>
               (case parse_version raw of
                  Inl _ \<Rightarrow> (s, False, False)
                | Inr v \<Rightarrow>
                    if v = version then (s, True, False)
                    else (stop_stream (request_shutdown s), True, True))))"

section \<open>Lemmas\<close>

lemma day_length_pos: "0 < day_length"
  by (simp add: day_length_def)

text \<open>Documented behaviour of ISO text: parsing what was formatted gives it back.\<close>

definition iso_faithful :: "iso_text \<Rightarrow> bool" where
  "iso_faithful I \<longleftrightarrow> (\<forall>t. dt_offset t = Some 0 \<longrightarrow> iso_parse I (VStr (iso_format I t)) = Inr t)"

lemma latest_scheduled_offset: "latest_scheduled_for now t = Inr slot \<Longrightarrow> dt_offset slot = Some 0"
  by (auto simp: latest_scheduled_for_def Let_def split: option.splits)

lemma completed_after_mark:
  assumes "iso_faithful I" "mark_completed I job t m = Inr m'" "dt_offset t = Some 0"
  shows "completed_for I job m' = Inr (Some t)"
proof -
  have "as_utc t = t" using assms(3) by (simp add: as_utc_def)
  with assms show ?thesis
    by (auto simp: mark_completed_def completed_for_def iso_faithful_def update_conv' split: if_splits)
qed

lemma jobs_of_set [simp]: "jobs_of (set_jobs m s) = m"
  by (simp add: jobs_of_def set_jobs_def)

text \<open>Flushing a digest leaves the completion markers alone.\<close>

lemma flush_digest_jobs:
  assumes "flush_digest C em R n b s = (t, r)"
  shows "jobs_of t = jobs_of s"
  using assms
  by (auto simp: flush_digest_def flush_through_def bindS_def liftS_def emit_notification_def jobs_of_def
      set_digests_def Let_def split: option.splits sum.splits if_splits prod.splits)

section \<open>Properties\<close>

text \<open>The slot of a daily job with a UTC time is the latest one: at or before now, less than
  a day ago, at the scheduled time of day; naive values are refused.\<close>

theorem latest_slot:
  assumes "dt_offset now \<noteq> None" "ct_offset t = Some 0" "0 \<le> ct_micro t" "ct_micro t < day_length"
  shows "\<exists>slot. latest_scheduled_for now t = Inr slot \<and> dt_instant slot \<le> dt_instant now \<and>
    dt_instant now < dt_instant slot + day_length \<and> dt_instant slot mod day_length = ct_micro t \<and>
    latest_scheduled_for (now\<lparr>dt_offset := None\<rparr>) t = Inl ValueError"
proof -
  let ?n = "dt_instant now" and ?m = "ct_micro t"
  let ?mid = "?n div day_length * day_length"
  have mid: "?mid \<le> ?n" "?n < ?mid + day_length"
    using day_length_pos div_mult_mod_eq [of ?n day_length] pos_mod_bound [of day_length ?n]
      pos_mod_sign [of day_length ?n] by linarith+
  have m: "(?mid + ?m) mod day_length = ?m" "(?mid + ?m - day_length) mod day_length = ?m"
    using assms(3,4) by (simp_all add: mod_pos_pos_trivial)
  show ?thesis using assms mid m by (auto simp: latest_scheduled_for_def Let_def)
qed

text \<open>C20: the daily digest runs once per slot: a run that returns has flushed the digest through
  the checkpoint, unless the slot was already completed, and has marked the slot, after which
  every run for that slot or an earlier one changes nothing; a run that raises leaves the
  markers alone, so that the slot is tried again.\<close>

theorem digest_job_once:
  assumes "iso_faithful I" "latest_scheduled_for now (jc_digest_time J) = Inr slot"
    "flush_deposit_digest C I em R now J s = (s', r)"
  shows "(r \<noteq> Inr True \<longrightarrow> jobs_of s' = jobs_of s) \<and>
    (r = Inr True \<longrightarrow>
      (\<exists>c. completed_for I DEPOSIT_DIGEST_JOB_NAME (jobs_of s') = Inr (Some c) \<and> dt_instant slot \<le> dt_instant c) \<and>
      (s' = s \<or> (\<exists>t k. flush_digest C em R DEPOSITED_SIGNING_KEYS (bs_block (pl_store s)) s = (t, Inr k) \<and>
         s' = set_jobs (jobs_of s') t)) \<and>
      (\<forall>now2 slot2. latest_scheduled_for now2 (jc_digest_time J) = Inr slot2 \<and>
         dt_instant slot2 \<le> dt_instant slot \<longrightarrow>
         flush_deposit_digest C I em R now2 J s' = (s', Inr True)))"
proof -
  have again: "flush_deposit_digest C I em R now2 J u = (u, Inr True)"
    if "completed_for I DEPOSIT_DIGEST_JOB_NAME (jobs_of u) = Inr (Some c)"
      "latest_scheduled_for now2 (jc_digest_time J) = Inr slot2" "dt_instant slot2 \<le> dt_instant c"
    for u c now2 slot2
    using that by (simp add: flush_deposit_digest_def bindS_def liftS_def)
  show ?thesis
  proof (cases "completed_for I DEPOSIT_DIGEST_JOB_NAME (jobs_of s)")
    case (Inl e)
    with assms show ?thesis by (auto simp: flush_deposit_digest_def bindS_def liftS_def)
  next
    case (Inr o1)
    show ?thesis
    proof (cases "\<exists>c. o1 = Some c \<and> dt_instant slot \<le> dt_instant c")
      case True
      then obtain c where c: "o1 = Some c" "dt_instant slot \<le> dt_instant c" by blast
      with Inr again [of s c now slot] assms(2,3) have "s' = s" "r = Inr True" by simp_all
      with c Inr again show ?thesis by (auto intro: order_trans)
    next
      case False
      obtain t q where t: "flush_digest C em R DEPOSITED_SIGNING_KEYS (bs_block (pl_store s)) s = (t, q)" by force
      note jobs = flush_digest_jobs [OF t]
      have off: "dt_offset slot = Some 0" by (rule latest_scheduled_offset [OF assms(2)])
      then obtain m where m: "mark_completed I DEPOSIT_DIGEST_JOB_NAME slot (jobs_of t) = Inr m"
        by (simp add: mark_completed_def)
      show ?thesis
      proof (cases q)
        case (Inl e)
        with t False \<open>completed_for I _ (jobs_of s) = Inr o1\<close> assms(2,3) have "s' = t" "r = Inl e"
          by (auto simp: flush_deposit_digest_def bindS_def liftS_def split: option.splits)
        with jobs show ?thesis by simp
      next
        case (Inr k)
        with t m False \<open>completed_for I _ (jobs_of s) = Inr o1\<close> assms(2,3)
        have s': "s' = set_jobs m t" "r = Inr True"
          by (auto simp: flush_deposit_digest_def bindS_def liftS_def split: option.splits)
        have c: "completed_for I DEPOSIT_DIGEST_JOB_NAME (jobs_of s') = Inr (Some slot)"
          using completed_after_mark [OF assms(1) m off] s' by simp
        with s' t Inr again [OF c] show ?thesis by auto
      qed
    qed
  qed
qed

text \<open>Which checks of a run of polled heads send an alert.\<close>

fun alert_run :: "int list \<Rightarrow> int list \<Rightarrow> job_context \<Rightarrow> bool list" where
  "alert_run admins [] J = []"
| "alert_run admins (h # hs) J =
     (let (J', sent) = block_processing_check admins (fst (poll_chain_head (Inr h) J)) in
      (sent \<noteq> []) # alert_run admins hs J')"

lemma alert_run_silent:
  "jc_alerted J \<Longrightarrow> jc_last_checked J \<noteq> 0 \<Longrightarrow> j < length hs \<Longrightarrow> alert_run admins hs J ! j \<Longrightarrow>
   \<exists>k < j. jc_last_checked J < hs ! k"
proof (induction hs arbitrary: J j)
  case (Cons h hs)
  let ?P = "fst (poll_chain_head (Inr h) J)"
  show ?case
  proof (cases "h \<noteq> 0 \<and> jc_last_checked J < h")
    case True
    then have "\<not> alert_run admins (h # hs) J ! 0"
      using Cons.prems by (auto simp: block_processing_check_def poll_chain_head_def)
    with Cons.prems(4) have "j \<noteq> 0" by (metis)
    with True show ?thesis by (intro exI [of _ 0]) simp
  next
    case False
    then have same: "block_processing_check admins ?P = (?P, [])"
      using Cons.prems by (auto simp: block_processing_check_def poll_chain_head_def)
    with Cons.prems obtain i where i: "j = Suc i" by (cases j) auto
    have "\<exists>k < i. jc_last_checked ?P < hs ! k"
    proof (rule Cons.IH)
      show "jc_alerted ?P" "jc_last_checked ?P \<noteq> 0" using Cons.prems by (simp_all add: poll_chain_head_def)
      show "i < length hs" "alert_run admins hs ?P ! i" using Cons.prems i same by simp_all
    qed
    then obtain k where "k < i" "jc_last_checked J < hs ! k" by (auto simp: poll_chain_head_def)
    then show ?thesis using i by (intro exI [of _ "Suc k"]) simp
  qed
qed simp

text \<open>C21: one alert per stall: over any sequence of head polls and checks, between two alerts a
  check has seen the chain head grow; and no alert is sent before a head is known.\<close>

theorem stall_alert_once:
  assumes "i < j" "j < length hs" "alert_run admins hs J ! i" "alert_run admins hs J ! j"
  shows "(\<exists>k. i < k \<and> k < j \<and> hs ! i < hs ! k) \<and> hs ! i \<noteq> 0"
  using assms
proof (induction hs arbitrary: i j J)
  case (Cons h hs)
  obtain J' sent where c: "block_processing_check admins (fst (poll_chain_head (Inr h) J)) = (J', sent)"
    by force
  obtain j' where j: "j = Suc j'" using Cons.prems(1) by (cases j) auto
  show ?case
  proof (cases i)
    case 0
    with Cons.prems(3) c have "sent \<noteq> []" by simp
    with c have s: "jc_alerted J'" "jc_last_checked J' \<noteq> 0" "h \<le> jc_last_checked J'" "h \<noteq> 0"
      by (auto simp: block_processing_check_def poll_chain_head_def split: if_splits)
    have "j' < length hs" "alert_run admins hs J' ! j'" using Cons.prems(2,4) j c by simp_all
    from alert_run_silent [OF s(1,2) this] obtain k where "k < j'" "jc_last_checked J' < hs ! k" by blast
    with s 0 j show ?thesis by (auto intro!: exI [of _ "Suc k"])
  next
    case (Suc i')
    with Cons.prems c j have "i' < j'" "j' < length hs" "alert_run admins hs J' ! i'" "alert_run admins hs J' ! j'"
      by simp_all
    from Cons.IH [OF this] obtain k where "i' < k" "k < j'" "hs ! i' < hs ! k" "hs ! i' \<noteq> 0" by blast
    with Suc j show ?thesis by (auto intro!: exI [of _ "Suc k"])
  qed
qed simp

section \<open>Witnesses\<close>

lemma sample_iso_faithful: "iso_faithful sample_iso"
  by (auto simp: iso_faithful_def sample_iso_def py_simps)

definition sample_time :: clock_time where
  "sample_time = \<lparr>ct_micro = 9 * 3600 * 10 ^ 6, ct_offset = Some 0\<rparr>"

lemma latest_slot_witness:
  "\<exists>slot. latest_scheduled_for \<lparr>dt_instant = 10 ^ 12, dt_offset = Some 0\<rparr> sample_time = Inr slot \<and>
     dt_instant slot \<le> 10 ^ 12"
  using latest_slot [of "\<lparr>dt_instant = 10 ^ 12, dt_offset = Some 0\<rparr>" sample_time]
  by (auto simp: sample_time_def day_length_def)

lemma digest_job_once_witness:
  "let J = \<lparr>jc_alerted = False, jc_chain_head = 0, jc_last_checked = 0, jc_digest_time = sample_time,
       jc_secret_version = None\<rparr>;
     R = sample_runtime\<lparr>mr_digests := [\<lparr>dg_name = DEPOSITED_SIGNING_KEYS, dg_event = ''D''\<rparr>]\<rparr>;
     now = \<lparr>dt_instant = 10 ^ 12, dt_offset = Some 0\<rparr> in
   \<exists>s'. flush_deposit_digest sample_codec sample_iso (\<lambda>_ _. None) R now J sample_pipeline = (s', Inr True) \<and>
     flush_deposit_digest sample_codec sample_iso (\<lambda>_ _. None) R now J s' = (s', Inr True)"
proof -
  let ?J = "\<lparr>jc_alerted = False, jc_chain_head = 0, jc_last_checked = 0, jc_digest_time = sample_time,
       jc_secret_version = None\<rparr>"
  let ?R = "sample_runtime\<lparr>mr_digests := [\<lparr>dg_name = DEPOSITED_SIGNING_KEYS, dg_event = ''D''\<rparr>]\<rparr>"
  let ?now = "\<lparr>dt_instant = 10 ^ 12, dt_offset = Some 0\<rparr>"
  obtain slot where slot: "latest_scheduled_for ?now (jc_digest_time ?J) = Inr slot"
    using latest_slot_witness by auto
  have off: "dt_offset slot = Some 0" by (rule latest_scheduled_offset [OF slot])
  have d: "digest_events sample_codec DEPOSITED_SIGNING_KEYS (digests_of sample_pipeline) = Inr []"
    by (simp add: sample_pipeline_def sample_store_def digests_of_def digest_events_def)
  have "\<exists>s'. flush_deposit_digest sample_codec sample_iso (\<lambda>_ _. None) ?R ?now ?J sample_pipeline = (s', Inr True)"
    using slot off d
    by (simp add: flush_deposit_digest_def bindS_def liftS_def completed_for_def jobs_of_def
        sample_pipeline_def sample_store_def flush_digest_def flush_through_def mark_completed_def)
  then obtain s' where s': "flush_deposit_digest sample_codec sample_iso (\<lambda>_ _. None) ?R ?now ?J sample_pipeline = (s', Inr True)"
    by blast
  from digest_job_once [OF sample_iso_faithful slot s'] slot s' show ?thesis by auto
qed

lemma stall_alert_once_witness:
  "(\<exists>k. 1 < k \<and> k < (3 :: nat) \<and> [5, 5, 6, 6 :: int] ! 1 < [5, 5, 6, 6] ! k)"
proof -
  let ?J = "\<lparr>jc_alerted = False, jc_chain_head = 0, jc_last_checked = 0, jc_digest_time = sample_time,
       jc_secret_version = None\<rparr>"
  have "alert_run [1] [5, 5, 6, 6] ?J = [False, True, False, True]"
    by (simp add: block_processing_check_def poll_chain_head_def notify_admins_def)
  then show ?thesis using stall_alert_once [of 1 3 "[5, 5, 6, 6]" "[1]" ?J] by simp
qed

end
