(* ===== verification/Module_Adapter.thy ===== *)
theory Module_Adapter
  imports Jobs
begin

text \<open>
  The module adapters: \<open>sentinel/modules/base.py\<close>, \<open>modules/community/adapter.py\<close> and
  \<open>modules/curated/adapter.py\<close> with the event registries of \<open>modules/*/events.py\<close>
  (\<open>modules/registry.py\<close>), the side effects of \<open>modules/side_effects.py\<close> and the contract
  discovery of \<open>sentinel/app/contracts.py\<close>. The class of an adapter is its module type. What
  the chain answers at the time of a call is the parameter \<open>chain_view\<close>; ABIs are parameters.
  A registered handler is the name of its method.
\<close>

section \<open>Event names\<close>

definition COMMUNITY_COMMON_EVENTS :: "string set" where
  "COMMUNITY_COMMON_EVENTS = set [
      ''VettedSigningKeysCountDecreased'', ''DepositedSigningKeysCountChanged'',
      ''TotalSigningKeysCountChanged'', ''KeyRemovalChargeApplied'', ''BondCurveSet'',
      ''TargetValidatorsCountChanged'', ''NodeOperatorManagerAddressChangeProposed'',
      ''NodeOperatorManagerAddressChanged'', ''NodeOperatorRewardAddressChangeProposed'',
      ''NodeOperatorRewardAddressChanged'', ''ValidatorExitRequest'',
      ''ValidatorExitDelayProcessed'', ''TriggeredExitFeeRecorded'', ''StrikesPenaltyProcessed'',
      ''DistributionLogUpdated'']"

definition COMMUNITY_V3_ONLY_EVENTS :: "string set" where
  "COMMUNITY_V3_ONLY_EVENTS = set [
      ''GeneralDelayedPenaltyReported'', ''GeneralDelayedPenaltySettled'',
      ''GeneralDelayedPenaltyCancelled'', ''GeneralDelayedPenaltyCompensated'',
      ''ValidatorSlashingReported'', ''BondDebtIncreased'', ''BondDebtCovered'',
      ''CustomRewardsClaimerSet'', ''FeeSplitsSet'', ''BondLockRemoved'',
      ''KeyAllocatedBalanceChanged'', ''ValidatorWithdrawn'']"

definition COMMUNITY_EVENTS :: "string set" where
  "COMMUNITY_EVENTS = COMMUNITY_COMMON_EVENTS \<union> COMMUNITY_V3_ONLY_EVENTS"

definition COMMUNITY_TEMPORARILY_DISABLED_NOTIFIABLE_EVENTS :: "string set" where
  "COMMUNITY_TEMPORARILY_DISABLED_NOTIFIABLE_EVENTS = {''KeyAllocatedBalanceChanged''}"

definition COMMUNITY_NOTIFIABLE_EVENTS :: "string set" where
  "COMMUNITY_NOTIFIABLE_EVENTS = COMMUNITY_EVENTS - COMMUNITY_TEMPORARILY_DISABLED_NOTIFIABLE_EVENTS"

definition COMMUNITY_SIDE_EFFECT_EVENTS :: "string set" where
  "COMMUNITY_SIDE_EFFECT_EVENTS = {''NodeOperatorAdded'', ''Resumed''}"

definition CURATED_EVENTS :: "string set" where
  "CURATED_EVENTS = set [
      ''DepositedSigningKeysCountChanged'', ''TotalSigningKeysCountChanged'',
      ''VettedSigningKeysCountDecreased'', ''KeyRemovalChargeApplied'',
      ''KeyAllocatedBalanceChanged'', ''TargetValidatorsCountChanged'',
      ''NodeOperatorManagerAddressChangeProposed'', ''NodeOperatorManagerAddressChanged'',
      ''NodeOperatorRewardAddressChangeProposed'', ''NodeOperatorRewardAddressChanged'',
      ''GeneralDelayedPenaltyReported'', ''GeneralDelayedPenaltySettled'',
      ''GeneralDelayedPenaltyCancelled'', ''GeneralDelayedPenaltyCompensated'',
      ''ValidatorSlashingReported'', ''ValidatorWithdrawn'', ''Resumed'', ''BondCurveSet'',
      ''CustomRewardsClaimerSet'', ''FeeSplitsSet'', ''BondDebtIncreased'', ''BondDebtCovered'',
      ''BondDepositedETH'', ''BondDepositedStETH'', ''BondDepositedWstETH'',
      ''BondClaimedUnstETH'', ''BondClaimedStETH'', ''BondClaimedWstETH'', ''BondBurned'',
      ''BondCharged'', ''BondLockChanged'', ''BondLockRemoved'', ''BondLockCompensated'',
      ''BondLockPeriodChanged'', ''ValidatorExitDelayProcessed'', ''TriggeredExitFeeRecorded'',
      ''StrikesPenaltyProcessed'', ''DistributionLogUpdated'', ''ValidatorExitRequest'',
      ''NodeOperatorEffectiveWeightChanged'', ''OperatorGroupCreated'', ''OperatorGroupUpdated'',
      ''OperatorGroupCleared'', ''BondCurveWeightSet'', ''OperatorMetadataSet'']"

definition CURATED_TEMPORARILY_DISABLED_NOTIFIABLE_EVENTS :: "string set" where
  "CURATED_TEMPORARILY_DISABLED_NOTIFIABLE_EVENTS = {''KeyAllocatedBalanceChanged''}"

definition CURATED_SIDE_EFFECT_EVENTS :: "string set" where
  "CURATED_SIDE_EFFECT_EVENTS = {''NodeOperatorAdded'', ''OperatorMetadataSet''}"

definition CURATED_FEE_DISTRIBUTOR_EVENTS :: "string set" where
  "CURATED_FEE_DISTRIBUTOR_EVENTS = DISTRIBUTION_REPORT_EVENTS"

definition CURATED_VEBO_EVENTS :: "string set" where
  "CURATED_VEBO_EVENTS = {''ValidatorExitRequest''}"

fun catalog_events :: "module_type \<Rightarrow> string set" where
  "catalog_events COMMUNITY = COMMUNITY_EVENTS - COMMUNITY_TEMPORARILY_DISABLED_NOTIFIABLE_EVENTS"
| "catalog_events CURATED = CURATED_EVENTS - CURATED_TEMPORARILY_DISABLED_NOTIFIABLE_EVENTS"

fun notifiable_events :: "module_type \<Rightarrow> string set" where
  "notifiable_events COMMUNITY = COMMUNITY_NOTIFIABLE_EVENTS"
| "notifiable_events CURATED = CURATED_EVENTS - CURATED_TEMPORARILY_DISABLED_NOTIFIABLE_EVENTS"

fun side_effect_events :: "module_type \<Rightarrow> string set" where
  "side_effect_events COMMUNITY = COMMUNITY_SIDE_EFFECT_EVENTS"
| "side_effect_events CURATED = CURATED_SIDE_EFFECT_EVENTS"

section \<open>Registered handlers\<close>

type_synonym registration = "string \<times> string \<times> aggregation_group option \<times> string option"
type_synonym registry = "(string \<times> string event_handler) list"

definition register_event :: "registration \<Rightarrow> registry \<Rightarrow> registry res" where
  "register_event p reg =
     (case p of (name, m, g, d) \<Rightarrow>
        bindR (mk_handler name m g d) (\<lambda>h. Inr (AList.update name h reg)))"

fun register_events :: "registration list \<Rightarrow> registry \<Rightarrow> registry res" where
  "register_events [] reg = Inr reg"
| "register_events (p # ps) reg = bindR (register_event p reg) (register_events ps)"

text \<open>
  The entries in the order the module registers them: the decorators inside the class first, then
  the calls that follow it.
\<close>

definition community_registrations :: "registration list" where
  "community_registrations = [
      (''ValidatorExitDelayProcessed'', ''validator_exit_delay_processed'', None, None),
      (''TargetValidatorsCountChanged'', ''target_validators_count_changed'', None, None),
      (''DepositedSigningKeysCountChanged'', ''deposited_signing_keys_count_changed'', None, Some DEPOSITED_SIGNING_KEYS),
      (''TotalSigningKeysCountChanged'', ''total_signing_keys_count_changed'', Some TOTAL_SIGNING_KEY_COUNTS, None),
      (''VettedSigningKeysCountDecreased'', ''vetted_signing_keys_count_decreased'', None, None),
      (''KeyRemovalChargeApplied'', ''key_removal_charge_applied'', None, None),
      (''KeyAllocatedBalanceChanged'', ''key_allocated_balance_changed'', None, None),
      (''BondCurveSet'', ''bond_curve_set'', None, None),
      (''NodeOperatorManagerAddressChangeProposed'', ''node_operator_manager_address_change_proposed'', None, None),
      (''NodeOperatorManagerAddressChanged'', ''node_operator_manager_address_changed'', None, None),
      (''NodeOperatorRewardAddressChangeProposed'', ''node_operator_reward_address_change_proposed'', None, None),
      (''NodeOperatorRewardAddressChanged'', ''node_operator_reward_address_changed'', None, None),
      (''CustomRewardsClaimerSet'', ''custom_rewards_claimer_set'', None, None),
      (''FeeSplitsSet'', ''fee_splits_set'', None, None),
      (''BondDebtIncreased'', ''bond_debt_increased'', None, None),
      (''BondDebtCovered'', ''bond_debt_covered'', None, None),
      (''BondLockRemoved'', ''bond_lock_removed'', None, None),
      (''GeneralDelayedPenaltyReported'', ''general_delayed_penalty_reported'', None, None),
      (''GeneralDelayedPenaltySettled'', ''general_delayed_penalty_settled'', None, None),
      (''GeneralDelayedPenaltyCancelled'', ''general_delayed_penalty_cancelled'', None, None),
      (''GeneralDelayedPenaltyCompensated'', ''general_delayed_penalty_compensated'', None, None),
      (''ValidatorSlashingReported'', ''validator_slashing_reported'', None, None),
      (''ValidatorExitRequest'', ''validator_exit_request'', Some VALIDATOR_EXIT_REQUESTS, None),
      (''TriggeredExitFeeRecorded'', ''triggered_exit_fee_recorded'', None, None),
      (''StrikesPenaltyProcessed'', ''strikes_penalty_processed'', None, None),
      (''ValidatorWithdrawn'', ''validator_withdrawn'', Some VALIDATOR_WITHDRAWALS, None),
      (''DistributionLogUpdated'', ''distribution_log_updated'', None, None)]"

definition curated_registrations :: "registration list" where
  "curated_registrations = [
      (''TargetValidatorsCountChanged'', ''target_validators_count_changed'', None, None),
      (''ValidatorExitDelayProcessed'', ''validator_exit_delay_processed'', None, None),
      (''Resumed'', ''resumed'', None, None),
      (''BondDepositedETH'', ''bond_deposited_eth'', None, None),
      (''BondDepositedStETH'', ''bond_deposited_steth'', None, None),
      (''BondDepositedWstETH'', ''bond_deposited_wsteth'', None, None),
      (''BondClaimedUnstETH'', ''bond_claimed_unsteth'', None, None),
      (''BondClaimedStETH'', ''bond_claimed_steth'', None, None),
      (''BondClaimedWstETH'', ''bond_claimed_wsteth'', None, None),
      (''BondBurned'', ''bond_burned'', None, None),
      (''BondCharged'', ''bond_charged'', None, None),
      (''BondLockChanged'', ''bond_lock_changed'', None, None),
      (''BondLockRemoved'', ''bond_lock_removed'', None, None),
      (''BondLockCompensated'', ''bond_lock_compensated'', None, None),
      (''BondLockPeriodChanged'', ''bond_lock_period_changed'', None, None),
      (''NodeOperatorEffectiveWeightChanged'', ''node_operator_effective_weight_changed'', None, None),
      (''OperatorGroupCreated'', ''operator_group_created'', None, None),
      (''OperatorGroupUpdated'', ''operator_group_updated'', None, None),
      (''OperatorGroupCleared'', ''operator_group_cleared'', None, None),
      (''BondCurveWeightSet'', ''bond_curve_weight_set'', None, None),
      (''OperatorMetadataSet'', ''operator_metadata_set'', None, None),
      (''DepositedSigningKeysCountChanged'', ''deposited_signing_keys_count_changed'', None, Some DEPOSITED_SIGNING_KEYS),
      (''TotalSigningKeysCountChanged'', ''total_signing_keys_count_changed'', Some TOTAL_SIGNING_KEY_COUNTS, None),
      (''VettedSigningKeysCountDecreased'', ''vetted_signing_keys_count_decreased'', None, None),
      (''KeyRemovalChargeApplied'', ''key_removal_charge_applied'', None, None),
      (''KeyAllocatedBalanceChanged'', ''key_allocated_balance_changed'', None, None),
      (''BondCurveSet'', ''bond_curve_set'', None, None),
      (''NodeOperatorManagerAddressChangeProposed'', ''node_operator_manager_address_change_proposed'', None, None),
      (''NodeOperatorManagerAddressChanged'', ''node_operator_manager_address_changed'', None, None),
      (''NodeOperatorRewardAddressChangeProposed'', ''node_operator_reward_address_change_proposed'', None, None),
      (''NodeOperatorRewardAddressChanged'', ''node_operator_reward_address_changed'', None, None),
      (''CustomRewardsClaimerSet'', ''custom_rewards_claimer_set'', None, None),
      (''FeeSplitsSet'', ''fee_splits_set'', None, None),
      (''BondDebtIncreased'', ''bond_debt_increased'', None, None),
      (''BondDebtCovered'', ''bond_debt_covered'', None, None),
      (''GeneralDelayedPenaltyReported'', ''general_delayed_penalty_reported'', None, None),
      (''GeneralDelayedPenaltySettled'', ''general_delayed_penalty_settled'', None, None),
      (''GeneralDelayedPenaltyCancelled'', ''general_delayed_penalty_cancelled'', None, None),
      (''GeneralDelayedPenaltyCompensated'', ''general_delayed_penalty_compensated'', None, None),
      (''ValidatorSlashingReported'', ''validator_slashing_reported'', None, None),
      (''ValidatorExitRequest'', ''validator_exit_request'', Some VALIDATOR_EXIT_REQUESTS, None),
      (''TriggeredExitFeeRecorded'', ''triggered_exit_fee_recorded'', None, None),
      (''StrikesPenaltyProcessed'', ''strikes_penalty_processed'', None, None),
      (''ValidatorWithdrawn'', ''validator_withdrawn'', Some VALIDATOR_WITHDRAWALS, None),
      (''DistributionLogUpdated'', ''distribution_log_updated'', None, None)]"

fun registrations :: "module_type \<Rightarrow> registration list" where
  "registrations COMMUNITY = community_registrations"
| "registrations CURATED = curated_registrations"

definition events_to_follow :: "module_type \<Rightarrow> registry res" where
  "events_to_follow k = register_events (registrations k) []"

section \<open>Aggregators\<close>

definition effective_weight_aggregator :: aggregator where
  "effective_weight_aggregator =
     GlobalEventAggregator NODE_OPERATOR_EFFECTIVE_WEIGHT_CHANGES {NODE_OPERATOR_EFFECTIVE_WEIGHT_CHANGED}"

definition bond_curve_weight_aggregator :: aggregator where
  "bond_curve_weight_aggregator =
     GlobalEventAggregator BOND_CURVE_WEIGHT_CHANGES {BOND_CURVE_WEIGHT_SET}"

definition community_event_aggregators :: "registry \<Rightarrow> aggregator list" where
  "community_event_aggregators reg =
     node_operator_aggregators_from_event_handlers reg @ [distribution_report_aggregator]"

definition curated_event_aggregators :: "registry \<Rightarrow> aggregator list" where
  "curated_event_aggregators reg =
     node_operator_aggregators_from_event_handlers reg @
     [distribution_report_aggregator, operator_group_change_aggregator,
      effective_weight_aggregator, bond_curve_weight_aggregator]"

fun event_aggregators :: "module_type \<Rightarrow> registry \<Rightarrow> aggregator list" where
  "event_aggregators COMMUNITY reg = community_event_aggregators reg"
| "event_aggregators CURATED reg = curated_event_aggregators reg"

section \<open>Discovered contracts\<close>

record addresses =
  ca_module :: string
  ca_accounting :: string
  ca_parameters_registry :: string
  ca_fee_distributor :: string
  ca_exit_penalties :: string
  ca_lido_locator :: string
  ca_staking_router :: string
  ca_vebo :: string
  ca_staking_module_id :: "int option"
  ca_type :: module_type
  ca_meta_registry :: "string option"

definition ZERO_ADDRESS :: string where
  "ZERO_ADDRESS = ''0x'' @ replicate 40 (CHR ''0'')"

definition ensure_address :: "string \<Rightarrow> string res" where
  "ensure_address raw = (if raw = [] \<or> raw = ZERO_ADDRESS then Inl RuntimeError else Inr raw)"

fun find_staking_module_id :: "(int \<times> string) list \<Rightarrow> string \<Rightarrow> int option" where
  "find_staking_module_id [] addr = None"
| "find_staking_module_id ((i, a) # ms) addr =
     (if py_lower a = py_lower addr then Some i else find_staking_module_id ms addr)"

text \<open>
  The calls of the discovery: a contract address and the name of a view function give its
  answer; \<open>di_checksum\<close> is web3's checksum encoding.
\<close>

record discovery =
  di_type :: "string \<Rightarrow> string res"
  di_call :: "string \<Rightarrow> string \<Rightarrow> string res"
  di_modules :: "string \<Rightarrow> (int \<times> string) list res"
  di_checksum :: "string \<Rightarrow> string res"

definition checked :: "discovery \<Rightarrow> string \<Rightarrow> string res" where
  "checked D raw = bindR (ensure_address raw) (di_checksum D)"

definition discover_meta_registry :: "discovery \<Rightarrow> string \<Rightarrow> string res" where
  "discover_meta_registry D module_address =
     bindR (di_checksum D module_address) (\<lambda>m. di_call D m ''META_REGISTRY'')"

definition discover_contract_addresses :: "discovery \<Rightarrow> string \<Rightarrow> addresses res" where
  "discover_contract_addresses D module_address =
     bindR (di_checksum D module_address) (\<lambda>contract.
     bindR (di_type D contract) (\<lambda>raw_type.
     bindR (decode_module_type raw_type) (\<lambda>module_type.
     bindR (di_call D contract ''ACCOUNTING'') (\<lambda>accounting.
     bindR (di_call D contract ''PARAMETERS_REGISTRY'') (\<lambda>parameters_registry.
     bindR (di_call D contract ''FEE_DISTRIBUTOR'') (\<lambda>fee_distributor.
     bindR (di_call D contract ''EXIT_PENALTIES'') (\<lambda>exit_penalties.
     bindR (di_call D contract ''LIDO_LOCATOR'') (\<lambda>lido_locator.
     bindR (checked D lido_locator) (\<lambda>locator.
     bindR (di_call D locator ''validatorsExitBusOracle'') (\<lambda>vebo.
     bindR (di_call D locator ''stakingRouter'') (\<lambda>staking_router.
     bindR (checked D staking_router) (\<lambda>router.
     bindR (di_modules D router) (\<lambda>modules.
     bindR (di_checksum D module_address) (\<lambda>own.
     bindR (checked D module_address) (\<lambda>module_checksum.
     bindR (checked D accounting) (\<lambda>accounting_checksum.
     bindR (checked D parameters_registry) (\<lambda>parameters_registry_checksum.
     bindR (checked D fee_distributor) (\<lambda>fee_distributor_checksum.
     bindR (checked D exit_penalties) (\<lambda>exit_penalties_checksum.
     bindR (checked D lido_locator) (\<lambda>lido_locator_checksum.
     bindR (checked D staking_router) (\<lambda>staking_router_checksum.
     bindR (checked D vebo) (\<lambda>vebo_checksum.
     bindR (if module_type = CURATED
            then bindR (discover_meta_registry D module_address) (\<lambda>m. bindR (checked D m) (\<lambda>c. Inr (Some c)))
            else Inr None) (\<lambda>meta_registry.
       Inr \<lparr>ca_module = module_checksum, ca_accounting = accounting_checksum,
            ca_parameters_registry = parameters_registry_checksum,
            ca_fee_distributor = fee_distributor_checksum,
            ca_exit_penalties = exit_penalties_checksum, ca_lido_locator = lido_locator_checksum,
            ca_staking_router = staking_router_checksum, ca_vebo = vebo_checksum,
            ca_staking_module_id = find_staking_module_id modules own, ca_type = module_type,
            ca_meta_registry = meta_registry\<rparr>)))))))))))))))))))))))"

section \<open>The state of an adapter\<close>

record adapter =
  ad_addresses :: addresses
  ad_staking_id :: "int option"
  ad_count :: "int option"
  ad_labels :: "(int \<times> string) list"

text \<open>The class of the adapter must match the type of the discovered module.\<close>

definition mk_adapter :: "module_type \<Rightarrow> addresses \<Rightarrow> adapter res" where
  "mk_adapter k a =
     (if ca_type a \<noteq> k then Inl RuntimeError
      else Inr \<lparr>ad_addresses = a, ad_staking_id = ca_staking_module_id a, ad_count = None,
             ad_labels = []\<rparr>)"

text \<open>
  The subclass of the addresses says which adapter is built; curated addresses are the ones
  that have a meta registry.
\<close>

definition build_module_adapter_from_addresses :: "addresses \<Rightarrow> adapter res" where
  "build_module_adapter_from_addresses a =
     mk_adapter (if ca_meta_registry a = None then COMMUNITY else CURATED) a"

definition adapter_type :: "adapter \<Rightarrow> module_type" where
  "adapter_type s = ca_type (ad_addresses s)"

text \<open>What the chain answers: the operator count, the staking modules, the name of an operator.\<close>

record chain_view =
  cv_count :: "int res"
  cv_modules :: "(int \<times> string) list res"
  cv_name :: "int \<Rightarrow> string option res"

definition staking_module_id_matches :: "adapter \<Rightarrow> event \<Rightarrow> bool res" where
  "staking_module_id_matches s e = bindR (ev_arg e ''stakingModuleId'') (\<lambda>v.
     Inr (v = (case ad_staking_id s of None \<Rightarrow> VNone | Some i \<Rightarrow> VInt i)))"

definition refresh_staking_module_id :: "chain_view \<Rightarrow> adapter \<Rightarrow> adapter" where
  "refresh_staking_module_id V s =
     (if ad_staking_id s \<noteq> None then s
      else (case cv_modules V of
              Inl _ \<Rightarrow> s
            | Inr modules \<Rightarrow>
                (case find_staking_module_id modules (ca_module (ad_addresses s)) of
                   None \<Rightarrow> s
                 | Some i \<Rightarrow> s\<lparr>ad_staking_id := Some i\<rparr>)))"

text \<open>
  \<open>node_operators_count\<close> awaits the chain when nothing is cached; \<open>during\<close> is what the other
  tasks do to the adapter until the answer arrives.
\<close>

definition node_operators_count ::
  "chain_view \<Rightarrow> (adapter \<Rightarrow> adapter) \<Rightarrow> adapter \<Rightarrow> adapter \<times> int res" where
  "node_operators_count V during s =
     (case ad_count s of
        Some n \<Rightarrow> (s, Inr n)
      | None \<Rightarrow>
          (case cv_count V of
             Inl e \<Rightarrow> (during s, Inl e)
           | Inr n \<Rightarrow> ((during s)\<lparr>ad_count := Some n\<rparr>, Inr n)))"

definition is_valid_operator_id ::
  "chain_view \<Rightarrow> (adapter \<Rightarrow> adapter) \<Rightarrow> int \<Rightarrow> adapter \<Rightarrow> adapter \<times> bool res" where
  "is_valid_operator_id V during i s =
     (if i < 0 then (s, Inr False)
      else bindS (node_operators_count V during) (\<lambda>n s. (s, Inr (i < n))) s)"

definition remember_node_operator_added :: "int \<Rightarrow> adapter \<Rightarrow> adapter" where
  "remember_node_operator_added i s =
     s\<lparr>ad_count := Some (max (case ad_count s of None \<Rightarrow> 0 | Some n \<Rightarrow> n) (i + 1))\<rparr>"

definition format_node_operator_label :: "int \<Rightarrow> string option \<Rightarrow> string" where
  "format_node_operator_label i name =
     (case name of
        None \<Rightarrow> CHR ''#'' # int_str i
      | Some n \<Rightarrow> if n = [] then CHR ''#'' # int_str i else CHR ''#'' # int_str i @ '' - '' @ n)"

definition remember_node_operator_label :: "int \<Rightarrow> string option \<Rightarrow> adapter \<Rightarrow> adapter" where
  "remember_node_operator_label i name s =
     s\<lparr>ad_labels := AList.update i (format_node_operator_label i name) (ad_labels s)\<rparr>"

definition fetch_node_operator_label :: "chain_view \<Rightarrow> int \<Rightarrow> adapter \<Rightarrow> adapter \<times> string" where
  "fetch_node_operator_label V i s =
     (case map_of (ad_labels s) i of
        Some l \<Rightarrow> (s, l)
      | None \<Rightarrow>
          (case cv_name V i of
             Inl _ \<Rightarrow> (s, format_node_operator_label i None)
           | Inr name \<Rightarrow>
               (let l = format_node_operator_label i name in
                (s\<lparr>ad_labels := AList.update i l (ad_labels s)\<rparr>, l))))"

definition node_operator_label :: "chain_view \<Rightarrow> int \<Rightarrow> adapter \<Rightarrow> adapter \<times> string" where
  "node_operator_label V i s =
     (case adapter_type s of
        COMMUNITY \<Rightarrow> (s, CHR ''#'' # int_str i)
      | CURATED \<Rightarrow>
          (case map_of (ad_labels s) i of
             Some l \<Rightarrow> (s, l)
           | None \<Rightarrow> fetch_node_operator_label V i s))"

fun fetch_labels :: "chain_view \<Rightarrow> int list \<Rightarrow> adapter \<Rightarrow> adapter" where
  "fetch_labels V [] s = s"
| "fetch_labels V (i # is) s = fetch_labels V is (fst (fetch_node_operator_label V i s))"

definition curated_options :: "chain_view \<Rightarrow> int \<Rightarrow> adapter \<Rightarrow> adapter \<times> (int \<times> string) list" where
  "curated_options V n s =
     (let missing = filter (\<lambda>i. map_of (ad_labels s) i = None) [0..n - 1];
          s' = fetch_labels V missing s in
      (s', map (\<lambda>i. (i, case map_of (ad_labels s') i of
                          Some l \<Rightarrow> l | None \<Rightarrow> format_node_operator_label i None)) [0..n - 1]))"

definition node_operator_options ::
  "chain_view \<Rightarrow> adapter \<Rightarrow> adapter \<times> (int \<times> string) list res" where
  "node_operator_options V s =
     (case adapter_type s of
        COMMUNITY \<Rightarrow> (s, Inr [])
      | CURATED \<Rightarrow> bindS (node_operators_count V (\<lambda>s. s)) (\<lambda>n s.
          (let (s', os) = curated_options V n s in (s', Inr os))) s)"

definition warm_up :: "chain_view \<Rightarrow> adapter \<Rightarrow> adapter \<times> unit res" where
  "warm_up V s =
     (case adapter_type s of
        COMMUNITY \<Rightarrow> (s, Inr ())
      | CURATED \<Rightarrow> bindS (node_operator_options V) (\<lambda>_ s. (s, Inr ())) s)"

section \<open>Event sources\<close>

definition plain_source :: "string \<Rightarrow> string \<Rightarrow> event_source" where
  "plain_source n addr = \<lparr>es_name = n, es_address = addr, es_names = None, es_predicate = None\<rparr>"

definition fee_source :: "adapter \<Rightarrow> string set \<Rightarrow> event_source" where
  "fee_source s names = \<lparr>es_name = ''fee_distributor'', es_address = ca_fee_distributor (ad_addresses s),
     es_names = Some names, es_predicate = None\<rparr>"

definition vebo_source :: "adapter \<Rightarrow> string set \<Rightarrow> event_source" where
  "vebo_source s names = \<lparr>es_name = ''vebo'', es_address = ca_vebo (ad_addresses s),
     es_names = Some names, es_predicate = Some (\<lambda>e. staking_module_id_matches s e = Inr True)\<rparr>"

definition community_event_sources :: "adapter \<Rightarrow> event_source list" where
  "community_event_sources s = (let a = ad_addresses s in
     [plain_source ''module'' (ca_module a), plain_source ''accounting'' (ca_accounting a),
      vebo_source s {''ValidatorExitRequest''}, fee_source s DISTRIBUTION_REPORT_EVENTS,
      plain_source ''exit_penalties'' (ca_exit_penalties a)])"

definition curated_event_sources :: "adapter \<Rightarrow> event_source list" where
  "curated_event_sources s = (let a = ad_addresses s in
     [plain_source ''module'' (ca_module a), plain_source ''accounting'' (ca_accounting a),
      plain_source ''exit_penalties'' (ca_exit_penalties a),
      fee_source s CURATED_FEE_DISTRIBUTOR_EVENTS, vebo_source s CURATED_VEBO_EVENTS,
      plain_source ''meta_registry'' (case ca_meta_registry a of None \<Rightarrow> [] | Some m \<Rightarrow> m)])"

definition event_sources :: "adapter \<Rightarrow> event_source list" where
  "event_sources s =
     (case adapter_type s of COMMUNITY \<Rightarrow> community_event_sources s | CURATED \<Rightarrow> curated_event_sources s)"

section \<open>Side effects\<close>

definition node_operator_count_effect :: "event \<Rightarrow> adapter \<Rightarrow> adapter \<times> unit res" where
  "node_operator_count_effect e s =
     (if ev_name e \<noteq> ''NodeOperatorAdded'' then (s, Inr ())
      else (case bindR (ev_arg e ''nodeOperatorId'') val_int of
              Inl x \<Rightarrow> (s, Inl x)
            | Inr i \<Rightarrow> (remember_node_operator_added i s, Inr ())))"

definition metadata_cache_effect :: "codec \<Rightarrow> event \<Rightarrow> adapter \<Rightarrow> adapter \<times> unit res" where
  "metadata_cache_effect C e s =
     (if ev_name e \<noteq> ''OperatorMetadataSet'' then (s, Inr ())
      else (case bindR (bindR (ev_arg e ''nodeOperatorId'') val_int) (\<lambda>i.
                   bindR (bindR (ev_arg e ''metadata'') (\<lambda>m. read_field m ''name'' 0)) (\<lambda>n.
                     Inr (i, if truthy n then Some (val_str C n) else None))) of
              Inl x \<Rightarrow> (s, Inl x)
            | Inr (i, name) \<Rightarrow> (remember_node_operator_label i name s, Inr ())))"

definition staking_module_id_effect :: "chain_view \<Rightarrow> event \<Rightarrow> adapter \<Rightarrow> adapter \<times> unit res" where
  "staking_module_id_effect V e s =
     (if ev_name e \<noteq> ''Resumed'' then (s, Inr ())
      else if py_lower (ev_address e) \<noteq> py_lower (ca_module (ad_addresses s)) then (s, Inr ())
      else (refresh_staking_module_id V s, Inr ()))"

definition processors_for ::
  "codec \<Rightarrow> chain_view \<Rightarrow> module_type \<Rightarrow> (event \<Rightarrow> adapter \<Rightarrow> adapter \<times> unit res) list" where
  "processors_for C V k =
     (case k of
        COMMUNITY \<Rightarrow> [node_operator_count_effect, staking_module_id_effect V]
      | CURATED \<Rightarrow> [metadata_cache_effect C, node_operator_count_effect, staking_module_id_effect V])"

fun run_processors ::
  "(event \<Rightarrow> adapter \<Rightarrow> adapter \<times> unit res) list \<Rightarrow> event \<Rightarrow> adapter \<Rightarrow> adapter \<times> unit res" where
  "run_processors [] e s = (s, Inr ())"
| "run_processors (p # ps) e s = bindS (p e) (\<lambda>_. run_processors ps e) s"

definition process_event :: "codec \<Rightarrow> chain_view \<Rightarrow> event \<Rightarrow> adapter \<Rightarrow> adapter \<times> unit res" where
  "process_event C V e s = run_processors (processors_for C V (adapter_type s)) e s"

text \<open>The runtime of an adapter: its aggregators, its digests and its side effects.\<close>

definition module_runtime_of :: "codec \<Rightarrow> chain_view \<Rightarrow> module_type \<Rightarrow> adapter module_runtime res" where
  "module_runtime_of C V k =
     bindR (events_to_follow k) (\<lambda>reg. bindR (build_digests reg) (\<lambda>gs.
       Inr \<lparr>mr_aggregators = event_aggregators k reg, mr_digests = gs,
            mr_effects = process_event C V\<rparr>))"

section \<open>Lemmas\<close>

definition handler_of :: "registration \<Rightarrow> string \<times> string event_handler" where
  "handler_of p = (case p of (n, m, g, d) \<Rightarrow>
     (n, \<lparr>eh_event = n, eh_handler = m, eh_group = g, eh_digest = d\<rparr>))"

lemma register_events_distinct:
  assumes "distinct (map fst reg @ map fst ps)" "\<forall>(n, m, g, d) \<in> set ps. g = None \<or> d = None"
  shows "register_events ps reg = Inr (reg @ map handler_of ps)"
  using assms
proof (induction ps arbitrary: reg)
  case (Cons p ps)
  obtain n m g d where p: "p = (n, m, g, d)" by (cases p) auto
  have "register_event p reg = Inr (reg @ [handler_of p])"
    using Cons.prems p by (auto simp: register_event_def mk_handler_def handler_of_def update_fresh)
  then show ?case using Cons.IH [of "reg @ [handler_of p]"] Cons.prems
    by (simp add: p handler_of_def)
qed simp

lemma registrations_ok:
  "distinct (map fst (registrations k))"
  "\<forall>(n, m, g, d) \<in> set (registrations k). g = None \<or> d = None"
proof -
  show "distinct (map fst (registrations k))" by (cases k; hypsubst; code_simp)
  show "\<forall>(n, m, g, d) \<in> set (registrations k). g = None \<or> d = None"
    by (cases k) (simp_all add: community_registrations_def curated_registrations_def)
qed

lemma events_to_follow_eq: "events_to_follow k = Inr (map handler_of (registrations k))"
  using register_events_distinct [of "[]" "registrations k"] registrations_ok [of k]
  by (simp add: events_to_follow_def)

lemma registered_names: "fst ` set (map handler_of ps) = fst ` set ps"
  by (force simp: handler_of_def)

lemma catalog_registered:
  "fst ` set (registrations k) = (case k of COMMUNITY \<Rightarrow> COMMUNITY_EVENTS | CURATED \<Rightarrow> CURATED_EVENTS)"
  by (cases k; hypsubst; code_simp)

lemma grouped_aggregators:
  "node_operator_aggregators_from_event_handlers (map handler_of (registrations k)) =
     [NodeOperatorEventAggregator TOTAL_SIGNING_KEY_COUNTS {''TotalSigningKeysCountChanged''},
      NodeOperatorEventAggregator VALIDATOR_EXIT_REQUESTS {''ValidatorExitRequest''},
      NodeOperatorEventAggregator VALIDATOR_WITHDRAWALS {''ValidatorWithdrawn''}]"
  by (cases k; hypsubst; code_simp)

lemma real_digests:
  "build_digests (map handler_of (registrations k)) =
     Inr [\<lparr>dg_name = DEPOSITED_SIGNING_KEYS, dg_event = ''DepositedSigningKeysCountChanged''\<rparr>]"
  by (cases k; hypsubst; code_simp)

lemmas group_defs = TOTAL_SIGNING_KEY_COUNTS_def VALIDATOR_EXIT_REQUESTS_def VALIDATOR_WITHDRAWALS_def
  DISTRIBUTION_REPORTS_def OPERATOR_GROUP_CHANGES_def NODE_OPERATOR_EFFECTIVE_WEIGHT_CHANGES_def
  BOND_CURVE_WEIGHT_CHANGES_def distribution_report_aggregator_def operator_group_change_aggregator_def
  effective_weight_aggregator_def bond_curve_weight_aggregator_def

definition aggregated_names :: "module_type \<Rightarrow> string list list" where
  "aggregated_names k = [[''TotalSigningKeysCountChanged''], [''ValidatorExitRequest''], [''ValidatorWithdrawn''],
     [''ModuleFeeDistributed'', ''DistributionLogUpdated'']] @
   (case k of COMMUNITY \<Rightarrow> [] | CURATED \<Rightarrow>
     [[''OperatorGroupCreated'', ''OperatorGroupUpdated'', ''OperatorGroupCleared''],
      [''NodeOperatorEffectiveWeightChanged''], [''BondCurveWeightSet'']])"

lemma real_aggregators:
  "map agg_names (event_aggregators k (map handler_of (registrations k))) = map set (aggregated_names k)"
  "distinct (map (\<lambda>a. ag_name (agg_group a)) (event_aggregators k (map handler_of (registrations k))))"
  "\<forall>a \<in> set (event_aggregators k (map handler_of (registrations k))). 1 \<le> ag_window (agg_group a)"
proof -
  have e: "event_aggregators k (map handler_of (registrations k)) =
      node_operator_aggregators_from_event_handlers (map handler_of (registrations k)) @
      (case k of COMMUNITY \<Rightarrow> [distribution_report_aggregator]
       | CURATED \<Rightarrow> [distribution_report_aggregator, operator_group_change_aggregator,
          effective_weight_aggregator, bond_curve_weight_aggregator])"
    by (cases k) (simp_all add: community_event_aggregators_def curated_event_aggregators_def)
  show "map agg_names (event_aggregators k (map handler_of (registrations k))) = map set (aggregated_names k)"
    unfolding e grouped_aggregators
    by (cases k) (simp_all add: group_defs aggregated_names_def DISTRIBUTION_REPORT_EVENTS_def
        OPERATOR_GROUP_CREATED_def OPERATOR_GROUP_UPDATED_def OPERATOR_GROUP_CLEARED_def
        NODE_OPERATOR_EFFECTIVE_WEIGHT_CHANGED_def BOND_CURVE_WEIGHT_SET_def)
  show "distinct (map (\<lambda>a. ag_name (agg_group a)) (event_aggregators k (map handler_of (registrations k))))"
    unfolding e grouped_aggregators by (cases k) (simp_all add: group_defs)
  show "\<forall>a \<in> set (event_aggregators k (map handler_of (registrations k))). 1 \<le> ag_window (agg_group a)"
    unfolding e grouped_aggregators by (cases k) (simp_all add: group_defs)
qed

lemma aggregated_once: "distinct (concat (aggregated_names k))"
  "''DepositedSigningKeysCountChanged'' \<notin> set (concat (aggregated_names k))"
  "set (concat (aggregated_names k)) \<subseteq> catalog_events k \<union> DISTRIBUTION_REPORT_EVENTS"
  by (cases k; hypsubst; code_simp)+

lemma distinct_concat_nth:
  "distinct (concat xss) \<Longrightarrow> i < j \<Longrightarrow> j < length xss \<Longrightarrow> set (xss ! i) \<inter> set (xss ! j) = {}"
proof (induction xss arbitrary: i j)
  case (Cons xs xss)
  obtain j' where j: "j = Suc j'" using Cons.prems(2) by (cases j) auto
  show ?case
  proof (cases i)
    case 0
    have "set (xss ! j') \<subseteq> set (concat xss)" using Cons.prems(3) j by (auto intro!: bexI [of _ "xss ! j'"])
    with Cons.prems(1) 0 j show ?thesis by auto
  next
    case (Suc i')
    with Cons.prems j show ?thesis by (simp add: Cons.IH)
  qed
qed simp

lemma one_aggregator:
  assumes "map f as = map set xss" "distinct (concat xss)" "a \<in> set as" "b \<in> set as"
    "e \<in> f a" "e \<in> f b"
  shows "a = b"
proof -
  from assms(3,4) obtain i j where ij: "i < length as" "a = as ! i" "j < length as" "b = as ! j"
    by (metis in_set_conv_nth)
  have len: "length as = length xss" using assms(1) by (metis length_map)
  have "f a = set (xss ! i)" "f b = set (xss ! j)"
    using ij len assms(1) by (metis nth_map)+
  with assms(5,6) have "set (xss ! i) \<inter> set (xss ! j) \<noteq> {}" by blast
  with distinct_concat_nth [OF assms(2), of i j] distinct_concat_nth [OF assms(2), of j i] ij len
  have "i = j" by (metis Int_commute linorder_neq_iff)
  with ij show ?thesis by simp
qed

text \<open>The only group change aggregator of a built runtime aggregates the three group events.\<close>

lemma built_group_aggregator:
  assumes "module_runtime_of C V k = Inr R" "OperatorGroupChangeAggregator g ns \<in> set (mr_aggregators R)"
  shows "ns = group_event_names"
proof -
  have "OperatorGroupChangeAggregator g ns \<in> set (event_aggregators k (map handler_of (registrations k)))"
    using assms by (auto simp: module_runtime_of_def events_to_follow_eq real_digests)
  then show ?thesis
    by (cases k) (auto simp: community_event_aggregators_def curated_event_aggregators_def group_defs
        node_operator_aggregators_from_event_handlers_def group_event_names_def)
qed

text \<open>An operator that was announced is valid from then on, without a call.\<close>

lemma announced_operator_valid:
  "0 \<le> i \<Longrightarrow> is_valid_operator_id V during i (remember_node_operator_added i s) =
     (remember_node_operator_added i s, Inr True)"
  by (simp add: is_valid_operator_id_def bindS_def node_operators_count_def
      remember_node_operator_added_def)

text \<open>
  Unless the announcement is processed while the first count is awaited: the older answer then
  overwrites the cache, and the operator is invalid from then on.
\<close>

lemma announced_operator_lost:
  assumes "ad_count s = None" "cv_count V = Inr n" "n \<le> i" "0 \<le> i"
  shows "is_valid_operator_id V' during' i
     (fst (node_operators_count V (remember_node_operator_added i) s)) =
     ((remember_node_operator_added i s)\<lparr>ad_count := Some n\<rparr>, Inr False)"
  using assms by (simp add: is_valid_operator_id_def bindS_def node_operators_count_def)

section \<open>Properties\<close>

text \<open>C31: the two module types are wired consistently: every event of the catalog, and no other, has
  a registered handler; the runtime an adapter builds is well configured; no event belongs to two
  aggregators; the only digest is the scheduled one, so that the jobs accept it, and its event
  is not aggregated; and every aggregated event is notifiable or explicitly named by a source.\<close>

theorem module_wiring:
  "\<exists>reg R. events_to_follow k = Inr reg \<and> module_runtime_of C V k = Inr R \<and>
     fst ` set reg = (case k of COMMUNITY \<Rightarrow> COMMUNITY_EVENTS | CURATED \<Rightarrow> CURATED_EVENTS) \<and>
     well_configured (mr_aggregators R) \<and>
     (\<forall>a \<in> set (mr_aggregators R). \<forall>b \<in> set (mr_aggregators R). a \<noteq> b \<longrightarrow> agg_names a \<inter> agg_names b = {}) \<and>
     mk_job_context t (dg_name ` set (mr_digests R)) secret \<noteq> Inl RuntimeError \<and>
     (\<forall>g \<in> set (mr_digests R). aggregator_for_event (mr_aggregators R) (dg_event g) = None) \<and>
     (\<forall>a \<in> set (mr_aggregators R). agg_names a \<subseteq> notifiable_events k \<union> DISTRIBUTION_REPORT_EVENTS)"
proof -
  let ?reg = "map handler_of (registrations k)"
  let ?ags = "event_aggregators k ?reg"
  let ?g = "\<lparr>dg_name = DEPOSITED_SIGNING_KEYS, dg_event = ''DepositedSigningKeysCountChanged''\<rparr>"
  let ?R = "\<lparr>mr_aggregators = ?ags, mr_digests = [?g], mr_effects = process_event C V\<rparr>"
  have R: "module_runtime_of C V k = Inr ?R"
    by (simp add: module_runtime_of_def events_to_follow_eq real_digests)
  have names: "\<exists>xs \<in> set (aggregated_names k). agg_names a = set xs" if "a \<in> set ?ags" for a
    using that real_aggregators(1) [of k] by (metis (no_types, lifting) image_iff list.set_map)
  then have fin: "finite (agg_names a)" if "a \<in> set ?ags" for a using that by force
  have sub: "agg_names a \<subseteq> set (concat (aggregated_names k))" if "a \<in> set ?ags" for a
    using names [OF that] by auto
  have wc: "well_configured ?ags"
    using real_aggregators(2,3) [of k] fin by (auto simp: well_configured_def)
  have one: "agg_names a \<inter> agg_names b = {}" if "a \<in> set ?ags" "b \<in> set ?ags" "a \<noteq> b" for a b
    using one_aggregator [OF real_aggregators(1) aggregated_once(1), of a k b] that by blast
  have none: "aggregator_for_event ?ags ''DepositedSigningKeysCountChanged'' = None"
    using sub aggregated_once(2) [of k] aggregator_for_event_in [of ?ags "''DepositedSigningKeysCountChanged''"]
    by (cases "aggregator_for_event ?ags ''DepositedSigningKeysCountChanged''") blast+
  have notif: "notifiable_events k = catalog_events k"
    by (cases k) (simp_all add: COMMUNITY_NOTIFIABLE_EVENTS_def)
  have jobs: "mk_job_context t (dg_name ` set (mr_digests ?R)) secret \<noteq> Inl RuntimeError"
    by (simp add: mk_job_context_def SCHEDULED_DIGESTS_def)
  have sources: "agg_names a \<subseteq> notifiable_events k \<union> DISTRIBUTION_REPORT_EVENTS" if "a \<in> set ?ags" for a
    using sub [OF that] aggregated_once(3) [of k] unfolding notif by (rule order_trans)
  show ?thesis
  proof (intro exI [of _ ?reg] exI [of _ ?R] conjI)
    show "fst ` set ?reg = (case k of COMMUNITY \<Rightarrow> COMMUNITY_EVENTS | CURATED \<Rightarrow> CURATED_EVENTS)"
      using catalog_registered [of k] registered_names [of "registrations k"] by simp
  qed (use events_to_follow_eq R wc one none jobs sources in simp_all)
qed

lemma module_wiring_witness:
  "\<exists>R. module_runtime_of sample_codec \<lparr>cv_count = Inr 1, cv_modules = Inr [], cv_name = (\<lambda>_. Inr None)\<rparr>
       CURATED = Inr R \<and> well_configured (mr_aggregators R)"
  using module_wiring [of CURATED sample_codec
    "\<lparr>cv_count = Inr 1, cv_modules = Inr [], cv_name = (\<lambda>_. Inr None)\<rparr>"] by blast
end
