(* ===== verification/Delivery.thy ===== *)
theory Delivery
  imports Bot_Storage
begin

text \<open>
  From a notification to Telegram messages: the delivery strategies and plans of
  \<open>sentinel/notifications.py\<close>, the event engine of \<open>sentinel/modules/event_engine.py\<close> that makes
  a plan, and \<open>TelegramNotificationHandler\<close> of \<open>sentinel/app/telegram_adapters.py\<close>, which
  sends it to the chats of the bot storage. The handlers and the message texts are parameters.

  Sending may fail; \<open>ok n\<close> says whether the attempt number \<open>n\<close> succeeds, and the log of attempts
  is the state. The iteration order of a Python set is not specified: it is the parameter \<open>W\<close>.
\<close>

section \<open>Plans\<close>

datatype delivery =
    BroadcastDelivery string "string set option"
  | OperatorMessagesDelivery "(string \<times> string) list"
  | PerChatDelivery "string set" "string set \<Rightarrow> string list"

definition normalise_operator_ids :: "codec \<Rightarrow> pyval list \<Rightarrow> string set" where
  "normalise_operator_ids C vs = val_str C ` set vs"

definition plan_broadcast :: "string \<Rightarrow> delivery" where
  "plan_broadcast m = BroadcastDelivery m None"

definition plan_broadcast_to_operators :: "codec \<Rightarrow> string \<Rightarrow> pyval list \<Rightarrow> delivery" where
  "plan_broadcast_to_operators C m ids = BroadcastDelivery m (Some (normalise_operator_ids C ids))"

definition plan_per_operator :: "codec \<Rightarrow> (pyval \<times> string) list \<Rightarrow> delivery res" where
  "plan_per_operator C ms =
     (let d = foldl (\<lambda>d (k, m). AList.update (val_str C k) m d) [] ms in
      if d = [] then Inl ValueError else Inr (OperatorMessagesDelivery d))"

definition plan_per_chat :: "codec \<Rightarrow> pyval list \<Rightarrow> (string set \<Rightarrow> string list) \<Rightarrow> delivery res" where
  "plan_per_chat C ids render =
     (let s = normalise_operator_ids C ids in
      if s = {} then Inl ValueError else Inr (PerChatDelivery s render))"

section \<open>The event engine\<close>

text \<open>What a handler answers: a plan, the text of a broadcast, or nothing.\<close>

datatype handler_result = ResultPlan delivery | ResultText string

record engine =
  en_notifiable :: "string set"
  en_handlers :: "(string \<times> (notification \<Rightarrow> handler_result option res)) list"
  en_default_text :: "notification \<Rightarrow> string"

definition engine_default :: "engine \<Rightarrow> notification \<Rightarrow> handler_result option res" where
  "engine_default G n = Inr (Some (ResultPlan (plan_broadcast (en_default_text G n))))"

definition as_plan :: "handler_result \<Rightarrow> delivery" where
  "as_plan r = (case r of ResultPlan p \<Rightarrow> p | ResultText m \<Rightarrow> plan_broadcast m)"

definition target_operators :: "codec \<Rightarrow> notification \<Rightarrow> delivery \<Rightarrow> delivery" where
  "target_operators C n p =
     (case p of
        BroadcastDelivery m None \<Rightarrow>
          (case map_of (note_args n) (VStr ''nodeOperatorId'') of
             None \<Rightarrow> p
           | Some v \<Rightarrow> plan_broadcast_to_operators C m [v])
      | _ \<Rightarrow> p)"

definition get_notification_plan :: "codec \<Rightarrow> engine \<Rightarrow> notification \<Rightarrow> delivery option res" where
  "get_notification_plan C G n =
     (if note_event n \<notin> en_notifiable G then Inr None
      else bindR (case map_of (en_handlers G) (note_event n) of
                    Some h \<Rightarrow> h n | None \<Rightarrow> engine_default G n) (\<lambda>r.
        case r of
          None \<Rightarrow> Inr None
        | Some q \<Rightarrow> Inr (Some (target_operators C n (as_plan q)))))"

definition require_template :: "string option \<Rightarrow> string res" where
  "require_template t = (case t of None \<Rightarrow> Inl RuntimeError | Some x \<Rightarrow> Inr x)"

section \<open>Sending\<close>

record set_order =
  so_chats :: "int set \<Rightarrow> int list"
  so_ids :: "string set \<Rightarrow> string list"

type_synonym send_log = "(int \<times> string \<times> bool) list"

fun send_to_chats :: "(nat \<Rightarrow> bool) \<Rightarrow> int list \<Rightarrow> string \<Rightarrow> send_log \<Rightarrow> send_log \<times> nat" where
  "send_to_chats ok [] m s = (s, 0)"
| "send_to_chats ok (c # cs) m s =
     (let good = ok (length s); (t, n) = send_to_chats ok cs m (s @ [(c, m, good)]) in
      (t, n + (if good then 1 else 0)))"

definition deliver_broadcast ::
  "(nat \<Rightarrow> bool) \<Rightarrow> set_order \<Rightarrow> bot_storage \<Rightarrow> string \<Rightarrow> string set option \<Rightarrow> send_log \<Rightarrow> send_log \<times> nat" where
  "deliver_broadcast ok W B m ids s =
     (let actual = actual_chat_ids B;
          chats = (case ids of None \<Rightarrow> actual | Some k \<Rightarrow> resolve_targets (bs_operators B) k actual) in
      send_to_chats ok (so_chats W chats) m s)"

fun deliver_operator_messages ::
  "(nat \<Rightarrow> bool) \<Rightarrow> set_order \<Rightarrow> bot_storage \<Rightarrow> (string \<times> string) list \<Rightarrow> send_log \<Rightarrow> send_log \<times> nat" where
  "deliver_operator_messages ok W B [] s = (s, 0)"
| "deliver_operator_messages ok W B ((k, m) # ms) s =
     (let chats = chats_for (bs_operators B) k \<inter> actual_chat_ids B;
          (t, n) = send_to_chats ok (so_chats W chats) m s;
          (u, p) = deliver_operator_messages ok W B ms t in (u, n + p))"

text \<open>The operators to report to each chat, in the order the loops insert them.\<close>

definition add_operator :: "int \<Rightarrow> string \<Rightarrow> (int \<times> string set) list \<Rightarrow> (int \<times> string set) list" where
  "add_operator c k d =
     AList.update c (insert k (case map_of d c of None \<Rightarrow> {} | Some s \<Rightarrow> s)) d"

definition operator_ids_by_chat :: "set_order \<Rightarrow> bot_storage \<Rightarrow> string set \<Rightarrow> (int \<times> string set) list" where
  "operator_ids_by_chat W B ids =
     foldl (\<lambda>d (k, c). add_operator c k d) []
       (filter (\<lambda>(k, c). c \<in> actual_chat_ids B)
         (concat (map (\<lambda>k. map (\<lambda>c. (k, c)) (so_chats W (chats_for (bs_operators B) k))) (so_ids W ids))))"

fun send_messages :: "(nat \<Rightarrow> bool) \<Rightarrow> int \<Rightarrow> string list \<Rightarrow> send_log \<Rightarrow> send_log \<times> nat" where
  "send_messages ok c [] s = (s, 0)"
| "send_messages ok c (m # ms) s =
     (let (t, n) = send_to_chats ok [c] m s; (u, p) = send_messages ok c ms t in (u, n + p))"

fun deliver_rendered ::
  "(nat \<Rightarrow> bool) \<Rightarrow> (string set \<Rightarrow> string list) \<Rightarrow> (int \<times> string set) list \<Rightarrow> send_log \<Rightarrow> send_log \<times> nat" where
  "deliver_rendered ok render [] s = (s, 0)"
| "deliver_rendered ok render ((c, ids) # d) s =
     (let (t, n) = send_messages ok c (render ids) s; (u, p) = deliver_rendered ok render d t in (u, n + p))"

definition deliver_per_chat ::
  "(nat \<Rightarrow> bool) \<Rightarrow> set_order \<Rightarrow> bot_storage \<Rightarrow> string set \<Rightarrow> (string set \<Rightarrow> string list) \<Rightarrow> send_log \<Rightarrow> send_log \<times> nat" where
  "deliver_per_chat ok W B ids render s = deliver_rendered ok render (operator_ids_by_chat W B ids) s"

definition deliver ::
  "(nat \<Rightarrow> bool) \<Rightarrow> set_order \<Rightarrow> bot_storage \<Rightarrow> delivery \<Rightarrow> send_log \<Rightarrow> send_log \<times> nat" where
  "deliver ok W B p s =
     (case p of
        BroadcastDelivery m ids \<Rightarrow> deliver_broadcast ok W B m ids s
      | OperatorMessagesDelivery ms \<Rightarrow> deliver_operator_messages ok W B ms s
      | PerChatDelivery ids render \<Rightarrow> deliver_per_chat ok W B ids render s)"

definition handle_notification ::
  "codec \<Rightarrow> engine \<Rightarrow> (nat \<Rightarrow> bool) \<Rightarrow> set_order \<Rightarrow> bot_storage \<Rightarrow> notification \<Rightarrow> send_log \<Rightarrow> send_log \<times> nat res" where
  "handle_notification C G ok W B n s =
     (case get_notification_plan C G n of
        Inl e \<Rightarrow> (s, Inl e)
      | Inr None \<Rightarrow> (s, Inr 0)
      | Inr (Some p) \<Rightarrow> (let (t, k) = deliver ok W B p s in (t, Inr k)))"

section \<open>What is sent\<close>

definition attempts :: "send_log \<Rightarrow> (int \<times> string) list" where
  "attempts s = map (\<lambda>(c, m, g). (c, m)) s"

definition successes :: "send_log \<Rightarrow> nat" where
  "successes s = length (filter (\<lambda>(c, m, g). g) s)"

text \<open>A sending step appends the attempts \<open>as\<close> and returns how many of them succeeded.\<close>

definition sends :: "(send_log \<Rightarrow> send_log \<times> nat) \<Rightarrow> (int \<times> string) list \<Rightarrow> bool" where
  "sends f as \<longleftrightarrow> (\<forall>s. \<exists>new. fst (f s) = s @ new \<and> attempts new = as \<and> snd (f s) = successes new)"

lemma sends_Nil: "sends (\<lambda>s. (s, 0)) []"
  by (auto simp: sends_def attempts_def successes_def)

lemma sends_seq:
  assumes "sends f xs" "sends g ys"
  shows "sends (\<lambda>s. let (t, n) = f s; (u, p) = g t in (u, n + p)) (xs @ ys)"
  unfolding sends_def
proof
  fix s
  from assms(1) obtain a where a: "fst (f s) = s @ a" "attempts a = xs" "snd (f s) = successes a"
    unfolding sends_def by blast
  from assms(2) obtain b where b: "fst (g (s @ a)) = (s @ a) @ b" "attempts b = ys"
    "snd (g (s @ a)) = successes b" unfolding sends_def by blast
  show "\<exists>new. fst (let (t, n) = f s; (u, p) = g t in (u, n + p)) = s @ new \<and> attempts new = xs @ ys \<and>
      snd (let (t, n) = f s; (u, p) = g t in (u, n + p)) = successes new"
    using a b by (intro exI [of _ "a @ b"])
      (simp add: split_beta attempts_def successes_def)
qed

lemma sends_to_chats: "sends (send_to_chats ok cs m) (map (\<lambda>c. (c, m)) cs)"
proof (induction cs)
  case (Cons c cs)
  show ?case unfolding sends_def
  proof
    fix s :: send_log
    let ?g = "ok (length s)"
    from Cons obtain new where "fst (send_to_chats ok cs m (s @ [(c, m, ?g)])) = (s @ [(c, m, ?g)]) @ new"
      "attempts new = map (\<lambda>c. (c, m)) cs"
      "snd (send_to_chats ok cs m (s @ [(c, m, ?g)])) = successes new" unfolding sends_def by blast
    then show "\<exists>new. fst (send_to_chats ok (c # cs) m s) = s @ new \<and>
        attempts new = map (\<lambda>c. (c, m)) (c # cs) \<and> snd (send_to_chats ok (c # cs) m s) = successes new"
      by (intro exI [of _ "(c, m, ?g) # new"]) (simp add: Let_def split_beta attempts_def successes_def)
  qed
qed (simp add: sends_def attempts_def successes_def)

lemma sends_operator_messages:
  "sends (deliver_operator_messages ok W B ms)
     (concat (map (\<lambda>(k, m). map (\<lambda>c. (c, m)) (so_chats W (chats_for (bs_operators B) k \<inter> actual_chat_ids B))) ms))"
proof (induction ms)
  case (Cons p ms)
  obtain k m where p: "p = (k, m)" by force
  from sends_seq [OF sends_to_chats [of ok "so_chats W (chats_for (bs_operators B) k \<inter> actual_chat_ids B)" m] Cons]
  show ?case by (simp add: p sends_def Let_def)
qed (simp add: sends_def attempts_def successes_def)

lemma sends_messages: "sends (send_messages ok c ms) (map (\<lambda>m. (c, m)) ms)"
proof (induction ms)
  case (Cons m ms)
  from sends_seq [OF sends_to_chats [of ok "[c]" m] Cons] show ?case by (simp add: sends_def Let_def split_beta)
qed (simp add: sends_def attempts_def successes_def)

lemma sends_rendered:
  "sends (deliver_rendered ok render d) (concat (map (\<lambda>(c, ids). map (\<lambda>m. (c, m)) (render ids)) d))"
proof (induction d)
  case (Cons p d)
  obtain c ids where p: "p = (c, ids)" by force
  from sends_seq [OF sends_messages [of ok c "render ids"] Cons] show ?case by (simp add: p sends_def)
qed (simp add: sends_def attempts_def successes_def)

text \<open>An admissible iteration order lists every element of a finite set once.\<close>

definition order_ok :: "set_order \<Rightarrow> bool" where
  "order_ok W \<longleftrightarrow>
     (\<forall>S. finite S \<longrightarrow> set (so_chats W S) = S \<and> distinct (so_chats W S)) \<and>
     (\<forall>S. finite S \<longrightarrow> set (so_ids W S) = S \<and> distinct (so_ids W S))"

lemma filter_once: "distinct xs \<Longrightarrow> filter (\<lambda>x. x = c) xs = (if c \<in> set xs then [c] else [])"
  by (induction xs) auto

lemma map_of_add_operator:
  "map_of (add_operator c k d) x =
     (if x = c then Some (insert k (case map_of d c of None \<Rightarrow> {} | Some s \<Rightarrow> s)) else map_of d x)"
  by (simp add: add_operator_def update_conv')

lemma fold_add_operator:
  "map_of (foldl (\<lambda>d (k, c). add_operator c k d) [] ps) x =
     (if x \<in> snd ` set ps then Some {k. (k, x) \<in> set ps} else None) \<and>
   distinct (map fst (foldl (\<lambda>d (k, c). add_operator c k d) [] ps))"
proof (induction ps rule: rev_induct)
  case (snoc p ps)
  obtain k c where p: "p = (k, c)" by force
  let ?d = "foldl (\<lambda>d (k, c). add_operator c k d) [] ps"
  have "map_of (add_operator c k ?d) x =
      (if x \<in> snd ` set (ps @ [p]) then Some {k. (k, x) \<in> set (ps @ [p])} else None)"
  proof (cases "x = c")
    case True
    have "{k'. (k', c) \<in> set ps} = {}" if "c \<notin> snd ` set ps" using that by force
    with snoc True p show ?thesis by (auto simp: map_of_add_operator)
  next
    case False
    with snoc p show ?thesis by (auto simp: map_of_add_operator)
  qed
  moreover have "distinct (map fst (add_operator c k ?d))"
    using snoc by (simp add: add_operator_def distinct_keys_update)
  ultimately show ?case by (simp add: p)
qed simp

lemma filter_key_concat:
  "distinct (map fst d) \<Longrightarrow>
   map snd (filter (\<lambda>p. fst p = c) (concat (map (\<lambda>(c, ids). map (\<lambda>m. (c, m)) (f ids)) d))) =
   (case map_of d c of None \<Rightarrow> [] | Some ids \<Rightarrow> f ids)"
proof (induction d)
  case (Cons p d)
  obtain c' ids where p: "p = (c', ids)" by force
  have none: "map_of d c' = None" using Cons.prems p by (auto simp: map_of_eq_None_iff)
  have "map snd (filter (\<lambda>p. fst p = c) (map (\<lambda>m. (c', m)) (f ids))) = (if c' = c then f ids else [])"
    by (induction "f ids") (auto simp: comp_def filter_empty_conv)
  with Cons none show ?case by (simp add: p)
qed simp

text \<open>
  What a delivery means for a chat that follows the operators \<open>F\<close>: the messages it is to receive,
  in order.
\<close>

definition told :: "delivery \<Rightarrow> string set \<Rightarrow> string list" where
  "told p F =
     (case p of
        BroadcastDelivery m None \<Rightarrow> [m]
      | BroadcastDelivery m (Some ids) \<Rightarrow> if ids \<inter> F = {} then [] else [m]
      | OperatorMessagesDelivery ms \<Rightarrow> map snd (filter (\<lambda>(k, m). k \<in> F) ms)
      | PerChatDelivery ids render \<Rightarrow> if ids \<inter> F = {} then [] else render (ids \<inter> F))"

definition operators_of :: "bot_storage \<Rightarrow> int \<Rightarrow> string set" where
  "operators_of B c = {k. c \<in> chats_for (bs_operators B) k}"

lemma sent_to:
  assumes "order_ok W" "finite S"
  shows "filter (\<lambda>a. fst a = c) (map (\<lambda>c. (c, m)) (so_chats W S)) = (if c \<in> S then [(c, m)] else [])"
proof -
  have "filter (\<lambda>a. fst a = c) (map (\<lambda>c. (c, m)) xs) = map (\<lambda>c. (c, m)) (filter (\<lambda>x. x = c) xs)"
    for xs :: "int list" by (induction xs) auto
  with assms filter_once [of "so_chats W S" c] show ?thesis by (simp add: order_ok_def)
qed

text \<open>
  The sends of one delivery: what is attempted, for each chat, and the number of successes.
\<close>

definition delivers ::
  "(nat \<Rightarrow> bool) \<Rightarrow> set_order \<Rightarrow> bot_storage \<Rightarrow> delivery \<Rightarrow> send_log \<Rightarrow> (int \<Rightarrow> string list) \<Rightarrow> bool" where
  "delivers ok W B p s f \<longleftrightarrow> (\<exists>new. fst (deliver ok W B p s) = s @ new \<and>
     snd (deliver ok W B p s) = successes new \<and>
     (\<forall>c. map snd (filter (\<lambda>a. fst a = c) (attempts new)) =
        (if c \<notin> actual_chat_ids B then [] else f c)))"

lemma deliver_broadcast_attempts:
  assumes "order_ok W" "finite (actual_chat_ids B)"
  shows "delivers ok W B (BroadcastDelivery m ids) s (\<lambda>c. told (BroadcastDelivery m ids) (operators_of B c))"
proof -
  let ?act = "actual_chat_ids B" and ?ix = "bs_operators B"
  let ?S = "case ids of None \<Rightarrow> ?act | Some k \<Rightarrow> resolve_targets ?ix k ?act"
  have fin: "finite ?S" using assms(2) by (auto simp: resolve_targets_def split: option.split)
  from sends_to_chats [of ok "so_chats W ?S" m] obtain new where new:
    "fst (deliver ok W B (BroadcastDelivery m ids) s) = s @ new"
    "attempts new = map (\<lambda>c. (c, m)) (so_chats W ?S)"
    "snd (deliver ok W B (BroadcastDelivery m ids) s) = successes new"
    by (auto simp: sends_def deliver_def deliver_broadcast_def Let_def)
  have got: "map snd (filter (\<lambda>a. fst a = c) (attempts new)) = (if c \<in> ?S then [m] else [])" for c
    unfolding new(2) sent_to [OF assms(1) fin] by simp
  have "c \<in> resolve_targets ?ix k ?act \<longleftrightarrow> c \<in> ?act \<and> k \<inter> operators_of B c \<noteq> {}" for c k
    by (auto simp: resolve_targets_def chats_for_def operators_of_def)
  with new(1,3) got show ?thesis
    unfolding delivers_def by (intro exI [of _ new]) (cases ids, auto simp: told_def)
qed

lemma deliver_operator_attempts:
  assumes "order_ok W" "finite (actual_chat_ids B)"
  shows "delivers ok W B (OperatorMessagesDelivery ms) s (\<lambda>c. told (OperatorMessagesDelivery ms) (operators_of B c))"
proof -
  let ?act = "actual_chat_ids B" and ?ix = "bs_operators B"
  let ?as = "\<lambda>ms. concat (map (\<lambda>(k, m). map (\<lambda>c. (c, m)) (so_chats W (chats_for ?ix k \<inter> ?act))) ms)"
  from sends_operator_messages [of ok W B ms] obtain new where new:
    "fst (deliver ok W B (OperatorMessagesDelivery ms) s) = s @ new" "attempts new = ?as ms"
    "snd (deliver ok W B (OperatorMessagesDelivery ms) s) = successes new"
    by (auto simp: sends_def deliver_def)
  have "map snd (filter (\<lambda>a. fst a = c) (?as ms)) =
      (if c \<notin> ?act then [] else map snd (filter (\<lambda>(k, m). c \<in> chats_for ?ix k) ms))" for c
    using assms by (induction ms) (auto simp: sent_to)
  with new show ?thesis
    unfolding delivers_def by (intro exI [of _ new]) (simp add: told_def operators_of_def)
qed

lemma deliver_per_chat_attempts:
  assumes "order_ok W" "finite ids" "\<forall>k. finite (chats_at (bs_operators B) k)"
  shows "delivers ok W B (PerChatDelivery ids render) s (\<lambda>c. told (PerChatDelivery ids render) (operators_of B c))"
proof -
  let ?act = "actual_chat_ids B" and ?ix = "bs_operators B"
  let ?ps = "filter (\<lambda>(k, c). c \<in> ?act) (concat (map (\<lambda>k. map (\<lambda>c. (k, c)) (so_chats W (chats_for ?ix k))) (so_ids W ids)))"
  let ?d = "operator_ids_by_chat W B ids"
  from sends_rendered [of ok render ?d] obtain new where new:
    "fst (deliver ok W B (PerChatDelivery ids render) s) = s @ new"
    "snd (deliver ok W B (PerChatDelivery ids render) s) = successes new"
    "attempts new = concat (map (\<lambda>(c, ids). map (\<lambda>m. (c, m)) (render ids)) ?d)"
    by (auto simp: sends_def deliver_def deliver_per_chat_def)
  have mem: "(k, c) \<in> set ?ps \<longleftrightarrow> k \<in> ids \<and> k \<in> operators_of B c \<and> c \<in> ?act" for k c
    using assms by (auto simp: order_ok_def chats_for_def operators_of_def)
  have d: "map_of ?d c = (if c \<in> snd ` set ?ps then Some {k. (k, c) \<in> set ?ps} else None)"
    "distinct (map fst ?d)" for c
    using fold_add_operator [of ?ps c] by (simp_all add: operator_ids_by_chat_def)
  define P where "P = set ?ps"
  have inP: "c \<in> snd ` P \<longleftrightarrow> c \<in> ?act \<and> ids \<inter> operators_of B c \<noteq> {}" for c
    using mem by (force simp: image_iff P_def)
  have atP: "{k. (k, c) \<in> P} = ids \<inter> operators_of B c" if "c \<in> ?act" for c
    using mem that by (simp add: P_def) blast
  have "map snd (filter (\<lambda>a. fst a = c) (attempts new)) =
      (if c \<notin> ?act then [] else told (PerChatDelivery ids render) (operators_of B c))" for c
    unfolding new(3) filter_key_concat [OF d(2)] d(1) [of c, folded P_def] inP
    by (simp add: told_def atP)
  with new(1,2) show ?thesis unfolding delivers_def by (intro exI [of _ new]) simp
qed

lemmas deliver_attempts =
  deliver_broadcast_attempts deliver_operator_attempts deliver_per_chat_attempts

section \<open>Properties\<close>

text \<open>C30: every chat receives exactly the messages of the delivery that are meant for it, once and
  in order, whatever sends fail: a broadcast goes once to every known chat, or to every known
  chat that follows one of the operators; operator messages go to the known followers of each
  operator; a per-chat delivery renders, for every known chat, the operators it follows, and
  sends nothing to a chat that follows none. The result counts the successful sends.\<close>

theorem delivery_exact:
  assumes "order_ok W" "finite (actual_chat_ids B)" "\<forall>k. finite (chats_at (bs_operators B) k)"
    "\<forall>ids render. p = PerChatDelivery ids render \<longrightarrow> finite ids"
  shows "\<exists>new. fst (deliver ok W B p s) = s @ new \<and> snd (deliver ok W B p s) = successes new \<and>
    (\<forall>c. map snd (filter (\<lambda>a. fst a = c) (attempts new)) =
      (if c \<notin> actual_chat_ids B then [] else told p (operators_of B c)))"
proof -
  have "delivers ok W B p s (\<lambda>c. told p (operators_of B c))"
    using assms by (cases p) (auto intro!: deliver_attempts)
  then show ?thesis unfolding delivers_def .
qed

text \<open>An event that is not notifiable, or whose handler answers nothing, makes no plan; a plain
  broadcast about an event that names a node operator is narrowed to the followers of that
  operator, and every other plan is the handler's.\<close>

theorem plan_of_event:
  assumes "map_of (en_handlers G) (note_event n) = Some h"
  shows "get_notification_plan C G n =
    (if note_event n \<notin> en_notifiable G then Inr None
     else (case h n of
        Inl e \<Rightarrow> Inl e
      | Inr None \<Rightarrow> Inr None
      | Inr (Some q) \<Rightarrow>
          (case (as_plan q, map_of (note_args n) (VStr ''nodeOperatorId'')) of
             (BroadcastDelivery m None, Some v) \<Rightarrow> Inr (Some (BroadcastDelivery m (Some {val_str C v})))
           | (p, _) \<Rightarrow> Inr (Some p))))"
  using assms
  by (auto simp: get_notification_plan_def target_operators_def plan_broadcast_to_operators_def
      normalise_operator_ids_def split: sum.split option.split delivery.split)

section \<open>Witnesses\<close>

definition sample_order :: set_order where
  "sample_order = \<lparr>so_chats = sorted_list_of_set, so_ids = sorted_list_of_set\<rparr>"

definition delivery_store :: bot_storage where
  "delivery_store = \<lparr>bs_block = 0, bs_users = {1, 2}, bs_groups = {}, bs_channels = {},
     bs_operators = [(''5'', {1, 9}), (''6'', {1})], bs_digests = [], bs_windows = [], bs_jobs = []\<rparr>"

lemma delivery_exact_witness:
  "\<exists>new. fst (deliver (\<lambda>_. False) sample_order delivery_store
       (OperatorMessagesDelivery [(''5'', ''a''), (''6'', ''b'')]) []) = new \<and>
     map snd (filter (\<lambda>a. fst a = 1) (attempts new)) = [''a'', ''b''] \<and>
     map snd (filter (\<lambda>a. fst a = 9) (attempts new)) = []"
proof -
  have o: "order_ok sample_order" by (simp add: order_ok_def sample_order_def)
  have f: "finite (actual_chat_ids delivery_store)" "\<forall>k. finite (chats_at (bs_operators delivery_store) k)"
    by (auto simp: actual_chat_ids_def delivery_store_def chats_at_def)
  let ?p = "OperatorMessagesDelivery [(''5'', ''a''), (''6'', ''b'')]"
  have act: "1 \<in> actual_chat_ids delivery_store" "9 \<notin> actual_chat_ids delivery_store"
    by (simp_all add: actual_chat_ids_def delivery_store_def)
  have fol: "1 \<in> chats_for (bs_operators delivery_store) ''5''" "1 \<in> chats_for (bs_operators delivery_store) ''6''"
    by (simp_all add: chats_for_def chats_at_def delivery_store_def)
  have "\<forall>ids render. ?p = PerChatDelivery ids render \<longrightarrow> finite ids" by simp
  from delivery_exact [OF o f this, of "\<lambda>_. False" "[]"] show ?thesis
  proof (elim exE conjE)
    fix new
    assume new: "fst (deliver (\<lambda>_. False) sample_order delivery_store ?p []) = [] @ new"
      and each: "\<forall>c. map snd (filter (\<lambda>a. fst a = c) (attempts new)) =
        (if c \<notin> actual_chat_ids delivery_store then [] else told ?p (operators_of delivery_store c))"
    have t: "told ?p (operators_of delivery_store 1) = [''a'', ''b'']"
      using fol by (simp add: told_def operators_of_def)
    from each [rule_format, of 1] act(1) t
    have "map snd (filter (\<lambda>a. fst a = 1) (attempts new)) = [''a'', ''b'']" by simp
    moreover from each [rule_format, of 9] act(2)
    have "map snd (filter (\<lambda>a. fst a = 9) (attempts new)) = []" by simp
    ultimately show ?thesis using new by auto
  qed
qed

lemma plan_of_event_witness:
  "get_notification_plan sample_codec \<lparr>en_notifiable = {''A''},
     en_handlers = [(''A'', \<lambda>n. Inr (Some (ResultText ''hello'')))], en_default_text = (\<lambda>n. [])\<rparr>
     (EventNotification [sample_event ''A'' ''nodeOperatorId'' 7 1 0]) =
   Inr (Some (BroadcastDelivery ''hello'' (Some {int_str 7})))"
proof -
  let ?h = "\<lambda>n :: notification. Inr (Some (ResultText ''hello'')) :: handler_result option res"
  let ?G = "\<lparr>en_notifiable = {''A''}, en_handlers = [(''A'', ?h)], en_default_text = (\<lambda>n. [])\<rparr>"
  let ?n = "EventNotification [sample_event ''A'' ''nodeOperatorId'' 7 1 0]"
  have n: "note_event ?n = ''A''" "note_args ?n = [(VStr ''nodeOperatorId'', VInt 7)]"
    by (simp_all add: note_event_def note_args_def primary_event_def sample_event_def)
  then show ?thesis
    using plan_of_event [of ?G ?n ?h sample_codec] by (simp add: as_plan_def plan_broadcast_def)
qed

end
