(* ===== verification/Telegram_Bot.thy ===== *)
theory Telegram_Bot
  imports Module_Adapter Delivery
begin

text \<open>
  What the Telegram handlers share: updates, keyboards, the state a handler works on, conversation
  states and callbacks (\<open>handlers/state.py\<close>), the texts of a module (\<open>modules/texts.py\<close>),
  \<open>handlers/utils.py\<close> and the admin guard of \<open>handlers/admin/common.py\<close>.

  Telegram itself is the parameter \<open>be_tg\<close>: for the calls made so far and the next one it says
  whether the call succeeds, with the message it returns, or which error it raises. Handlers are
  run one at a time; a handler that raises keeps the changes made before.
\<close>

section \<open>Updates\<close>

datatype chat_type = PRIVATE | GROUP | SUPERGROUP | CHANNEL

record tg_message =
  me_chat :: int
  me_id :: int
  me_text :: string
  me_migrate_to :: "int option"
  me_migrate_from :: "int option"

record tg_query =
  qu_data :: "string option"
  qu_message :: "(int \<times> int) option"

datatype member_status = MEMBER | OWNER | ADMINISTRATOR | RESTRICTED | LEFT | BANNED

text \<open>
  The difference of a chat member update: the old and new status when it changed, and the old
  and new \<open>is_member\<close> flag when that changed.
\<close>

record member_update =
  mu_status :: "(member_status \<times> member_status) option"
  mu_is_member :: "(bool option \<times> bool option) option"

record update =
  up_user :: "int option"
  up_chat :: "(int \<times> chat_type) option"
  up_message :: "tg_message option"
  up_query :: "tg_query option"
  up_member :: "member_update option"

section \<open>Conversation states and callbacks\<close>

datatype states =
    WELCOME
  | FOLLOW_NODE_OPERATOR
  | UNFOLLOW_NODE_OPERATOR
  | FOLLOWED_EVENTS
  | ADMIN
  | ADMIN_BROADCAST
  | ADMIN_BROADCAST_MESSAGE_ALL
  | ADMIN_BROADCAST_SELECT_NO
  | ADMIN_BROADCAST_MESSAGE_SELECTED

datatype callback =
    CB_FOLLOW_TO_NODE_OPERATOR
  | CB_UNFOLLOW_FROM_NODE_OPERATOR
  | CB_FOLLOWED_EVENTS
  | CB_BACK
  | CB_ADMIN
  | CB_ADMIN_SUBSCRIPTIONS
  | CB_ADMIN_BROADCAST
  | CB_ADMIN_BROADCAST_ALL
  | CB_ADMIN_BROADCAST_BY_NO
  | CB_ADMIN_BROADCAST_CONFIRM_ALL
  | CB_ADMIN_BROADCAST_CONFIRM_SELECTED

fun callback_value :: "callback \<Rightarrow> string" where
  "callback_value CB_FOLLOW_TO_NODE_OPERATOR = ''1''"
| "callback_value CB_UNFOLLOW_FROM_NODE_OPERATOR = ''2''"
| "callback_value CB_FOLLOWED_EVENTS = ''3''"
| "callback_value CB_BACK = ''4''"
| "callback_value CB_ADMIN = ''5''"
| "callback_value CB_ADMIN_SUBSCRIPTIONS = ''6''"
| "callback_value CB_ADMIN_BROADCAST = ''7''"
| "callback_value CB_ADMIN_BROADCAST_ALL = ''8''"
| "callback_value CB_ADMIN_BROADCAST_BY_NO = ''9''"
| "callback_value CB_ADMIN_BROADCAST_CONFIRM_ALL = ''10''"
| "callback_value CB_ADMIN_BROADCAST_CONFIRM_SELECTED = ''11''"

section \<open>Texts\<close>

text \<open>The texts of a module; a text with a placeholder is a function of what is filled in.\<close>

record bot_texts =
  WELCOME_TEXT :: string
  START_BUTTON_FOLLOW :: string
  START_BUTTON_UNFOLLOW :: string
  START_BUTTON_EVENTS :: string
  BUTTON_BACK :: string
  START_BUTTON_ADMIN :: string
  ADMIN_BUTTON_SUBSCRIPTIONS :: string
  ADMIN_MENU_TEXT :: string
  ADMIN_BUTTON_BROADCAST :: string
  ADMIN_BROADCAST_MENU_TEXT :: string
  ADMIN_BROADCAST_ALL :: string
  ADMIN_BROADCAST_BY_NO :: string
  ADMIN_BROADCAST_ENTER_MESSAGE_ALL :: string
  ADMIN_BROADCAST_ENTER_NO_IDS :: string
  ADMIN_BROADCAST_NO_IDS_INVALID :: string
  ADMIN_BROADCAST_CONFIRM_HINT :: string
  ADMIN_BROADCAST_PREVIEW_ALL :: string
  ADMIN_BROADCAST_PREVIEW_SELECTED :: "string \<Rightarrow> string"
  BUTTON_SEND_BROADCAST :: string
  ADMIN_PRIVATE_CHAT_REQUIRED :: string
  NO_NEW_BLOCKS_ADMIN_ALERT :: "int \<Rightarrow> int \<Rightarrow> string"
  FOLLOW_NODE_OPERATOR_TEXT :: string
  FOLLOW_NODE_OPERATOR_FOLLOWING :: "string \<Rightarrow> string"
  UNFOLLOW_NODE_OPERATOR_TEXT :: string
  UNFOLLOW_NODE_OPERATOR_NOT_FOLLOWING :: string
  UNFOLLOW_NODE_OPERATOR_FOLLOWING :: "string \<Rightarrow> string"
  NODE_OPERATOR_FOLLOWED :: "string \<Rightarrow> string"
  NODE_OPERATOR_CANT_FOLLOW :: string
  NODE_OPERATOR_UNFOLLOWED :: "string \<Rightarrow> string"
  NODE_OPERATOR_CANT_UNFOLLOW :: string
  EVENT_LIST_TEXT :: string

section \<open>Calls to Telegram\<close>

text \<open>A button is its label and its callback data; a keyboard is a list of rows.\<close>

type_synonym keyboard = "(string \<times> string) list list"

datatype tg_action =
    AnswerQuery "string option"
  | EditQuery string "keyboard option" bool
  | EditMessage int int string keyboard
  | SendMessage int string "keyboard option"
  | ReplyText int string keyboard
  | CopyMessage int int int
  | DeleteMessage int int

text \<open>A call returns a message (chat and message id) or \<open>True\<close>, or raises.\<close>

datatype tg_reply = TgMessage int int | TgTrue | TgNotModified | TgBadRequest | TgError

record user_session =
  se_prompt_chat :: "int option"
  se_prompt_message :: "int option"
  se_selected :: "string set option"
  se_preview_chat :: "int option"
  se_preview_message :: "int option"

record bot =
  bt_store :: bot_storage
  bt_chats :: "int \<Rightarrow> string set option"
  bt_admins :: "int set"
  bt_adapter :: adapter
  bt_sessions :: "int \<Rightarrow> user_session"
  bt_calls :: "tg_action list"

record bot_env =
  be_chain :: chain_view
  be_texts :: bot_texts
  be_tg :: "tg_action list \<Rightarrow> tg_action \<Rightarrow> tg_reply"
  be_order :: set_order

definition tg_try :: "bot_env \<Rightarrow> tg_action \<Rightarrow> bot \<Rightarrow> bot \<times> tg_reply" where
  "tg_try E a s = (s\<lparr>bt_calls := bt_calls s @ [a]\<rparr>, be_tg E (bt_calls s) a)"

definition tg_failed :: "tg_reply \<Rightarrow> bool" where
  "tg_failed r \<longleftrightarrow> r = TgNotModified \<or> r = TgBadRequest \<or> r = TgError"

definition tg_call :: "bot_env \<Rightarrow> tg_action \<Rightarrow> bot \<Rightarrow> bot \<times> tg_reply res" where
  "tg_call E a s = (let (s', r) = tg_try E a s in
     (s', if tg_failed r then Inl TelegramFailure else Inr r))"

definition tg_done :: "bot_env \<Rightarrow> tg_action \<Rightarrow> bot \<Rightarrow> bot \<times> unit res" where
  "tg_done E a = bindS (tg_call E a) (\<lambda>_ s. (s, Inr ()))"

text \<open>\<open>return\<close> of a handler.\<close>

definition goto :: "states \<Rightarrow> bot \<Rightarrow> bot \<times> states res" where
  "goto q s = (s, Inr q)"

section \<open>Shared helpers\<close>

definition is_admin :: "int \<Rightarrow> bot \<Rightarrow> bool" where
  "is_admin u s \<longleftrightarrow> u \<in> bt_admins s"

definition reply_with_markup :: "bot_env \<Rightarrow> update \<Rightarrow> string \<Rightarrow> keyboard \<Rightarrow> bot \<Rightarrow> bot \<times> unit res" where
  "reply_with_markup E u text kb s =
     (case up_message u of
        Some m \<Rightarrow> tg_done E (ReplyText (me_chat m) text kb) s
      | None \<Rightarrow>
          (case up_chat u of
             Some (c, _) \<Rightarrow> tg_done E (SendMessage c text (Some kb)) s
           | None \<Rightarrow> (s, Inr ())))"

definition resolve_target_chats_for_node_operators :: "bot_storage \<Rightarrow> string set \<Rightarrow> int set" where
  "resolve_target_chats_for_node_operators B ids = resolve_target_chats B ids"

definition get_active_subscription_counts :: "bot_storage \<Rightarrow> (string \<times> subscription_count) list" where
  "get_active_subscription_counts B = subscription_counts B"

definition get_subscription_totals :: "bot_storage \<Rightarrow> nat \<times> nat" where
  "get_subscription_totals B =
     (card (resolve_target_chats B (operator_ids (bs_operators B))), length (subscription_counts B))"

definition back_row :: "bot_env \<Rightarrow> (string \<times> string) list" where
  "back_row E = [(BUTTON_BACK (be_texts E), callback_value CB_BACK)]"

section \<open>The admin guard\<close>

definition notify_not_authorized :: "bot_env \<Rightarrow> update \<Rightarrow> bot \<Rightarrow> bot \<times> unit res" where
  "notify_not_authorized E u =
     (case up_query u of
        Some q \<Rightarrow> bindS (tg_done E (AnswerQuery None)) (\<lambda>_ s.
          (case (qu_message q, up_chat u) of
             (Some (c, _), _) \<Rightarrow> tg_done E (SendMessage c ''Not authorized.'' None) s
           | (None, Some (c, _)) \<Rightarrow> tg_done E (SendMessage c ''Not authorized.'' None) s
           | (None, None) \<Rightarrow> (s, Inl AttributeError)))
      | None \<Rightarrow>
          (case up_chat u of
             Some (c, _) \<Rightarrow> tg_done E (SendMessage c ''Not authorized.'' None)
           | None \<Rightarrow> \<lambda>s. (s, Inr ())))"

definition notify_private_chat_required :: "bot_env \<Rightarrow> update \<Rightarrow> bot \<Rightarrow> bot \<times> unit res" where
  "notify_private_chat_required E u =
     (case up_chat u of
        None \<Rightarrow> \<lambda>s. (s, Inr ())
      | Some (c, _) \<Rightarrow> tg_done E (SendMessage c (ADMIN_PRIVATE_CHAT_REQUIRED (be_texts E)) None))"

definition admin_only ::
  "states \<Rightarrow> (bot_env \<Rightarrow> update \<Rightarrow> bot \<Rightarrow> bot \<times> states res) \<Rightarrow>
   bot_env \<Rightarrow> update \<Rightarrow> bot \<Rightarrow> bot \<times> states res" where
  "admin_only failure f E u s =
     (if (case up_user u of None \<Rightarrow> True | Some i \<Rightarrow> \<not> is_admin i s) then
        bindS (notify_not_authorized E u) (\<lambda>_. goto failure) s
      else if (case up_chat u of None \<Rightarrow> True | Some (_, t) \<Rightarrow> t \<noteq> PRIVATE) then
        bindS (notify_private_chat_required E u) (\<lambda>_. goto failure) s
      else f E u s)"

end
