(* ===== verification/Subscriptions.thy ===== *)
theory Subscriptions
  imports Telegram_Bot
begin

text \<open>
  Following and unfollowing node operators, \<open>sentinel/handlers/start.py\<close>, and chat tracking and
  migration, \<open>sentinel/handlers/tracking.py\<close>. A handler is a function of the update and the bot
  state that returns the next conversation state or raises. The per-chat subscriptions are
  \<open>bt_chats\<close>, where \<open>None\<close> is a chat without data; the operator index is in the bot storage.
\<close>

section \<open>Parsing and formatting ids\<close>

definition OPERATOR_BUTTON_PAGE_SIZE :: nat where
  "OPERATOR_BUTTON_PAGE_SIZE = 8"
definition FOLLOW_OPERATOR_PREFIX :: string where
  "FOLLOW_OPERATOR_PREFIX = ''follow_no:''"
definition FOLLOW_OPERATOR_PAGE_PREFIX :: string where
  "FOLLOW_OPERATOR_PAGE_PREFIX = ''follow_no_page:''"
definition UNFOLLOW_OPERATOR_PREFIX :: string where
  "UNFOLLOW_OPERATOR_PREFIX = ''unfollow_no:''"
definition UNFOLLOW_OPERATOR_PAGE_PREFIX :: string where
  "UNFOLLOW_OPERATOR_PAGE_PREFIX = ''unfollow_no_page:''"

definition parse_item :: "string \<Rightarrow> string" where
  "parse_item item = (let t = py_strip item in
     if prefix ''#'' t then py_strip (drop 1 t) else t)"

fun parse_items :: "string list \<Rightarrow> string list option" where
  "parse_items [] = Some []"
| "parse_items (x # xs) =
     (if parse_item x = [] then None else map_option (Cons (parse_item x)) (parse_items xs))"

text \<open>\<open>list(dict.fromkeys(ids))\<close> maintains the first of equal ids.\<close>

definition parse_node_operator_ids :: "string \<Rightarrow> string list" where
  "parse_node_operator_ids raw =
     (case parse_items (py_split (CHR '','') raw) of None \<Rightarrow> [] | Some ids \<Rightarrow> rev (remdups (rev ids)))"

definition format_node_operator_ids :: "string list \<Rightarrow> string" where
  "format_node_operator_ids ids = py_join '', '' (map (\<lambda>i. CHR ''#'' # i) ids)"

definition id_sort_key :: "string \<Rightarrow> (nat \<times> int \<times> string) res" where
  "id_sort_key k =
     (if py_isdigit k then bindR (py_int k) (\<lambda>i. Inr (0, i, [])) else Inr (1, 0, k))"

definition sort_node_operator_ids :: "set_order \<Rightarrow> string set \<Rightarrow> string list res" where
  "sort_node_operator_ids W ids =
     bindR (mapR (\<lambda>k. bindR (id_sort_key k) (\<lambda>x. Inr (x, k))) (so_ids W ids)) (\<lambda>ps.
       Inr (map snd (sort_key fst ps)))"

definition operator_button_text :: "string \<Rightarrow> string" where
  "operator_button_text label = (if length label \<le> 58 then label else take 55 label @ ''...'')"

definition build_operator_keyboard ::
  "bot_env \<Rightarrow> (int \<times> string) list \<Rightarrow> string \<Rightarrow> string \<Rightarrow> int \<Rightarrow> keyboard" where
  "build_operator_keyboard E options operator_prefix page_prefix page =
     (let n = int (length options); size = int OPERATOR_BUTTON_PAGE_SIZE;
          page_count = max 1 ((n + size - 1) div size);
          p = min (max page 0) (page_count - 1);
          page_options = take OPERATOR_BUTTON_PAGE_SIZE (drop (nat (p * size)) options);
          back = (if 0 < p then [(''Previous'', page_prefix @ int_str (p - 1))] else []);
          forth = (if p + 1 < page_count then [(''Next'', page_prefix @ int_str (p + 1))] else []) in
      map (\<lambda>(i, l). [(operator_button_text l, operator_prefix @ int_str i)]) page_options @
      (if 1 < page_count then [back @ forth] else []) @ [back_row E])"

section \<open>Prompts\<close>

definition on_adapter :: "(adapter \<Rightarrow> adapter \<times> 'a) \<Rightarrow> bot \<Rightarrow> bot \<times> 'a" where
  "on_adapter f s = (let (a, r) = f (bt_adapter s) in (s\<lparr>bt_adapter := a\<rparr>, r))"

definition followed :: "bot \<Rightarrow> int \<Rightarrow> string set" where
  "followed s c = (case bt_chats s c of None \<Rightarrow> {} | Some k \<Rightarrow> k)"

definition set_followed :: "int \<Rightarrow> string set \<Rightarrow> bot \<Rightarrow> bot" where
  "set_followed c k s = s\<lparr>bt_chats := (bt_chats s)(c := Some k)\<rparr>"

definition label_of :: "bot_env \<Rightarrow> int \<Rightarrow> bot \<Rightarrow> bot \<times> string res" where
  "label_of E i s = (let (s', l) = on_adapter (node_operator_label (be_chain E) i) s in (s', Inr l))"

fun labels_of :: "bot_env \<Rightarrow> string list \<Rightarrow> bot \<Rightarrow> bot \<times> string list res" where
  "labels_of E [] s = (s, Inr [])"
| "labels_of E (k # ks) s =
     bindS (if py_isdigit k then bindS (liftS (py_int k)) (label_of E) else liftS (Inr (CHR ''#'' # k)))
       (\<lambda>l. bindS (labels_of E ks) (\<lambda>ls s. (s, Inr (l # ls)))) s"

definition plain_label :: "string \<Rightarrow> bool" where
  "plain_label l \<longleftrightarrow> prefix ''#'' l \<and> py_isdigit (drop 1 l)"

definition format_following :: "bot_env \<Rightarrow> string set \<Rightarrow> bot \<Rightarrow> bot \<times> string res" where
  "format_following E ids =
     bindS (liftS (sort_node_operator_ids (be_order E) ids)) (\<lambda>ks.
     bindS (labels_of E ks) (\<lambda>ls s.
       (s, Inr (if list_all plain_label ls then py_join '', '' ls
                else py_join ''\<newline>'' (map (\<lambda>l. ''- '' @ l) ls)))))"

fun options_of :: "bot_env \<Rightarrow> string list \<Rightarrow> bot \<Rightarrow> bot \<times> (int \<times> string) list res" where
  "options_of E [] s = (s, Inr [])"
| "options_of E (k # ks) s =
     (if \<not> py_isdigit k then options_of E ks s
      else bindS (liftS (py_int k)) (\<lambda>i. bindS (label_of E i) (\<lambda>l.
             bindS (options_of E ks) (\<lambda>os s. (s, Inr ((i, l) # os))))) s)"

definition followed_operator_options :: "bot_env \<Rightarrow> string set \<Rightarrow> bot \<Rightarrow> bot \<times> (int \<times> string) list res" where
  "followed_operator_options E ids =
     bindS (liftS (sort_node_operator_ids (be_order E) ids)) (options_of E)"

definition build_follow_prompt ::
  "bot_env \<Rightarrow> int \<Rightarrow> int \<Rightarrow> bot \<Rightarrow> bot \<times> (string \<times> keyboard) res" where
  "build_follow_prompt E c page s =
     (let ids = followed s c; T = be_texts E in
      bindS (if ids = {} then liftS (Inr (FOLLOW_NODE_OPERATOR_TEXT T))
             else bindS (format_following E ids) (\<lambda>l.
               liftS (Inr (FOLLOW_NODE_OPERATOR_FOLLOWING T l @ FOLLOW_NODE_OPERATOR_TEXT T)))) (\<lambda>text.
      bindS (on_adapter (node_operator_options (be_chain E))) (\<lambda>options s.
        (s, Inr (text, build_operator_keyboard E (filter (\<lambda>(i, _). int_str i \<notin> ids) options)
                  FOLLOW_OPERATOR_PREFIX FOLLOW_OPERATOR_PAGE_PREFIX page)))) s)"

definition build_unfollow_prompt ::
  "bot_env \<Rightarrow> int \<Rightarrow> int \<Rightarrow> bot \<Rightarrow> bot \<times> (string \<times> keyboard) res" where
  "build_unfollow_prompt E c page s =
     (let ids = followed s c; T = be_texts E in
      bindS (if ids = {} then liftS (Inr (UNFOLLOW_NODE_OPERATOR_NOT_FOLLOWING T))
             else bindS (format_following E ids) (\<lambda>l.
               liftS (Inr (UNFOLLOW_NODE_OPERATOR_FOLLOWING T l @ UNFOLLOW_NODE_OPERATOR_TEXT T)))) (\<lambda>text.
      bindS (followed_operator_options E ids) (\<lambda>options s.
        (s, Inr (text, build_operator_keyboard E options
                  UNFOLLOW_OPERATOR_PREFIX UNFOLLOW_OPERATOR_PAGE_PREFIX page)))) s)"

section \<open>Editing the menu message\<close>

definition edit_message_text ::
  "bot_env \<Rightarrow> string \<Rightarrow> keyboard \<Rightarrow> bool \<Rightarrow> bot \<Rightarrow> bot \<times> unit res" where
  "edit_message_text E text kb markdown s =
     (let (s', r) = tg_try E (EditQuery text (Some kb) markdown) s in
      (s', if tg_failed r \<and> r \<noteq> TgNotModified then Inl TelegramFailure else Inr ()))"

definition start_keyboard :: "bot_env \<Rightarrow> bool \<Rightarrow> keyboard" where
  "start_keyboard E admin = (let T = be_texts E in
     [[(START_BUTTON_FOLLOW T, callback_value CB_FOLLOW_TO_NODE_OPERATOR),
       (START_BUTTON_UNFOLLOW T, callback_value CB_UNFOLLOW_FROM_NODE_OPERATOR),
       (START_BUTTON_EVENTS T, callback_value CB_FOLLOWED_EVENTS)]] @
     (if admin then [[(START_BUTTON_ADMIN T, callback_value CB_ADMIN)]] else []))"

definition start_text :: "bot_env \<Rightarrow> int \<Rightarrow> bot \<Rightarrow> bot \<times> string res" where
  "start_text E c s = (let ids = followed s c; T = be_texts E in
     if ids = {} then (s, Inr (WELCOME_TEXT T))
     else bindS (format_following E ids) (\<lambda>l s.
       (s, Inr (WELCOME_TEXT T @ FOLLOW_NODE_OPERATOR_FOLLOWING T l))) s)"

section \<open>Handlers of the start conversation\<close>

text \<open>
  \<open>context.chat_storage()\<close> works on the data of the update's chat, which is created when it is
  first asked for; an update without a chat has none.
\<close>

definition chat_storage :: "update \<Rightarrow> bot \<Rightarrow> bot \<times> int res" where
  "chat_storage u s =
     (case up_chat u of
        None \<Rightarrow> (s, Inl RuntimeError)
      | Some (c, _) \<Rightarrow> (set_followed c (followed s c) s, Inr c))"

fun validate_ids :: "bot_env \<Rightarrow> string list \<Rightarrow> bot \<Rightarrow> bot \<times> (string list \<times> string list) res" where
  "validate_ids E [] s = (s, Inr ([], []))"
| "validate_ids E (k # ks) s =
     bindS (if py_isdigit k
            then bindS (liftS (py_int k)) (\<lambda>i.
                 bindS (on_adapter (is_valid_operator_id (be_chain E) (\<lambda>a. a) i)) (\<lambda>ok.
                   liftS (Inr (if ok then Some (int_str i) else None))))
            else liftS (Inr None)) (\<lambda>r.
     bindS (validate_ids E ks) (\<lambda>(valid, invalid) s.
       (s, Inr (case r of Some v \<Rightarrow> (v # valid, invalid) | None \<Rightarrow> (valid, k # invalid))))) s"

definition add_user_if_required :: "update \<Rightarrow> bot \<Rightarrow> bot" where
  "add_user_if_required u s =
     (case (up_chat u, up_user u) of
        (Some (c, t), Some _) \<Rightarrow>
          if t \<noteq> PRIVATE \<or> chats_contains c (bs_users (bt_store s)) then s
          else s\<lparr>bt_store := (bt_store s)\<lparr>bs_users := chats_add c (bs_users (bt_store s))\<rparr>\<rparr>
      | _ \<Rightarrow> s)"

definition start :: "bot_env \<Rightarrow> update \<Rightarrow> bot \<Rightarrow> bot \<times> states res" where
  "start E u s =
     (case (up_user u, up_chat u) of
        (Some i, Some _) \<Rightarrow>
          bindS (chat_storage u) (\<lambda>c. bindS (start_text E c) (\<lambda>text.
          bindS (\<lambda>s. tg_done E (SendMessage c text (Some (start_keyboard E (is_admin i s)))) s) (\<lambda>_.
            goto WELCOME)))
      | _ \<Rightarrow> goto WELCOME) (add_user_if_required u s)"

definition start_over :: "bot_env \<Rightarrow> update \<Rightarrow> bot \<Rightarrow> bot \<times> states res" where
  "start_over E u =
     (case (up_query u, up_user u) of
        (Some _, Some i) \<Rightarrow>
          bindS (chat_storage u) (\<lambda>c. bindS (start_text E c) (\<lambda>text.
          bindS (\<lambda>s. edit_message_text E text (start_keyboard E (is_admin i s)) False s) (\<lambda>_.
            goto WELCOME)))
      | _ \<Rightarrow> goto WELCOME)"

definition show_prompt ::
  "bot_env \<Rightarrow> update \<Rightarrow> (int \<Rightarrow> bot \<Rightarrow> bot \<times> (string \<times> keyboard) res) \<Rightarrow> states \<Rightarrow> bot \<Rightarrow> bot \<times> states res" where
  "show_prompt E u prompt q =
     bindS (chat_storage u) (\<lambda>c. bindS (prompt c) (\<lambda>(text, kb).
     bindS (edit_message_text E text kb False) (\<lambda>_. goto q)))"

definition follow_node_operator :: "bot_env \<Rightarrow> update \<Rightarrow> bot \<Rightarrow> bot \<times> states res" where
  "follow_node_operator E u =
     (if up_query u = None then goto FOLLOW_NODE_OPERATOR
      else bindS (tg_done E (AnswerQuery None)) (\<lambda>_.
           show_prompt E u (\<lambda>c. build_follow_prompt E c 0) FOLLOW_NODE_OPERATOR))"

text \<open>Following adds the chat to the index and the id to the chat's own subscriptions.\<close>

definition follow_one :: "int \<Rightarrow> int \<Rightarrow> string \<Rightarrow> bot \<Rightarrow> bot" where
  "follow_one chat own k s =
     set_followed own (follow k (followed s own))
       (s\<lparr>bt_store := (bt_store s)\<lparr>bs_operators := subscribe k chat (bs_operators (bt_store s))\<rparr>\<rparr>)"

definition unsubscribe_chat :: "string \<Rightarrow> int \<Rightarrow> bot \<Rightarrow> bot" where
  "unsubscribe_chat k chat s =
     s\<lparr>bt_store := (bt_store s)\<lparr>bs_operators := Chat_Store.unsubscribe k chat (bs_operators (bt_store s))\<rparr>\<rparr>"

definition unfollow_one :: "int \<Rightarrow> int \<Rightarrow> string \<Rightarrow> bot \<Rightarrow> bot" where
  "unfollow_one chat own k s =
     unsubscribe_chat k chat (set_followed own (fst (unfollow k (followed s own))) s)"

definition message_reply :: "bot_env \<Rightarrow> update \<Rightarrow> string \<Rightarrow> states \<Rightarrow> bot \<Rightarrow> bot \<times> states res" where
  "message_reply E u text q = bindS (reply_with_markup E u text [back_row E]) (\<lambda>_. goto q)"

definition follow_node_operator_message :: "bot_env \<Rightarrow> update \<Rightarrow> bot \<Rightarrow> bot \<times> states res" where
  "follow_node_operator_message E u = (let T = be_texts E; q = FOLLOW_NODE_OPERATOR in
     (case up_message u of
        None \<Rightarrow> message_reply E u (NODE_OPERATOR_CANT_FOLLOW T) q
      | Some m \<Rightarrow>
          if me_text m = [] then message_reply E u (NODE_OPERATOR_CANT_FOLLOW T) q
          else bindS (validate_ids E (parse_node_operator_ids (me_text m))) (\<lambda>(valid, invalid).
            if valid \<noteq> [] \<and> invalid = [] then
              bindS (chat_storage u) (\<lambda>own s.
                message_reply E u
                  (if length valid = 1 then NODE_OPERATOR_FOLLOWED T (hd valid)
                   else ''You are now following Node Operators '' @ format_node_operator_ids valid) q
                  (fold (follow_one (me_chat m) own) valid s))
            else message_reply E u
              (NODE_OPERATOR_CANT_FOLLOW T @
                (if invalid = [] then [] else ''\<newline>Invalid: '' @ format_node_operator_ids invalid)) q)))"

definition show_page ::
  "bot_env \<Rightarrow> update \<Rightarrow> string \<Rightarrow> (int \<Rightarrow> int \<Rightarrow> bot \<Rightarrow> bot \<times> (string \<times> keyboard) res) \<Rightarrow> states \<Rightarrow>
   bot \<Rightarrow> bot \<times> states res" where
  "show_page E u page_prefix prompt q =
     (case up_query u of
        None \<Rightarrow> goto q
      | Some query \<Rightarrow>
          (case qu_data query of
             None \<Rightarrow> goto q
           | Some d \<Rightarrow>
               bindS (tg_done E (AnswerQuery None)) (\<lambda>_.
               bindS (liftS (py_int (remove_prefix page_prefix d))) (\<lambda>page.
                 show_prompt E u (\<lambda>c. prompt c page) q))))"

definition follow_node_operator_page :: "bot_env \<Rightarrow> update \<Rightarrow> bot \<Rightarrow> bot \<times> states res" where
  "follow_node_operator_page E u =
     show_page E u FOLLOW_OPERATOR_PAGE_PREFIX (build_follow_prompt E) FOLLOW_NODE_OPERATOR"

definition follow_node_operator_button :: "bot_env \<Rightarrow> update \<Rightarrow> bot \<Rightarrow> bot \<times> states res" where
  "follow_node_operator_button E u = (let T = be_texts E; q = FOLLOW_NODE_OPERATOR in
     (case (up_query u, up_chat u) of
        (Some query, Some (chat, _)) \<Rightarrow>
          (case qu_data query of
             None \<Rightarrow> goto q
           | Some d \<Rightarrow>
               (let k = remove_prefix FOLLOW_OPERATOR_PREFIX d in
                bindS (tg_done E (AnswerQuery None)) (\<lambda>_.
                bindS (validate_ids E [k]) (\<lambda>(valid, invalid).
                  if valid \<noteq> [] \<and> invalid = [] then
                    bindS (chat_storage u) (\<lambda>own s.
                      bindS (edit_message_text E (NODE_OPERATOR_FOLLOWED T k) [back_row E] False)
                        (\<lambda>_. goto q) (follow_one chat own k s))
                  else bindS (edit_message_text E (NODE_OPERATOR_CANT_FOLLOW T) [back_row E] False)
                         (\<lambda>_. goto q)))))
      | _ \<Rightarrow> goto q))"

definition unfollow_node_operator :: "bot_env \<Rightarrow> update \<Rightarrow> bot \<Rightarrow> bot \<times> states res" where
  "unfollow_node_operator E u =
     (if up_query u = None then goto UNFOLLOW_NODE_OPERATOR
      else bindS (tg_done E (AnswerQuery None)) (\<lambda>_.
           show_prompt E u (\<lambda>c. build_unfollow_prompt E c 0) UNFOLLOW_NODE_OPERATOR))"

definition unfollow_node_operator_message :: "bot_env \<Rightarrow> update \<Rightarrow> bot \<Rightarrow> bot \<times> states res" where
  "unfollow_node_operator_message E u = (let T = be_texts E; q = UNFOLLOW_NODE_OPERATOR in
     (case up_message u of
        None \<Rightarrow> message_reply E u (NODE_OPERATOR_CANT_UNFOLLOW T) q
      | Some m \<Rightarrow>
          if me_text m = [] then message_reply E u (NODE_OPERATOR_CANT_UNFOLLOW T) q
          else bindS (chat_storage u) (\<lambda>own s.
            (let ids = parse_node_operator_ids (me_text m);
                 missing = filter (\<lambda>k. \<not> py_isdigit k \<or> k \<notin> followed s own) ids in
             if ids \<noteq> [] \<and> missing = [] then
               message_reply E u
                 (if length ids = 1 then NODE_OPERATOR_UNFOLLOWED T (hd ids)
                  else ''You are no longer following Node Operators '' @ format_node_operator_ids ids) q
                 (fold (unfollow_one (me_chat m) own) ids s)
             else message_reply E u
               (NODE_OPERATOR_CANT_UNFOLLOW T @
                 (if missing = [] then [] else ''\<newline>Invalid: '' @ format_node_operator_ids missing)) q s))))"

definition unfollow_node_operator_page :: "bot_env \<Rightarrow> update \<Rightarrow> bot \<Rightarrow> bot \<times> states res" where
  "unfollow_node_operator_page E u =
     show_page E u UNFOLLOW_OPERATOR_PAGE_PREFIX (build_unfollow_prompt E) UNFOLLOW_NODE_OPERATOR"

definition unfollow_node_operator_button :: "bot_env \<Rightarrow> update \<Rightarrow> bot \<Rightarrow> bot \<times> states res" where
  "unfollow_node_operator_button E u = (let T = be_texts E; q = UNFOLLOW_NODE_OPERATOR in
     (case (up_query u, up_chat u) of
        (Some query, Some (chat, _)) \<Rightarrow>
          (case qu_data query of
             None \<Rightarrow> goto q
           | Some d \<Rightarrow>
               (let k = remove_prefix UNFOLLOW_OPERATOR_PREFIX d in
                bindS (tg_done E (AnswerQuery None)) (\<lambda>_.
                bindS (chat_storage u) (\<lambda>own s.
                  (let (ids, found) = unfollow k (followed s own); s1 = set_followed own ids s in
                   bindS (edit_message_text E
                       (if found then NODE_OPERATOR_UNFOLLOWED T k else NODE_OPERATOR_CANT_UNFOLLOW T)
                       [back_row E] False) (\<lambda>_. goto q)
                     (if found then unsubscribe_chat k chat s1 else s1))))))
      | _ \<Rightarrow> goto q))"

definition followed_events :: "bot_env \<Rightarrow> update \<Rightarrow> bot \<Rightarrow> bot \<times> states res" where
  "followed_events E u =
     (if up_query u = None then goto FOLLOWED_EVENTS
      else bindS (tg_done E (AnswerQuery None)) (\<lambda>_.
           bindS (edit_message_text E (EVENT_LIST_TEXT (be_texts E)) [back_row E] True) (\<lambda>_.
             goto FOLLOWED_EVENTS)))"

section \<open>Tracking chats\<close>

definition migrate_chat_subscriptions :: "int \<Rightarrow> int \<Rightarrow> bot \<Rightarrow> bot" where
  "migrate_chat_subscriptions old new s =
     (case bt_chats s old of
        None \<Rightarrow> s
      | Some mine \<Rightarrow>
          (let merged = (case bt_chats s new of None \<Rightarrow> mine | Some others \<Rightarrow> others \<union> mine) in
           s\<lparr>bt_chats := ((bt_chats s)(new := Some merged))(old := None)\<rparr>))"

definition subscribe_followed :: "int \<Rightarrow> bot \<Rightarrow> set_order \<Rightarrow> bot" where
  "subscribe_followed c s W =
     (case bt_chats s c of
        None \<Rightarrow> s
      | Some ids \<Rightarrow> fold (\<lambda>k s. s\<lparr>bt_store := (bt_store s)\<lparr>bs_operators :=
          subscribe k c (bs_operators (bt_store s))\<rparr>\<rparr>) (so_ids W ids) s)"

definition chat_migration :: "bot_env \<Rightarrow> update \<Rightarrow> bot \<Rightarrow> bot" where
  "chat_migration E u s =
     (case up_message u of
        None \<Rightarrow> s
      | Some m \<Rightarrow>
          (case (case me_migrate_to m of
                   Some new \<Rightarrow> Some (me_chat m, new)
                 | None \<Rightarrow> map_option (\<lambda>old. (old, me_chat m)) (me_migrate_from m)) of
             None \<Rightarrow> s
           | Some (old, new) \<Rightarrow>
               (let s1 = migrate_chat_subscriptions old new s;
                    s2 = s1\<lparr>bt_store := migrate_chat_id old new (bt_store s1)\<rparr> in
                subscribe_followed new s2 (be_order E))))"

definition is_member :: "member_status \<Rightarrow> bool option \<Rightarrow> bool" where
  "is_member st flag \<longleftrightarrow> st = MEMBER \<or> st = OWNER \<or> st = ADMINISTRATOR \<or> st = RESTRICTED \<and> flag = Some True"

definition extract_status_change :: "member_update \<Rightarrow> (bool \<times> bool) option" where
  "extract_status_change m =
     (let (old_flag, new_flag) = (case mu_is_member m of None \<Rightarrow> (None, None) | Some p \<Rightarrow> p) in
      case mu_status m of
        None \<Rightarrow> None
      | Some (old, new) \<Rightarrow> Some (is_member old old_flag, is_member new new_flag))"

definition update_members :: "bool \<Rightarrow> bool \<Rightarrow> int \<Rightarrow> int set \<Rightarrow> int set" where
  "update_members was now_member c S =
     (if \<not> was \<and> now_member then chats_add c S else if was \<and> \<not> now_member then chats_remove c S else S)"

definition track_chats :: "update \<Rightarrow> bot \<Rightarrow> bot" where
  "track_chats u s =
     (case up_member u of
        None \<Rightarrow> s
      | Some m \<Rightarrow>
          (case (extract_status_change m, up_user u, up_chat u) of
             (Some (was, now_in), Some _, Some (c, t)) \<Rightarrow>
               (let B = bt_store s in s\<lparr>bt_store :=
                  (case t of
                     PRIVATE \<Rightarrow> B\<lparr>bs_users := update_members was now_in c (bs_users B)\<rparr>
                   | GROUP \<Rightarrow> B\<lparr>bs_groups := update_members was now_in c (bs_groups B)\<rparr>
                   | SUPERGROUP \<Rightarrow> B\<lparr>bs_groups := update_members was now_in c (bs_groups B)\<rparr>
                   | CHANNEL \<Rightarrow> B\<lparr>bs_channels := update_members was now_in c (bs_channels B)\<rparr>)\<rparr>)
           | _ \<Rightarrow> s))"

section \<open>What a handler keeps\<close>

definition maintains :: "(bot \<Rightarrow> bool) \<Rightarrow> (bot \<Rightarrow> bot \<times> 'a res) \<Rightarrow> bool" where
  "maintains P f \<longleftrightarrow> (\<forall>s. P s \<longrightarrow> P (fst (f s)))"

named_theorems maintains_intros \<open>what keeps an invariant of the bot state\<close>

lemma bot_keepsD: "maintains P f \<Longrightarrow> P s \<Longrightarrow> f s = (s', r) \<Longrightarrow> P s'"
  unfolding maintains_def by (metis fst_conv)

lemma maintains_bindS [maintains_intros]:
  assumes "maintains P m" "\<And>x. maintains P (f x)"
  shows "maintains P (bindS m f)"
  unfolding maintains_def
proof (intro allI impI)
  fix s
  assume "P s"
  obtain s1 r where m: "m s = (s1, r)" by force
  have "P s1" by (rule bot_keepsD [OF assms(1) \<open>P s\<close> m])
  then show "P (fst (bindS m f s))"
    using assms(2) m unfolding maintains_def by (cases r) (auto simp: bindS_def)
qed

lemma maintains_pure [maintains_intros]:
  "maintains P (liftS m)" "maintains P (goto q)" "maintains P (\<lambda>s. (s, f s))"
  by (simp_all add: maintains_def liftS_def goto_def)

lemma maintains_if [maintains_intros]:
  "(b \<Longrightarrow> maintains P f) \<Longrightarrow> (\<not> b \<Longrightarrow> maintains P g) \<Longrightarrow> maintains P (if b then f else g)"
  by simp

lemma maintains_option [maintains_intros]:
  "(x = None \<Longrightarrow> maintains P f) \<Longrightarrow> (\<And>y. x = Some y \<Longrightarrow> maintains P (g y)) \<Longrightarrow>
   maintains P (case x of None \<Rightarrow> f | Some y \<Rightarrow> g y)"
  by (cases x) simp_all

lemma maintains_prod [maintains_intros]: "(\<And>a b. x = (a, b) \<Longrightarrow> maintains P (f a b)) \<Longrightarrow> maintains P (case x of (a, b) \<Rightarrow> f a b)"
  by (cases x) simp

lemma maintains_from: "(\<And>s. P s \<Longrightarrow> maintains P (f s)) \<Longrightarrow> maintains P (\<lambda>s. f s s)"
  by (simp add: maintains_def)

lemma maintains_after: "(\<And>s. P s \<Longrightarrow> P (h s)) \<Longrightarrow> maintains P f \<Longrightarrow> maintains P (\<lambda>s. f (h s))"
  by (simp add: maintains_def)

text \<open>The calls that answer the user who asked; the others copy, edit or delete messages by id.\<close>

fun answers_user :: "tg_action \<Rightarrow> bool" where
  "answers_user (CopyMessage c f m) = False"
| "answers_user (DeleteMessage c m) = False"
| "answers_user (EditMessage c m t kb) = False"
| "answers_user a = True"

lemma answers_user_calls [maintains_intros]:
  "answers_user (AnswerQuery a)" "answers_user (SendMessage c t k)" "answers_user (ReplyText c t b)"
  "answers_user (EditQuery t k md)"
  by simp_all

locale bot_invariant =
  fixes P :: "bot \<Rightarrow> bool"
  assumes calls: "P s \<Longrightarrow> answers_user a \<Longrightarrow> P (s\<lparr>bt_calls := bt_calls s @ [a]\<rparr>)"
    and adapters: "P s \<Longrightarrow> P (s\<lparr>bt_adapter := d\<rparr>)"
    and touched: "P s \<Longrightarrow> P (set_followed c (followed s c) s)"
begin

lemma maintains_call [maintains_intros]:
  "answers_user a \<Longrightarrow> maintains P (tg_call E a)" "answers_user a \<Longrightarrow> maintains P (tg_done E a)"
proof -
  show c: "maintains P (tg_call E a)" if "answers_user a"
    using that by (simp add: maintains_def tg_call_def tg_try_def calls)
  show "maintains P (tg_done E a)" if "answers_user a"
    using that unfolding tg_done_def by (intro maintains_intros c)
qed

lemma maintains_edit [maintains_intros]: "maintains P (edit_message_text E t kb md)"
  by (simp add: maintains_def edit_message_text_def tg_try_def calls)

lemma maintains_reply [maintains_intros]: "maintains P (reply_with_markup E u t kb)"
  using maintains_call(2) by (auto simp: maintains_def reply_with_markup_def split: option.split)

lemma maintains_message_reply [maintains_intros]: "maintains P (message_reply E u t q)"
  unfolding message_reply_def by (intro maintains_intros)

lemma maintains_on_adapter [maintains_intros]: "maintains P (on_adapter f)"
  by (auto simp: maintains_def on_adapter_def split_beta adapters)

lemma maintains_chat_storage [maintains_intros]: "maintains P (chat_storage u)"
  by (auto simp: maintains_def chat_storage_def touched split: option.split)

lemma maintains_label_of [maintains_intros]: "maintains P (label_of E i)"
  by (auto simp: maintains_def label_of_def on_adapter_def split_beta adapters)

lemma maintains_labels_of [maintains_intros]: "maintains P (labels_of E ks)"
proof (induction ks)
  case (Cons k ks)
  have "maintains P (\<lambda>s. labels_of E (k # ks) s)"
    unfolding labels_of.simps by (intro maintains_intros Cons)
  then show ?case by simp
qed (simp add: maintains_def)

lemma maintains_format_following [maintains_intros]: "maintains P (format_following E ids)"
  unfolding format_following_def by (intro maintains_intros)

lemma maintains_options_of [maintains_intros]: "maintains P (options_of E ks)"
proof (induction ks)
  case (Cons k ks)
  have "options_of E (k # ks) = (if \<not> py_isdigit k then options_of E ks
      else bindS (liftS (py_int k)) (\<lambda>i. bindS (label_of E i) (\<lambda>l.
             bindS (options_of E ks) (\<lambda>os s. (s, Inr ((i, l) # os))))))"
    by (rule ext) simp
  then show ?case by (simp only:) (intro maintains_intros Cons)
qed (simp add: maintains_def)

lemma maintains_followed_options [maintains_intros]: "maintains P (followed_operator_options E ids)"
  unfolding followed_operator_options_def by (intro maintains_intros)

lemma maintains_validate_ids [maintains_intros]: "maintains P (validate_ids E ks)"
proof (induction ks)
  case (Cons k ks)
  have "maintains P (\<lambda>s. validate_ids E (k # ks) s)"
    unfolding validate_ids.simps by (intro maintains_intros Cons)
  then show ?case by simp
qed (simp add: maintains_def)

lemma maintains_prompts [maintains_intros]:
  "maintains P (build_follow_prompt E c page)" "maintains P (build_unfollow_prompt E c page)"
  "maintains P (start_text E c)"
proof -
  have "maintains P (\<lambda>s. build_follow_prompt E c page s)"
    unfolding build_follow_prompt_def Let_def by (rule maintains_from) (intro maintains_intros)
  then show "maintains P (build_follow_prompt E c page)" by simp
  have "maintains P (\<lambda>s. build_unfollow_prompt E c page s)"
    unfolding build_unfollow_prompt_def Let_def by (rule maintains_from) (intro maintains_intros)
  then show "maintains P (build_unfollow_prompt E c page)" by simp
  have eq: "start_text E c = (\<lambda>s. (if followed s c = {} then liftS (Inr (WELCOME_TEXT (be_texts E)))
      else bindS (format_following E (followed s c)) (\<lambda>l s.
       (s, Inr (WELCOME_TEXT (be_texts E) @ FOLLOW_NODE_OPERATOR_FOLLOWING (be_texts E) l)))) s)"
    by (rule ext) (simp add: start_text_def Let_def liftS_def)
  show "maintains P (start_text E c)" unfolding eq by (rule maintains_from) (intro maintains_intros)
qed

lemma maintains_show [maintains_intros]:
  "(\<And>c. maintains P (prompt c)) \<Longrightarrow> maintains P (show_prompt E u prompt q)"
  "(\<And>c i. maintains P (pages c i)) \<Longrightarrow> maintains P (show_page E u pp pages q)"
  unfolding show_page_def show_prompt_def by (intro maintains_intros; assumption)+

lemma maintains_menu_handlers:
  "maintains P (start_over E u)" "maintains P (follow_node_operator E u)" "maintains P (follow_node_operator_page E u)"
  "maintains P (unfollow_node_operator E u)" "maintains P (unfollow_node_operator_page E u)"
  "maintains P (followed_events E u)"
proof -
  have edit: "maintains P (\<lambda>s. edit_message_text E t (start_keyboard E (is_admin i s)) False s)" for t i
    by (rule maintains_from) (intro maintains_intros)
  show "maintains P (start_over E u)"
    unfolding start_over_def by (intro maintains_intros edit)
qed (unfold follow_node_operator_def follow_node_operator_page_def unfollow_node_operator_def
    unfollow_node_operator_page_def followed_events_def, (intro maintains_intros)+)

end

lemma followed_set [simp]:
  "followed (set_followed c k s) d = (if d = c then k else followed s d)"
  "bt_store (set_followed c k s) = bt_store s"
  by (simp_all add: followed_def set_followed_def)

lemma fold_keeps: "(\<And>x s. P s \<Longrightarrow> P (f x s)) \<Longrightarrow> P s \<Longrightarrow> P (fold f xs s)"
  by (induction xs arbitrary: s) auto

text \<open>Telegram's updates: a message belongs to the chat of its update.\<close>

definition update_ok :: "update \<Rightarrow> bool" where
  "update_ok u \<longleftrightarrow> (\<forall>m. up_message u = Some m \<longrightarrow> map_option fst (up_chat u) = Some (me_chat m))"

definition subscription_handlers :: "(bot_env \<Rightarrow> update \<Rightarrow> bot \<Rightarrow> bot \<times> states res) list" where
  "subscription_handlers = [start, start_over, follow_node_operator, follow_node_operator_message,
     follow_node_operator_page, follow_node_operator_button, unfollow_node_operator,
     unfollow_node_operator_message, unfollow_node_operator_page, unfollow_node_operator_button,
     followed_events]"

text \<open>\<open>chat_storage\<close> answers with the chat of the update.\<close>

lemma chat_storage_bind:
  assumes "\<And>c t s. up_chat u = Some (c, t) \<Longrightarrow> P s \<Longrightarrow> P (fst (f c s))"
    and "\<And>s c. P s \<Longrightarrow> P (set_followed c (followed s c) s)"
  shows "maintains P (bindS (chat_storage u) f)"
  using assms by (auto simp: maintains_def bindS_def chat_storage_def split: option.split)

text \<open>An invariant of the subscriptions is kept by every handler of the start conversation.\<close>

locale subscription_invariant = bot_invariant +
  assumes followed_one: "P s \<Longrightarrow> P (follow_one c c k s)"
    and unfollowed_one: "P s \<Longrightarrow> P (unfollow_one c c k s)"
    and user_added: "P s \<Longrightarrow> P (add_user_if_required u s)"
begin

lemma maintains_start: "maintains P (start E u)"
proof -
  have send: "maintains P (\<lambda>s. tg_done E (SendMessage c t (Some (start_keyboard E (is_admin i s)))) s)" for c t i
    by (rule maintains_from) (intro maintains_intros)
  have "maintains P (case (up_user u, up_chat u) of
        (Some i, Some _) \<Rightarrow>
          bindS (chat_storage u) (\<lambda>c. bindS (start_text E c) (\<lambda>text.
          bindS (\<lambda>s. tg_done E (SendMessage c text (Some (start_keyboard E (is_admin i s)))) s) (\<lambda>_.
            goto WELCOME)))
      | _ \<Rightarrow> goto WELCOME)"
    by (intro maintains_intros send)
  with user_added show ?thesis by (simp add: maintains_def start_def)
qed

lemma maintains_follow_message:
  assumes "update_ok u"
  shows "maintains P (follow_node_operator_message E u)"
proof (cases "up_message u")
  case None
  then show ?thesis by (simp add: follow_node_operator_message_def Let_def maintains_intros)
next
  case (Some m)
  have follow: "maintains P (bindS (chat_storage u) (\<lambda>own s.
      message_reply E u t q (fold (follow_one (me_chat m) own) ids s)))" for t q ids
  proof (rule chat_storage_bind)
    fix c t' s
    assume c: "up_chat u = Some (c, t')" and s: "P s"
    have "me_chat m = c" using assms Some c by (simp add: update_ok_def)
    with s have "P (fold (follow_one (me_chat m) c) ids s)"
      by (simp add: fold_keeps followed_one)
    then show "P (fst (message_reply E u t q (fold (follow_one (me_chat m) c) ids s)))"
      using maintains_message_reply [of E u t q] by (simp add: maintains_def)
  qed (rule touched)
  show ?thesis
    unfolding follow_node_operator_message_def Let_def Some option.case
    by (intro maintains_intros follow)
qed

lemma maintains_unfollow_message:
  assumes "update_ok u"
  shows "maintains P (unfollow_node_operator_message E u)"
proof (cases "up_message u")
  case None
  then show ?thesis by (simp add: unfollow_node_operator_message_def Let_def maintains_intros)
next
  case (Some m)
  let ?ids = "parse_node_operator_ids (me_text m)" and ?T = "be_texts E"
  have "maintains P (unfollow_node_operator_message E u)" if "me_text m \<noteq> []"
    unfolding unfollow_node_operator_message_def Let_def Some option.case if_not_P [OF that]
  proof (rule chat_storage_bind)
    fix c t' s
    assume c: "up_chat u = Some (c, t')" and s: "P s"
    have "me_chat m = c" using assms Some c by (simp add: update_ok_def)
    with s have "P (fold (unfollow_one (me_chat m) c) ?ids s)"
      by (simp add: fold_keeps unfollowed_one)
    with s maintains_message_reply show "P (fst (if ?ids \<noteq> [] \<and>
        filter (\<lambda>k. \<not> py_isdigit k \<or> k \<notin> followed s c) ?ids = [] then
          message_reply E u (if length ?ids = 1 then NODE_OPERATOR_UNFOLLOWED ?T (hd ?ids)
            else ''You are no longer following Node Operators '' @ format_node_operator_ids ?ids)
            UNFOLLOW_NODE_OPERATOR (fold (unfollow_one (me_chat m) c) ?ids s)
        else message_reply E u (NODE_OPERATOR_CANT_UNFOLLOW ?T @
          (if filter (\<lambda>k. \<not> py_isdigit k \<or> k \<notin> followed s c) ?ids = [] then []
           else ''\<newline>Invalid: '' @ format_node_operator_ids
             (filter (\<lambda>k. \<not> py_isdigit k \<or> k \<notin> followed s c) ?ids))) UNFOLLOW_NODE_OPERATOR s))"
      unfolding maintains_def by (simp only: split: if_split) blast
  qed (rule touched)
  then show ?thesis
    by (cases "me_text m = []") (simp_all add: unfollow_node_operator_message_def Some maintains_intros)
qed

lemma maintains_follow_button: "maintains P (follow_node_operator_button E u)"
proof -
  have follow: "maintains P (bindS (chat_storage u) (\<lambda>own s.
      bindS (edit_message_text E t kb md) (\<lambda>_. goto q) (follow_one chat own k s)))"
    if "up_chat u = Some (chat, ty)" for t kb md q k chat ty
  proof (rule chat_storage_bind)
    fix c t' s
    assume c: "up_chat u = Some (c, t')" and s: "P s"
    have "P (follow_one chat c k s)" using followed_one s c that by simp
    moreover have "maintains P (bindS (edit_message_text E t kb md) (\<lambda>_. goto q))"
      by (intro maintains_intros)
    ultimately show "P (fst (bindS (edit_message_text E t kb md) (\<lambda>_. goto q) (follow_one chat c k s)))"
      by (simp add: maintains_def)
  qed (rule touched)
  show ?thesis
    unfolding follow_node_operator_button_def Let_def
    by (cases "up_chat u"; cases "up_query u")
      (auto split: option.split intro!: maintains_intros follow)
qed

lemma maintains_unfollow_button: "maintains P (unfollow_node_operator_button E u)"
proof -
  have drop: "maintains P (bindS (chat_storage u) (\<lambda>own s.
      (let (ids, found) = unfollow k (followed s own); s1 = set_followed own ids s in
       bindS (edit_message_text E (if found then a else b) kb False) (\<lambda>_. goto q)
         (if found then unsubscribe_chat k chat s1 else s1))))"
    if "up_chat u = Some (chat, ty)" for a b kb q k chat ty
  proof (rule chat_storage_bind)
    fix c t' s
    assume c: "up_chat u = Some (c, t')" and s: "P s"
    obtain ids found where uf: "unfollow k (followed s c) = (ids, found)" by force
    let ?s = "if found then unsubscribe_chat k chat (set_followed c ids s) else set_followed c ids s"
    have "?s = (if found then unfollow_one c c k s else set_followed c (followed s c) s)"
      using uf c that by (auto simp: unfollow_one_def unfollow_def split: if_splits)
    then have "P ?s" using unfollowed_one [OF s] touched [OF s] by simp
    moreover have "maintains P (bindS (edit_message_text E (if found then a else b) kb False) (\<lambda>_. goto q))"
      by (intro maintains_intros)
    ultimately show "P (fst (let (ids, found) = unfollow k (followed s c);
        s1 = set_followed c ids s in
       bindS (edit_message_text E (if found then a else b) kb False) (\<lambda>_. goto q)
         (if found then unsubscribe_chat k chat s1 else s1)))"
      by (cases found) (simp_all add: uf maintains_def)
  qed (rule touched)
  show ?thesis
    unfolding unfollow_node_operator_button_def Let_def [of "be_texts E"] Let_def [of UNFOLLOW_NODE_OPERATOR]
      Let_def [of "remove_prefix _ _"]
    by (cases "up_chat u"; cases "up_query u")
      (auto split: option.split intro!: maintains_intros drop)
qed

lemma maintains_subscription_handlers:
  "update_ok u \<Longrightarrow> h \<in> set subscription_handlers \<Longrightarrow> maintains P (h E u)"
  using maintains_start maintains_menu_handlers maintains_follow_message maintains_unfollow_message
    maintains_follow_button maintains_unfollow_button
  unfolding subscription_handlers_def by auto

end

section \<open>Consistency of the subscription index\<close>

definition index_consistent :: "bot \<Rightarrow> bool" where
  "index_consistent s \<longleftrightarrow> (\<forall>c k. c \<in> chats_for (bs_operators (bt_store s)) k \<longleftrightarrow> k \<in> followed s c)"

lemma follow_one_consistent: "index_consistent s \<Longrightarrow> index_consistent (follow_one c c k s)"
  by (auto simp: index_consistent_def follow_one_def follow_def chats_for_def chats_at_subscribe
      followed_def set_followed_def)

lemma unfollow_one_consistent: "index_consistent s \<Longrightarrow> index_consistent (unfollow_one c c k s)"
  by (auto simp: index_consistent_def unfollow_one_def unsubscribe_chat_def unfollow_def chats_for_def
      chats_at_unsubscribe followed_def set_followed_def split: if_splits option.splits)

interpretation ix: subscription_invariant index_consistent
proof
  show "index_consistent (s\<lparr>bt_calls := bt_calls s @ [a]\<rparr>)" if "index_consistent s" for s a
    using that by (simp add: index_consistent_def followed_def)
  show "index_consistent (s\<lparr>bt_adapter := a\<rparr>)" if "index_consistent s" for s a
    using that by (simp add: index_consistent_def followed_def)
  show "index_consistent (set_followed c (followed s c) s)" if "index_consistent s" for s c
    using that by (auto simp: index_consistent_def followed_def set_followed_def)
  show "index_consistent (add_user_if_required u s)" if "index_consistent s" for s u
    using that by (auto simp: add_user_if_required_def index_consistent_def followed_def split: option.split)
qed (rule follow_one_consistent unfollow_one_consistent, assumption)+

lemma subscribe_followed_consistent:
  assumes "index_consistent t" "order_ok W" "finite (followed t c)"
  shows "index_consistent (subscribe_followed c t W)"
proof -
  have "index_consistent (fold (\<lambda>k s. s\<lparr>bt_store := (bt_store s)\<lparr>bs_operators :=
      subscribe k c (bs_operators (bt_store s))\<rparr>\<rparr>) ks t)"
    if "index_consistent t" "set ks \<subseteq> followed t c" for ks t
    using that
  proof (induction ks arbitrary: t)
    case (Cons k ks)
    let ?t = "t\<lparr>bt_store := (bt_store t)\<lparr>bs_operators := subscribe k c (bs_operators (bt_store t))\<rparr>\<rparr>"
    have "index_consistent ?t" "set ks \<subseteq> followed ?t c"
      using Cons.prems by (auto simp: index_consistent_def chats_for_def chats_at_subscribe followed_def)
    with Cons.IH [of ?t] show ?case by simp
  qed simp
  with assms show ?thesis
    by (cases "bt_chats t c") (simp_all add: subscribe_followed_def order_ok_def followed_def)
qed

lemma migration_consistent:
  assumes "index_consistent s" "old \<noteq> new" "order_ok (be_order E)" "\<forall>c. finite (followed s c)"
  shows "index_consistent (subscribe_followed new
    ((migrate_chat_subscriptions old new s)\<lparr>bt_store :=
       migrate_chat_id old new (bt_store (migrate_chat_subscriptions old new s))\<rparr>) (be_order E))"
proof (rule subscribe_followed_consistent [OF _ assms(3)])
  let ?s1 = "migrate_chat_subscriptions old new s"
  let ?s2 = "?s1\<lparr>bt_store := migrate_chat_id old new (bt_store ?s1)\<rparr>"
  have f1: "followed ?s2 c = (if c = old then {} else if c = new then followed s new \<union> followed s old
      else followed s c)" for c
    using assms(2) by (auto simp: migrate_chat_subscriptions_def followed_def split: option.split)
  have "bt_store ?s1 = bt_store s"
    by (simp add: migrate_chat_subscriptions_def Let_def split: option.split)
  then show "index_consistent ?s2"
    using assms(1,2) unfolding index_consistent_def f1
    by (auto simp: chats_for_def migrate_chat_id_def chats_at_migrate)
  show "finite (followed ?s2 new)" unfolding f1 using assms(4) by simp
qed

section \<open>Properties\<close>

text \<open>C32: the bot's operator index and the per-chat subscriptions always agree: every handler of
  the start conversation keeps a chat in the index of an operator exactly when the chat follows
  it, also when a call to Telegram or to the chain fails midway; so do chat tracking and the
  migration of a chat to another id.\<close>

theorem subscription_index_consistent:
  assumes "index_consistent s" "update_ok u"
  shows "(h \<in> set subscription_handlers \<longrightarrow> index_consistent (fst (h E u s))) \<and>
    index_consistent (track_chats u s) \<and>
    (order_ok (be_order E) \<and> (\<forall>c. finite (followed s c)) \<and>
       (\<forall>m. up_message u = Some m \<longrightarrow> me_migrate_to m \<noteq> Some (me_chat m) \<and>
          me_migrate_from m \<noteq> Some (me_chat m)) \<longrightarrow>
     index_consistent (chat_migration E u s))"
proof (intro conjI impI)
  assume "h \<in> set subscription_handlers"
  then have "maintains index_consistent (h E u)"
    by (rule ix.maintains_subscription_handlers [OF assms(2)])
  with assms(1) show "index_consistent (fst (h E u s))" by (simp add: maintains_def)
next
  have "bt_chats (track_chats u s) = bt_chats s \<and>
      bs_operators (bt_store (track_chats u s)) = bs_operators (bt_store s)"
    by (simp add: track_chats_def Let_def split: option.split chat_type.split prod.split)
  then show "index_consistent (track_chats u s)"
    using assms(1) by (simp add: index_consistent_def followed_def)
next
  assume h: "order_ok (be_order E) \<and> (\<forall>c. finite (followed s c)) \<and>
     (\<forall>m. up_message u = Some m \<longrightarrow> me_migrate_to m \<noteq> Some (me_chat m) \<and>
        me_migrate_from m \<noteq> Some (me_chat m))"
  show "index_consistent (chat_migration E u s)"
  proof (cases "up_message u")
    case (Some m)
    have "index_consistent (chat_migration E u s)"
      if "(case me_migrate_to m of Some new \<Rightarrow> Some (me_chat m, new)
          | None \<Rightarrow> map_option (\<lambda>old. (old, me_chat m)) (me_migrate_from m)) = Some (old, new)" for old new
    proof -
      have "old \<noteq> new" using that h Some by (auto split: option.splits)
      with migration_consistent [OF assms(1), of old new E] h that show ?thesis
        by (simp add: chat_migration_def Some Let_def)
    qed
    then show ?thesis
      using assms(1) by (cases "case me_migrate_to m of Some new \<Rightarrow> Some (me_chat m, new)
          | None \<Rightarrow> map_option (\<lambda>old. (old, me_chat m)) (me_migrate_from m)")
        (auto simp: chat_migration_def Some)
  qed (use assms(1) in \<open>simp add: chat_migration_def\<close>)
qed

section \<open>Witnesses\<close>

definition sample_texts :: bot_texts where
  "sample_texts = \<lparr>WELCOME_TEXT = ''w'', START_BUTTON_FOLLOW = ''f'', START_BUTTON_UNFOLLOW = ''u'',
     START_BUTTON_EVENTS = ''e'', BUTTON_BACK = ''b'', START_BUTTON_ADMIN = ''a'',
     ADMIN_BUTTON_SUBSCRIPTIONS = ''s'', ADMIN_MENU_TEXT = ''m'', ADMIN_BUTTON_BROADCAST = ''b'',
     ADMIN_BROADCAST_MENU_TEXT = ''b'', ADMIN_BROADCAST_ALL = ''b'', ADMIN_BROADCAST_BY_NO = ''b'',
     ADMIN_BROADCAST_ENTER_MESSAGE_ALL = ''b'', ADMIN_BROADCAST_ENTER_NO_IDS = ''b'',
     ADMIN_BROADCAST_NO_IDS_INVALID = ''b'', ADMIN_BROADCAST_CONFIRM_HINT = ''b'',
     ADMIN_BROADCAST_PREVIEW_ALL = ''b'', ADMIN_BROADCAST_PREVIEW_SELECTED = (\<lambda>t. t),
     BUTTON_SEND_BROADCAST = ''b'', ADMIN_PRIVATE_CHAT_REQUIRED = ''p'',
     NO_NEW_BLOCKS_ADMIN_ALERT = (\<lambda>_ _. ''n''), FOLLOW_NODE_OPERATOR_TEXT = ''f'',
     FOLLOW_NODE_OPERATOR_FOLLOWING = (\<lambda>t. t), UNFOLLOW_NODE_OPERATOR_TEXT = ''u'',
     UNFOLLOW_NODE_OPERATOR_NOT_FOLLOWING = ''n'', UNFOLLOW_NODE_OPERATOR_FOLLOWING = (\<lambda>t. t),
     NODE_OPERATOR_FOLLOWED = (\<lambda>t. t), NODE_OPERATOR_CANT_FOLLOW = ''c'',
     NODE_OPERATOR_UNFOLLOWED = (\<lambda>t. t), NODE_OPERATOR_CANT_UNFOLLOW = ''c'', EVENT_LIST_TEXT = ''l''\<rparr>"

definition sample_view :: chain_view where
  "sample_view = \<lparr>cv_count = Inr 10, cv_modules = Inr [], cv_name = (\<lambda>_. Inr None)\<rparr>"

definition sample_env :: bot_env where
  "sample_env = \<lparr>be_chain = sample_view, be_texts = sample_texts, be_tg = (\<lambda>_ _. TgTrue),
     be_order = sample_order\<rparr>"

definition sample_addresses :: addresses where
  "sample_addresses = \<lparr>ca_module = ''0x1'', ca_accounting = ''0x2'', ca_parameters_registry = ''0x3'',
     ca_fee_distributor = ''0x4'', ca_exit_penalties = ''0x5'', ca_lido_locator = ''0x6'',
     ca_staking_router = ''0x7'', ca_vebo = ''0x8'', ca_staking_module_id = Some 1,
     ca_type = COMMUNITY, ca_meta_registry = None\<rparr>"

definition sample_bot :: bot where
  "sample_bot = \<lparr>bt_store = delivery_store\<lparr>bs_operators := [(''7'', {1})]\<rparr>,
     bt_chats = [1 \<mapsto> {''7''}], bt_admins = {1},
     bt_adapter = \<lparr>ad_addresses = sample_addresses, ad_staking_id = Some 1, ad_count = None, ad_labels = []\<rparr>,
     bt_sessions = (\<lambda>_. \<lparr>se_prompt_chat = None, se_prompt_message = None, se_selected = None,
        se_preview_chat = None, se_preview_message = None\<rparr>),
     bt_calls = []\<rparr>"

definition message_update :: "int \<Rightarrow> string \<Rightarrow> update" where
  "message_update c t = \<lparr>up_user = Some c, up_chat = Some (c, PRIVATE),
     up_message = Some \<lparr>me_chat = c, me_id = 5, me_text = t, me_migrate_to = None, me_migrate_from = None\<rparr>,
     up_query = None, up_member = None\<rparr>"

lemma sample_bot_consistent: "index_consistent sample_bot"
  by (auto simp: index_consistent_def sample_bot_def chats_for_def chats_at_def followed_def split: if_splits)

lemma subscription_index_consistent_witness:
  "index_consistent (fst (follow_node_operator_message sample_env (message_update 1 ''#8'') sample_bot)) \<and>
   index_consistent (fst (unfollow_node_operator_message sample_env (message_update 1 ''7'') sample_bot))"
proof -
  have "update_ok (message_update 1 t)" for t by (simp add: update_ok_def message_update_def)
  note p = subscription_index_consistent [OF sample_bot_consistent this, THEN conjunct1, THEN mp]
  show ?thesis by (intro conjI p) (simp_all add: subscription_handlers_def)
qed

text \<open>A superscript digit passes \<open>isdigit\<close> but not \<open>int\<close>: the handler raises.\<close>

lemma superscript_id_raises:
  "snd (follow_node_operator_message sample_env (message_update 1 [CHR 0xB2]) sample_bot) = Inl ValueError"
  by code_simp

end
