(* ===== verification/Broadcast.thy ===== *)
theory Broadcast
  imports Subscriptions
begin

text \<open>
  The admin tools: the broadcast session and handlers of \<open>sentinel/handlers/admin/broadcast.py\<close>,
  the menu and the subscription report of \<open>handlers/admin/menu.py\<close> with \<open>chunk_text\<close> of
  \<open>sentinel/utils.py\<close>, and the table of \<open>handlers/__init__.py\<close> that says which handler a
  conversation state offers an update to. \<open>context.user_data\<close> is the session of the user.
\<close>

section \<open>The broadcast session\<close>

definition session_of :: "update \<Rightarrow> bot \<Rightarrow> user_session" where
  "session_of u s = bt_sessions s (case up_user u of None \<Rightarrow> 0 | Some i \<Rightarrow> i)"

definition set_session :: "update \<Rightarrow> user_session \<Rightarrow> bot \<Rightarrow> bot" where
  "set_session u x s =
     s\<lparr>bt_sessions := (bt_sessions s)((case up_user u of None \<Rightarrow> 0 | Some i \<Rightarrow> i) := x)\<rparr>"

definition store_prompt :: "update \<Rightarrow> tg_reply \<Rightarrow> bot \<Rightarrow> bot" where
  "store_prompt u r s =
     (case r of
        TgMessage c m \<Rightarrow>
          set_session u ((session_of u s)\<lparr>se_prompt_chat := Some c, se_prompt_message := Some m\<rparr>) s
      | _ \<Rightarrow> s)"

definition set_selected_ids :: "update \<Rightarrow> string set \<Rightarrow> bot \<Rightarrow> bot" where
  "set_selected_ids u ids s = set_session u ((session_of u s)\<lparr>se_selected := Some ids\<rparr>) s"

definition clear_selected_ids :: "update \<Rightarrow> bot \<Rightarrow> bot" where
  "clear_selected_ids u s = set_session u ((session_of u s)\<lparr>se_selected := None\<rparr>) s"

definition store_preview :: "update \<Rightarrow> int \<Rightarrow> int \<Rightarrow> bot \<Rightarrow> bot" where
  "store_preview u c m s =
     set_session u ((session_of u s)\<lparr>se_preview_chat := Some c, se_preview_message := Some m\<rparr>) s"

definition clear_preview :: "update \<Rightarrow> bot \<Rightarrow> bot" where
  "clear_preview u s =
     set_session u ((session_of u s)\<lparr>se_preview_chat := None, se_preview_message := None\<rparr>) s"

definition consume_preview ::
  "update \<Rightarrow> int \<Rightarrow> int \<Rightarrow> int \<Rightarrow> bot \<Rightarrow> bot \<times> (int \<times> int) option" where
  "consume_preview u prompt_chat prompt_message preview s = (let x = session_of u s in
     if se_prompt_chat x \<noteq> Some prompt_chat \<or> se_prompt_message x \<noteq> Some prompt_message \<or>
        se_preview_message x \<noteq> Some preview then (s, None)
     else (case se_preview_chat x of
             None \<Rightarrow> (s, None)
           | Some c \<Rightarrow> (clear_preview u s, Some (c, preview))))"

section \<open>Messages of the broadcast dialogue\<close>

definition ignore_reply :: "bot_env \<Rightarrow> tg_action \<Rightarrow> bot \<Rightarrow> bot" where
  "ignore_reply E a s = fst (tg_try E a s)"

definition delete_preview_message :: "bot_env \<Rightarrow> update \<Rightarrow> bot \<Rightarrow> bot" where
  "delete_preview_message E u s = (let x = session_of u s; s1 = clear_preview u s in
     case (se_preview_chat x, se_preview_message x) of
       (Some c, Some m) \<Rightarrow> ignore_reply E (DeleteMessage c m) s1
     | _ \<Rightarrow> s1)"

definition delete_user_message :: "bot_env \<Rightarrow> tg_message option \<Rightarrow> bot \<Rightarrow> bot" where
  "delete_user_message E m s =
     (case m of None \<Rightarrow> s | Some x \<Rightarrow> ignore_reply E (DeleteMessage (me_chat x) (me_id x)) s)"

definition copy_preview_message ::
  "bot_env \<Rightarrow> int \<Rightarrow> tg_message option \<Rightarrow> bot \<Rightarrow> bot \<times> int option" where
  "copy_preview_message E c m s =
     (case m of
        None \<Rightarrow> (s, None)
      | Some x \<Rightarrow> (let (s', r) = tg_try E (CopyMessage c (me_chat x) (me_id x)) s in
          (s', case r of TgMessage _ i \<Rightarrow> Some i | _ \<Rightarrow> None)))"

definition back_markup :: "bot_env \<Rightarrow> keyboard" where
  "back_markup E = [back_row E]"

definition confirmation_markup :: "bot_env \<Rightarrow> callback \<Rightarrow> int \<Rightarrow> keyboard" where
  "confirmation_markup E cb preview =
     [[(BUTTON_SEND_BROADCAST (be_texts E), callback_value cb @ '':'' @ int_str preview)], back_row E]"

definition format_preview_text :: "bot_env \<Rightarrow> string \<Rightarrow> string" where
  "format_preview_text E header = header @ ''\<newline>\<newline>'' @ ADMIN_BROADCAST_CONFIRM_HINT (be_texts E) @
     ''\<newline>\<newline>Preview is shown below.''"

definition send_prompt :: "bot_env \<Rightarrow> update \<Rightarrow> int \<Rightarrow> string \<Rightarrow> keyboard \<Rightarrow> bot \<Rightarrow> bot \<times> unit res" where
  "send_prompt E u c t kb =
     bindS (tg_call E (SendMessage c t (Some kb))) (\<lambda>r s. (store_prompt u r s, Inr ()))"

definition edit_broadcast_prompt_message ::
  "bot_env \<Rightarrow> update \<Rightarrow> int \<Rightarrow> string \<Rightarrow> keyboard \<Rightarrow> bot \<Rightarrow> bot \<times> unit res" where
  "edit_broadcast_prompt_message E u c t kb s =
     (let x = session_of u s in
      case (if c \<noteq> 0 then Some c else se_prompt_chat x) of
        None \<Rightarrow> (s, Inr ())
      | Some target \<Rightarrow>
          (case se_prompt_message x of
             None \<Rightarrow> send_prompt E u target t kb s
           | Some m \<Rightarrow>
               if m = 0 then send_prompt E u target t kb s
               else (let (s1, r) = tg_try E (EditMessage target m t kb) s in
                     if r = TgNotModified \<or> r = TgBadRequest then send_prompt E u target t kb s1
                     else if r = TgError then (s1, Inl TelegramFailure)
                     else (store_prompt u r s1, Inr ()))))"

definition resolve_chat_id :: "update \<Rightarrow> int option" where
  "resolve_chat_id u =
     (case up_message u of Some m \<Rightarrow> Some (me_chat m) | None \<Rightarrow> map_option fst (up_chat u))"

definition confirmation_preview_message_id :: "string option \<Rightarrow> callback \<Rightarrow> int option" where
  "confirmation_preview_message_id d cb =
     (let p = callback_value cb @ '':'' in
      case d of
        None \<Rightarrow> None
      | Some t \<Rightarrow>
          if \<not> prefix p t then None
          else (let raw = drop (length p) t in
                if py_isdecimal raw then (case py_int raw of Inr i \<Rightarrow> Some i | Inl _ \<Rightarrow> None) else None))"

definition consume_confirmation :: "update \<Rightarrow> callback \<Rightarrow> bot \<Rightarrow> bot \<times> (int \<times> int) option" where
  "consume_confirmation u cb s =
     (case up_query u of
        None \<Rightarrow> (s, None)
      | Some q \<Rightarrow>
          (case (qu_message q, confirmation_preview_message_id (qu_data q) cb) of
             (Some (c, m), Some preview) \<Rightarrow> consume_preview u c m preview s
           | _ \<Rightarrow> (s, None)))"

fun broadcast_copy_to_chats ::
  "bot_env \<Rightarrow> int list \<Rightarrow> int \<Rightarrow> int \<Rightarrow> bot \<Rightarrow> bot \<times> nat \<times> nat" where
  "broadcast_copy_to_chats E [] from m s = (s, 0, 0)"
| "broadcast_copy_to_chats E (c # cs) from m s =
     (let (s1, r) = tg_try E (CopyMessage c from m) s;
          (s2, sent, failed) = broadcast_copy_to_chats E cs from m s1 in
      (s2, if tg_failed r then (sent, Suc failed) else (Suc sent, failed)))"

definition edit_query_prompt :: "bot_env \<Rightarrow> update \<Rightarrow> string \<Rightarrow> keyboard \<Rightarrow> bot \<Rightarrow> bot \<times> unit res" where
  "edit_query_prompt E u t kb =
     bindS (tg_call E (EditQuery t (Some kb) False)) (\<lambda>r s. (store_prompt u r s, Inr ()))"

definition then_do :: "(bot \<Rightarrow> bot) \<Rightarrow> (bot \<Rightarrow> bot \<times> 'a) \<Rightarrow> bot \<Rightarrow> bot \<times> 'a" where
  "then_do f g s = g (f s)"

section \<open>Handlers of the broadcast dialogue\<close>

definition broadcast_menu_body :: "bot_env \<Rightarrow> update \<Rightarrow> bot \<Rightarrow> bot \<times> states res" where
  "broadcast_menu_body E u = (let T = be_texts E in
     if up_query u = None then goto ADMIN_BROADCAST
     else bindS (tg_done E (AnswerQuery None)) (\<lambda>_.
          then_do (delete_preview_message E u)
          (bindS (edit_query_prompt E u (ADMIN_BROADCAST_MENU_TEXT T)
             [[(bot_texts.ADMIN_BROADCAST_ALL T, callback_value CB_ADMIN_BROADCAST_ALL)],
              [(bot_texts.ADMIN_BROADCAST_BY_NO T, callback_value CB_ADMIN_BROADCAST_BY_NO)], back_row E]) (\<lambda>_.
           then_do (clear_selected_ids u) (goto ADMIN_BROADCAST)))))"

definition broadcast_menu :: "bot_env \<Rightarrow> update \<Rightarrow> bot \<Rightarrow> bot \<times> states res" where
  "broadcast_menu = admin_only WELCOME broadcast_menu_body"

definition broadcast_all_prompt :: "bot_env \<Rightarrow> update \<Rightarrow> bot \<Rightarrow> bot \<times> states res" where
  "broadcast_all_prompt = admin_only WELCOME (\<lambda>E u.
     if up_query u = None then goto ADMIN_BROADCAST_MESSAGE_ALL
     else bindS (tg_done E (AnswerQuery None)) (\<lambda>_.
          then_do (delete_preview_message E u)
          (bindS (edit_query_prompt E u (ADMIN_BROADCAST_ENTER_MESSAGE_ALL (be_texts E)) [back_row E]) (\<lambda>_.
           goto ADMIN_BROADCAST_MESSAGE_ALL))))"

definition broadcast_by_no :: "bot_env \<Rightarrow> update \<Rightarrow> bot \<Rightarrow> bot \<times> states res" where
  "broadcast_by_no = admin_only WELCOME (\<lambda>E u.
     if up_query u = None then goto ADMIN_BROADCAST_SELECT_NO
     else bindS (tg_done E (AnswerQuery None)) (\<lambda>_.
          then_do (clear_selected_ids u \<circ> delete_preview_message E u)
          (bindS (edit_query_prompt E u (ADMIN_BROADCAST_ENTER_NO_IDS (be_texts E)) [back_row E]) (\<lambda>_.
           goto ADMIN_BROADCAST_SELECT_NO))))"

text \<open>Both message handlers preview the message in the same way.\<close>

definition preview_message ::
  "bot_env \<Rightarrow> update \<Rightarrow> int \<Rightarrow> string \<Rightarrow> callback \<Rightarrow> states \<Rightarrow> bot \<Rightarrow> bot \<times> states res" where
  "preview_message E u c header cb q s =
     (let (s1, preview) = copy_preview_message E c (up_message u) (delete_preview_message E u s);
          s2 = delete_user_message E (up_message u) s1 in
      case preview of
        None \<Rightarrow> bindS (edit_broadcast_prompt_message E u c
            ''Unable to preview that message. Please try again.'' (back_markup E)) (\<lambda>_. goto q) s2
      | Some p \<Rightarrow> bindS (edit_broadcast_prompt_message E u c (format_preview_text E header)
            (confirmation_markup E cb p)) (\<lambda>_. then_do (store_preview u c p) (goto q)) s2)"

definition broadcast_all_message :: "bot_env \<Rightarrow> update \<Rightarrow> bot \<Rightarrow> bot \<times> states res" where
  "broadcast_all_message = admin_only ADMIN_BROADCAST_MESSAGE_ALL (\<lambda>E u.
     case resolve_chat_id u of
       None \<Rightarrow> goto ADMIN_BROADCAST_MESSAGE_ALL
     | Some c \<Rightarrow> preview_message E u c (ADMIN_BROADCAST_PREVIEW_ALL (be_texts E))
         CB_ADMIN_BROADCAST_CONFIRM_ALL ADMIN_BROADCAST_MESSAGE_ALL)"

definition entered_ids :: "string \<Rightarrow> string set" where
  "entered_ids raw =
     {t \<in> set (map py_strip (py_split (CHR '','') (replace_char (CHR '' '') '','' (replace_char (CHR ''#'') [] raw)))).
        t \<noteq> [] \<and> py_isdigit t}"

definition pretty_ids :: "string set \<Rightarrow> string" where
  "pretty_ids ids = py_join '', '' (sorted_list_of_set ((\<lambda>i. CHR ''#'' # i) ` ids))"

definition enter_no_ids_body :: "bot_env \<Rightarrow> update \<Rightarrow> bot \<Rightarrow> bot \<times> states res" where
  "enter_no_ids_body E u = (let T = be_texts E in
     case resolve_chat_id u of
       None \<Rightarrow> goto ADMIN_BROADCAST_SELECT_NO
     | Some c \<Rightarrow>
         (let raw = (case up_message u of None \<Rightarrow> [] | Some m \<Rightarrow> py_strip (me_text m));
              ids = entered_ids raw in
          then_do (delete_user_message E (up_message u))
          (if raw = [] \<or> ids = {} then
             bindS (edit_broadcast_prompt_message E u c
               (ADMIN_BROADCAST_NO_IDS_INVALID T @ ''\<newline>\<newline>'' @ ADMIN_BROADCAST_ENTER_NO_IDS T) (back_markup E))
               (\<lambda>_. goto ADMIN_BROADCAST_SELECT_NO)
           else then_do (set_selected_ids u ids)
             (bindS (edit_broadcast_prompt_message E u c
               (''Node operators selected: '' @ pretty_ids ids @
                ''\<newline>\<newline>Please enter the message to broadcast to these node operators:'') (back_markup E))
               (\<lambda>_. goto ADMIN_BROADCAST_MESSAGE_SELECTED)))))"

definition broadcast_enter_no_ids_message :: "bot_env \<Rightarrow> update \<Rightarrow> bot \<Rightarrow> bot \<times> states res" where
  "broadcast_enter_no_ids_message = admin_only ADMIN_BROADCAST_SELECT_NO enter_no_ids_body"

definition selected_message_body :: "bot_env \<Rightarrow> update \<Rightarrow> bot \<Rightarrow> bot \<times> states res" where
  "selected_message_body E u s =
     (case resolve_chat_id u of
        None \<Rightarrow> goto ADMIN_BROADCAST_MESSAGE_SELECTED s
      | Some c \<Rightarrow>
          (let selected = (case se_selected (session_of u s) of None \<Rightarrow> {} | Some ids \<Rightarrow> ids) in
           if selected = {} then
             then_do (delete_user_message E (up_message u))
             (bindS (edit_broadcast_prompt_message E u c
               ''No node operators selected. Please provide node operator IDs first.'' (back_markup E))
               (\<lambda>_. goto ADMIN_BROADCAST_SELECT_NO)) s
           else preview_message E u c (ADMIN_BROADCAST_PREVIEW_SELECTED (be_texts E) (pretty_ids selected))
                  CB_ADMIN_BROADCAST_CONFIRM_SELECTED ADMIN_BROADCAST_MESSAGE_SELECTED s))"

definition broadcast_selected_message :: "bot_env \<Rightarrow> update \<Rightarrow> bot \<Rightarrow> bot \<times> states res" where
  "broadcast_selected_message = admin_only ADMIN_BROADCAST_MESSAGE_SELECTED selected_message_body"

text \<open>Both confirmations send the preview to the targets and report how it went.\<close>

definition send_broadcast ::
  "bot_env \<Rightarrow> update \<Rightarrow> int set \<Rightarrow> int \<Rightarrow> int \<Rightarrow> string \<Rightarrow> (nat \<Rightarrow> nat \<Rightarrow> string) \<Rightarrow> (bot \<Rightarrow> bot) \<Rightarrow>
   states \<Rightarrow> bot \<Rightarrow> bot \<times> states res" where
  "send_broadcast E u targets from m nobody result after q =
     (if targets = {} then
        then_do (ignore_reply E (DeleteMessage from m))
        (bindS (edit_query_prompt E u nobody (back_markup E)) (\<lambda>_. goto q))
      else (\<lambda>s.
        (let (s1, sent, failed) = broadcast_copy_to_chats E (so_chats (be_order E) targets) from m s in
         bindS (edit_query_prompt E u (result sent failed) (back_markup E)) (\<lambda>_. goto q)
           (ignore_reply E (DeleteMessage from m) (after s1)))))"

definition expired :: "bot_env \<Rightarrow> states \<Rightarrow> bot \<Rightarrow> bot \<times> states res" where
  "expired E q = bindS (tg_done E (AnswerQuery (Some ''This confirmation has expired.''))) (\<lambda>_. goto q)"

definition all_confirm_body :: "bot_env \<Rightarrow> update \<Rightarrow> bot \<Rightarrow> bot \<times> states res" where
  "all_confirm_body E u s =
     (if up_query u = None then goto ADMIN_BROADCAST_MESSAGE_ALL s
      else (let (s1, confirmation) = consume_confirmation u CB_ADMIN_BROADCAST_CONFIRM_ALL s in
        case confirmation of
          None \<Rightarrow> expired E ADMIN_BROADCAST_MESSAGE_ALL s1
        | Some (c, m) \<Rightarrow>
            bindS (tg_done E (AnswerQuery None)) (\<lambda>_ s.
              send_broadcast E u
                (resolve_target_chats (bt_store s) (operator_ids (bs_operators (bt_store s)))) c m
                ''No subscribers to notify.''
                (\<lambda>sent failed. ''Broadcast sent to '' @ int_str (int sent) @ '' chat(s). Failures: '' @
                   int_str (int failed) @ ''.'')
                (\<lambda>s. s) ADMIN_BROADCAST_MESSAGE_ALL s) s1))"

definition broadcast_all_confirm :: "bot_env \<Rightarrow> update \<Rightarrow> bot \<Rightarrow> bot \<times> states res" where
  "broadcast_all_confirm = admin_only ADMIN_BROADCAST_MESSAGE_ALL all_confirm_body"

definition selected_confirm_body :: "bot_env \<Rightarrow> update \<Rightarrow> bot \<Rightarrow> bot \<times> states res" where
  "selected_confirm_body E u s =
     (if up_query u = None then goto ADMIN_BROADCAST_MESSAGE_SELECTED s
      else (let selected = (case se_selected (session_of u s) of None \<Rightarrow> {} | Some ids \<Rightarrow> ids) in
        if selected = {} then expired E ADMIN_BROADCAST_MESSAGE_SELECTED s
        else (let (s1, confirmation) = consume_confirmation u CB_ADMIN_BROADCAST_CONFIRM_SELECTED s in
          case confirmation of
            None \<Rightarrow> expired E ADMIN_BROADCAST_MESSAGE_SELECTED s1
          | Some (c, m) \<Rightarrow>
              bindS (tg_done E (AnswerQuery None)) (\<lambda>_ s.
                send_broadcast E u
                  (resolve_target_chats_for_node_operators (bt_store s) selected) c m
                  ''No active subscribers for the selected node operators.''
                  (\<lambda>sent failed. ''Broadcast to '' @ pretty_ids selected @ '': sent to '' @
                     int_str (int sent) @ '' chat(s). Failures: '' @ int_str (int failed) @ ''.'')
                  (clear_selected_ids u) ADMIN_BROADCAST_MESSAGE_SELECTED s) s1)))"

definition broadcast_selected_confirm :: "bot_env \<Rightarrow> update \<Rightarrow> bot \<Rightarrow> bot \<times> states res" where
  "broadcast_selected_confirm = admin_only ADMIN_BROADCAST_MESSAGE_SELECTED selected_confirm_body"

section \<open>Admin menu and subscription report\<close>

definition admin_menu :: "bot_env \<Rightarrow> update \<Rightarrow> bot \<Rightarrow> bot \<times> states res" where
  "admin_menu = admin_only WELCOME (\<lambda>E u. let T = be_texts E in
     if up_query u = None then goto ADMIN
     else bindS (tg_done E (AnswerQuery None)) (\<lambda>_.
          bindS (tg_done E (EditQuery (ADMIN_MENU_TEXT T)
            (Some [[(ADMIN_BUTTON_SUBSCRIPTIONS T, callback_value CB_ADMIN_SUBSCRIPTIONS)],
                   [(ADMIN_BUTTON_BROADCAST T, callback_value CB_ADMIN_BROADCAST)], back_row E]) False)) (\<lambda>_.
          goto ADMIN)))"

text \<open>
  \<open>chunk_text\<close>: the pieces of a line that is too long are cut off first; \<open>cut_line\<close> does not end
  for a limit of zero, so its fuel is the length of the line.
\<close>

fun cut_line :: "nat \<Rightarrow> nat \<Rightarrow> string \<Rightarrow> string list \<Rightarrow> string \<Rightarrow> string list \<times> string \<times> string" where
  "cut_line 0 limit current parts line = (parts, current, line)"
| "cut_line (Suc k) limit current parts line =
     (if length line \<le> limit then (parts, current, line)
      else cut_line k limit []
             ((if current \<noteq> [] then parts @ [current] else parts) @ [take limit line]) (drop limit line))"

fun chunk_lines :: "nat \<Rightarrow> string list \<Rightarrow> string list \<Rightarrow> string \<Rightarrow> string list" where
  "chunk_lines limit [] parts current = (if current \<noteq> [] then parts @ [current] else parts)"
| "chunk_lines limit (l # ls) parts current =
     (let (parts1, current1, line) = cut_line (length l) limit current parts l in
      if current1 = [] then chunk_lines limit ls parts1 line
      else if length current1 + 1 + length line \<le> limit then
        chunk_lines limit ls parts1 (current1 @ ''\<newline>'' @ line)
      else chunk_lines limit ls (parts1 @ [current1]) line)"

definition chunk_text :: "nat \<Rightarrow> string \<Rightarrow> string list" where
  "chunk_text limit t =
     (if length t \<le> limit then [t] else chunk_lines limit (py_split (CHR 0x0A) t) [] [])"

definition plural :: "nat \<Rightarrow> string \<Rightarrow> string" where
  "plural n w = (if n = 1 then w else w @ ''s'')"

definition count_line :: "string \<times> subscription_count \<Rightarrow> string" where
  "count_line p = (case p of (k, c) \<Rightarrow>
     CHR ''#'' # k @ '': '' @ int_str (int (sc_total c)) @ '' '' @ plural (sc_total c) ''subscriber'' @
     '' (users:'' @ int_str (int (sc_users c)) @ '', groups:'' @ int_str (int (sc_groups c)) @
     '', channels:'' @ int_str (int (sc_channels c)) @ '')'')"

definition subscription_report :: "bot_storage \<Rightarrow> string res" where
  "subscription_report B =
     (let counts = get_active_subscription_counts B in
      if counts = [] then Inr ''No active subscriptions.''
      else (let (total, operators) = get_subscription_totals B in
        bindR (mapR (\<lambda>p. bindR (id_sort_key (fst p)) (\<lambda>x. Inr (x, p))) counts) (\<lambda>ps.
          Inr (py_join ''\<newline>''
            ((''Active subscriptions: '' @ int_str (int total) @ '' '' @ plural total ''subscriber'' @
              '' across '' @ int_str (int operators) @ '' '' @ plural operators ''node operator'' @ ''.'') #
             map (\<lambda>(_, p). count_line p) (sort_key fst ps))))))"

fun send_chunks :: "bot_env \<Rightarrow> int \<Rightarrow> string list \<Rightarrow> keyboard \<Rightarrow> bot \<Rightarrow> bot \<times> unit res" where
  "send_chunks E c [] kb s = (s, Inr ())"
| "send_chunks E c [t] kb s = tg_done E (SendMessage c t (Some kb)) s"
| "send_chunks E c (t # ts) kb s =
     bindS (tg_done E (SendMessage c t None)) (\<lambda>_. send_chunks E c ts kb) s"

definition show_chunks :: "bot_env \<Rightarrow> bool \<Rightarrow> int \<Rightarrow> string list \<Rightarrow> bot \<Rightarrow> bot \<times> unit res" where
  "show_chunks E query c chunks =
     (if \<not> query then send_chunks E c chunks [back_row E]
      else (case chunks of
              [] \<Rightarrow> (\<lambda>s. (s, Inl IndexError))
            | [t] \<Rightarrow> tg_done E (EditQuery t (Some [back_row E]) False)
            | t # ts \<Rightarrow> bindS (tg_done E (EditQuery t None False)) (\<lambda>_. send_chunks E c ts [back_row E])))"

definition subscriptions_body :: "bot_env \<Rightarrow> update \<Rightarrow> bot \<Rightarrow> bot \<times> states res" where
  "subscriptions_body E u =
     (let query = (up_query u \<noteq> None); q = (if query then ADMIN else WELCOME) in
      bindS (if query then tg_done E (AnswerQuery None) else liftS (Inr ())) (\<lambda>_.
        case up_chat u of
          None \<Rightarrow> goto q
        | Some (c, _) \<Rightarrow>
            bindS (\<lambda>s. (s, subscription_report (bt_store s))) (\<lambda>t.
            bindS (show_chunks E query c (chunk_text 4000 t)) (\<lambda>_. goto q))))"

definition subscriptions :: "bot_env \<Rightarrow> update \<Rightarrow> bot \<Rightarrow> bot \<times> states res" where
  "subscriptions = admin_only WELCOME subscriptions_body"

section \<open>The conversation\<close>

text \<open>
  A handler of the conversation is offered callback data that matches a pattern, or a message
  whose text is not a command; \<open>broadcast_message\<close> also accepts other messages.
\<close>

definition matches_exactly :: "callback \<Rightarrow> string \<Rightarrow> bool" where
  "matches_exactly cb d \<longleftrightarrow> d = callback_value cb \<or> d = callback_value cb @ ''\<newline>''"

definition matches_number :: "string \<Rightarrow> string \<Rightarrow> bool" where
  "matches_number p d \<longleftrightarrow> prefix p d \<and>
     (let r = drop (length p) d in
      py_isdecimal r \<or> (r \<noteq> [] \<and> last r = CHR 0x0A \<and> py_isdecimal (butlast r)))"

datatype trigger =
    OnCallback callback
  | OnNumber string
  | OnText
  | OnMessage

text \<open>\<open>is_command\<close> says whether Telegram marks the text as a command.\<close>

definition triggered :: "(string \<Rightarrow> bool) \<Rightarrow> trigger \<Rightarrow> update \<Rightarrow> bool" where
  "triggered is_command t u =
     (case t of
        OnCallback cb \<Rightarrow> (case up_query u of
          Some q \<Rightarrow> (case qu_data q of Some d \<Rightarrow> matches_exactly cb d | None \<Rightarrow> False) | None \<Rightarrow> False)
      | OnNumber p \<Rightarrow> (case up_query u of
          Some q \<Rightarrow> (case qu_data q of Some d \<Rightarrow> matches_number p d | None \<Rightarrow> False) | None \<Rightarrow> False)
      | OnText \<Rightarrow> (case up_message u of
          Some m \<Rightarrow> me_text m \<noteq> [] \<and> \<not> is_command (me_text m) | None \<Rightarrow> False)
      | OnMessage \<Rightarrow> (case up_message u of Some m \<Rightarrow> \<not> is_command (me_text m) | None \<Rightarrow> False))"

fun conversation_handlers ::
  "states \<Rightarrow> (trigger \<times> (bot_env \<Rightarrow> update \<Rightarrow> bot \<Rightarrow> bot \<times> states res)) list" where
  "conversation_handlers WELCOME =
     [(OnCallback CB_FOLLOW_TO_NODE_OPERATOR, follow_node_operator),
      (OnCallback CB_UNFOLLOW_FROM_NODE_OPERATOR, unfollow_node_operator),
      (OnCallback CB_FOLLOWED_EVENTS, followed_events),
      (OnCallback CB_ADMIN, admin_menu)]"
| "conversation_handlers FOLLOW_NODE_OPERATOR =
     [(OnNumber FOLLOW_OPERATOR_PREFIX, follow_node_operator_button),
      (OnNumber FOLLOW_OPERATOR_PAGE_PREFIX, follow_node_operator_page),
      (OnCallback CB_BACK, start_over),
      (OnText, follow_node_operator_message)]"
| "conversation_handlers UNFOLLOW_NODE_OPERATOR =
     [(OnNumber UNFOLLOW_OPERATOR_PREFIX, unfollow_node_operator_button),
      (OnNumber UNFOLLOW_OPERATOR_PAGE_PREFIX, unfollow_node_operator_page),
      (OnCallback CB_BACK, start_over),
      (OnText, unfollow_node_operator_message)]"
| "conversation_handlers FOLLOWED_EVENTS = [(OnCallback CB_BACK, start_over)]"
| "conversation_handlers ADMIN =
     [(OnCallback CB_BACK, start_over),
      (OnCallback CB_ADMIN_SUBSCRIPTIONS, subscriptions),
      (OnCallback CB_ADMIN_BROADCAST, broadcast_menu)]"
| "conversation_handlers ADMIN_BROADCAST =
     [(OnCallback CB_BACK, start_over),
      (OnCallback CB_ADMIN_BROADCAST_ALL, broadcast_all_prompt),
      (OnCallback CB_ADMIN_BROADCAST_BY_NO, broadcast_by_no)]"
| "conversation_handlers ADMIN_BROADCAST_MESSAGE_ALL =
     [(OnCallback CB_BACK, broadcast_menu),
      (OnNumber (callback_value CB_ADMIN_BROADCAST_CONFIRM_ALL @ '':''), broadcast_all_confirm),
      (OnMessage, broadcast_all_message)]"
| "conversation_handlers ADMIN_BROADCAST_SELECT_NO =
     [(OnCallback CB_BACK, broadcast_menu),
      (OnText, broadcast_enter_no_ids_message)]"
| "conversation_handlers ADMIN_BROADCAST_MESSAGE_SELECTED =
     [(OnCallback CB_BACK, broadcast_by_no),
      (OnNumber (callback_value CB_ADMIN_BROADCAST_CONFIRM_SELECTED @ '':''), broadcast_selected_confirm),
      (OnMessage, broadcast_selected_message)]"

text \<open>\<open>start\<close> is the entry point and the fallback of every state.\<close>

definition entry_points :: "(bot_env \<Rightarrow> update \<Rightarrow> bot \<Rightarrow> bot \<times> states res) list" where
  "entry_points = [start]"

section \<open>Which calls a handler makes\<close>

definition calls_only :: "(tg_action \<Rightarrow> bool) \<Rightarrow> (int \<Rightarrow> user_session) option \<Rightarrow> tg_action list \<Rightarrow> bot \<Rightarrow> bool" where
  "calls_only A S K s \<longleftrightarrow> (\<exists>calls. bt_calls s = K @ calls \<and> list_all A calls) \<and>
     (S = None \<or> S = Some (bt_sessions s))"

text \<open>Copies go to the chat the update came from only.\<close>

definition own_copy :: "update \<Rightarrow> tg_action \<Rightarrow> bool" where
  "own_copy u a \<longleftrightarrow> (case a of CopyMessage c f m \<Rightarrow> resolve_chat_id u = Some c | _ \<Rightarrow> True)"

lemma answers_own_copy: "answers_user a \<Longrightarrow> own_copy u a"
  by (cases a) (simp_all add: own_copy_def)

lemma calls_only_call: "calls_only A S K s \<Longrightarrow> A a \<Longrightarrow> calls_only A S K (s\<lparr>bt_calls := bt_calls s @ [a]\<rparr>)"
  by (auto simp: calls_only_def)

lemma calls_only_other:
  assumes "calls_only A S K s"
  shows "calls_only A S K (s\<lparr>bt_adapter := d\<rparr>)" "calls_only A S K (set_followed c k s)"
    "calls_only A S K (follow_one c c' i s)" "calls_only A S K (unfollow_one c c' i s)"
    "calls_only A S K (add_user_if_required u s)"
  using assms by (simp_all add: calls_only_def set_followed_def follow_one_def unfollow_one_def
      unsubscribe_chat_def add_user_if_required_def split: option.split)

interpretation quiet: subscription_invariant "calls_only answers_user S K" for S K
  by unfold_locales (auto intro: calls_only_call calls_only_other)

interpretation own: subscription_invariant "calls_only (own_copy u) S K" for u S K
  by unfold_locales (auto intro: calls_only_call calls_only_other answers_own_copy)

lemma maintains_then_do [maintains_intros]:
  "(\<And>s. P s \<Longrightarrow> P (f s)) \<Longrightarrow> maintains P g \<Longrightarrow> maintains P (then_do f g)"
  by (simp add: maintains_def then_do_def)

lemma own_session: "calls_only A None K s \<Longrightarrow> calls_only A None K (set_session u x s)"
  by (simp add: calls_only_def set_session_def)

lemma own_session_ops:
  assumes "calls_only A None K s"
  shows "calls_only A None K (store_prompt u r s)" "calls_only A None K (set_selected_ids u ids s)"
    "calls_only A None K (clear_selected_ids u s)" "calls_only A None K (store_preview u c m s)"
    "calls_only A None K (clear_preview u s)"
  using own_session [OF assms] assms
  by (simp_all add: store_prompt_def set_selected_ids_def clear_selected_ids_def store_preview_def
      clear_preview_def split: tg_reply.split)

lemma own_try: "calls_only A S K s \<Longrightarrow> A a \<Longrightarrow> calls_only A S K (fst (tg_try E a s))"
  by (simp add: tg_try_def calls_only_call)

lemma own_deletes:
  assumes "calls_only (own_copy v) None K s"
  shows "calls_only (own_copy v) None K (delete_preview_message E u s)"
    "calls_only (own_copy v) None K (delete_user_message E m s)"
    "calls_only (own_copy v) None K (ignore_reply E (DeleteMessage c i) s)"
  using assms own_session_ops(5) [OF assms]
  by (auto simp: delete_preview_message_def delete_user_message_def ignore_reply_def Let_def
      own_copy_def intro!: own_try split: option.split)

lemma own_prompts [maintains_intros]:
  "maintains (calls_only (own_copy v) None K) (send_prompt E u c t kb)"
  "maintains (calls_only (own_copy v) None K) (edit_query_prompt E u t kb)"
  "maintains (calls_only (own_copy v) None K) (edit_broadcast_prompt_message E u c t kb)"
proof -
  have store: "maintains (calls_only (own_copy v) None K) (\<lambda>s. (store_prompt u r s, Inr ()))" for r
    by (simp add: maintains_def own_session_ops)
  show send: "maintains (calls_only (own_copy v) None K) (send_prompt E u c t kb)" for c
    unfolding send_prompt_def by (intro maintains_intros own.maintains_call store)
  show "maintains (calls_only (own_copy v) None K) (edit_query_prompt E u t kb)"
    unfolding edit_query_prompt_def by (intro maintains_intros own.maintains_call store)
  show "maintains (calls_only (own_copy v) None K) (edit_broadcast_prompt_message E u c t kb)"
    unfolding maintains_def
  proof (intro allI impI)
    fix s
    assume s: "calls_only (own_copy v) None K s"
    have "calls_only (own_copy v) None K (fst (tg_try E (EditMessage c' m t kb) s))" for c' m
      using s by (simp add: own_try own_copy_def)
    with s send own_session_ops(1) show "calls_only (own_copy v) None K (fst (edit_broadcast_prompt_message E u c t kb s))"
      by (auto simp: edit_broadcast_prompt_message_def Let_def split_beta maintains_def split: option.split)
  qed
qed

lemma own_preview:
  assumes "resolve_chat_id u = Some c"
  shows "maintains (calls_only (own_copy u) None K) (preview_message E u c t cb q)"
  unfolding maintains_def
proof (intro allI impI)
  fix s
  assume s: "calls_only (own_copy u) None K s"
  let ?P = "calls_only (own_copy u) None K"
  let ?s0 = "delete_preview_message E u s"
  obtain s1 r where copy: "copy_preview_message E c (up_message u) ?s0 = (s1, r)" by force
  have "?P s1"
    using own_deletes(1) [OF s, of E u] copy assms
    by (auto simp: copy_preview_message_def tg_try_def own_copy_def split: option.splits
        intro!: calls_only_call)
  then have s2: "?P (delete_user_message E (up_message u) s1)" by (rule own_deletes)
  have "maintains ?P (bindS (edit_broadcast_prompt_message E u c x kb) (\<lambda>_. then_do (store_preview u c p) (goto q)))"
    for x kb p by (intro maintains_intros own_session_ops)
  moreover have "maintains ?P (bindS (edit_broadcast_prompt_message E u c x kb) (\<lambda>_. goto q))" for x kb
    by (intro maintains_intros)
  ultimately show "?P (fst (preview_message E u c t cb q s))"
    using s2 unfolding preview_message_def copy by (cases r) (simp_all add: maintains_def)
qed

lemma own_broadcast_handlers:
  "maintains (calls_only (own_copy u) None K) (broadcast_menu_body E u)"
  "maintains (calls_only (own_copy u) None K) (enter_no_ids_body E u)"
  "maintains (calls_only (own_copy u) None K) (selected_message_body E u)"
  "maintains (calls_only (own_copy u) None K) (subscriptions_body E u)"
proof -
  let ?P = "calls_only (own_copy u) None K"
  show "maintains ?P (broadcast_menu_body E u)"
    unfolding broadcast_menu_body_def Let_def
    by (intro maintains_intros own.maintains_call own_deletes own_session_ops)
  show "maintains ?P (enter_no_ids_body E u)"
    unfolding enter_no_ids_body_def Let_def
    by (intro maintains_intros own_deletes own_session_ops)
  show "maintains ?P (selected_message_body E u)"
    unfolding maintains_def
  proof (intro allI impI)
    fix s
    assume s: "?P s"
    have "maintains ?P (then_do (delete_user_message E (up_message u))
        (bindS (edit_broadcast_prompt_message E u c t kb) (\<lambda>_. goto q)))" for c t kb q
      by (intro maintains_intros own_deletes)
    with s own_preview [of u] show "?P (fst (selected_message_body E u s))"
      by (auto simp: selected_message_body_def Let_def maintains_def goto_def split: option.split)
  qed
  have chunks: "maintains ?P (send_chunks E c ts kb)" for c ts kb
  proof (induction ts rule: induct_list012)
    case (2 t)
    have "maintains ?P (\<lambda>s. send_chunks E c [t] kb s)"
      unfolding send_chunks.simps by (intro own.maintains_call answers_user_calls)
    then show ?case by simp
  next
    case (3 t t' ts)
    have "maintains ?P (\<lambda>s. send_chunks E c (t # t' # ts) kb s)"
      unfolding send_chunks.simps(3) by (intro maintains_intros own.maintains_call 3)
    then show ?case by simp
  qed (simp add: maintains_def)
  have "maintains ?P (show_chunks E query c ts)" for query c ts
    unfolding show_chunks_def
    by (cases ts rule: remdups_adj.cases) (auto intro!: maintains_intros own.maintains_call chunks)
  then show "maintains ?P (subscriptions_body E u)"
    unfolding subscriptions_body_def Let_def by (intro maintains_intros own.maintains_call)
qed

section \<open>The admin guard\<close>

definition authorized :: "update \<Rightarrow> bot \<Rightarrow> bool" where
  "authorized u s \<longleftrightarrow> (\<exists>i c. up_user u = Some i \<and> is_admin i s \<and> up_chat u = Some (c, PRIVATE))"

context bot_invariant
begin

lemma maintains_refusals: "maintains P (notify_not_authorized E u)" "maintains P (notify_private_chat_required E u)"
proof -
  have "maintains P (\<lambda>s. (case (m, c) of
      (Some (c, _), _) \<Rightarrow> tg_done E (SendMessage c t None) s
    | (None, Some (c, _)) \<Rightarrow> tg_done E (SendMessage c t None) s
    | (None, None) \<Rightarrow> (s, Inl AttributeError)))" for m :: "(int \<times> int) option" and c :: "(int \<times> chat_type) option" and t
    using maintains_call(2) by (auto simp: maintains_def split: option.split)
  then show "maintains P (notify_not_authorized E u)"
    unfolding notify_not_authorized_def by (intro maintains_intros)
  show "maintains P (notify_private_chat_required E u)"
    unfolding notify_private_chat_required_def by (intro maintains_intros)
qed

lemma refused:
  assumes "\<not> authorized u s" "P s"
  shows "P (fst (admin_only q f E u s))"
proof -
  have "maintains P (bindS (notify_not_authorized E u) (\<lambda>_. goto q))"
    "maintains P (bindS (notify_private_chat_required E u) (\<lambda>_. goto q))"
    by (intro maintains_intros maintains_refusals)+
  with assms show ?thesis
    by (auto simp: admin_only_def authorized_def maintains_def split: option.splits)
qed

lemma maintains_admin_only:
  assumes "maintains P (f E u)"
  shows "maintains P (admin_only q f E u)"
  unfolding maintains_def
proof (intro allI impI)
  fix s
  assume "P s"
  with assms refused [of u s q f E] show "P (fst (admin_only q f E u s))"
    by (cases "authorized u s") (auto simp: admin_only_def authorized_def maintains_def)
qed

end

definition admin_handlers :: "(bot_env \<Rightarrow> update \<Rightarrow> bot \<Rightarrow> bot \<times> states res) list" where
  "admin_handlers = [admin_menu, subscriptions, broadcast_menu, broadcast_all_prompt, broadcast_by_no,
     broadcast_all_message, broadcast_enter_no_ids_message, broadcast_selected_message]"

definition confirm_handlers :: "(bot_env \<Rightarrow> update \<Rightarrow> bot \<Rightarrow> bot \<times> states res) list" where
  "confirm_handlers = [broadcast_all_confirm, broadcast_selected_confirm]"

lemma conversation_table:
  "snd ` set (conversation_handlers q) \<subseteq> set subscription_handlers \<union> set admin_handlers \<union> set confirm_handlers"
  by (cases q) (simp_all add: subscription_handlers_def admin_handlers_def confirm_handlers_def)

lemma guarded: "h \<in> set admin_handlers \<union> set confirm_handlers \<Longrightarrow> \<exists>q f. h = admin_only q f"
  by (auto simp: admin_handlers_def confirm_handlers_def admin_menu_def subscriptions_def broadcast_menu_def
      broadcast_all_prompt_def broadcast_by_no_def broadcast_all_message_def
      broadcast_enter_no_ids_message_def broadcast_selected_message_def broadcast_all_confirm_def
      broadcast_selected_confirm_def)

lemma own_admin_handlers:
  assumes "h \<in> set admin_handlers"
  shows "maintains (calls_only (own_copy u) None K) (h E u)"
proof -
  let ?P = "calls_only (own_copy u) None K"
  have "maintains ?P (broadcast_menu E u)" "maintains ?P (broadcast_enter_no_ids_message E u)"
    "maintains ?P (broadcast_selected_message E u)" "maintains ?P (subscriptions E u)"
    unfolding broadcast_menu_def broadcast_enter_no_ids_message_def broadcast_selected_message_def
      subscriptions_def by (intro own.maintains_admin_only own_broadcast_handlers)+
  moreover have "maintains ?P (admin_menu E u)" "maintains ?P (broadcast_all_prompt E u)"
    unfolding admin_menu_def broadcast_all_prompt_def Let_def
    by (intro own.maintains_admin_only maintains_intros own.maintains_call own_deletes)+
  moreover have "maintains ?P (broadcast_by_no E u)"
    unfolding broadcast_by_no_def comp_def
    by (intro own.maintains_admin_only maintains_intros own.maintains_call own_deletes own_session_ops)
  moreover have "maintains ?P (broadcast_all_message E u)"
    unfolding broadcast_all_message_def
    by (intro own.maintains_admin_only maintains_intros own_preview)
  ultimately show ?thesis using assms unfolding admin_handlers_def by auto
qed

section \<open>Properties\<close>

text \<open>C33: nobody but an admin in a private chat can use the broadcast: whatever handler of the
  conversation gets the update of another user or chat, it only answers that user and leaves
  every broadcast session alone; and even an admin's updates copy messages to nobody but the
  admin, except by the two confirmations.\<close>

theorem broadcast_authorized:
  assumes "h \<in> set entry_points \<union> snd ` set (conversation_handlers q)" "update_ok u"
  shows "(\<not> authorized u s \<longrightarrow> bt_sessions (fst (h E u s)) = bt_sessions s \<and>
      (\<exists>calls. bt_calls (fst (h E u s)) = bt_calls s @ calls \<and> list_all answers_user calls)) \<and>
    (h \<notin> set confirm_handlers \<longrightarrow>
      (\<exists>calls. bt_calls (fst (h E u s)) = bt_calls s @ calls \<and>
         (\<forall>c f m. CopyMessage c f m \<in> set calls \<longrightarrow> resolve_chat_id u = Some c)))"
proof (intro conjI impI)
  have h: "h \<in> set subscription_handlers \<union> set admin_handlers \<union> set confirm_handlers"
    using assms(1) conversation_table [of q] by (auto simp: entry_points_def subscription_handlers_def)
  let ?Q = "calls_only answers_user (Some (bt_sessions s)) (bt_calls s)"
  have start: "?Q s" by (simp add: calls_only_def)
  have quiet: "?Q (fst (h E u s))" if "\<not> authorized u s"
    using h
  proof (elim UnE)
    assume "h \<in> set subscription_handlers"
    from quiet.maintains_subscription_handlers [OF assms(2) this] start
    show ?thesis by (simp add: maintains_def)
  qed (use guarded [of h] quiet.refused [OF that start] in auto)
  then show "bt_sessions (fst (h E u s)) = bt_sessions s"
    "\<exists>calls. bt_calls (fst (h E u s)) = bt_calls s @ calls \<and> list_all answers_user calls"
    if "\<not> authorized u s" using that by (auto simp: calls_only_def)
  assume no: "h \<notin> set confirm_handlers"
  let ?O = "calls_only (own_copy u) None (bt_calls s)"
  have "maintains ?O (h E u)"
    using h own.maintains_subscription_handlers [OF assms(2)] own_admin_handlers no by blast
  moreover have "?O s" by (simp add: calls_only_def)
  ultimately have "?O (fst (h E u s))" by (simp add: maintains_def)
  then show "\<exists>calls. bt_calls (fst (h E u s)) = bt_calls s @ calls \<and>
      (\<forall>c f m. CopyMessage c f m \<in> set calls \<longrightarrow> resolve_chat_id u = Some c)"
    by (force simp: calls_only_def own_copy_def list_all_iff)
qed

section \<open>A confirmation is used once\<close>

definition is_copy :: "tg_action \<Rightarrow> bool" where
  "is_copy a \<longleftrightarrow> (case a of CopyMessage c f m \<Rightarrow> True | _ \<Rightarrow> False)"

definition no_chat :: update where
  "no_chat = \<lparr>up_user = None, up_chat = None, up_message = None, up_query = None, up_member = None\<rparr>"

lemma own_copy_no_chat: "own_copy no_chat a \<longleftrightarrow> \<not> is_copy a"
  by (cases a) (simp_all add: own_copy_def no_chat_def resolve_chat_id_def is_copy_def)

text \<open>The admins are known and the preview of the user's session is used up.\<close>

definition spent :: "update \<Rightarrow> int set \<Rightarrow> bot \<Rightarrow> bool" where
  "spent u A s \<longleftrightarrow> bt_admins s = A \<and> se_preview_message (session_of u s) = None"

lemma spent_ops:
  assumes "spent u A s"
  shows "spent u A (s\<lparr>bt_calls := k\<rparr>)" "spent u A (store_prompt u r s)" "spent u A (clear_selected_ids u s)"
    "spent u A (ignore_reply E a s)"
  using assms by (simp_all add: spent_def session_of_def store_prompt_def set_session_def
      clear_selected_ids_def ignore_reply_def tg_try_def split: tg_reply.split)

interpretation sp: bot_invariant "spent u A" for u A
  by unfold_locales (auto simp: spent_ops spent_def session_of_def set_followed_def)

lemma spent_prompt: "maintains (spent u A) (edit_query_prompt E u t kb)"
proof -
  have "maintains (spent u A) (\<lambda>s. (store_prompt u r s, Inr ()))" for r
    by (simp add: maintains_def spent_ops)
  then show ?thesis unfolding edit_query_prompt_def by (intro maintains_intros sp.maintains_call)
qed

lemma copy_loop:
  "broadcast_copy_to_chats E cs f m s = (s', sent, failed) \<Longrightarrow>
   s' = s\<lparr>bt_calls := bt_calls s @ map (\<lambda>c. CopyMessage c f m) cs\<rparr> \<and> sent + failed = length cs"
proof (induction cs arbitrary: s s' sent failed)
  case (Cons c cs)
  let ?s = "s\<lparr>bt_calls := bt_calls s @ [CopyMessage c f m]\<rparr>"
  obtain t a b where r: "broadcast_copy_to_chats E cs f m ?s = (t, a, b)"
    by (metis prod_cases3)
  from Cons.IH [OF r] Cons.prems r show ?case
    by (auto simp: tg_try_def split: if_splits)
qed simp

lemma send_broadcast_effect:
  assumes "spent u A s" "\<And>s. spent u A s \<Longrightarrow> spent u A (after s)" "\<And>s. bt_calls (after s) = bt_calls s"
    and copies_def: "copies = (if T = {} then [] else map (\<lambda>c. CopyMessage c f m) (so_chats (be_order E) T))"
  shows "spent u A (fst (send_broadcast E u T f m t res after q s)) \<and>
    (\<exists>tail. bt_calls (fst (send_broadcast E u T f m t res after q s)) = bt_calls s @ copies @ tail \<and>
      (\<forall>a \<in> set tail. \<not> is_copy a))"
proof -
  define s1 where "s1 = ignore_reply E (DeleteMessage f m)
    (if T = {} then s else after (s\<lparr>bt_calls := bt_calls s @ copies\<rparr>))"
  have s1: "spent u A s1" "bt_calls s1 = bt_calls s @ copies @ [DeleteMessage f m]"
    using assms by (auto simp: s1_def spent_ops ignore_reply_def tg_try_def)
  have run: "\<exists>t'. send_broadcast E u T f m t res after q s =
      bindS (edit_query_prompt E u t' (back_markup E)) (\<lambda>_. goto q) s1"
  proof (cases "T = {}")
    case False
    obtain s' a b where r: "broadcast_copy_to_chats E (so_chats (be_order E) T) f m s = (s', a, b)"
      by (metis prod_cases3)
    from copy_loop [OF r] False r show ?thesis
      by (auto simp: send_broadcast_def s1_def copies_def)
  qed (auto simp: send_broadcast_def then_do_def s1_def)
  have spent: "maintains (spent u A) (bindS (edit_query_prompt E u t' (back_markup E)) (\<lambda>_. goto q))" for t'
    by (intro maintains_intros spent_prompt)
  have calls: "maintains (calls_only (own_copy no_chat) None (bt_calls s1))
      (bindS (edit_query_prompt E u t' (back_markup E)) (\<lambda>_. goto q))" for t'
    by (intro maintains_intros own_prompts)
  have "calls_only (own_copy no_chat) None (bt_calls s1) s1" by (simp add: calls_only_def)
  with run spent calls s1(1) have
    "spent u A (fst (send_broadcast E u T f m t res after q s))"
    "calls_only (own_copy no_chat) None (bt_calls s1) (fst (send_broadcast E u T f m t res after q s))"
    unfolding maintains_def by metis+
  then show ?thesis using s1(2) unfolding calls_only_def
    by (auto simp: own_copy_no_chat list_all_iff is_copy_def)
qed

lemma admin_only_authorized: "authorized u s \<Longrightarrow> admin_only q f E u s = f E u s"
  by (auto simp: admin_only_def authorized_def)

lemma second_press:
  assumes "authorized u s" "spent u (bt_admins s) t" "up_query u \<noteq> None" "h \<in> set confirm_handlers"
  shows "\<exists>q. h E u t = expired E q t"
proof -
  have none: "consume_confirmation u cb t = (t, None)" for cb
    using assms(2) by (auto simp: consume_confirmation_def consume_preview_def spent_def Let_def
        split: option.split)
  have a: "authorized u t" using assms(1,2) by (simp add: authorized_def is_admin_def spent_def)
  show ?thesis
    using assms(3,4) none admin_only_authorized [OF a]
    by (auto simp: confirm_handlers_def broadcast_all_confirm_def broadcast_selected_confirm_def
        all_confirm_body_def selected_confirm_body_def Let_def)
qed

lemma expired_calls:
  "bt_calls (fst (expired E q t)) = bt_calls t @ [AnswerQuery (Some ''This confirmation has expired.'')]"
  by (simp add: expired_def bindS_def tg_done_def tg_call_def tg_try_def goto_def)

lemma consume_confirmation_cleared:
  "consume_confirmation u cb s = (s1, Some p) \<Longrightarrow> s1 = clear_preview u s"
  by (auto simp: consume_confirmation_def consume_preview_def Let_def split: option.splits if_splits)

text \<open>What happens after the confirmation was taken.\<close>

lemma confirmed_effect:
  assumes "s1 = clear_preview u s" "\<And>A s. spent u A s \<Longrightarrow> spent u A (after s)" "\<And>s. bt_calls (after s) = bt_calls s"
    and run: "fst (h E u s) = fst (bindS (tg_done E (AnswerQuery None)) (\<lambda>_.
      send_broadcast E u T f m t res after q) s1)"
  shows "spent u (bt_admins s) (fst (h E u s)) \<and>
    (\<exists>calls. bt_calls (fst (h E u s)) = bt_calls s @ calls \<and>
      filter is_copy calls = (if tg_failed (be_tg E (bt_calls s) (AnswerQuery None)) \<or> T = {} then []
         else map (\<lambda>c. CopyMessage c f m) (so_chats (be_order E) T)))"
proof -
  let ?A = "bt_admins s" and ?copies = "if T = {} then [] else map (\<lambda>c. CopyMessage c f m) (so_chats (be_order E) T)"
  let ?s2 = "s1\<lparr>bt_calls := bt_calls s @ [AnswerQuery None]\<rparr>"
  have s1: "bt_calls s1 = bt_calls s" "spent u ?A ?s2"
    by (simp_all add: assms(1) clear_preview_def set_session_def spent_def session_of_def)
  have call: "tg_done E (AnswerQuery None) s1 = (?s2,
      if tg_failed (be_tg E (bt_calls s) (AnswerQuery None)) then Inl TelegramFailure else Inr ())"
    by (simp add: tg_done_def bindS_def tg_call_def tg_try_def s1)
  show ?thesis
  proof (cases "tg_failed (be_tg E (bt_calls s) (AnswerQuery None))")
    case True
    then have "fst (h E u s) = ?s2" by (simp add: run bindS_def call)
    with s1(2) True show ?thesis by (simp add: is_copy_def)
  next
    case False
    then have r: "fst (h E u s) = fst (send_broadcast E u T f m t res after q ?s2)"
      by (simp add: run bindS_def call)
    from send_broadcast_effect [where T = T and f = f and m = m and E = E and t = t and res = res and q = q,
        OF s1(2) assms(2,3) refl] obtain rest where
      e: "spent u ?A (fst (send_broadcast E u T f m t res after q ?s2))"
      "bt_calls (fst (send_broadcast E u T f m t res after q ?s2)) = bt_calls ?s2 @ ?copies @ rest"
      "\<forall>a \<in> set rest. \<not> is_copy a" by blast
    have "filter is_copy ([AnswerQuery None] @ ?copies @ rest) = ?copies"
      using e(3) by (simp add: is_copy_def filter_empty_conv comp_def)
    with e False show ?thesis unfolding r
      by (intro conjI exI [of _ "[AnswerQuery None] @ ?copies @ rest"]) simp_all
  qed
qed

text \<open>C34: a confirmation sends the preview exactly once to every chat that follows an operator, or
  one of the selected operators, unless answering the button fails; and pressing the same
  button again only says that the confirmation has expired.\<close>

theorem broadcast_confirm_once:
  assumes "authorized u s" "up_query u \<noteq> None"
    and "consume_confirmation u cb s = (s1, Some (f, m))"
    and "(h, cb, ids) = (broadcast_all_confirm, CB_ADMIN_BROADCAST_CONFIRM_ALL, operator_ids (bs_operators (bt_store s))) \<or>
      (h, cb, Some ids) = (broadcast_selected_confirm, CB_ADMIN_BROADCAST_CONFIRM_SELECTED,
         se_selected (session_of u s)) \<and> ids \<noteq> {}"
    and targets: "T = resolve_target_chats (bt_store s) ids"
  shows "\<exists>calls. bt_calls (fst (h E u s)) = bt_calls s @ calls \<and>
      filter is_copy calls =
        (if tg_failed (be_tg E (bt_calls s) (AnswerQuery None)) \<or> T = {} then []
         else map (\<lambda>c. CopyMessage c f m) (so_chats (be_order E) T)) \<and>
      bt_calls (fst (h E u (fst (h E u s)))) =
        bt_calls (fst (h E u s)) @ [AnswerQuery (Some ''This confirmation has expired.'')]"
proof -
  let ?C = "if tg_failed (be_tg E (bt_calls s) (AnswerQuery None)) \<or> T = {} then []
     else map (\<lambda>c. CopyMessage c f m) (so_chats (be_order E) T)"
  note s1 = consume_confirmation_cleared [OF assms(3)]
  have same: "bt_store s1 = bt_store s" by (simp add: s1 clear_preview_def set_session_def)
  have store: "bt_store (fst (tg_done E a s1)) = bt_store s" for a
    by (simp add: tg_done_def bindS_def tg_call_def tg_try_def same)
  have seq: "fst (bindS (tg_done E a) (\<lambda>_ s. g (bt_store s) s) s1) = fst (bindS (tg_done E a) (\<lambda>_. g (bt_store s)) s1)"
    for a and g :: "bot_storage \<Rightarrow> bot \<Rightarrow> bot \<times> states res"
    using store [of a] by (cases "tg_done E a s1") (auto simp: bindS_def split: sum.split)
  have "h \<in> set confirm_handlers \<and> spent u (bt_admins s) (fst (h E u s)) \<and>
    (\<exists>calls. bt_calls (fst (h E u s)) = bt_calls s @ calls \<and> filter is_copy calls = ?C)"
    using assms(4)
  proof (elim disjE conjE)
    assume k: "(h, cb, ids) = (broadcast_all_confirm, CB_ADMIN_BROADCAST_CONFIRM_ALL,
      operator_ids (bs_operators (bt_store s)))"
    have "\<exists>t res q. fst (h E u s) = fst (bindS (tg_done E (AnswerQuery None)) (\<lambda>_.
        send_broadcast E u T f m t res (\<lambda>s. s) q) s1)"
      using k assms(2,3) seq [of _ "\<lambda>B. send_broadcast E u (resolve_target_chats B (operator_ids (bs_operators B))) f m _ _ _ _"]
      by (auto simp: broadcast_all_confirm_def admin_only_authorized [OF assms(1)] all_confirm_body_def targets)
    then obtain t res q where run: "fst (h E u s) = fst (bindS (tg_done E (AnswerQuery None)) (\<lambda>_.
        send_broadcast E u T f m t res (\<lambda>s. s) q) s1)" by blast
    have "h \<in> set confirm_handlers" using k by (simp add: confirm_handlers_def)
    then show ?thesis by (rule conjI) (rule confirmed_effect [where h = h and after = "\<lambda>s. s", OF s1 _ _ run]; simp)
  next
    assume k: "(h, cb, Some ids) = (broadcast_selected_confirm, CB_ADMIN_BROADCAST_CONFIRM_SELECTED,
      se_selected (session_of u s))" "ids \<noteq> {}"
    then have sel: "se_selected (session_of u s) = Some ids" by simp
    have "\<exists>t res q. fst (h E u s) = fst (bindS (tg_done E (AnswerQuery None)) (\<lambda>_.
        send_broadcast E u T f m t res (clear_selected_ids u) q) s1)"
      using k assms(2,3) seq [of _ "\<lambda>B. send_broadcast E u (resolve_target_chats B ids) f m _ _ _ _"]
      by (auto simp: broadcast_selected_confirm_def admin_only_authorized [OF assms(1)] selected_confirm_body_def
          targets resolve_target_chats_for_node_operators_def sel)
    then obtain t res q where run: "fst (h E u s) = fst (bindS (tg_done E (AnswerQuery None)) (\<lambda>_.
        send_broadcast E u T f m t res (clear_selected_ids u) q) s1)" by blast
    have "bt_calls (clear_selected_ids u s) = bt_calls s" for s
      by (simp add: clear_selected_ids_def set_session_def)
    note e = confirmed_effect [where h = h and after = "clear_selected_ids u", OF s1 spent_ops(3) this run]
    have "h \<in> set confirm_handlers" using k by (simp add: confirm_handlers_def)
    then show ?thesis by (rule conjI) (rule e)
  qed
  moreover from this obtain q where "h E u (fst (h E u s)) = expired E q (fst (h E u s))"
    using second_press [OF assms(1) _ assms(2)] by blast
  ultimately show ?thesis using expired_calls by auto
qed

section \<open>Chunks of a report\<close>

lemma cut_line_bounded:
  assumes "0 < limit" "length line \<le> k" "\<forall>c \<in> set parts. length c \<le> limit" "length current \<le> limit"
    "cut_line k limit current parts line = (ps, cur, l)"
  shows "(\<forall>c \<in> set ps. length c \<le> limit) \<and> length cur \<le> limit \<and> length l \<le> limit"
  using assms
proof (induction k limit current parts line rule: cut_line.induct)
  case (1 limit current parts line)
  then show ?case by simp
next
  case (2 k limit current parts line)
  show ?case
  proof (cases "length line \<le> limit")
    case True
    with 2(6) have "ps = parts" "cur = current" "l = line" by simp_all
    with True 2(4,5) show ?thesis by blast
  next
    case False
    let ?parts = "(if current \<noteq> [] then parts @ [current] else parts) @ [take limit line]"
    show ?thesis
    proof (rule 2(1) [OF False 2(2)])
      show "length (drop limit line) \<le> k" using 2(2,3) False by simp
      show "\<forall>c \<in> set ?parts. length c \<le> limit" using 2(4,5) by simp
      show "length [] \<le> limit" by simp
      show "cut_line k limit [] ?parts (drop limit line) = (ps, cur, l)"
        using 2(6) unfolding cut_line.simps if_not_P [OF False] .
    qed
  qed
qed

lemma chunk_lines_bounded:
  assumes "0 < limit" "\<forall>c \<in> set parts. length c \<le> limit" "length current \<le> limit"
  shows "\<forall>c \<in> set (chunk_lines limit ls parts current). length c \<le> limit"
  using assms(2,3)
proof (induction ls arbitrary: parts current)
  case Nil
  then show ?case by (cases "current = []") simp_all
next
  case (Cons l ls)
  obtain ps cur line where cut: "cut_line (length l) limit current parts l = (ps, cur, line)"
    by (metis prod_cases3)
  have b: "\<forall>c \<in> set ps. length c \<le> limit" "length cur \<le> limit" "length line \<le> limit"
    using cut_line_bounded [OF assms(1) le_refl Cons.prems cut] by blast+
  have step: "chunk_lines limit (l # ls) parts current =
      (if cur = [] then chunk_lines limit ls ps line
       else if length cur + 1 + length line \<le> limit then chunk_lines limit ls ps (cur @ ''\<newline>'' @ line)
       else chunk_lines limit ls (ps @ [cur]) line)"
    unfolding chunk_lines.simps cut Let_def prod.case ..
  show ?case
  proof (cases "cur = []")
    case True
    then show ?thesis unfolding step if_P [OF True] by (intro Cons.IH b)
  next
    case False
    have b1: "\<forall>c \<in> set (ps @ [cur]). length c \<le> limit" using b by simp
    show ?thesis
    proof (cases "length cur + 1 + length line \<le> limit")
      case True
      then have "length (cur @ ''\<newline>'' @ line) \<le> limit" by simp
      from Cons.IH [OF b(1) this] True False show ?thesis unfolding step by (simp only: if_False if_True)
    next
      case no: False
      from Cons.IH [OF b1 b(3)] no False show ?thesis unfolding step by (simp only: if_False)
    qed
  qed
qed

text \<open>Every chunk of a report fits into a message, whatever the lines of the report are, and no
  character other than line breaks is lost or reordered.\<close>

theorem chunks_fit:
  assumes "0 < limit"
  shows "(\<forall>c \<in> set (chunk_text limit t). length c \<le> limit) \<and>
    filter (\<lambda>x. x \<noteq> CHR 0x0A) (concat (chunk_text limit t)) = filter (\<lambda>x. x \<noteq> CHR 0x0A) t"
proof
  show "\<forall>c \<in> set (chunk_text limit t). length c \<le> limit"
    using chunk_lines_bounded [OF assms, of "[]" "[]"] by (simp add: chunk_text_def)
  let ?f = "filter (\<lambda>x. x \<noteq> CHR 0x0A)"
  have cut: "?f (concat ps @ cur @ l) = ?f (concat parts @ current @ line)"
    if "cut_line k limit current parts line = (ps, cur, l)" for k current parts line ps cur l
    using that
  proof (induction k limit current parts line rule: cut_line.induct)
    case (2 k limit current parts line)
    show ?case
    proof (cases "length line \<le> limit")
      case True
      with 2(2) show ?thesis by simp
    next
      case False
      let ?parts = "(if current \<noteq> [] then parts @ [current] else parts) @ [take limit line]"
      have "cut_line k limit [] ?parts (drop limit line) = (ps, cur, l)"
        using 2(2) unfolding cut_line.simps if_not_P [OF False] .
      from 2(1) [OF False this] have "?f (concat ps @ cur @ l) = ?f (concat ?parts @ drop limit line)"
        by (simp only: append_Nil)
      also have "concat ?parts @ drop limit line = concat parts @ current @ line" by simp
      finally show ?thesis .
    qed
  qed simp
  have "?f (concat (chunk_lines limit ls parts current)) = ?f (concat parts @ current @ concat ls)"
    for ls parts current
  proof (induction ls arbitrary: parts current)
    case (Cons l ls)
    obtain ps cur line where c: "cut_line (length l) limit current parts l = (ps, cur, line)"
      by (metis prod_cases3)
    have "?f (concat (chunk_lines limit (l # ls) parts current)) = ?f (concat ps @ cur @ line @ concat ls)"
      unfolding chunk_lines.simps c Let_def prod.case
      by (simp only: if_distrib [of "\<lambda>x. ?f (concat x)"] Cons.IH) simp
    also have "\<dots> = ?f (concat ps @ cur @ line) @ ?f (concat ls)" by simp
    also have "\<dots> = ?f (concat parts @ current @ concat (l # ls))" unfolding cut [OF c] by simp
    finally show ?case .
  qed simp
  moreover have "?f (concat (py_split (CHR 0x0A) t)) = ?f t"
    by (induction t) (auto split: list.splits)
  ultimately show "?f (concat (chunk_text limit t)) = ?f t" by (simp add: chunk_text_def)
qed

section \<open>Witnesses\<close>

definition admin_session :: user_session where
  "admin_session = \<lparr>se_prompt_chat = Some 1, se_prompt_message = Some 9, se_selected = None,
     se_preview_chat = Some 1, se_preview_message = Some 11\<rparr>"

definition confirm_update :: "int \<Rightarrow> update" where
  "confirm_update i = \<lparr>up_user = Some i, up_chat = Some (i, PRIVATE), up_message = None,
     up_query = Some \<lparr>qu_data = Some ''10:11'', qu_message = Some (1, 9)\<rparr>, up_member = None\<rparr>"

definition admin_bot :: bot where
  "admin_bot = sample_bot\<lparr>bt_sessions := (bt_sessions sample_bot)(1 := admin_session)\<rparr>"

lemma broadcast_authorized_witness:
  "bt_sessions (fst (broadcast_all_confirm sample_env (confirm_update 2) admin_bot)) = bt_sessions admin_bot"
proof -
  have "broadcast_all_confirm \<in> set entry_points \<union> snd ` set (conversation_handlers ADMIN_BROADCAST_MESSAGE_ALL)"
    by simp
  moreover have "update_ok (confirm_update 2)" by (simp add: update_ok_def confirm_update_def)
  moreover have "\<not> authorized (confirm_update 2) admin_bot"
    by (simp add: authorized_def confirm_update_def is_admin_def admin_bot_def sample_bot_def)
  ultimately show ?thesis using broadcast_authorized by blast
qed

lemma broadcast_confirm_once_witness:
  "\<exists>calls. bt_calls (fst (broadcast_all_confirm sample_env (confirm_update 1) admin_bot)) = calls \<and>
     filter is_copy calls = [CopyMessage 1 1 11]"
proof -
  let ?u = "confirm_update 1"
  have a: "authorized ?u admin_bot" "up_query ?u \<noteq> None"
    by (simp_all add: authorized_def confirm_update_def is_admin_def admin_bot_def sample_bot_def)
  have id: "confirmation_preview_message_id (Some ''10:11'') CB_ADMIN_BROADCAST_CONFIRM_ALL = Some 11"
    by code_simp
  have c: "consume_confirmation ?u CB_ADMIN_BROADCAST_CONFIRM_ALL admin_bot = (clear_preview ?u admin_bot, Some (1, 11))"
    using id by (simp add: consume_confirmation_def consume_preview_def confirm_update_def
        session_of_def admin_bot_def admin_session_def)
  have T: "resolve_target_chats (bt_store admin_bot) (operator_ids (bs_operators (bt_store admin_bot))) = {1}"
    by (auto simp: resolve_target_chats_def resolve_targets_def operator_ids_def admin_bot_def sample_bot_def
        chats_at_def actual_chat_ids_def delivery_store_def)
  have ok: "\<not> tg_failed (be_tg sample_env (bt_calls admin_bot) (AnswerQuery None))"
    by (simp add: sample_env_def tg_failed_def)
  have o: "so_chats (be_order sample_env) {1} = [1]" by (simp add: sample_env_def sample_order_def)
  have "bt_calls admin_bot = []" by (simp add: admin_bot_def sample_bot_def)
  with broadcast_confirm_once [OF a c disjI1 [OF refl] refl] T ok o show ?thesis by auto
qed

lemma chunks_fit_witness: "list_all (\<lambda>c. length c \<le> 3) (chunk_text 3 ''abcdefgh'')"
  using chunks_fit [of 3 "''abcdefgh''"] by (simp add: list_all_iff)

end
