(* ===== verification/Chain_Lock.thy ===== *)
theory Chain_Lock
  imports Py_Prelude
begin

text \<open>
  The shared reads connection, \<open>sentinel/chain.py\<close>: one asyncio task at a time holds a reentrant
  lease on it, and closing waits for the active reader. A step is what one task does between
  two awaits; the phases of the tasks say where each of them is suspended. The asyncio lock
  lets one waiting task in when it is free, in any order. Whether the provider is connected and
  whether connecting raises are given with the step.
\<close>

section \<open>State and steps\<close>

datatype phase =
    Idle
  | Waiting
  | Connecting
  | Reading
  | CloseWaiting
  | Closing

record chain =
  cn_locked :: bool
  cn_owner :: "nat option"
  cn_depth :: nat
  cn_closed :: bool
  cn_phase :: "nat \<Rightarrow> phase"

definition mk_chain :: chain where
  "mk_chain = \<lparr>cn_locked = False, cn_owner = None, cn_depth = 0, cn_closed = False, cn_phase = (\<lambda>_. Idle)\<rparr>"

definition at_phase :: "nat \<Rightarrow> phase \<Rightarrow> chain \<Rightarrow> chain" where
  "at_phase t p s = s\<lparr>cn_phase := (cn_phase s)(t := p)\<rparr>"

text \<open>
  \<open>__aenter__\<close> up to its first suspension: the owner goes deeper, a closed connection raises,
  any other task waits for the lease.
\<close>

definition chain_enter :: "nat \<Rightarrow> chain \<Rightarrow> chain \<times> unit res" where
  "chain_enter t s =
     (if cn_owner s = Some t then (s\<lparr>cn_depth := cn_depth s + 1\<rparr>, Inr ())
      else if cn_closed s then (s, Inl RuntimeError)
      else (at_phase t Waiting s, Inr ()))"

definition release_lease :: "chain \<Rightarrow> chain" where
  "release_lease s = s\<lparr>cn_owner := None, cn_depth := 0, cn_locked := False\<rparr>"

definition chain_acquired :: "nat \<Rightarrow> chain \<Rightarrow> chain \<times> unit res" where
  "chain_acquired t s =
     (if cn_closed s then (at_phase t Idle s, Inl RuntimeError)
      else (at_phase t Connecting (s\<lparr>cn_locked := True, cn_owner := Some t, cn_depth := 1\<rparr>), Inr ()))"

definition chain_connected :: "nat \<Rightarrow> bool res \<Rightarrow> unit res \<Rightarrow> chain \<Rightarrow> chain \<times> unit res" where
  "chain_connected t is_connected connect s =
     (case (case is_connected of Inl e \<Rightarrow> Inl e | Inr c \<Rightarrow> if c then Inr () else connect) of
        Inr _ \<Rightarrow> (at_phase t Reading s, Inr ())
      | Inl e \<Rightarrow> (at_phase t Idle (release_lease s), Inl e))"

definition chain_exit :: "nat \<Rightarrow> chain \<Rightarrow> chain \<times> unit res" where
  "chain_exit t s =
     (if cn_owner s \<noteq> Some t \<or> cn_depth s = 0 then (s, Inl RuntimeError)
      else if cn_depth s - 1 > 0 then (s\<lparr>cn_depth := cn_depth s - 1\<rparr>, Inr ())
      else (at_phase t Idle (release_lease s), Inr ()))"

definition chain_close :: "nat \<Rightarrow> chain \<Rightarrow> chain \<times> unit res" where
  "chain_close t s =
     (if cn_owner s = Some t then (s, Inl RuntimeError)
      else (at_phase t CloseWaiting (s\<lparr>cn_closed := True\<rparr>), Inr ()))"

definition chain_close_acquired :: "nat \<Rightarrow> chain \<Rightarrow> chain" where
  "chain_close_acquired t s = at_phase t Closing (s\<lparr>cn_locked := True\<rparr>)"

text \<open>
  \<open>connected\<close> is what the provider answers to \<open>is_connected\<close>, \<open>disconnect\<close> what disconnecting does.
  The lease is released whichever of the two raises.
\<close>

definition chain_close_done :: "nat \<Rightarrow> bool res \<Rightarrow> unit res \<Rightarrow> chain \<Rightarrow> chain \<times> unit res" where
  "chain_close_done t connected disconnect s =
     (at_phase t Idle (s\<lparr>cn_locked := False\<rparr>),
      case connected of Inl e \<Rightarrow> Inl e | Inr c \<Rightarrow> if c then disconnect else Inr ())"

text \<open>
  A task that is idle or reading may enter, exit or close; a waiting one gets the free lock or is
  cancelled; a connecting one gets the answer of the provider; a closing one finishes.
\<close>

datatype chain_act =
    Enter
  | Acquire
  | Connected "bool res" "unit res"
  | Exit
  | Close
  | CloseAcquire
  | CloseDone "bool res" "unit res"
  | Cancel

definition chain_step :: "nat \<Rightarrow> chain_act \<Rightarrow> chain \<Rightarrow> (chain \<times> unit res) option" where
  "chain_step t a s =
     (case (a, cn_phase s t) of
        (Enter, Idle) \<Rightarrow> Some (chain_enter t s)
      | (Enter, Reading) \<Rightarrow> Some (chain_enter t s)
      | (Acquire, Waiting) \<Rightarrow> if cn_locked s then None else Some (chain_acquired t s)
      | (Cancel, Waiting) \<Rightarrow> Some (at_phase t Idle s, Inr ())
      | (Connected b c, Connecting) \<Rightarrow> Some (chain_connected t b c s)
      | (Exit, Idle) \<Rightarrow> Some (chain_exit t s)
      | (Exit, Reading) \<Rightarrow> Some (chain_exit t s)
      | (Close, Idle) \<Rightarrow> Some (chain_close t s)
      | (Close, Reading) \<Rightarrow> Some (chain_close t s)
      | (CloseAcquire, CloseWaiting) \<Rightarrow> if cn_locked s then None else Some (chain_close_acquired t s, Inr ())
      | (Cancel, CloseWaiting) \<Rightarrow> Some (at_phase t Idle s, Inr ())
      | (CloseDone b c, Closing) \<Rightarrow> Some (chain_close_done t b c s)
      | _ \<Rightarrow> None)"

inductive chain_reach :: "chain \<Rightarrow> bool" where
  init: "chain_reach mk_chain"
| step: "chain_reach s \<Longrightarrow> chain_step t a s = Some (s', r) \<Longrightarrow> chain_reach s'"

section \<open>Invariant\<close>

definition holds_lease :: "chain \<Rightarrow> nat \<Rightarrow> bool" where
  "holds_lease s t \<longleftrightarrow> cn_phase s t \<in> {Connecting, Reading, Closing}"

text \<open>
  Either nobody holds the lease, or exactly one task does: as the owner while it connects or
  reads, without an owner while it closes.
\<close>

definition lease_free :: "chain \<Rightarrow> bool" where
  "lease_free s \<longleftrightarrow>
     \<not> cn_locked s \<and> cn_owner s = None \<and> cn_depth s = 0 \<and> (\<forall>u. \<not> holds_lease s u)"

definition lease_held :: "nat \<Rightarrow> chain \<Rightarrow> bool" where
  "lease_held t s \<longleftrightarrow>
     cn_locked s \<and> holds_lease s t \<and> (\<forall>u. holds_lease s u \<longrightarrow> u = t) \<and>
     (if cn_phase s t = Closing then cn_owner s = None \<and> cn_depth s = 0
      else cn_owner s = Some t \<and> cn_depth s > 0)"

definition chain_inv :: "chain \<Rightarrow> bool" where
  "chain_inv s \<longleftrightarrow>
     (lease_free s \<or> (\<exists>t. lease_held t s)) \<and>
     (\<forall>t. cn_phase s t = CloseWaiting \<or> cn_phase s t = Closing \<longrightarrow> cn_closed s)"

lemma chain_inv_init: "chain_inv mk_chain"
  by (simp add: chain_inv_def lease_free_def mk_chain_def holds_lease_def)

lemmas chain_defs = chain_enter_def chain_acquired_def chain_connected_def chain_exit_def chain_close_def
  chain_close_acquired_def chain_close_done_def at_phase_def release_lease_def

lemma holds_lease_update:
  "holds_lease (at_phase t p s) u \<longleftrightarrow> (if u = t then p \<in> {Connecting, Reading, Closing} else holds_lease s u)"
  by (simp add: holds_lease_def at_phase_def)

text \<open>The closed flag is up while a task closes or waits to close, whatever step is made.\<close>

lemma closing_step:
  assumes "\<And>u. cn_phase s u = CloseWaiting \<or> cn_phase s u = Closing \<Longrightarrow> cn_closed s"
    and "chain_step t a s = Some (s', r)"
    and "cn_phase s' u = CloseWaiting \<or> cn_phase s' u = Closing"
  shows "cn_closed s'"
  using assms(2,3) assms(1)[of u] assms(1)[of t]
  by (cases a; cases "cn_phase s t")
    (auto simp: chain_step_def chain_defs split: if_splits sum.splits)

lemma lease_free_step:
  assumes "lease_free s" and "chain_step t a s = Some (s', r)"
  shows "lease_free s' \<or> lease_held t s'"
  using assms
  by (cases a; cases "cn_phase s t")
    (auto simp: lease_free_def lease_held_def holds_lease_def chain_step_def chain_defs split: if_splits)

text \<open>What a step of a task that does not hold the lease changes while another one does.\<close>

lemma step_beside:
  assumes "cn_locked s" "cn_owner s \<noteq> Some u" "\<not> holds_lease s u" "chain_step u a s = Some (s', r)"
  shows "cn_locked s' \<and> cn_owner s' = cn_owner s \<and> cn_depth s' = cn_depth s \<and>
    \<not> holds_lease s' u \<and> (\<forall>v. v \<noteq> u \<longrightarrow> cn_phase s' v = cn_phase s v)"
  using assms
  by (cases a; cases "cn_phase s u")
    (simp_all add: holds_lease_def chain_step_def chain_defs split: if_splits, (safe; simp)+)

lemma lease_held_step_other:
  assumes "lease_held k s" and "u \<noteq> k" and "chain_step u a s = Some (s', r)"
  shows "lease_held k s'"
proof -
  have "cn_owner s \<noteq> Some u" "cn_locked s" "\<not> holds_lease s u"
    using assms(1,2) by (auto simp: lease_held_def split: if_splits)
  note beside = step_beside[OF this(2,1,3) assms(3)]
  have "holds_lease s' v \<longleftrightarrow> holds_lease s v" for v
    using beside \<open>\<not> holds_lease s u\<close> by (cases "v = u") (simp_all add: holds_lease_def)
  then show ?thesis
    using assms(1) beside not_sym[OF assms(2)] by (simp add: lease_held_def)
qed

text \<open>A step of the holder: it keeps the lease in one of its phases, or gives it up.\<close>

lemma step_of_holder:
  assumes "cn_locked s" "holds_lease s t"
    "if cn_phase s t = Closing then cn_owner s = None \<and> cn_depth s = 0
     else cn_owner s = Some t \<and> cn_depth s > 0"
    "chain_step t a s = Some (s', r)"
  shows "(\<forall>v. v \<noteq> t \<longrightarrow> cn_phase s' v = cn_phase s v) \<and>
    (\<not> cn_locked s' \<and> cn_owner s' = None \<and> cn_depth s' = 0 \<and> \<not> holds_lease s' t \<or>
     cn_locked s' \<and> holds_lease s' t \<and>
     (if cn_phase s' t = Closing then cn_owner s' = None \<and> cn_depth s' = 0
      else cn_owner s' = Some t \<and> cn_depth s' > 0))"
  using assms
  by (cases a; cases "cn_phase s t")
    (auto simp: holds_lease_def chain_step_def chain_defs split: if_splits sum.splits)

lemma lease_held_step_own:
  assumes "lease_held t s" and "chain_step t a s = Some (s', r)"
  shows "lease_free s' \<or> lease_held t s'"
proof -
  have held: "cn_locked s" "holds_lease s t" "\<And>v. holds_lease s v \<Longrightarrow> v = t"
    "if cn_phase s t = Closing then cn_owner s = None \<and> cn_depth s = 0
     else cn_owner s = Some t \<and> cn_depth s > 0"
    using assms(1) by (auto simp: lease_held_def)
  note own = step_of_holder[OF held(1,2,4) assms(2)]
  have "holds_lease s' v \<Longrightarrow> v = t" for v
    using own held(3)[of v] by (cases "v = t") (simp_all add: holds_lease_def)
  then show ?thesis
    using own unfolding lease_free_def lease_held_def by metis
qed

lemma chain_inv_step:
  assumes "chain_inv s" and "chain_step t a s = Some (s', r)"
  shows "chain_inv s'"
proof -
  have "lease_free s' \<or> (\<exists>u. lease_held u s')"
    using assms lease_free_step[OF _ assms(2)] lease_held_step_own[OF _ assms(2)]
      lease_held_step_other[OF _ _ assms(2)] unfolding chain_inv_def by metis
  moreover have "cn_phase s' u = CloseWaiting \<or> cn_phase s' u = Closing \<Longrightarrow> cn_closed s'" for u
    using assms closing_step unfolding chain_inv_def by metis
  ultimately show ?thesis by (simp add: chain_inv_def)
qed

lemma chain_reach_inv: "chain_reach s \<Longrightarrow> chain_inv s"
  by (induction rule: chain_reach.induct) (auto intro: chain_inv_init chain_inv_step)

section \<open>Progress\<close>

fun chain_run :: "nat \<Rightarrow> chain_act list \<Rightarrow> chain \<Rightarrow> chain option" where
  "chain_run t [] s = Some s"
| "chain_run t (a # acts) s = (case chain_step t a s of None \<Rightarrow> None | Some (s', _) \<Rightarrow> chain_run t acts s')"

lemma chain_run_reach: "chain_reach s \<Longrightarrow> chain_run t acts s = Some s' \<Longrightarrow> chain_reach s'"
proof (induction acts arbitrary: s)
  case (Cons a acts)
  then obtain s1 r where "chain_step t a s = Some (s1, r)" "chain_run t acts s1 = Some s'"
    by (auto split: option.splits)
  then show ?case using Cons.IH chain_reach.step[OF Cons.prems(1)] by blast
qed simp

lemma exits_release:
  assumes "cn_owner s = Some t" "cn_phase s t = Reading" "cn_depth s = Suc n"
  shows "\<exists>s'. chain_run t (replicate (Suc n) Exit) s = Some s' \<and> \<not> cn_locked s' \<and>
    cn_closed s' = cn_closed s \<and> (\<forall>v. cn_phase s' v = (if v = t then Idle else cn_phase s v))"
  using assms
proof (induction n arbitrary: s)
  case 0
  then show ?case by (simp add: chain_step_def chain_exit_def at_phase_def release_lease_def)
next
  case (Suc n)
  let ?s = "s\<lparr>cn_depth := Suc n\<rparr>"
  have "chain_step t Exit s = Some (?s, Inr ())" using Suc.prems by (simp add: chain_step_def chain_exit_def)
  moreover have "\<exists>s'. chain_run t (replicate (Suc n) Exit) ?s = Some s' \<and> \<not> cn_locked s' \<and>
    cn_closed s' = cn_closed s \<and> (\<forall>v. cn_phase s' v = (if v = t then Idle else cn_phase s v))"
    using Suc.IH[of ?s] Suc.prems by (simp del: replicate_Suc cong: if_cong)
  ultimately show ?case by (simp only: replicate_Suc[of "Suc n"] chain_run.simps option.case prod.case)
qed

lemma holder_can_release:
  assumes "lease_held t s"
  shows "\<exists>acts s'. chain_run t acts s = Some s' \<and> \<not> cn_locked s' \<and>
    cn_closed s' = cn_closed s \<and> (\<forall>v. cn_phase s' v = (if v = t then Idle else cn_phase s v))"
proof -
  consider "cn_phase s t = Closing" | "cn_phase s t = Reading" | "cn_phase s t = Connecting"
  proof -
    have "holds_lease s t" using assms by (simp add: lease_held_def)
    then show ?thesis unfolding holds_lease_def using that by blast
  qed
  then show ?thesis
  proof cases
    case 1
    then show ?thesis
      by (intro exI[of _ "[CloseDone (Inr False) (Inr ())]"])
        (simp add: chain_step_def chain_close_done_def at_phase_def)
  next
    case 2
    then have "cn_owner s = Some t" "cn_depth s > 0" using assms by (simp_all add: lease_held_def)
    then obtain n where "cn_owner s = Some t" "cn_depth s = Suc n" by (metis gr0_conv_Suc)
    then show ?thesis using exits_release[OF _ 2] by blast
  next
    case 3
    then show ?thesis
      by (intro exI[of _ "[Connected (Inl RpcUnavailable) (Inr ())]"])
        (simp add: chain_step_def chain_connected_def at_phase_def release_lease_def)
  qed
qed

lemma reader_owns:
  assumes "chain_inv s" "cn_phase s t = Reading"
  shows "cn_owner s = Some t \<and> (\<forall>u. cn_phase s u \<noteq> Closing)"
proof -
  have "holds_lease s t" using assms(2) by (simp add: holds_lease_def)
  then have t: "lease_held t s" using assms(1) by (metis chain_inv_def lease_free_def lease_held_def)
  have "cn_phase s u \<noteq> Closing" for u
  proof
    assume u: "cn_phase s u = Closing"
    then have "holds_lease s u" by (simp add: holds_lease_def)
    then have "u = t" using t by (simp add: lease_held_def)
    then show False using u assms(2) by simp
  qed
  then show ?thesis using t assms(2) by (simp add: lease_held_def)
qed

text \<open>The lock can be freed without touching a task that waits for it.\<close>

lemma lock_can_be_freed:
  assumes "chain_inv s" "cn_phase s w = Waiting \<or> cn_phase s w = CloseWaiting"
  obtains k acts s' where "chain_run k acts s = Some s'" "\<not> cn_locked s'"
    "cn_closed s' = cn_closed s" "cn_phase s' w = cn_phase s w"
proof (cases "cn_locked s")
  case False
  show ?thesis by (rule that[of 0 "[]" s]) (simp_all add: False)
next
  case True
  then obtain k where k: "lease_held k s" using assms(1) by (auto simp: chain_inv_def lease_free_def)
  then have "holds_lease s k" by (simp add: lease_held_def)
  then have "w \<noteq> k" using assms(2) by (metis holds_lease_def insertE empty_iff phase.distinct)
  then show ?thesis using holder_can_release[OF k] that by metis
qed

lemma waiting_progress:
  assumes "chain_inv s" "cn_phase s w = Waiting"
  shows "\<exists>k acts s' s'' r. chain_run k acts s = Some s' \<and> cn_closed s' = cn_closed s \<and>
    chain_step w Acquire s' = Some (s'', r) \<and>
    (if cn_closed s then r = Inl RuntimeError \<and> cn_phase s'' w = Idle
     else r = Inr () \<and> cn_owner s'' = Some w \<and> cn_depth s'' = 1)"
proof -
  obtain k acts s' where run: "chain_run k acts s = Some s'" "\<not> cn_locked s'" "cn_closed s' = cn_closed s"
    "cn_phase s' w = Waiting" using lock_can_be_freed[OF assms(1)] assms(2) by metis
  obtain s'' r where q: "chain_acquired w s' = (s'', r)" by (cases "chain_acquired w s'")
  have "chain_step w Acquire s' = Some (s'', r)" using run q by (simp add: chain_step_def)
  moreover have "if cn_closed s then r = Inl RuntimeError \<and> cn_phase s'' w = Idle
     else r = Inr () \<and> cn_owner s'' = Some w \<and> cn_depth s'' = 1"
    using q run(3) by (auto simp: chain_acquired_def at_phase_def)
  ultimately show ?thesis using run(1,3) by blast
qed

lemma closing_progress:
  assumes "chain_inv s" "cn_phase s w = CloseWaiting"
  shows "\<exists>k acts s' s''. chain_run k acts s = Some s' \<and>
    chain_step w CloseAcquire s' = Some (s'', Inr ()) \<and> cn_phase s'' w = Closing"
proof -
  obtain k acts s' where run: "chain_run k acts s = Some s'" "\<not> cn_locked s'"
    "cn_phase s' w = CloseWaiting" using lock_can_be_freed[OF assms(1)] assms(2) by metis
  then have "chain_step w CloseAcquire s' = Some (chain_close_acquired w s', Inr ())"
    by (simp add: chain_step_def)
  moreover have "cn_phase (chain_close_acquired w s') w = Closing"
    by (simp add: chain_close_acquired_def at_phase_def)
  ultimately show ?thesis using run(1) by blast
qed

text \<open>C35: In every reachable state of the shared connection at most one task holds the lease; a task
  that reads is the recorded owner and no task closes the connection beside it; leaving without
  owning the lease, closing while owning it and entering a closed connection raise RuntimeError
  and change no lease. A task that waits to read or to close can never be stuck: either the lock
  is free, or its holder can release it by steps of its own, after which the waiting task gets the
  lock and, unless the connection is closed, the lease.\<close>

theorem chain_exclusive:
  assumes "chain_reach s"
  shows "(\<forall>t u. holds_lease s t \<and> holds_lease s u \<longrightarrow> t = u) \<and>
    (\<forall>t. cn_phase s t = Reading \<longrightarrow> cn_owner s = Some t \<and> (\<forall>u. cn_phase s u \<noteq> Closing)) \<and>
    (\<forall>t. cn_owner s \<noteq> Some t \<longrightarrow> chain_exit t s = (s, Inl RuntimeError)) \<and>
    (\<forall>t. cn_owner s = Some t \<longrightarrow> chain_close t s = (s, Inl RuntimeError)) \<and>
    (\<forall>t. cn_owner s \<noteq> Some t \<and> cn_closed s \<longrightarrow> chain_enter t s = (s, Inl RuntimeError)) \<and>
    (\<forall>w. cn_phase s w = Waiting \<longrightarrow>
      (\<exists>k acts s' s'' r. chain_run k acts s = Some s' \<and> cn_closed s' = cn_closed s \<and>
        chain_step w Acquire s' = Some (s'', r) \<and>
        (if cn_closed s then r = Inl RuntimeError \<and> cn_phase s'' w = Idle
         else r = Inr () \<and> cn_owner s'' = Some w \<and> cn_depth s'' = 1))) \<and>
    (\<forall>w. cn_phase s w = CloseWaiting \<longrightarrow>
      (\<exists>k acts s' s''. chain_run k acts s = Some s' \<and>
        chain_step w CloseAcquire s' = Some (s'', Inr ()) \<and> cn_phase s'' w = Closing))"
proof -
  have inv: "chain_inv s" by (rule chain_reach_inv[OF assms])
  then have "\<forall>t u. holds_lease s t \<and> holds_lease s u \<longrightarrow> t = u"
    unfolding chain_inv_def lease_free_def lease_held_def by metis
  then show ?thesis
    using reader_owns[OF inv] waiting_progress[OF inv] closing_progress[OF inv]
    by (intro conjI) (assumption | simp add: chain_exit_def chain_close_def chain_enter_def)+
qed

text \<open>Task 1 reads, two leases deep, while task 2 waits to read and task 3 waits to close.\<close>

definition busy_chain :: chain where
  "busy_chain = \<lparr>cn_locked = True, cn_owner = Some 1, cn_depth = 2, cn_closed = True,
     cn_phase = (\<lambda>_. Idle)(1 := Reading, 2 := Waiting, 3 := CloseWaiting)\<rparr>"

lemma busy_chain_reach: "chain_reach busy_chain"
proof -
  have "\<exists>s. chain_run 1 [Enter, Acquire, Connected (Inr False) (Inr ()), Enter] mk_chain = Some s \<and>
    (\<exists>s'. chain_run 2 [Enter] s = Some s' \<and> chain_run 3 [Close] s' = Some busy_chain)"
    by (simp add: chain_step_def chain_defs mk_chain_def busy_chain_def fun_upd_twist)
  then show ?thesis using chain_run_reach chain_reach.init by metis
qed

theorem chain_exclusive_witness:
  "cn_phase busy_chain 2 = Waiting \<and>
   (\<exists>k acts s' s'' r. chain_run k acts busy_chain = Some s' \<and> chain_step 2 Acquire s' = Some (s'', r) \<and>
     r = Inl RuntimeError) \<and> chain_exit 2 busy_chain = (busy_chain, Inl RuntimeError)"
proof -
  have w: "cn_phase busy_chain 2 = Waiting" "cn_closed busy_chain" "cn_owner busy_chain \<noteq> Some 2"
    by (simp_all add: busy_chain_def)
  note all = chain_exclusive[OF busy_chain_reach]
  have "\<exists>k acts s' s'' r. chain_run k acts busy_chain = Some s' \<and> cn_closed s' = cn_closed busy_chain \<and>
        chain_step 2 Acquire s' = Some (s'', r) \<and>
        (if cn_closed busy_chain then r = Inl RuntimeError \<and> cn_phase s'' 2 = Idle
         else r = Inr () \<and> cn_owner s'' = Some 2 \<and> cn_depth s'' = 1)"
    using all w(1) by blast
  then have "\<exists>k acts s' s'' r. chain_run k acts busy_chain = Some s' \<and>
    chain_step 2 Acquire s' = Some (s'', r) \<and> r = Inl RuntimeError"
    using w(2) by auto
  moreover have "chain_exit 2 busy_chain = (busy_chain, Inl RuntimeError)" using all w(3) by blast
  ultimately show ?thesis using w(1) by blast
qed

end
