(* ===== verification/Formatting.thy ===== *)
theory Formatting
  imports Delivery
begin

text \<open>
  Message markup, \<open>sentinel/modules/formatting.py\<close>: trees of Telegram MarkdownV2 nodes and their
  rendering, and the footers with links to the block explorer. \<open>escape_markdown\<close> belongs to
  python-telegram-bot: it is the parameter \<open>escaper\<close>, and \<open>escaper_ok\<close> states what its documentation
  and Telegram's promise. The second half is the contract the rendering has to meet: a scanner
  of MarkdownV2 as Telegram describes it, which rejects a message with a reserved character that
  is not escaped or an entity that is not closed.
\<close>

section \<open>Nodes and rendering\<close>

text \<open>A plain child is kept as the text \<open>str(node)\<close> gives.\<close>

datatype md =
    MdStr string
  | MdText "md list"
  | MdBold "md list"
  | MdCode "md list"
  | MdLink "md list" string

record escaper =
  esc_plain :: "string \<Rightarrow> string"
  esc_link :: "string \<Rightarrow> string"

fun as_markdown :: "escaper \<Rightarrow> md \<Rightarrow> string" where
  "as_markdown E (MdStr s) = esc_plain E s"
| "as_markdown E (MdText b) = concat (map (as_markdown E) b)"
| "as_markdown E (MdBold b) = ''*'' @ concat (map (as_markdown E) b) @ ''*''"
| "as_markdown E (MdCode b) = [CHR 0x60] @ concat (map (as_markdown E) b) @ [CHR 0x60]"
| "as_markdown E (MdLink b url) = ''['' @ concat (map (as_markdown E) b) @ '']('' @ esc_link E url @ '')''"

definition markdown :: "escaper \<Rightarrow> md list \<Rightarrow> string" where
  "markdown E args = as_markdown E (MdText args)"

definition nl :: "nat \<Rightarrow> string" where
  "nl x = replicate x (CHR 0x0A)"

definition transaction_footer :: "string \<Rightarrow> string \<Rightarrow> md" where
  "transaction_footer line tx_link =
     MdText [MdStr (nl 2), MdStr line, MdStr (nl 1), MdLink [MdStr ''Transaction''] tx_link]"

definition transaction_footer_tx_only :: "string \<Rightarrow> md" where
  "transaction_footer_tx_only tx_link = MdText [MdStr (nl 2), MdLink [MdStr ''Transaction''] tx_link]"

definition block_link_parts :: "(string \<times> string) list \<Rightarrow> md list res" where
  "block_link_parts links =
     (case links of
        [] \<Rightarrow> Inl IndexError
      | [(label, url)] \<Rightarrow> Inr [MdStr ''Block: '', MdLink [MdStr label] url]
      | (first_label, first_url) # rest \<Rightarrow>
          (case last rest of (last_label, last_url) \<Rightarrow>
             Inr [MdStr ''Blocks: '', MdLink [MdStr first_label] first_url, MdStr '' ... '',
                  MdLink [MdStr last_label] last_url]))"

definition block_footer :: "string \<Rightarrow> (string \<times> string) list \<Rightarrow> md res" where
  "block_footer line links = bindR (block_link_parts links) (\<lambda>ps.
     Inr (MdText ([MdStr (nl 2), MdStr line, MdStr (nl 1)] @ ps)))"

definition block_footer_tx_only :: "(string \<times> string) list \<Rightarrow> md res" where
  "block_footer_tx_only links = bindR (block_link_parts links) (\<lambda>ps. Inr (MdText (MdStr (nl 2) # ps)))"

section \<open>What Telegram accepts\<close>

definition md_reserved :: "char set" where
  "md_reserved = set ''_*[]()~>#+-=|{}.!'' \<union> {CHR 0x60, CHR 0x5C}"

definition link_reserved :: "char set" where
  "link_reserved = {CHR '')'', CHR 0x5C}"

definition escapable :: "char \<Rightarrow> bool" where
  "escapable c \<longleftrightarrow> 1 \<le> (of_char c :: nat) \<and> (of_char c :: nat) \<le> 126"

text \<open>
  \<open>t\<close> is an escaped form of \<open>s\<close>: its characters in order, every reserved one behind a backslash,
  and no other backslash than in front of a character that may be escaped.
\<close>

fun escapes :: "char set \<Rightarrow> string \<Rightarrow> string \<Rightarrow> bool" where
  "escapes R [] t = (t = [])"
| "escapes R (c # s) t =
     (case t of
        [] \<Rightarrow> False
      | d # t' \<Rightarrow>
          (d = c \<and> c \<notin> R \<and> escapes R s t') \<or>
          (d = CHR 0x5C \<and> escapable c \<and>
             (case t' of [] \<Rightarrow> False | e # u \<Rightarrow> e = c \<and> escapes R s u)))"

definition escaper_ok :: "escaper \<Rightarrow> bool" where
  "escaper_ok E \<longleftrightarrow> (\<forall>s. escapes md_reserved s (esc_plain E s) \<and> escapes link_reserved s (esc_link E s))"

datatype md_mode = InBold | InCode | InLink | InUrl string

datatype md_token = Shown char | BoldMark | CodeMark | LinkOpen | LinkClose string

abbreviation emit :: "md_token \<Rightarrow> md_token list option \<Rightarrow> md_token list option" where
  "emit x r \<equiv> map_option (Cons x) r"

text \<open>
  The entities of MarkdownV2 that the bot uses. Bold and links nest, each at most once; code
  stands on its own and holds no other entity. Pre-formatted blocks (three backquotes) are left
  out: no message has two code entities next to each other.
\<close>

fun scan :: "md_mode list \<Rightarrow> string \<Rightarrow> md_token list option" where
  "scan st [] = (if st = [] then Some [] else None)"
| "scan st (c # cs) =
     (if c = CHR 0x5C then
        (case cs of
           [] \<Rightarrow> None
         | d # ds \<Rightarrow>
             if \<not> escapable d then None
             else (case st of
                     InUrl u # st' \<Rightarrow> scan (InUrl (u @ [d]) # st') ds
                   | _ \<Rightarrow> emit (Shown d) (scan st ds)))
      else (case st of
          InUrl u # st' \<Rightarrow>
            if c = CHR '')'' then emit (LinkClose u) (scan st' cs)
            else scan (InUrl (u @ [c]) # st') cs
        | InCode # st' \<Rightarrow>
            if c = CHR 0x60 then emit CodeMark (scan st' cs) else emit (Shown c) (scan st cs)
        | _ \<Rightarrow>
            if c = CHR ''*'' then
              (if st \<noteq> [] \<and> hd st = InBold then emit BoldMark (scan (tl st) cs)
               else if InBold \<in> set st then None
               else emit BoldMark (scan (InBold # st) cs))
            else if c = CHR 0x60 then (if st = [] then emit CodeMark (scan [InCode] cs) else None)
            else if c = CHR ''['' then
              (if InLink \<in> set st then None else emit LinkOpen (scan (InLink # st) cs))
            else if c = CHR '']'' then
              (case cs of
                 d # ds \<Rightarrow> if st \<noteq> [] \<and> hd st = InLink \<and> d = CHR ''('' then scan (InUrl [] # tl st) ds else None
               | [] \<Rightarrow> None)
            else if c \<in> md_reserved then None
            else emit (Shown c) (scan st cs)))"

declare scan.simps [simp del]

section \<open>What a node shows\<close>

fun md_tokens :: "md \<Rightarrow> md_token list" where
  "md_tokens (MdStr s) = map Shown s"
| "md_tokens (MdText b) = concat (map md_tokens b)"
| "md_tokens (MdBold b) = BoldMark # concat (map md_tokens b) @ [BoldMark]"
| "md_tokens (MdCode b) = CodeMark # concat (map md_tokens b) @ [CodeMark]"
| "md_tokens (MdLink b url) = LinkOpen # concat (map md_tokens b) @ [LinkClose url]"

fun is_plain :: "md \<Rightarrow> bool" where
  "is_plain (MdStr s) = True"
| "is_plain _ = False"

text \<open>The flags say whether the node stands in bold text and whether it stands in a link.\<close>

fun md_wf :: "bool \<Rightarrow> bool \<Rightarrow> md \<Rightarrow> bool" where
  "md_wf b l (MdStr s) = True"
| "md_wf b l (MdText ns) = list_all (md_wf b l) ns"
| "md_wf b l (MdBold ns) = (\<not> b \<and> list_all (md_wf True l) ns)"
| "md_wf b l (MdCode ns) = (\<not> b \<and> \<not> l \<and> list_all is_plain ns)"
| "md_wf b l (MdLink ns url) = (\<not> l \<and> list_all (md_wf b True) ns)"

section \<open>Scanning a rendered node\<close>

lemma map_option_append_Nil [simp]: "map_option (append []) r = r"
  by (cases r) simp_all

lemma map_option_append_append [simp]:
  "map_option (append (xs @ ys)) r = map_option (append xs) (map_option (append ys) r)"
  by (cases r) simp_all

definition open_stack :: "md_mode list \<Rightarrow> bool" where
  "open_stack st \<longleftrightarrow> set st \<subseteq> {InBold, InLink}"

lemma backslash_reserved [simp]: "CHR 0x5C \<in> md_reserved" "CHR 0x5C \<in> link_reserved"
  by (simp_all add: md_reserved_def link_reserved_def)

lemma reserved_chars [simp]:
  "CHR ''*'' \<in> md_reserved" "CHR 0x60 \<in> md_reserved" "CHR ''['' \<in> md_reserved" "CHR '']'' \<in> md_reserved"
  "CHR '')'' \<in> link_reserved"
  by (simp_all add: md_reserved_def link_reserved_def)

lemma scan_escape:
  assumes "escapable c" and "st \<in> {[InCode]} \<or> open_stack st"
  shows "scan st (CHR 0x5C # c # rest) = emit (Shown c) (scan st rest)"
  using assms by (cases st rule: list.exhaust; cases "hd st")
    (auto simp: scan.simps(2) open_stack_def)

lemma scan_other:
  assumes "c \<notin> md_reserved" and "st \<in> {[InCode]} \<or> open_stack st"
  shows "scan st (c # rest) = emit (Shown c) (scan st rest)"
proof -
  have "c \<noteq> CHR 0x5C" "c \<noteq> CHR ''*''" "c \<noteq> CHR 0x60" "c \<noteq> CHR ''[''" "c \<noteq> CHR '']''"
    using assms(1) backslash_reserved(1) reserved_chars by metis+
  then show ?thesis
    using assms by (cases st rule: list.exhaust; cases "hd st")
      (auto simp: scan.simps(2) open_stack_def)
qed

lemma scan_escaped:
  assumes "escapes md_reserved s t" and "st \<in> {[InCode]} \<or> open_stack st"
  shows "scan st (t @ rest) = map_option (append (map Shown s)) (scan st rest)"
  using assms(1)
proof (induction s arbitrary: t)
  case (Cons c s)
  then obtain d t' where t: "t = d # t'" by (cases t) auto
  consider "d = c" "c \<notin> md_reserved" "escapes md_reserved s t'"
    | u where "d = CHR 0x5C" "escapable c" "t' = c # u" "escapes md_reserved s u"
    using Cons.prems t by (auto split: list.splits)
  then show ?case
  proof cases
    case 1
    then show ?thesis
      using scan_other[OF 1(2) assms(2)] Cons.IH[OF 1(3)] t by (simp add: option.map_comp comp_def)
  next
    case 2
    then show ?thesis
      using scan_escape[OF 2(2) assms(2)] Cons.IH[OF 2(4)] t by (simp add: option.map_comp comp_def)
  qed
qed simp

lemma scan_url:
  assumes "escapes link_reserved s t"
  shows "scan (InUrl u # st) (t @ CHR '')'' # rest) = emit (LinkClose (u @ s)) (scan st rest)"
  using assms
proof (induction s arbitrary: t u)
  case (Cons c s)
  then obtain d t' where t: "t = d # t'" by (cases t) auto
  consider "d = c" "c \<notin> link_reserved" "escapes link_reserved s t'"
    | v where "d = CHR 0x5C" "escapable c" "t' = c # v" "escapes link_reserved s v"
    using Cons.prems t by (auto split: list.splits)
  then show ?case
  proof cases
    case 1
    then have "c \<noteq> CHR 0x5C" "c \<noteq> CHR '')''" using backslash_reserved(2) reserved_chars(5) by metis+
    then show ?thesis using 1 Cons.IH[OF 1(3)] t by (simp add: scan.simps(2))
  next
    case 2
    then show ?thesis using Cons.IH[OF 2(4)] t by (simp add: scan.simps(2))
  qed
qed (simp add: scan.simps(2))

lemma scan_nodes:
  assumes "\<And>n rest. n \<in> set ns \<Longrightarrow>
      scan st (as_markdown E n @ rest) = map_option (append (md_tokens n)) (scan st rest)"
  shows "scan st (concat (map (as_markdown E) ns) @ rest) =
    map_option (append (concat (map md_tokens ns))) (scan st rest)"
  using assms by (induction ns) simp_all

lemma plain_nodes:
  assumes "escaper_ok E" "list_all is_plain ns"
  shows "scan [InCode] (concat (map (as_markdown E) ns) @ rest) =
    map_option (append (concat (map md_tokens ns))) (scan [InCode] rest)"
proof (rule scan_nodes)
  fix n rest assume "n \<in> set ns"
  then have "is_plain n" using assms(2) by (simp add: list_all_iff)
  then obtain s where "n = MdStr s" by (cases n) simp_all
  then show "scan [InCode] (as_markdown E n @ rest) = map_option (append (md_tokens n)) (scan [InCode] rest)"
    using scan_escaped[of s "esc_plain E s" "[InCode]"] assms(1) by (simp add: escaper_ok_def)
qed

lemma scan_bold:
  assumes "open_stack st" "InBold \<notin> set st"
  shows "scan st (CHR ''*'' # rest) = emit BoldMark (scan (InBold # st) rest)"
    and "scan (InBold # st) (CHR ''*'' # rest) = emit BoldMark (scan st rest)"
  using assms by (cases st rule: list.exhaust; cases "hd st"; auto simp: scan.simps(2) open_stack_def)+

lemma scan_code:
  "scan [] (CHR 0x60 # rest) = emit CodeMark (scan [InCode] rest)"
  "scan [InCode] (CHR 0x60 # rest) = emit CodeMark (scan [] rest)"
  by (simp_all add: scan.simps(2))

lemma scan_link:
  assumes "open_stack st" "InLink \<notin> set st"
  shows "scan st (CHR ''['' # rest) = emit LinkOpen (scan (InLink # st) rest)"
    and "scan (InLink # st) (CHR '']'' # CHR ''('' # rest) = scan (InUrl [] # st) rest"
  using assms by (cases st rule: list.exhaust; cases "hd st"; auto simp: scan.simps(2) open_stack_def)+

text \<open>Scanning a rendered node shows the node, whatever follows.\<close>

lemma scan_node:
  assumes "escaper_ok E" "open_stack st" "md_wf (InBold \<in> set st) (InLink \<in> set st) n"
  shows "scan st (as_markdown E n @ rest) = map_option (append (md_tokens n)) (scan st rest)"
  using assms(2,3)
proof (induction n arbitrary: st rest)
  case (MdStr s)
  then show ?case using scan_escaped assms(1) by (simp add: escaper_ok_def)
next
  case (MdText ns)
  then show ?case by (simp add: list_all_iff scan_nodes)
next
  case (MdBold ns)
  have "open_stack (InBold # st)" using MdBold.prems(1) by (simp add: open_stack_def)
  then have "scan (InBold # st) (concat (map (as_markdown E) ns) @ r) =
      map_option (append (concat (map md_tokens ns))) (scan (InBold # st) r)" for r
    using MdBold by (intro scan_nodes) (simp add: list_all_iff)
  then show ?case
    using scan_bold[OF MdBold.prems(1)] MdBold.prems(2) by (simp add: option.map_comp comp_def)
next
  case (MdCode ns)
  then have "st = []" "list_all is_plain ns"
    by (cases st; auto simp: open_stack_def)+
  then show ?case
    using plain_nodes[OF assms(1)] by (simp add: scan_code option.map_comp comp_def)
next
  case (MdLink ns url)
  have "open_stack (InLink # st)" using MdLink.prems(1) by (simp add: open_stack_def)
  then have "scan (InLink # st) (concat (map (as_markdown E) ns) @ r) =
      map_option (append (concat (map md_tokens ns))) (scan (InLink # st) r)" for r
    using MdLink by (intro scan_nodes) (simp add: list_all_iff)
  then show ?case
    using scan_link[OF MdLink.prems(1)] MdLink.prems(2) scan_url[of url "esc_link E url" "[]"] assms(1)
    by (simp add: option.map_comp comp_def escaper_ok_def)
qed

section \<open>Messages\<close>

text \<open>
  A complete message is accepted and shows links to addresses of a given set only; a part of a
  message can be followed by another one.
\<close>

fun md_links :: "md \<Rightarrow> string set" where
  "md_links (MdStr s) = {}"
| "md_links (MdText ns) = \<Union> (set (map md_links ns))"
| "md_links (MdBold ns) = \<Union> (set (map md_links ns))"
| "md_links (MdCode ns) = \<Union> (set (map md_links ns))"
| "md_links (MdLink ns url) = insert url (\<Union> (set (map md_links ns)))"

definition shown_links :: "md_token list \<Rightarrow> string set" where
  "shown_links ts = {u. LinkClose u \<in> set ts}"

definition message_ok :: "string set \<Rightarrow> string \<Rightarrow> bool" where
  "message_ok U m = (case scan [] m of None \<Rightarrow> False | Some ts \<Rightarrow> shown_links ts \<subseteq> U)"

definition message_part :: "string set \<Rightarrow> string \<Rightarrow> bool" where
  "message_part U m \<longleftrightarrow>
     (\<exists>ts. shown_links ts \<subseteq> U \<and> (\<forall>rest. scan [] (m @ rest) = map_option (append ts) (scan [] rest)))"

named_theorems message_intros \<open>composition of messages from parts\<close>

lemma shown_links_simps [simp]:
  "shown_links [] = {}"
  "shown_links (xs @ ys) = shown_links xs \<union> shown_links ys"
  "shown_links (Shown c # ts) = shown_links ts"
  "shown_links (BoldMark # ts) = shown_links ts"
  "shown_links (CodeMark # ts) = shown_links ts"
  "shown_links (LinkOpen # ts) = shown_links ts"
  "shown_links (LinkClose u # ts) = insert u (shown_links ts)"
  "shown_links (map Shown s) = {}"
  by (auto simp: shown_links_def)

lemma shown_links_concat [simp]: "shown_links (concat tss) = \<Union> (shown_links ` set tss)"
  by (induction tss) simp_all

lemma shown_links_tokens [simp]: "shown_links (md_tokens n) = md_links n"
  by (induction n) simp_all

lemma message_part_ok: "message_part U m \<Longrightarrow> message_ok U m"
proof -
  assume "message_part U m"
  then obtain ts where "shown_links ts \<subseteq> U" "\<forall>rest. scan [] (m @ rest) = map_option (append ts) (scan [] rest)"
    unfolding message_part_def by blast
  moreover from this have "scan [] m = Some ts" by (metis append.right_neutral list.simps(9) map_option_eq_Some scan.simps(1))
  ultimately show ?thesis by (simp add: message_ok_def)
qed

lemma message_part_append [message_intros]:
  assumes "message_part U m" "message_part U k"
  shows "message_part U (m @ k)"
proof -
  from assms obtain ts us where
    "shown_links ts \<subseteq> U" "\<forall>rest. scan [] (m @ rest) = map_option (append ts) (scan [] rest)"
    "shown_links us \<subseteq> U" "\<forall>rest. scan [] (k @ rest) = map_option (append us) (scan [] rest)"
    unfolding message_part_def by blast
  then show ?thesis unfolding message_part_def
    by (intro exI[of _ "ts @ us"]) simp
qed

lemma scan_markdown:
  assumes "escaper_ok E" "list_all (md_wf False False) ns"
  shows "scan [] (markdown E ns @ rest) = map_option (append (concat (map md_tokens ns))) (scan [] rest)"
  using scan_node[OF assms(1), of "[]" "MdText ns"] assms(2) by (simp add: markdown_def open_stack_def)

lemma message_part_markdown [message_intros]:
  assumes "escaper_ok E" "list_all (md_wf False False) ns" "\<Union> (set (map md_links ns)) \<subseteq> U"
  shows "message_part U (markdown E ns)"
  unfolding message_part_def
  by (rule exI[of _ "concat (map md_tokens ns)"]) (use scan_markdown[OF assms(1,2)] assms(3) in auto)

lemma message_part_node [message_intros]:
  assumes "escaper_ok E" "md_wf False False n" "md_links n \<subseteq> U"
  shows "message_part U (as_markdown E n)"
  using message_part_markdown[OF assms(1), of "[n]"] assms(2,3) by (simp add: markdown_def)

text \<open>The escaping that the documentations of Telegram and of the library describe.\<close>

definition documented_escaper :: escaper where
  "documented_escaper =
     \<lparr>esc_plain = (\<lambda>s. concat (map (\<lambda>c. if c \<in> md_reserved then [CHR 0x5C, c] else [c]) s)),
      esc_link = (\<lambda>s. concat (map (\<lambda>c. if c \<in> link_reserved then [CHR 0x5C, c] else [c]) s))\<rparr>"

lemma reserved_escapable: "c \<in> md_reserved \<Longrightarrow> escapable c" "c \<in> link_reserved \<Longrightarrow> escapable c"
  by (auto simp: md_reserved_def link_reserved_def escapable_def)

lemma escapes_documented:
  assumes "\<And>c. c \<in> R \<Longrightarrow> escapable c" "CHR 0x5C \<in> R"
  shows "escapes R s (concat (map (\<lambda>c. if c \<in> R then [CHR 0x5C, c] else [c]) s))"
  using assms by (induction s) auto

lemma documented_escaper_ok: "escaper_ok documented_escaper"
  using reserved_escapable by (simp add: escaper_ok_def documented_escaper_def escapes_documented)

text \<open>C23: a rendered message is accepted by Telegram and shows exactly its nodes: the characters
  of the plain texts in order, whatever they are, in bold, code or a link exactly where a node
  says so, and no other link.\<close>

theorem markdown_roundtrip:
  assumes "escaper_ok E" "list_all (md_wf False False) ns"
  shows "scan [] (markdown E ns) = Some (concat (map md_tokens ns))"
  using scan_markdown[OF assms, of "[]"] by (simp add: scan.simps(1))

lemma markdown_roundtrip_witness:
  "scan [] (markdown documented_escaper [MdStr ''a_b'', MdLink [MdStr ''](x)''] ''u)'']) =
     Some (map Shown ''a_b'' @ LinkOpen # map Shown ''](x)'' @ [LinkClose ''u)''])"
  using markdown_roundtrip[OF documented_escaper_ok, of "[MdStr ''a_b'', MdLink [MdStr ''](x)''] ''u)'']"]
  by simp

declare as_markdown.simps [simp del]

end
