(* ===== verification/Py_Stdlib.thy ===== *)
theory Py_Stdlib
  imports Py_Prelude
begin

text \<open>
  The parts of Python's standard library that the message handlers use: \<open>str.format\<close> with one
  positional argument, dates from Unix timestamps and their \<open>strftime\<close> text, and the text of a
  \<open>timedelta\<close>. A UTC \<open>datetime\<close> is its timestamp in seconds.
\<close>

section \<open>Formatting\<close>

text \<open>
  \<open>t.format(x)\<close>: the first \<open>{}\<close> is the argument, a second one has none (IndexError), a doubled
  brace stands for itself, a single one raises ValueError. Any other replacement field raises in
  Python or reads the argument in another way; it does not occur in the sources and raises
  KeyError here.
\<close>

fun format_fields :: "bool \<Rightarrow> string \<Rightarrow> string \<Rightarrow> string res" where
  "format_fields used [] x = Inr []"
| "format_fields used (c # cs) x =
     (if c = CHR ''{'' then
        (case cs of
           [] \<Rightarrow> Inl ValueError
         | d # ds \<Rightarrow>
             if d = CHR ''{'' then bindR (format_fields used ds x) (\<lambda>r. Inr (CHR ''{'' # r))
             else if d = CHR ''}'' then
               (if used then Inl IndexError else bindR (format_fields True ds x) (\<lambda>r. Inr (x @ r)))
             else Inl KeyError)
      else if c = CHR ''}'' then
        (case cs of
           [] \<Rightarrow> Inl ValueError
         | d # ds \<Rightarrow>
             if d = CHR ''}'' then bindR (format_fields used ds x) (\<lambda>r. Inr (CHR ''}'' # r))
             else Inl ValueError)
      else bindR (format_fields used cs x) (\<lambda>r. Inr (c # r)))"

definition str_format :: "string \<Rightarrow> string \<Rightarrow> string res" where
  "str_format t x = format_fields False t x"

text \<open>\<open>f"{n:02d}"\<close> for a number from 0 to 99.\<close>

definition two_digits :: "int \<Rightarrow> string" where
  "two_digits n = (if n < 10 then ''0'' @ int_str n else int_str n)"

section \<open>Dates\<close>

definition is_leap :: "int \<Rightarrow> bool" where
  "is_leap y \<longleftrightarrow> y mod 4 = 0 \<and> (y mod 100 \<noteq> 0 \<or> y mod 400 = 0)"

definition month_lengths :: "int \<Rightarrow> int list" where
  "month_lengths y = [31, if is_leap y then 29 else 28, 31, 30, 31, 30, 31, 31, 30, 31, 30, 31]"

text \<open>The year and the day of the year (from 0) of a day number, day 1 being 1 January of year 1.\<close>

definition year_of_ordinal :: "int \<Rightarrow> int \<times> int" where
  "year_of_ordinal n =
     (let d = n - 1; n400 = d div 146097; d = d mod 146097;
          n100 = d div 36524; d = d mod 36524;
          n4 = d div 1461; d = d mod 1461;
          n1 = d div 365; d = d mod 365;
          y = 400 * n400 + 100 * n100 + 4 * n4 + n1 + 1 in
      if n1 = 4 \<or> n100 = 4 then (y - 1, 365) else (y, d))"

fun month_day :: "int \<Rightarrow> int list \<Rightarrow> int \<Rightarrow> int \<times> int" where
  "month_day m [] d = (m, d + 1)"
| "month_day m (l # ls) d = (if d < l then (m, d + 1) else month_day (m + 1) ls (d - l))"

definition date_of_timestamp :: "int \<Rightarrow> int \<times> int \<times> int" where
  "date_of_timestamp t =
     (case year_of_ordinal (t div 86400 + 719163) of (y, d) \<Rightarrow>
        (case month_day 1 (month_lengths y) d of (m, k) \<Rightarrow> (y, m, k)))"

text \<open>
  \<open>datetime.fromtimestamp(t, UTC)\<close>: the years 1 to 9999. Python raises ValueError for a year out
  of range, and OverflowError or OSError for a timestamp the platform cannot convert: here
  ValueError throughout. Adding a timedelta that leaves the range raises OverflowError.
\<close>

definition in_date_range :: "int \<Rightarrow> bool" where
  "in_date_range t \<longleftrightarrow> - 62135596800 \<le> t \<and> t \<le> 253402300799"

definition from_timestamp :: "int \<Rightarrow> int res" where
  "from_timestamp t = (if in_date_range t then Inr t else Inl ValueError)"

text \<open>\<open>timedelta(seconds=s)\<close>: at most 999999999 days in either direction.\<close>

definition timedelta :: "int \<Rightarrow> int res" where
  "timedelta s = (if \<bar>s div 86400\<bar> \<le> 999999999 then Inr s else Inl OverflowError)"

definition add_timedelta :: "int \<Rightarrow> int \<Rightarrow> int res" where
  "add_timedelta t d = (if in_date_range (t + d) then Inr (t + d) else Inl OverflowError)"

definition weekday_names :: "string list" where
  "weekday_names = [''Mon'', ''Tue'', ''Wed'', ''Thu'', ''Fri'', ''Sat'', ''Sun'']"

definition month_names :: "string list" where
  "month_names = [''Jan'', ''Feb'', ''Mar'', ''Apr'', ''May'', ''Jun'', ''Jul'', ''Aug'', ''Sep'', ''Oct'',
     ''Nov'', ''Dec'']"

text \<open>\<open>strftime("%a %d %b %Y, %I:%M%p UTC")\<close> in the C locale.\<close>

definition strftime_utc :: "int \<Rightarrow> string" where
  "strftime_utc t =
     (case date_of_timestamp t of (y, m, d) \<Rightarrow>
        let s = t mod 86400; h = s div 3600; minute = s mod 3600 div 60;
            h12 = (if h mod 12 = 0 then 12 else h mod 12) in
        weekday_names ! nat ((t div 86400 + 3) mod 7) @ '' '' @ two_digits d @ '' '' @
        month_names ! nat (m - 1) @ '' '' @ int_str y @ '', '' @ two_digits h12 @ '':'' @
        two_digits minute @ (if h < 12 then ''AM'' else ''PM'') @ '' UTC'')"

text \<open>\<open>str(timedelta(seconds=s))\<close>.\<close>

definition timedelta_str :: "int \<Rightarrow> string" where
  "timedelta_str s =
     (let days = s div 86400; r = s mod 86400 in
      (if days = 0 then []
       else int_str days @ '' day'' @ (if \<bar>days\<bar> = 1 then [] else ''s'') @ '', '') @
      int_str (r div 3600) @ '':'' @ two_digits (r mod 3600 div 60) @ '':'' @ two_digits (r mod 60))"

section \<open>Lemmas\<close>

lemma format_plain:
  "CHR ''{'' \<notin> set p \<Longrightarrow> CHR ''}'' \<notin> set p \<Longrightarrow>
   format_fields used (p @ t) x = bindR (format_fields used t x) (\<lambda>r. Inr (p @ r))"
proof (induction p)
  case Nil
  then show ?case by (cases "format_fields used t x") simp_all
next
  case (Cons c p)
  then show ?case by (cases "format_fields used t x") auto
qed

text \<open>A template that ends in its only field puts the argument there, whatever it contains.\<close>

lemma str_format_suffix:
  "CHR ''{'' \<notin> set p \<Longrightarrow> CHR ''}'' \<notin> set p \<Longrightarrow> str_format (p @ ''{}'') x = Inr (p @ x)"
  by (simp add: str_format_def format_plain)

text \<open>The calendar on the days of the first leap century year, of the epoch and of today's years.\<close>

lemma strftime_samples:
  "strftime_utc 0 = ''Thu 01 Jan 1970, 12:00AM UTC''"
  "strftime_utc 951782400 = ''Tue 29 Feb 2000, 12:00AM UTC''"
  "strftime_utc 1704067199 = ''Sun 31 Dec 2023, 11:59PM UTC''"
  "timedelta_str 90061 = ''1 day, 1:01:01''"
  by code_simp+

end
