(* ===== verification/Message_Texts.thy ===== *)
theory Message_Texts
  imports Formatting Py_Stdlib
begin

text \<open>
  What the message templates of both module types share: the glyphs of the titles, the records
  the handlers pass to the templates (\<open>modules/curated/operator_groups.py\<close> among them), the event
  catalog of \<open>modules/catalog.py\<close>, and the facts that carry the lemmas on the templates. A glyph
  is written as its UTF-8 bytes.
\<close>

section \<open>Glyphs and constants\<close>

definition utf8 :: "nat list \<Rightarrow> string" where
  "utf8 bs = map char_of bs"

definition emoji_siren :: string where "emoji_siren = utf8 [240, 159, 154, 168]"
definition emoji_info :: string where "emoji_info = utf8 [226, 132, 185, 239, 184, 143]"
definition emoji_check :: string where "emoji_check = utf8 [226, 156, 133]"
definition emoji_eyes :: string where "emoji_eyes = utf8 [240, 159, 145, 128]"
definition emoji_stars :: string where "emoji_stars = utf8 [240, 159, 164, 169]"
definition emoji_key :: string where "emoji_key = utf8 [240, 159, 148, 145]"
definition emoji_phew :: string where
  "emoji_phew = utf8 [240, 159, 152, 174, 226, 128, 141, 240, 159, 146, 168]"
definition emoji_chart :: string where "emoji_chart = utf8 [240, 159, 147, 136]"
definition emoji_warning :: string where "emoji_warning = utf8 [226, 154, 160, 239, 184, 143]"
definition emoji_party :: string where "emoji_party = utf8 [240, 159, 142, 137]"

text \<open>\<open>web3.constants.ADDRESS_ZERO\<close>, and \<open>cfg.module_ui_url or ""\<close>.\<close>

definition ADDRESS_ZERO :: string where
  "ADDRESS_ZERO = ''0x'' @ replicate 40 (CHR ''0'')"

definition ui_url :: "string option \<Rightarrow> string" where
  "ui_url ui = (case ui of None \<Rightarrow> '''' | Some u \<Rightarrow> u)"

section \<open>What the templates get\<close>

record exit_request =
  er_key :: string
  er_key_url :: string
  er_request_date :: string
  er_exit_until :: string

record withdrawal =
  wd_key :: string
  wd_key_url :: string
  wd_balance :: string
  wd_slashing_penalty :: string

definition no_slashing_penalty :: "withdrawal \<Rightarrow> bool" where
  "no_slashing_penalty w \<longleftrightarrow> wd_slashing_penalty w \<in> {''0 ether'', ''0 wei''}"

record operator_allocation =
  oa_operator :: int
  oa_share :: int
  oa_effective_weight :: int
  oa_weighted_share :: int

record group_change =
  gc_operator :: int
  gc_label :: string
  gc_old :: "operator_allocation option"
  gc_new :: "operator_allocation option"

definition mk_group_change ::
  "int \<Rightarrow> string \<Rightarrow> operator_allocation option \<Rightarrow> operator_allocation option \<Rightarrow> group_change res" where
  "mk_group_change i l old new =
     (if old = None \<and> new = None then Inl ValueError
      else Inr \<lparr>gc_operator = i, gc_label = l, gc_old = old, gc_new = new\<rparr>)"

text \<open>The lines of a list: a line break in front of every entry but the first.\<close>

fun join_lines :: "md list list \<Rightarrow> md list" where
  "join_lines [] = []"
| "join_lines [ps] = ps"
| "join_lines (ps # pss) = ps @ MdStr (nl 1) # join_lines pss"

text \<open>\<open>s.rstrip("0")\<close>.\<close>

definition rstrip_zeros :: "string \<Rightarrow> string" where
  "rstrip_zeros s = rev (dropWhile (\<lambda>c. c = CHR ''0'') (rev s))"

section \<open>The event catalog\<close>

record event_definition =
  ed_name :: string
  ed_description :: string
  ed_group_title :: string

definition mk_event_definition :: "string \<Rightarrow> string \<Rightarrow> string \<Rightarrow> event_definition" where
  "mk_event_definition n d g = \<lparr>ed_name = n, ed_description = d, ed_group_title = g\<rparr>"

definition group_event_catalog :: "event_definition list \<Rightarrow> (string \<times> event_definition list) list" where
  "group_event_catalog catalog = group_by ed_group_title catalog"

definition event_list_group ::
  "string set \<Rightarrow> (string \<times> string) list \<Rightarrow> string \<times> event_definition list \<Rightarrow> md list" where
  "event_list_group names descriptions g =
     (case g of (title, events) \<Rightarrow>
        let active = filter (\<lambda>e. ed_name e \<in> names) events;
            description = (case map_of descriptions title of None \<Rightarrow> '''' | Some d \<Rightarrow> d) in
        if active = [] then []
        else [MdBold [MdStr title], MdStr (nl 1)] @
             (if description = [] then [] else [MdStr description, MdStr (nl 1)]) @
             concat (map (\<lambda>e. [MdStr (ed_description e), MdStr (nl 1)]) active) @ [MdStr (nl 2)])"

definition build_grouped_event_list_text ::
  "escaper \<Rightarrow> string set \<Rightarrow> event_definition list \<Rightarrow> (string \<times> string) list \<Rightarrow> string" where
  "build_grouped_event_list_text E names catalog descriptions =
     markdown E
       ([MdStr ''Here is the list of events you will receive notifications for:'', MdStr (nl 1),
         MdStr (''A '' @ emoji_siren @ '' means urgent action is required from you''), MdStr (nl 2)] @
        concat (map (event_list_group names descriptions) (group_event_catalog catalog)))"

section \<open>Lemmas\<close>

text \<open>What a list of nodes needs: well-formed nodes whose links are known.\<close>

definition nodes_ok :: "string set \<Rightarrow> md list \<Rightarrow> bool" where
  "nodes_ok U ns \<longleftrightarrow> list_all (\<lambda>n. md_wf False False n \<and> md_links n \<subseteq> U) ns"

lemma nodes_ok_simps [simp]:
  "nodes_ok U []"
  "nodes_ok U (n # ns) \<longleftrightarrow> md_wf False False n \<and> md_links n \<subseteq> U \<and> nodes_ok U ns"
  "nodes_ok U (ms @ ns) \<longleftrightarrow> nodes_ok U ms \<and> nodes_ok U ns"
  by (auto simp: nodes_ok_def)

lemma nodes_ok_concat [simp]: "nodes_ok U (concat nss) \<longleftrightarrow> list_all (nodes_ok U) nss"
  by (induction nss) simp_all

lemma nodes_ok_join_lines [simp]: "nodes_ok U (join_lines nss) \<longleftrightarrow> list_all (nodes_ok U) nss"
  by (induction nss rule: join_lines.induct) auto

lemma enumerate_entry: "(i, x) \<in> set (enumerate n xs) \<Longrightarrow> x \<in> set xs"
  by (induction xs arbitrary: n) auto

lemma nodes_ok_text:
  "nodes_ok U ns \<Longrightarrow> md_wf False False (MdText ns) \<and> md_links (MdText ns) \<subseteq> U"
  by (induction ns) auto

lemma nodes_ok_MdText: "nodes_ok U ns \<Longrightarrow> nodes_ok U [MdText ns]"
  using nodes_ok_text[of U ns] by simp

lemma markdown_message:
  "escaper_ok E \<Longrightarrow> nodes_ok U ns \<Longrightarrow> message_part U (markdown E ns)"
  using message_part_markdown[of E ns U] nodes_ok_text[of U ns] by simp

lemma event_list_message:
  assumes "escaper_ok E"
  shows "message_part U (build_grouped_event_list_text E names catalog descriptions)"
proof -
  have "nodes_ok U (event_list_group names descriptions g)" for g
    by (cases g) (simp add: event_list_group_def Let_def list_all_iff)
  then show ?thesis
    unfolding build_grouped_event_list_text_def
    by (intro markdown_message[OF assms]) (simp add: list_all_iff)
qed

end
