(* ===== verification/Community_Texts.thy ===== *)
theory Community_Texts
  imports Message_Texts
begin

text \<open>
  The message templates, the event catalog and the footers of the Community module,
  \<open>sentinel/modules/community/texts.py\<close>. \<open>E\<close> escapes, \<open>C\<close> gives \<open>str()\<close> of a value and
  \<open>ui\<close> is the configured address of the module's user interface; an argument a handler passes on from the event is a
  \<open>pyval\<close>, a formatted one a string.
\<close>

definition EXIT_GUIDE_URL :: string where
  "EXIT_GUIDE_URL =
     ''https://dvt-homestaker.stakesaurus.com/bonded-validators-setup/lido-csm/exiting-csm-validators''"

definition community_KEY_MANAGEMENT :: string where
  "community_KEY_MANAGEMENT = ''Key Management Events:''"

definition community_ADDRESS_AND_REWARD_CHANGES :: string where
  "community_ADDRESS_AND_REWARD_CHANGES = ''Address and Reward Changes:''"

definition community_SLASHING_AND_STEALING :: string where
  "community_SLASHING_AND_STEALING = ''Slashing and Stealing Events:''"

definition community_WITHDRAWAL_AND_EXIT :: string where
  "community_WITHDRAWAL_AND_EXIT = ''Withdrawal and Exit Requests:''"

definition community_COMMON_CSM :: string where
  "community_COMMON_CSM = ''Common CSM Events for all the Node Operators:''"

definition community_GROUP_DESCRIPTIONS :: "(string \<times> string) list" where
  "community_GROUP_DESCRIPTIONS = [
     (community_KEY_MANAGEMENT,
      ''Changes related to keys and their status.''),
     (community_ADDRESS_AND_REWARD_CHANGES,
      ''Changes or proposals regarding management and reward addresses.''),
     (community_SLASHING_AND_STEALING,
      ''Alerts for validator status and delayed penalties.''),
     (community_WITHDRAWAL_AND_EXIT,
      ''Notifications for exit requests and confirmation of exits.''),
     (community_COMMON_CSM,
      '''')]"

definition COMMUNITY_EVENT_CATALOG :: "event_definition list" where
  "COMMUNITY_EVENT_CATALOG = [
     mk_event_definition ''VettedSigningKeysCountDecreased''
       (''- '' @ emoji_siren @ '' Invalid or duplicated keys has been uploaded'') community_KEY_MANAGEMENT,
     mk_event_definition ''DepositedSigningKeysCountChanged''
       (''- '' @ emoji_stars @ '' Node Operator'' @ [CHR 0x27] @ ''s keys received deposits'') community_KEY_MANAGEMENT,
     mk_event_definition ''TotalSigningKeysCountChanged''
       (''- '' @ emoji_eyes @ '' New keys uploaded or removed'') community_KEY_MANAGEMENT,
     mk_event_definition ''KeyRemovalChargeApplied''
       (''- '' @ emoji_key @ '' Applied charge for key removal'') community_KEY_MANAGEMENT,
     mk_event_definition ''KeyAllocatedBalanceChanged''
       (''- '' @ emoji_eyes @ '' Key balance increased'') community_KEY_MANAGEMENT,
     mk_event_definition ''BondCurveSet''
       (''- '' @ emoji_info @ '' Node Operator type changed'') community_KEY_MANAGEMENT,
     mk_event_definition ''TargetValidatorsCountChanged''
       (''- '' @ emoji_siren @ '' Target validators count changed'') community_KEY_MANAGEMENT,
     mk_event_definition ''NodeOperatorManagerAddressChangeProposed''
       (''- '' @ emoji_info @ '' New manager address proposed'') community_ADDRESS_AND_REWARD_CHANGES,
     mk_event_definition ''NodeOperatorManagerAddressChanged''
       (''- '' @ emoji_check @ '' Manager address changed'') community_ADDRESS_AND_REWARD_CHANGES,
     mk_event_definition ''NodeOperatorRewardAddressChangeProposed''
       (''- '' @ emoji_info @ '' New rewards address proposed'') community_ADDRESS_AND_REWARD_CHANGES,
     mk_event_definition ''NodeOperatorRewardAddressChanged''
       (''- '' @ emoji_check @ '' Rewards address changed'') community_ADDRESS_AND_REWARD_CHANGES,
     mk_event_definition ''CustomRewardsClaimerSet''
       (''- '' @ emoji_info @ '' Custom rewards claimer changed'') community_ADDRESS_AND_REWARD_CHANGES,
     mk_event_definition ''FeeSplitsSet''
       (''- '' @ emoji_info @ '' Fee splits changed'') community_ADDRESS_AND_REWARD_CHANGES,
     mk_event_definition ''GeneralDelayedPenaltyReported''
       (''- '' @ emoji_siren @ '' General delayed penalty reported'') community_SLASHING_AND_STEALING,
     mk_event_definition ''GeneralDelayedPenaltySettled''
       (''- '' @ emoji_siren @ '' General delayed penalty confirmed and applied'') community_SLASHING_AND_STEALING,
     mk_event_definition ''GeneralDelayedPenaltyCancelled''
       (''- '' @ emoji_phew @ '' Cancelled general delayed penalty'') community_SLASHING_AND_STEALING,
     mk_event_definition ''GeneralDelayedPenaltyCompensated''
       (''- '' @ emoji_check @ '' General delayed penalty compensated'') community_SLASHING_AND_STEALING,
     mk_event_definition ''ValidatorSlashingReported''
       (''- '' @ emoji_siren @ '' Validator slashing reported'') community_SLASHING_AND_STEALING,
     mk_event_definition ''BondDebtIncreased''
       (''- '' @ emoji_siren @ '' Bond debt increased'') community_SLASHING_AND_STEALING,
     mk_event_definition ''BondDebtCovered''
       (''- '' @ emoji_check @ '' Bond debt covered'') community_SLASHING_AND_STEALING,
     mk_event_definition ''BondLockRemoved''
       (''- '' @ emoji_check @ '' Bond lock removed'') community_SLASHING_AND_STEALING,
     mk_event_definition ''ValidatorExitRequest''
       (''- '' @ emoji_siren @ '' One of the validators requested to exit'') community_WITHDRAWAL_AND_EXIT,
     mk_event_definition ''ValidatorExitDelayProcessed''
       (''- '' @ emoji_siren @ '' Exit delay processed; penalty queued for withdrawal'') community_WITHDRAWAL_AND_EXIT,
     mk_event_definition ''TriggeredExitFeeRecorded''
       (''- '' @ emoji_siren @ '' Triggered exit fee recorded; penalty will be charged on exit'') community_WITHDRAWAL_AND_EXIT,
     mk_event_definition ''StrikesPenaltyProcessed''
       (''- '' @ emoji_siren @ '' Strikes penalty processed; validator exited for poor performance'') community_WITHDRAWAL_AND_EXIT,
     mk_event_definition ''ValidatorWithdrawn''
       (''- '' @ emoji_eyes @ '' Validator withdrawal confirmed'') community_WITHDRAWAL_AND_EXIT,
     mk_event_definition ''DistributionLogUpdated''
       (''- '' @ emoji_chart @ '' New rewards distributed'') community_COMMON_CSM]"

definition community_build_event_list_text :: "escaper \<Rightarrow> string set \<Rightarrow> string" where
  "community_build_event_list_text E names =
     build_grouped_event_list_text E names COMMUNITY_EVENT_CATALOG community_GROUP_DESCRIPTIONS"

definition community_format_basis_points_percent :: "int \<Rightarrow> string" where
  "community_format_basis_points_percent basis_points =
     (let whole = basis_points div 100; fraction = basis_points mod 100 in
      if fraction = 0 then int_str whole @ ''%''
      else rstrip_zeros (int_str whole @ ''.'' @ two_digits fraction) @ ''%'')"

definition community_fee_split_value :: "pyval \<Rightarrow> string \<Rightarrow> nat \<Rightarrow> pyval res" where
  "community_fee_split_value fee_split field index = read_field fee_split field index"

definition community_fee_split_line :: "codec \<Rightarrow> pyval \<Rightarrow> md list res" where
  "community_fee_split_line C fee_split =
     bindR (bindR (community_fee_split_value fee_split ''share'' 1) val_int) (\<lambda>share.
     bindR (community_fee_split_value fee_split ''recipient'' 0) (\<lambda>recipient.
       Inr [MdStr (''- '' @ community_format_basis_points_percent share @ '': ''),
            MdCode [MdStr (val_str C recipient)]]))"

definition community_format_fee_splits :: "codec \<Rightarrow> pyval \<Rightarrow> md res" where
  "community_format_fee_splits C fee_splits =
     (if \<not> truthy fee_splits then Inr (MdStr ''none'')
      else bindR (iter_vals fee_splits) (\<lambda>splits.
        bindR (mapR (community_fee_split_line C) splits) (\<lambda>lines. Inr (MdText (join_lines lines)))))"

definition community_fee_splits_title :: "pyval \<Rightarrow> pyval \<Rightarrow> string" where
  "community_fee_splits_title fee_splits previous_fee_splits =
     (if truthy fee_splits \<and> \<not> truthy previous_fee_splits then ''Fee splits set''
      else if \<not> truthy fee_splits \<and> truthy previous_fee_splits then ''Fee splits removed''
      else ''Fee splits changed'')"

definition community_shorten_validator_key_for_link :: "string \<Rightarrow> string" where
  "community_shorten_validator_key_for_link key =
     (if length key \<le> 22 then key else take 10 key @ ''...'' @ drop (length key - 8) key)"

definition community_format_validator_exit_requests :: "exit_request list \<Rightarrow> bool \<Rightarrow> bool \<Rightarrow> md" where
  "community_format_validator_exit_requests exit_requests include_exit_until include_request_date =
     MdText (join_lines (map (\<lambda>(index, r).
       [MdStr ''- '', MdStr ''Validator '', MdStr (nat_str index), MdStr '': '',
        MdLink [MdStr (community_shorten_validator_key_for_link (er_key r))] (er_key_url r)] @
       (if include_exit_until
        then [MdStr (nl 1), MdStr ''  Exit before: '', MdStr (er_exit_until r)] else []) @
       (if include_request_date
        then [MdStr (nl 1), MdStr ''  Request date: '', MdCode [MdStr (er_request_date r)]] else []))
       (enumerate 1 exit_requests)))"

definition community_event_transaction_footer ::
  "codec \<Rightarrow> pyval \<Rightarrow> string \<Rightarrow> md" where
  "community_event_transaction_footer C no_id tx_link =
     transaction_footer (''nodeOperatorId: '' @ val_str C no_id) tx_link"

definition community_event_transaction_footer_tx_only :: "string \<Rightarrow> md" where
  "community_event_transaction_footer_tx_only tx_link = transaction_footer_tx_only tx_link"

definition community_event_block_footer ::
  "codec \<Rightarrow> pyval \<Rightarrow> (string \<times> string) list \<Rightarrow> md res" where
  "community_event_block_footer C no_id block_links =
     block_footer (''nodeOperatorId: '' @ val_str C no_id) block_links"

definition community_event_block_footer_tx_only ::
  "(string \<times> string) list \<Rightarrow> md res" where
  "community_event_block_footer_tx_only block_links = block_footer_tx_only block_links"

definition community_deposited_signing_keys_count_changed :: "escaper \<Rightarrow> (string \<times> int \<times> int) list \<Rightarrow> string" where
  "community_deposited_signing_keys_count_changed E entries =
     markdown E ([MdStr (emoji_stars @ '' ''), MdBold [MdStr ''Deposit digest''], MdStr (nl 2),
        MdStr ''Node Operators:'', MdStr (nl 1)] @
       join_lines (map (\<lambda>(label, count_before, count).
         [MdStr ''- '', MdStr label, MdStr '': '',
          MdCode [MdStr (int_str count_before @ '' -> '' @ int_str count)]]) entries))"

definition community_general_delayed_penalty_cancelled ::
  "escaper \<Rightarrow> string \<Rightarrow> string" where
  "community_general_delayed_penalty_cancelled E remaining =
     (markdown E [MdStr (emoji_phew @ '' ''), MdBold [MdStr ''General delayed penalty cancelled''],
        MdStr (nl 2), MdStr ''Remaining amount: '', MdCode [MdStr remaining]])"

definition community_general_delayed_penalty_compensated ::
  "escaper \<Rightarrow> string \<Rightarrow> string" where
  "community_general_delayed_penalty_compensated E amount =
     (markdown E [MdStr (emoji_check @ '' ''),
        MdBold [MdStr ''General delayed penalty compensated''], MdStr (nl 2),
        MdStr ''Compensated amount: '', MdCode [MdStr amount]])"

definition community_general_delayed_penalty_reported ::
  "escaper \<Rightarrow> codec \<Rightarrow> string \<Rightarrow> string \<Rightarrow> pyval \<Rightarrow> string" where
  "community_general_delayed_penalty_reported E C amount additional_fine details =
     (markdown E [MdStr (emoji_siren @ '' ''), MdBold [MdStr ''General delayed penalty reported''],
        MdStr (nl 2), MdStr ''Penalty amount: '', MdCode [MdStr amount], MdStr (nl 1),
        MdStr ''Additional fine: '', MdCode [MdStr additional_fine], MdStr (nl 1),
        MdStr ''Details: '', MdCode [MdStr (val_str C details)]])"

definition community_general_delayed_penalty_settled ::
  "escaper \<Rightarrow> string \<Rightarrow> string" where
  "community_general_delayed_penalty_settled E amount =
     (markdown E [MdStr (emoji_siren @ '' ''),
        MdBold [MdStr ''General delayed penalty confirmed and applied''], MdStr (nl 2),
        MdStr ''Settled amount: '', MdCode [MdStr amount]])"

definition community_validator_slashing_reported ::
  "escaper \<Rightarrow> codec \<Rightarrow> string \<Rightarrow> string \<Rightarrow> pyval \<Rightarrow> string" where
  "community_validator_slashing_reported E C key key_url key_index =
     (markdown E [MdStr (emoji_siren @ '' ''), MdBold [MdStr ''Validator slashing reported''],
        MdStr (nl 2), MdStr ''Validator: '', MdLink [MdStr key] key_url, MdStr (nl 1),
        MdStr ''Key index: '', MdCode [MdStr (val_str C key_index)], MdStr (nl 2),
        MdStr ''Review the validator status and expected bond impact.''])"

definition community_bond_debt_increased :: "escaper \<Rightarrow> string \<Rightarrow> string" where
  "community_bond_debt_increased E amount =
     (markdown E [MdStr (emoji_siren @ '' ''), MdBold [MdStr ''Bond debt increased''],
        MdStr (nl 2), MdStr ''Debt increase: '', MdCode [MdStr amount], MdStr (nl 2),
        MdStr ''Future rewards or bond changes may be used to cover this debt.''])"

definition community_bond_debt_covered :: "escaper \<Rightarrow> string \<Rightarrow> string" where
  "community_bond_debt_covered E amount =
     (markdown E [MdStr (emoji_check @ '' ''), MdBold [MdStr ''Bond debt covered''], MdStr (nl 2),
        MdStr ''Covered amount: '', MdCode [MdStr amount]])"

definition community_custom_rewards_claimer_set ::
  "escaper \<Rightarrow> codec \<Rightarrow> pyval \<Rightarrow> pyval \<Rightarrow> string" where
  "community_custom_rewards_claimer_set E C rewards_claimer previous_rewards_claimer =
     (if rewards_claimer = VStr ADDRESS_ZERO
      then markdown E [MdStr (emoji_info @ '' ''),
             MdBold [MdStr ''Custom rewards claimer removed''], MdStr (nl 2),
             MdStr ''Custom rewards claimer was removed for this Node Operator.'']
      else let title = (if previous_rewards_claimer = VStr ADDRESS_ZERO
                then ''Custom rewards claimer set'' else ''Custom rewards claimer changed'') in
           markdown E [MdStr (emoji_info @ '' ''), MdBold [MdStr title], MdStr (nl 2),
             MdStr ''Rewards claimer: '', MdCode [MdStr (val_str C rewards_claimer)]])"

definition community_fee_splits_set :: "escaper \<Rightarrow> codec \<Rightarrow> string option \<Rightarrow> pyval \<Rightarrow> pyval \<Rightarrow> string res" where
  "community_fee_splits_set E C ui fee_splits previous_fee_splits =
     bindR (if truthy previous_fee_splits
            then bindR (community_format_fee_splits C previous_fee_splits) (\<lambda>t.
              Inr [MdStr ''Previous fee splits:'', MdStr (nl 1), t, MdStr (nl 2)])
            else Inr []) (\<lambda>before.
     bindR (if truthy fee_splits
            then bindR (community_format_fee_splits C fee_splits) (\<lambda>t.
              Inr [MdStr ''Fee splits:'', MdStr (nl 1), t, MdStr (nl 2)])
            else Inr []) (\<lambda>after.
       Inr (markdown E
         ([MdStr (emoji_info @ '' ''),
           MdBold [MdStr (community_fee_splits_title fee_splits previous_fee_splits)], MdStr (nl 2)] @
          before @ after @
          (if \<not> truthy fee_splits \<and> \<not> truthy previous_fee_splits
           then [MdStr ''Fee splits: '', MdCode [MdStr ''none''], MdStr (nl 1)] else []) @
          [MdStr ''Review the current rewards setup in the '', MdLink [MdStr ''CSM UI''] (ui_url ui)]))))"

definition community_bond_lock_removed :: "escaper \<Rightarrow> string" where
  "community_bond_lock_removed E =
     (markdown E [MdStr (emoji_check @ '' ''), MdBold [MdStr ''Bond lock removed''], MdStr (nl 2),
        MdStr ''Previously locked bond is no longer retained.''])"

definition community_key_allocated_balance_changed ::
  "escaper \<Rightarrow> codec \<Rightarrow> pyval \<Rightarrow> string \<Rightarrow> string" where
  "community_key_allocated_balance_changed E C key_index new_total =
     (markdown E [MdStr (emoji_eyes @ '' ''), MdBold [MdStr ''Key balance increased''],
        MdStr (nl 2), MdStr ''Key index: '', MdCode [MdStr (val_str C key_index)], MdStr (nl 1),
        MdStr ''New allocated balance: '', MdCode [MdStr new_total]])"

definition community_key_removal_charge_applied ::
  "escaper \<Rightarrow> string \<Rightarrow> bool \<Rightarrow> string" where
  "community_key_removal_charge_applied E amount is_total =
     (let label = (if is_total
                then ''Amount of charge: '' else ''Charge per key: '') in
      markdown E [MdStr (emoji_key @ '' ''), MdBold [MdStr ''Key removal charge applied''],
        MdStr (nl 2), MdStr label, MdCode [MdStr amount]])"

definition community_bond_curve_set ::
  "escaper \<Rightarrow> codec \<Rightarrow> string option \<Rightarrow> pyval \<Rightarrow> string" where
  "community_bond_curve_set E C ui curve_id =
     (markdown E [MdStr (emoji_info @ '' ''), MdBold [MdStr ''Node Operator type changed''],
        MdStr (nl 2), MdStr ''New type id: '', MdCode [MdStr (val_str C curve_id)], MdStr (nl 1),
        MdStr ''Operational requirements may now differ. Check the '',
        MdLink [MdStr ''CSM UI''] (ui_url ui), MdStr '' for updated guidance''])"

definition community_node_operator_manager_address_change_proposed ::
  "escaper \<Rightarrow> codec \<Rightarrow> pyval \<Rightarrow> string" where
  "community_node_operator_manager_address_change_proposed E C address =
     (if address = VStr ADDRESS_ZERO
      then markdown E [MdStr (emoji_info @ '' ''),
             MdBold [MdStr ''Proposed manager address revoked'']]
      else markdown E [MdStr (emoji_info @ '' ''), MdBold [MdStr ''New manager address proposed''],
             MdStr (nl 2), MdStr ''Proposed address: '', MdCode [MdStr (val_str C address)],
             MdStr (nl 2),
             MdStr ''To complete the change, the Node Operator must confirm it from the new address.''])"

definition community_node_operator_manager_address_changed ::
  "escaper \<Rightarrow> codec \<Rightarrow> pyval \<Rightarrow> string" where
  "community_node_operator_manager_address_changed E C address =
     (markdown E [MdStr (emoji_check @ '' ''), MdBold [MdStr ''Manager address changed''],
        MdStr (nl 2), MdStr ''New address: '', MdCode [MdStr (val_str C address)]])"

definition community_node_operator_reward_address_change_proposed ::
  "escaper \<Rightarrow> codec \<Rightarrow> pyval \<Rightarrow> string" where
  "community_node_operator_reward_address_change_proposed E C address =
     (if address = VStr ADDRESS_ZERO
      then markdown E [MdStr (emoji_info @ '' ''),
             MdBold [MdStr ''Proposed reward address revoked'']]
      else markdown E [MdStr (emoji_info @ '' ''), MdBold [MdStr ''New rewards address proposed''],
             MdStr (nl 2), MdStr ''Proposed address: '', MdCode [MdStr (val_str C address)],
             MdStr (nl 2),
             MdStr ''To complete the change, the Node Operator must confirm it from the new address.''])"

definition community_node_operator_reward_address_changed ::
  "escaper \<Rightarrow> codec \<Rightarrow> pyval \<Rightarrow> string" where
  "community_node_operator_reward_address_changed E C address =
     (markdown E [MdStr (emoji_check @ '' ''), MdBold [MdStr ''Rewards address changed''],
        MdStr (nl 2), MdStr ''New address: '', MdCode [MdStr (val_str C address)]])"

definition community_vetted_signing_keys_count_decreased ::
  "escaper \<Rightarrow> string option \<Rightarrow> string" where
  "community_vetted_signing_keys_count_decreased E ui =
     (markdown E [MdStr (emoji_siren @ '' ''),
        MdBold [MdStr ''Invalid or duplicated keys has been uploaded''], MdStr (nl 2),
        MdStr ''Consider removing invalid keys. Check '', MdLink [MdStr ''CSM UI''] (ui_url ui),
        MdStr '' for more details''])"

definition community_validator_withdrawn :: "escaper \<Rightarrow> withdrawal list \<Rightarrow> string" where
  "community_validator_withdrawn E withdrawals =
     (case withdrawals of
        [w] \<Rightarrow>
          markdown E ([MdStr (emoji_eyes @ '' ''), MdBold [MdStr ''Validator withdrawal confirmed''],
             MdStr (nl 2), MdStr ''Withdrawn key: '', MdLink [MdStr (wd_key w)] (wd_key_url w),
             MdStr (nl 1), MdStr ''Exit balance: '', MdCode [MdStr (wd_balance w)]] @
            (if no_slashing_penalty w then []
             else [MdStr (nl 1), MdStr ''Slashing penalty: '', MdCode [MdStr (wd_slashing_penalty w)]]))
      | _ \<Rightarrow>
          markdown E ([MdStr (emoji_eyes @ '' ''), MdBold [MdStr ''Validator withdrawals confirmed''],
             MdStr (nl 2), MdStr ''Withdrawn validators:'', MdStr (nl 1)] @
            join_lines (map (\<lambda>(index, w).
              [MdStr ''- Validator '', MdStr (nat_str index), MdStr '': '',
               MdLink [MdStr (community_shorten_validator_key_for_link (wd_key w))] (wd_key_url w),
               MdStr (nl 1), MdStr ''  Exit balance: '', MdCode [MdStr (wd_balance w)]] @
              (if no_slashing_penalty w then []
               else [MdStr (nl 1), MdStr ''  Slashing penalty: '',
                     MdCode [MdStr (wd_slashing_penalty w)]])) (enumerate 1 withdrawals))))"

definition community_total_signing_keys_count_changed ::
  "escaper \<Rightarrow> int \<Rightarrow> int \<Rightarrow> string" where
  "community_total_signing_keys_count_changed E new_count count_before =
     (if new_count > count_before
      then markdown E [MdStr (emoji_eyes @ '' ''), MdBold [MdStr ''New keys uploaded''],
             MdStr (nl 2), MdStr ''Keys count: '',
             MdCode [MdStr (int_str count_before @ '' -> '' @ int_str new_count)]]
      else markdown E [MdStr (emoji_siren @ '' ''), MdBold [MdStr ''Key removed''], MdStr (nl 2),
             MdStr ''Total keys: '', MdCode [MdStr (int_str new_count)]])"

definition community_validator_exit_request :: "escaper \<Rightarrow> exit_request list \<Rightarrow> string" where
  "community_validator_exit_request E exit_requests =
     (case exit_requests of
        [r] \<Rightarrow>
          markdown E [MdStr (emoji_siren @ '' ''), MdBold [MdStr ''Validator exit requested''],
             MdStr (nl 2), MdStr ''Make sure to exit the key before '', MdStr (er_exit_until r),
             MdStr (nl 1), MdStr ''Check the '', MdLink [MdStr ''Exiting CSM validators''] EXIT_GUIDE_URL,
             MdStr '' guide for more details'', MdStr (nl 1), MdStr ''Requested key: '', MdLink [MdStr (er_key r)] (er_key_url r),
             MdStr (nl 1), MdStr ''Request date: '', MdCode [MdStr (er_request_date r)]]
      | _ \<Rightarrow>
          let untils = remdups (map er_exit_until exit_requests);
              dates = remdups (map er_request_date exit_requests) in
          markdown E ([MdStr (emoji_siren @ '' ''), MdBold [MdStr ''Validator exits requested''],
             MdStr (nl 2)] @
            (if length untils = 1
             then [MdStr ''Make sure to exit these keys before '', MdStr (hd untils), MdStr (nl 1)]
             else []) @
            [MdStr ''Check the '', MdLink [MdStr ''Exiting CSM validators''] EXIT_GUIDE_URL,
             MdStr '' guide for more details'', MdStr (nl 1), MdStr ''Requested keys:'', MdStr (nl 1),
             community_format_validator_exit_requests exit_requests (1 < length untils) (1 < length dates)] @
            (if length dates = 1
             then [MdStr (nl 2), MdStr ''Request date: '', MdCode [MdStr (hd dates)]] else [])))"

definition community_validator_exit_delay_processed ::
  "escaper \<Rightarrow> string \<Rightarrow> string \<Rightarrow> string \<Rightarrow> string" where
  "community_validator_exit_delay_processed E key key_url penalty =
     (markdown E [MdStr (emoji_siren @ '' ''), MdBold [MdStr ''Validator exit delay processed''],
        MdStr (nl 2), MdStr ''Validator: '', MdLink [MdStr key] key_url, MdStr (nl 1),
        MdStr ''Delay penalty: '', MdCode [MdStr penalty], MdStr (nl 2),
        MdStr ''Penalty will be applied when the validator exits''])"

definition community_triggered_exit_fee_recorded ::
  "escaper \<Rightarrow> string \<Rightarrow> string \<Rightarrow> string \<Rightarrow> string" where
  "community_triggered_exit_fee_recorded E key key_url recorded_fee =
     (markdown E [MdStr (emoji_siren @ '' ''),
        MdBold [MdStr ''Triggerable Withdrawal fee recorded''], MdStr (nl 2), MdStr ''Validator: '',
        MdLink [MdStr key] key_url, MdStr (nl 1), MdStr ''Fee to be charged on exit: '',
        MdCode [MdStr recorded_fee], MdStr (nl 2),
        MdStr ''Exit fee will be applied when the validator exits.''])"

definition community_strikes_penalty_processed ::
  "escaper \<Rightarrow> string \<Rightarrow> string \<Rightarrow> string \<Rightarrow> string" where
  "community_strikes_penalty_processed E key key_url penalty =
     (markdown E [MdStr (emoji_siren @ '' ''), MdBold [MdStr ''Strikes penalty processed''],
        MdStr (nl 2), MdStr ''Validator: '', MdLink [MdStr key] key_url, MdStr (nl 1),
        MdStr ''Penalty amount: '', MdCode [MdStr penalty], MdStr (nl 2),
        MdStr ''Penalty will be charged when the validator withdraws.''])"

definition community_rewards_message :: "string option \<Rightarrow> md" where
  "community_rewards_message ui =
     MdText [MdStr (emoji_chart @ '' ''), MdBold [MdStr ''Rewards distributed!''], MdStr (nl 2),
       MdStr ''Follow the '', MdLink [MdStr ''CSM UI''] (ui_url ui),
       MdStr '' to check new claimable rewards.'']"

definition community_strikes_message :: "string \<Rightarrow> nat \<Rightarrow> md" where
  "community_strikes_message label strikes =
     MdText [MdStr (emoji_warning @ '' ''), MdBold [MdStr ''Strikes detected for your validators''], MdStr (nl 2),
       MdStr ''Node Operator ID: '', MdCode [MdStr label], MdStr (nl 1),
       MdStr ''Validators with strikes: '', MdCode [MdStr (nat_str strikes)], MdStr (nl 1)]"

definition community_distribution_data_updated ::
  "escaper \<Rightarrow> string option \<Rightarrow> string option \<Rightarrow> 'a list \<Rightarrow> bool \<Rightarrow> string" where
  "community_distribution_data_updated E ui node_operator striked_validators rewards_distributed =
     (case node_operator of
        Some label \<Rightarrow>
          if striked_validators = [] then as_markdown E (community_rewards_message ui)
          else if \<not> rewards_distributed
          then as_markdown E (community_strikes_message label (length striked_validators))
          else as_markdown E (MdText [community_rewards_message ui, MdStr (nl 2),
                 community_strikes_message label (length striked_validators)])
      | None \<Rightarrow> as_markdown E (community_rewards_message ui))"

definition community_target_validators_count_changed ::
  "escaper \<Rightarrow> int \<Rightarrow> int \<Rightarrow> int \<Rightarrow> int \<Rightarrow> int \<Rightarrow> string" where
  "community_target_validators_count_changed E mode_before limit_before mode_after limit_after active_validators_count =
     (let keys_above_limit = (max (active_validators_count - limit_after) 0) in
      let key_word = (if keys_above_limit = 1
                then ''key'' else ''keys'') in
      if mode_after = 1 \<and> limit_after = 0
      then markdown E [MdStr (emoji_siren @ '' ''),
          MdBold [MdStr ''Target validators count changed''], MdStr (nl 2),
          MdStr ''The limit has been set to zero.'', MdStr (nl 1),
          MdStr (int_str keys_above_limit @ '' '' @ key_word @ '' will be requested to exit first.'')]
      else if mode_after = 2 \<and> limit_after = 0
      then markdown E [MdStr (emoji_siren @ '' ''),
          MdBold [MdStr ''Target validators count changed''], MdStr (nl 2),
          MdStr ''The limit has been set to zero.'', MdStr (nl 1),
          MdStr (int_str keys_above_limit @ '' '' @ key_word @ '' will be requested to exit immediately.'')]
      else if mode_before = 1 \<and> mode_after = 1 \<and> limit_after < limit_before
      then markdown E [MdStr (emoji_siren @ '' ''),
          MdBold [MdStr ''Target validators count changed''], MdStr (nl 2),
          MdStr (''The limit has been decreased from '' @ int_str limit_before @ '' to '' @ int_str limit_after @ ''.''),
          MdStr (nl 1),
          MdStr (int_str keys_above_limit @ '' '' @ key_word @ '' above the limit will be requested to exit first.'')]
      else if mode_before = 2 \<and> mode_after = 2 \<and> limit_after < limit_before
      then markdown E [MdStr (emoji_siren @ '' ''),
          MdBold [MdStr ''Target validators count changed''], MdStr (nl 2),
          MdStr (''The limit has been decreased from '' @ int_str limit_before @ '' to '' @ int_str limit_after @ ''.''),
          MdStr (nl 1),
          MdStr (int_str keys_above_limit @ '' '' @ key_word @ '' above the limit will be requested to exit immediately.'')]
      else if mode_after = 1
      then markdown E [MdStr (emoji_siren @ '' ''),
          MdBold [MdStr ''Target validators count changed''], MdStr (nl 2),
          MdStr (''The limit has been set to '' @ int_str limit_after @ ''.''), MdStr (nl 1),
          MdStr (int_str keys_above_limit @ '' '' @ key_word @ '' above the limit will be requested to exit first.'')]
      else if mode_after = 2
      then markdown E [MdStr (emoji_siren @ '' ''),
          MdBold [MdStr ''Target validators count changed''], MdStr (nl 2),
          MdStr (''The limit has been set to '' @ int_str limit_after @ ''.''), MdStr (nl 1),
          MdStr (int_str keys_above_limit @ '' '' @ key_word @ '' above the limit will be requested to exit immediately.'')]
      else if mode_before = 2 \<and> mode_after = 0
      then markdown E [MdStr (emoji_check @ '' ''),
          MdBold [MdStr ''Unsetting forced exit target limit''], MdStr (nl 2),
          MdStr ''The forced target validator limit of '', MdCode [MdStr (int_str limit_before)],
          MdStr '' has been removed.'', MdStr (nl 1),
          MdStr ''No additional validators will be requested to exit.'']
      else if mode_after = 0
      then markdown E [MdStr (emoji_siren @ '' ''),
          MdBold [MdStr ''Target validators count changed''], MdStr (nl 2),
          MdStr ''The limit has been set to zero. No keys will be requested to exit.'']
      else markdown E [MdStr (emoji_siren @ '' ''),
          MdBold [MdStr ''Target validators count changed''], MdStr (nl 2),
          MdStr (''Mode changed from '' @ int_str mode_before @ '' to '' @ int_str mode_after @ ''.''),
          MdStr (nl 1),
          MdStr (''Limit changed from '' @ int_str limit_before @ '' to '' @ int_str limit_after @ ''.'')])"

text \<open>The registry of templates: the function registered for each event.\<close>

definition COMMUNITY_EVENT_MESSAGES :: "(string \<times> string) list" where
  "COMMUNITY_EVENT_MESSAGES = [
     (''DepositedSigningKeysCountChanged'', ''deposited_signing_keys_count_changed''),
     (''GeneralDelayedPenaltyCancelled'', ''general_delayed_penalty_cancelled''),
     (''GeneralDelayedPenaltyCompensated'', ''general_delayed_penalty_compensated''),
     (''GeneralDelayedPenaltyReported'', ''general_delayed_penalty_reported''),
     (''GeneralDelayedPenaltySettled'', ''general_delayed_penalty_settled''),
     (''ValidatorSlashingReported'', ''validator_slashing_reported''),
     (''BondDebtIncreased'', ''bond_debt_increased''),
     (''BondDebtCovered'', ''bond_debt_covered''),
     (''CustomRewardsClaimerSet'', ''custom_rewards_claimer_set''),
     (''FeeSplitsSet'', ''fee_splits_set''),
     (''BondLockRemoved'', ''bond_lock_removed''),
     (''KeyAllocatedBalanceChanged'', ''key_allocated_balance_changed''),
     (''KeyRemovalChargeApplied'', ''key_removal_charge_applied''),
     (''BondCurveSet'', ''bond_curve_set''),
     (''NodeOperatorManagerAddressChangeProposed'', ''node_operator_manager_address_change_proposed''),
     (''NodeOperatorManagerAddressChanged'', ''node_operator_manager_address_changed''),
     (''NodeOperatorRewardAddressChangeProposed'', ''node_operator_reward_address_change_proposed''),
     (''NodeOperatorRewardAddressChanged'', ''node_operator_reward_address_changed''),
     (''VettedSigningKeysCountDecreased'', ''vetted_signing_keys_count_decreased''),
     (''ValidatorWithdrawn'', ''validator_withdrawn''),
     (''TotalSigningKeysCountChanged'', ''total_signing_keys_count_changed''),
     (''ValidatorExitRequest'', ''validator_exit_request''),
     (''ValidatorExitDelayProcessed'', ''validator_exit_delay_processed''),
     (''TriggeredExitFeeRecorded'', ''triggered_exit_fee_recorded''),
     (''StrikesPenaltyProcessed'', ''strikes_penalty_processed''),
     (''DistributionLogUpdated'', ''distribution_data_updated''),
     (''TargetValidatorsCountChanged'', ''target_validators_count_changed'')]"

section \<open>Every template is accepted by Telegram\<close>

text \<open>
  What a template renders is a well-formed message whose links are the user interface, the
  validator links it got, and the guide; no text of an argument can add a link or break the message.
\<close>

lemma community_messages [message_intros]:
  assumes "escaper_ok E" "ui_url ui \<in> U"
  shows "message_part U (community_general_delayed_penalty_cancelled E remaining)"
    and "message_part U (community_bond_curve_set E C ui curve_id)"
    and "message_part U (community_custom_rewards_claimer_set E C rewards_claimer previous_rewards_claimer)"
    and "message_part U (community_general_delayed_penalty_compensated E amount)"
    and "message_part U (community_general_delayed_penalty_reported E C amount additional_fine details)"
    and "message_part U (community_general_delayed_penalty_settled E amount)"
    and "key_url \<in> U \<Longrightarrow> message_part U (community_validator_slashing_reported E C key key_url key_index)"
    and "message_part U (community_bond_debt_increased E amount)"
    and "message_part U (community_bond_debt_covered E amount)"
    and "message_part U (community_bond_lock_removed E)"
    and "message_part U (community_key_allocated_balance_changed E C key_index new_total)"
    and "message_part U (community_key_removal_charge_applied E amount is_total)"
    and "message_part U (community_node_operator_manager_address_change_proposed E C address)"
    and "message_part U (community_node_operator_manager_address_changed E C address)"
    and "message_part U (community_node_operator_reward_address_change_proposed E C address)"
    and "message_part U (community_node_operator_reward_address_changed E C address)"
    and "message_part U (community_vetted_signing_keys_count_decreased E ui)"
    and "message_part U (community_total_signing_keys_count_changed E new_count count_before)"
    and "key_url \<in> U \<Longrightarrow> message_part U (community_validator_exit_delay_processed E key key_url penalty)"
    and "key_url \<in> U \<Longrightarrow> message_part U (community_triggered_exit_fee_recorded E key key_url recorded_fee)"
    and "key_url \<in> U \<Longrightarrow> message_part U (community_strikes_penalty_processed E key key_url penalty)"
    and "message_part U (community_distribution_data_updated E ui node_operator striked_validators rewards_distributed)"
    and "message_part U (community_target_validators_count_changed E mode_before limit_before mode_after limit_after active_validators_count)"
  by (use assms in \<open>simp_all add: community_bond_curve_set_def community_custom_rewards_claimer_set_def
      community_bond_debt_covered_def
      community_bond_debt_increased_def
      community_bond_lock_removed_def
      community_distribution_data_updated_def
      community_general_delayed_penalty_cancelled_def
      community_general_delayed_penalty_compensated_def
      community_general_delayed_penalty_reported_def
      community_general_delayed_penalty_settled_def
      community_key_allocated_balance_changed_def
      community_key_removal_charge_applied_def
      community_node_operator_manager_address_change_proposed_def
      community_node_operator_manager_address_changed_def
      community_node_operator_reward_address_change_proposed_def
      community_node_operator_reward_address_changed_def
      community_rewards_message_def
      community_strikes_message_def
      community_strikes_penalty_processed_def
      community_target_validators_count_changed_def
      community_total_signing_keys_count_changed_def
      community_triggered_exit_fee_recorded_def
      community_validator_exit_delay_processed_def
      community_validator_slashing_reported_def
      community_vetted_signing_keys_count_decreased_def
      markdown_message message_part_node Let_def split: option.splits\<close>)

lemma community_list_messages [message_intros]:
  assumes "escaper_ok E" "EXIT_GUIDE_URL \<in> U"
  shows "message_part U (community_deposited_signing_keys_count_changed E entries)"
    and "(\<And>w. w \<in> set withdrawals \<Longrightarrow> wd_key_url w \<in> U) \<Longrightarrow> message_part U (community_validator_withdrawn E withdrawals)"
    and "(\<And>r. r \<in> set exit_requests \<Longrightarrow> er_key_url r \<in> U) \<Longrightarrow>
      message_part U (community_validator_exit_request E exit_requests)"
proof -
  show "message_part U (community_deposited_signing_keys_count_changed E entries)"
    unfolding community_deposited_signing_keys_count_changed_def
    by (intro markdown_message[OF assms(1)]) (auto simp: list_all_iff)
  show "message_part U (community_validator_withdrawn E withdrawals)" if "\<And>w. w \<in> set withdrawals \<Longrightarrow> wd_key_url w \<in> U"
    using that unfolding community_validator_withdrawn_def
    by (auto split: list.split intro!: markdown_message[OF assms(1)]
        simp: list_all_iff dest!: enumerate_entry)
  show "message_part (U) (community_validator_exit_request E exit_requests)"
    if "\<And>r. r \<in> set exit_requests \<Longrightarrow> er_key_url r \<in> U"
  proof -
    have "nodes_ok U [community_format_validator_exit_requests exit_requests u d]" for u d
      unfolding community_format_validator_exit_requests_def
      by (rule nodes_ok_MdText) (use that in \<open>auto simp: list_all_iff dest!: enumerate_entry\<close>)
    then show ?thesis
      using that assms unfolding community_validator_exit_request_def Let_def
      by (auto split: list.split intro!: markdown_message[OF assms(1)])
  qed
qed

lemma community_fee_splits_message [message_intros]:
  assumes "escaper_ok E" "ui_url ui \<in> U" "community_fee_splits_set E C ui fee_splits previous = Inr m"
  shows "message_part U m"
proof -
  have "nodes_ok U [t]" if fmt: "community_format_fee_splits C v = Inr t" for v t
  proof (cases "truthy v")
    case True
    then obtain lines splits where t: "t = MdText (join_lines lines)"
      and lines: "mapR (community_fee_split_line C) splits = Inr lines"
      using fmt unfolding community_format_fee_splits_def by auto
    have "list_all (nodes_ok U) lines"
      unfolding list_all_iff by (auto simp: community_fee_split_line_def dest!: mapR_mem[OF lines])
    then show ?thesis unfolding t by (intro nodes_ok_MdText) simp
  qed (use fmt in \<open>auto simp: community_format_fee_splits_def\<close>)
  then show ?thesis
    using assms unfolding community_fee_splits_set_def
    by (auto intro!: markdown_message split: if_splits)
qed

end
