(* ===== verification/Curated_Texts.thy ===== *)
theory Curated_Texts
  imports Message_Texts
begin

text \<open>
  The message templates, the event catalog and the footers of the Curated module,
  \<open>sentinel/modules/curated/texts.py\<close>. \<open>E\<close> escapes, \<open>C\<close> gives \<open>str()\<close> of a value and
  \<open>ui\<close> is the configured address of the module's user interface; an argument a handler passes on from the event is a
  \<open>pyval\<close>, a formatted one a string.
\<close>

definition curated_KEY_MANAGEMENT :: string where
  "curated_KEY_MANAGEMENT = ''Key Management Events:''"

definition curated_ADDRESS_AND_REWARD_CHANGES :: string where
  "curated_ADDRESS_AND_REWARD_CHANGES = ''Address and Reward Changes:''"

definition curated_BOND :: string where
  "curated_BOND = ''Bond Events:''"

definition curated_PENALTIES :: string where
  "curated_PENALTIES = ''Penalty Events:''"

definition curated_WITHDRAWAL_AND_EXIT :: string where
  "curated_WITHDRAWAL_AND_EXIT = ''Withdrawal and Exit Requests:''"

definition curated_OPERATOR_GROUPS :: string where
  "curated_OPERATOR_GROUPS = ''Operator Group Events:''"

definition curated_COMMON_CURATED :: string where
  "curated_COMMON_CURATED = ''Common Curated Module Events:''"

definition curated_GROUP_DESCRIPTIONS :: "(string \<times> string) list" where
  "curated_GROUP_DESCRIPTIONS = [
     (curated_KEY_MANAGEMENT,
      ''Changes related to keys, limits, and operator type.''),
     (curated_ADDRESS_AND_REWARD_CHANGES,
      ''Changes or proposals for management and reward configuration.''),
     (curated_BOND,
      ''Changes to deposited, claimed, locked, burned, or charged bond.''),
     (curated_PENALTIES,
      ''Alerts for delayed penalties, slashing, debt, and strikes.''),
     (curated_WITHDRAWAL_AND_EXIT,
      ''Notifications for exit requests and confirmed withdrawals.''),
     (curated_OPERATOR_GROUPS,
      ''Changes from the Curated Module MetaRegistry.''),
     (curated_COMMON_CURATED,
      '''')]"

definition CURATED_EVENT_CATALOG :: "event_definition list" where
  "CURATED_EVENT_CATALOG = [
     mk_event_definition ''DepositedSigningKeysCountChanged''
       (''- '' @ emoji_stars @ '' Node Operator'' @ [CHR 0x27] @ ''s keys received deposits'') curated_KEY_MANAGEMENT,
     mk_event_definition ''TotalSigningKeysCountChanged''
       (''- '' @ emoji_eyes @ '' New keys uploaded or removed'') curated_KEY_MANAGEMENT,
     mk_event_definition ''VettedSigningKeysCountDecreased''
       (''- '' @ emoji_siren @ '' Invalid or duplicated keys has been uploaded'') curated_KEY_MANAGEMENT,
     mk_event_definition ''KeyRemovalChargeApplied''
       (''- '' @ emoji_key @ '' Applied charge for key removal'') curated_KEY_MANAGEMENT,
     mk_event_definition ''KeyAllocatedBalanceChanged''
       (''- '' @ emoji_eyes @ '' Key balance increased'') curated_KEY_MANAGEMENT,
     mk_event_definition ''BondCurveSet''
       (''- '' @ emoji_info @ '' Node Operator type changed'') curated_KEY_MANAGEMENT,
     mk_event_definition ''TargetValidatorsCountChanged''
       (''- '' @ emoji_siren @ '' Target validators count changed'') curated_KEY_MANAGEMENT,
     mk_event_definition ''NodeOperatorManagerAddressChangeProposed''
       (''- '' @ emoji_info @ '' New manager address proposed'') curated_ADDRESS_AND_REWARD_CHANGES,
     mk_event_definition ''NodeOperatorManagerAddressChanged''
       (''- '' @ emoji_check @ '' Manager address changed'') curated_ADDRESS_AND_REWARD_CHANGES,
     mk_event_definition ''NodeOperatorRewardAddressChangeProposed''
       (''- '' @ emoji_info @ '' New rewards address proposed'') curated_ADDRESS_AND_REWARD_CHANGES,
     mk_event_definition ''NodeOperatorRewardAddressChanged''
       (''- '' @ emoji_check @ '' Rewards address changed'') curated_ADDRESS_AND_REWARD_CHANGES,
     mk_event_definition ''CustomRewardsClaimerSet''
       (''- '' @ emoji_info @ '' Custom rewards claimer changed'') curated_ADDRESS_AND_REWARD_CHANGES,
     mk_event_definition ''FeeSplitsSet''
       (''- '' @ emoji_info @ '' Fee splits changed'') curated_ADDRESS_AND_REWARD_CHANGES,
     mk_event_definition ''BondDepositedETH''
       (''- '' @ emoji_check @ '' ETH bond deposited'') curated_BOND,
     mk_event_definition ''BondDepositedStETH''
       (''- '' @ emoji_check @ '' stETH bond deposited'') curated_BOND,
     mk_event_definition ''BondDepositedWstETH''
       (''- '' @ emoji_check @ '' wstETH bond deposited'') curated_BOND,
     mk_event_definition ''BondClaimedUnstETH''
       (''- '' @ emoji_check @ '' unstETH bond claim requested'') curated_BOND,
     mk_event_definition ''BondClaimedStETH''
       (''- '' @ emoji_check @ '' stETH bond claimed'') curated_BOND,
     mk_event_definition ''BondClaimedWstETH''
       (''- '' @ emoji_check @ '' wstETH bond claimed'') curated_BOND,
     mk_event_definition ''BondBurned''
       (''- '' @ emoji_siren @ '' Bond burned'') curated_BOND,
     mk_event_definition ''BondCharged''
       (''- '' @ emoji_siren @ '' Bond charged'') curated_BOND,
     mk_event_definition ''BondLockChanged''
       (''- '' @ emoji_siren @ '' Bond lock changed'') curated_BOND,
     mk_event_definition ''BondLockRemoved''
       (''- '' @ emoji_check @ '' Bond lock removed'') curated_BOND,
     mk_event_definition ''BondLockCompensated''
       (''- '' @ emoji_check @ '' Bond lock compensated'') curated_BOND,
     mk_event_definition ''BondLockPeriodChanged''
       (''- '' @ emoji_info @ '' Bond lock period changed'') curated_BOND,
     mk_event_definition ''GeneralDelayedPenaltyReported''
       (''- '' @ emoji_siren @ '' General delayed penalty reported'') curated_PENALTIES,
     mk_event_definition ''GeneralDelayedPenaltySettled''
       (''- '' @ emoji_siren @ '' General delayed penalty confirmed and applied'') curated_PENALTIES,
     mk_event_definition ''GeneralDelayedPenaltyCancelled''
       (''- '' @ emoji_phew @ '' Cancelled general delayed penalty'') curated_PENALTIES,
     mk_event_definition ''GeneralDelayedPenaltyCompensated''
       (''- '' @ emoji_check @ '' General delayed penalty compensated'') curated_PENALTIES,
     mk_event_definition ''ValidatorSlashingReported''
       (''- '' @ emoji_siren @ '' Validator slashing reported'') curated_PENALTIES,
     mk_event_definition ''BondDebtIncreased''
       (''- '' @ emoji_siren @ '' Bond debt increased'') curated_PENALTIES,
     mk_event_definition ''BondDebtCovered''
       (''- '' @ emoji_check @ '' Bond debt covered'') curated_PENALTIES,
     mk_event_definition ''StrikesPenaltyProcessed''
       (''- '' @ emoji_siren @ '' Strikes penalty processed'') curated_PENALTIES,
     mk_event_definition ''ValidatorExitRequest''
       (''- '' @ emoji_siren @ '' One of the validators requested to exit'') curated_WITHDRAWAL_AND_EXIT,
     mk_event_definition ''ValidatorExitDelayProcessed''
       (''- '' @ emoji_siren @ '' Validator exit delay penalty issued'') curated_WITHDRAWAL_AND_EXIT,
     mk_event_definition ''TriggeredExitFeeRecorded''
       (''- '' @ emoji_siren @ '' Triggerable Withdrawal fee recorded'') curated_WITHDRAWAL_AND_EXIT,
     mk_event_definition ''ValidatorWithdrawn''
       (''- '' @ emoji_eyes @ '' Validator withdrawal confirmed'') curated_WITHDRAWAL_AND_EXIT,
     mk_event_definition ''NodeOperatorEffectiveWeightChanged''
       (''- '' @ emoji_info @ '' Operator effective weight changed'') curated_OPERATOR_GROUPS,
     mk_event_definition ''OperatorGroupCreated''
       (''- '' @ emoji_info @ '' Operator group created'') curated_OPERATOR_GROUPS,
     mk_event_definition ''OperatorGroupUpdated''
       (''- '' @ emoji_info @ '' Operator group updated'') curated_OPERATOR_GROUPS,
     mk_event_definition ''OperatorGroupCleared''
       (''- '' @ emoji_siren @ '' Operator group cleared'') curated_OPERATOR_GROUPS,
     mk_event_definition ''BondCurveWeightSet''
       (''- '' @ emoji_info @ '' Operator type weight changed'') curated_OPERATOR_GROUPS,
     mk_event_definition ''OperatorMetadataSet''
       (''- '' @ emoji_info @ '' Operator metadata changed'') curated_OPERATOR_GROUPS,
     mk_event_definition ''DistributionLogUpdated''
       (''- '' @ emoji_chart @ '' New rewards distributed'') curated_COMMON_CURATED,
     mk_event_definition ''Resumed''
       (''- '' @ emoji_party @ '' Curated Module launched'') curated_COMMON_CURATED]"

definition curated_build_event_list_text :: "escaper \<Rightarrow> string set \<Rightarrow> string" where
  "curated_build_event_list_text E names =
     build_grouped_event_list_text E names CURATED_EVENT_CATALOG curated_GROUP_DESCRIPTIONS"

definition curated_format_basis_points_percent :: "int \<Rightarrow> string" where
  "curated_format_basis_points_percent basis_points =
     (let whole = basis_points div 100; fraction = basis_points mod 100 in
      if fraction = 0 then int_str whole @ ''%''
      else rstrip_zeros (int_str whole @ ''.'' @ two_digits fraction) @ ''%'')"

definition curated_fee_split_line :: "codec \<Rightarrow> pyval \<Rightarrow> md list res" where
  "curated_fee_split_line C fee_split =
     bindR (bindR (read_field fee_split ''share'' 1) val_int) (\<lambda>share.
     bindR (read_field fee_split ''recipient'' 0) (\<lambda>recipient.
       Inr [MdStr (''- '' @ curated_format_basis_points_percent share @ '': ''),
            MdCode [MdStr (val_str C recipient)]]))"

definition curated_format_fee_splits :: "codec \<Rightarrow> pyval \<Rightarrow> md res" where
  "curated_format_fee_splits C fee_splits =
     (if \<not> truthy fee_splits then Inr (MdStr ''none'')
      else bindR (iter_vals fee_splits) (\<lambda>splits.
        bindR (mapR (curated_fee_split_line C) splits) (\<lambda>lines. Inr (MdText (join_lines lines)))))"

definition curated_fee_splits_title :: "pyval \<Rightarrow> pyval \<Rightarrow> string" where
  "curated_fee_splits_title fee_splits previous_fee_splits =
     (if truthy fee_splits \<and> \<not> truthy previous_fee_splits then ''Fee splits set''
      else if \<not> truthy fee_splits \<and> truthy previous_fee_splits then ''Fee splits removed''
      else ''Fee splits changed'')"

definition curated_shorten_validator_key_for_link :: "string \<Rightarrow> string" where
  "curated_shorten_validator_key_for_link key =
     (if length key \<le> 22 then key else take 10 key @ ''...'' @ drop (length key - 8) key)"

definition curated_format_validator_exit_requests :: "exit_request list \<Rightarrow> bool \<Rightarrow> bool \<Rightarrow> md" where
  "curated_format_validator_exit_requests exit_requests include_exit_until include_request_date =
     MdText (join_lines (map (\<lambda>(index, r).
       [MdStr ''- '', MdStr ''Validator '', MdStr (nat_str index), MdStr '': '',
        MdLink [MdStr (curated_shorten_validator_key_for_link (er_key r))] (er_key_url r)] @
       (if include_exit_until
        then [MdStr (nl 1), MdStr ''  Exit before: '', MdStr (er_exit_until r)] else []) @
       (if include_request_date
        then [MdStr (nl 1), MdStr ''  Request date: '', MdCode [MdStr (er_request_date r)]] else []))
       (enumerate 1 exit_requests)))"

definition asset_amount :: "string \<Rightarrow> string \<Rightarrow> string" where
  "asset_amount amount asset =
     (if suffix '' ether'' amount then take (length amount - 6) amount @ '' '' @ asset
      else amount @ '' '' @ asset)"

definition curated_bond_deposited ::
  "escaper \<Rightarrow> codec \<Rightarrow> string \<Rightarrow> pyval \<Rightarrow> string \<Rightarrow> string" where
  "curated_bond_deposited E C asset sender amount =
     (markdown E [MdStr (emoji_check @ '' ''), MdBold [MdStr ''Bond deposited''], MdStr (nl 2),
        MdStr ''From: '', MdCode [MdStr (val_str C sender)], MdStr (nl 1), MdStr ''Amount: '',
        MdCode [MdStr (asset_amount amount asset)]])"

definition curated_bond_claimed ::
  "escaper \<Rightarrow> codec \<Rightarrow> string \<Rightarrow> pyval \<Rightarrow> string \<Rightarrow> string" where
  "curated_bond_claimed E C asset recipient amount =
     (markdown E [MdStr (emoji_check @ '' ''), MdBold [MdStr ''Bond claimed''], MdStr (nl 2),
        MdStr ''Recipient: '', MdCode [MdStr (val_str C recipient)], MdStr (nl 1),
        MdStr ''Amount: '', MdCode [MdStr (asset_amount amount asset)]])"

definition curated_event_transaction_footer ::
  "codec \<Rightarrow> pyval \<Rightarrow> string \<Rightarrow> md" where
  "curated_event_transaction_footer C no_id tx_link =
     transaction_footer (''nodeOperatorId: '' @ val_str C no_id) tx_link"

definition curated_event_transaction_footer_with_operator_name ::
  "string \<Rightarrow> string \<Rightarrow> string \<Rightarrow> md" where
  "curated_event_transaction_footer_with_operator_name no_id name tx_link =
     transaction_footer (''Node Operator: #'' @ no_id @ '' - '' @ name) tx_link"

definition curated_event_transaction_footer_tx_only :: "string \<Rightarrow> md" where
  "curated_event_transaction_footer_tx_only tx_link = transaction_footer_tx_only tx_link"

definition curated_event_block_footer ::
  "codec \<Rightarrow> pyval \<Rightarrow> (string \<times> string) list \<Rightarrow> md res" where
  "curated_event_block_footer C no_id block_links =
     block_footer (''nodeOperatorId: '' @ val_str C no_id) block_links"

definition curated_event_block_footer_with_operator_name ::
  "string \<Rightarrow> string \<Rightarrow> (string \<times> string) list \<Rightarrow> md res" where
  "curated_event_block_footer_with_operator_name no_id name block_links =
     block_footer (''Node Operator: #'' @ no_id @ '' - '' @ name) block_links"

definition curated_event_block_footer_tx_only ::
  "(string \<times> string) list \<Rightarrow> md res" where
  "curated_event_block_footer_tx_only block_links = block_footer_tx_only block_links"

definition curated_deposited_signing_keys_count_changed :: "escaper \<Rightarrow> (string \<times> int \<times> int) list \<Rightarrow> string" where
  "curated_deposited_signing_keys_count_changed E entries =
     markdown E ([MdStr (emoji_stars @ '' ''), MdBold [MdStr ''Deposit digest''], MdStr (nl 2),
        MdStr ''Node Operators:'', MdStr (nl 1)] @
       join_lines (map (\<lambda>(label, count_before, count).
         [MdStr ''- '', MdStr label, MdStr '': '',
          MdCode [MdStr (int_str count_before @ '' -> '' @ int_str count)]]) entries))"

definition curated_total_signing_keys_count_changed ::
  "escaper \<Rightarrow> int \<Rightarrow> int \<Rightarrow> string" where
  "curated_total_signing_keys_count_changed E new_count count_before =
     (if new_count > count_before
      then markdown E [MdStr (emoji_eyes @ '' ''), MdBold [MdStr ''New keys uploaded''],
             MdStr (nl 2), MdStr ''Keys count: '',
             MdCode [MdStr (int_str count_before @ '' -> '' @ int_str new_count)]]
      else markdown E [MdStr (emoji_siren @ '' ''), MdBold [MdStr ''Key removed''], MdStr (nl 2),
             MdStr ''Total keys: '', MdCode [MdStr (int_str new_count)]])"

definition curated_vetted_signing_keys_count_decreased ::
  "escaper \<Rightarrow> string option \<Rightarrow> string" where
  "curated_vetted_signing_keys_count_decreased E ui =
     (markdown E [MdStr (emoji_siren @ '' ''),
        MdBold [MdStr ''Invalid or duplicated keys has been uploaded''], MdStr (nl 2),
        MdStr ''Remove the keys on the '', MdLink [MdStr ''Curated Module UI''] (ui_url ui),
        MdStr ''.''])"

definition curated_key_removal_charge_applied ::
  "escaper \<Rightarrow> string \<Rightarrow> bool \<Rightarrow> string" where
  "curated_key_removal_charge_applied E amount is_total =
     (let label = (if is_total
                then ''Amount of charge: '' else ''Charge per key: '') in
      markdown E [MdStr (emoji_key @ '' ''), MdBold [MdStr ''Key removal charge applied''],
        MdStr (nl 2), MdStr label, MdCode [MdStr amount]])"

definition curated_key_allocated_balance_changed ::
  "escaper \<Rightarrow> codec \<Rightarrow> pyval \<Rightarrow> string \<Rightarrow> string" where
  "curated_key_allocated_balance_changed E C key_index new_total =
     (markdown E [MdStr (emoji_eyes @ '' ''), MdBold [MdStr ''Key balance increased''],
        MdStr (nl 2), MdStr ''Key index: '', MdCode [MdStr (val_str C key_index)], MdStr (nl 1),
        MdStr ''New allocated balance: '', MdCode [MdStr new_total]])"

definition curated_bond_curve_set ::
  "escaper \<Rightarrow> codec \<Rightarrow> string option \<Rightarrow> pyval \<Rightarrow> string" where
  "curated_bond_curve_set E C ui curve_id =
     (markdown E [MdStr (emoji_info @ '' ''), MdBold [MdStr ''Operator type changed''],
        MdStr (nl 2), MdStr ''New type id: '', MdCode [MdStr (val_str C curve_id)], MdStr (nl 1),
        MdStr ''Operational requirements may now differ. Check the '',
        MdLink [MdStr ''Curated Module UI''] (ui_url ui), MdStr '' for updated guidance.''])"

definition curated_target_validators_count_changed ::
  "escaper \<Rightarrow> int \<Rightarrow> int \<Rightarrow> int \<Rightarrow> int \<Rightarrow> int \<Rightarrow> string" where
  "curated_target_validators_count_changed E mode_before limit_before mode_after limit_after active_validators_count =
     (let keys_above_limit = (max (active_validators_count - limit_after) 0) in
      let key_word = (if keys_above_limit = 1
                then ''key'' else ''keys'') in
      if mode_after = 1 \<and> limit_after = 0
      then markdown E [MdStr (emoji_siren @ '' ''),
          MdBold [MdStr ''Target validators count changed''], MdStr (nl 2),
          MdStr ''The limit has been set to zero.'', MdStr (nl 1),
          MdStr (int_str keys_above_limit @ '' '' @ key_word @ '' will be requested to exit first.'')]
      else if mode_after = 2 \<and> limit_after = 0
      then markdown E [MdStr (emoji_siren @ '' ''),
          MdBold [MdStr ''Target validators count changed''], MdStr (nl 2),
          MdStr ''The limit has been set to zero.'', MdStr (nl 1),
          MdStr (int_str keys_above_limit @ '' '' @ key_word @ '' will be requested to exit immediately.'')]
      else if mode_before = 1 \<and> mode_after = 1 \<and> limit_after < limit_before
      then markdown E [MdStr (emoji_siren @ '' ''),
          MdBold [MdStr ''Target validators count changed''], MdStr (nl 2),
          MdStr (''The limit has been decreased from '' @ int_str limit_before @ '' to '' @ int_str limit_after @ ''.''),
          MdStr (nl 1),
          MdStr (int_str keys_above_limit @ '' '' @ key_word @ '' above the limit will be requested to exit first.'')]
      else if mode_before = 2 \<and> mode_after = 2 \<and> limit_after < limit_before
      then markdown E [MdStr (emoji_siren @ '' ''),
          MdBold [MdStr ''Target validators count changed''], MdStr (nl 2),
          MdStr (''The limit has been decreased from '' @ int_str limit_before @ '' to '' @ int_str limit_after @ ''.''),
          MdStr (nl 1),
          MdStr (int_str keys_above_limit @ '' '' @ key_word @ '' above the limit will be requested to exit immediately.'')]
      else if mode_after = 1
      then markdown E [MdStr (emoji_siren @ '' ''),
          MdBold [MdStr ''Target validators count changed''], MdStr (nl 2),
          MdStr (''The limit has been set to '' @ int_str limit_after @ ''.''), MdStr (nl 1),
          MdStr (int_str keys_above_limit @ '' '' @ key_word @ '' above the limit will be requested to exit first.'')]
      else if mode_after = 2
      then markdown E [MdStr (emoji_siren @ '' ''),
          MdBold [MdStr ''Target validators count changed''], MdStr (nl 2),
          MdStr (''The limit has been set to '' @ int_str limit_after @ ''.''), MdStr (nl 1),
          MdStr (int_str keys_above_limit @ '' '' @ key_word @ '' above the limit will be requested to exit immediately.'')]
      else if mode_before = 2 \<and> mode_after = 0
      then markdown E [MdStr (emoji_check @ '' ''),
          MdBold [MdStr ''Unsetting forced exit target limit''], MdStr (nl 2),
          MdStr ''The forced target validator limit of '', MdCode [MdStr (int_str limit_before)],
          MdStr '' has been removed.'', MdStr (nl 1),
          MdStr ''No additional validators will be requested to exit.'']
      else if mode_after = 0
      then markdown E [MdStr (emoji_siren @ '' ''),
          MdBold [MdStr ''Target validators count changed''], MdStr (nl 2),
          MdStr ''The limit has been set to zero. No keys will be requested to exit.'']
      else markdown E [MdStr (emoji_siren @ '' ''),
          MdBold [MdStr ''Target validators count changed''], MdStr (nl 2),
          MdStr (''Mode changed from '' @ int_str mode_before @ '' to '' @ int_str mode_after @ ''.''),
          MdStr (nl 1),
          MdStr (''Limit changed from '' @ int_str limit_before @ '' to '' @ int_str limit_after @ ''.'')])"

definition curated_node_operator_manager_address_change_proposed ::
  "escaper \<Rightarrow> codec \<Rightarrow> pyval \<Rightarrow> string" where
  "curated_node_operator_manager_address_change_proposed E C address =
     (if address = VStr ADDRESS_ZERO
      then markdown E [MdStr (emoji_info @ '' ''),
             MdBold [MdStr ''Proposed manager address revoked'']]
      else markdown E [MdStr (emoji_info @ '' ''), MdBold [MdStr ''New manager address proposed''],
             MdStr (nl 2), MdStr ''Proposed address: '', MdCode [MdStr (val_str C address)],
             MdStr (nl 2),
             MdStr ''To complete the change, the Node Operator must confirm it from the new address.''])"

definition curated_node_operator_manager_address_changed ::
  "escaper \<Rightarrow> codec \<Rightarrow> pyval \<Rightarrow> string" where
  "curated_node_operator_manager_address_changed E C address =
     (markdown E [MdStr (emoji_check @ '' ''), MdBold [MdStr ''Manager address changed''],
        MdStr (nl 2), MdStr ''New address: '', MdCode [MdStr (val_str C address)]])"

definition curated_node_operator_reward_address_change_proposed ::
  "escaper \<Rightarrow> codec \<Rightarrow> pyval \<Rightarrow> string" where
  "curated_node_operator_reward_address_change_proposed E C address =
     (if address = VStr ADDRESS_ZERO
      then markdown E [MdStr (emoji_info @ '' ''),
             MdBold [MdStr ''Proposed reward address revoked'']]
      else markdown E [MdStr (emoji_info @ '' ''), MdBold [MdStr ''New rewards address proposed''],
             MdStr (nl 2), MdStr ''Proposed address: '', MdCode [MdStr (val_str C address)],
             MdStr (nl 2),
             MdStr ''To complete the change, the Node Operator must confirm it from the new address.''])"

definition curated_node_operator_reward_address_changed ::
  "escaper \<Rightarrow> codec \<Rightarrow> pyval \<Rightarrow> string" where
  "curated_node_operator_reward_address_changed E C address =
     (markdown E [MdStr (emoji_check @ '' ''), MdBold [MdStr ''Rewards address changed''],
        MdStr (nl 2), MdStr ''New address: '', MdCode [MdStr (val_str C address)]])"

definition curated_custom_rewards_claimer_set ::
  "escaper \<Rightarrow> codec \<Rightarrow> pyval \<Rightarrow> pyval \<Rightarrow> string" where
  "curated_custom_rewards_claimer_set E C rewards_claimer previous_rewards_claimer =
     (if rewards_claimer = VStr ADDRESS_ZERO
      then markdown E [MdStr (emoji_info @ '' ''),
             MdBold [MdStr ''Custom rewards claimer removed''], MdStr (nl 2),
             MdStr ''Custom rewards claimer was removed for this Node Operator.'']
      else let title = (if previous_rewards_claimer = VStr ADDRESS_ZERO
                then ''Custom rewards claimer set'' else ''Custom rewards claimer changed'') in
           markdown E [MdStr (emoji_info @ '' ''), MdBold [MdStr title], MdStr (nl 2),
             MdStr ''Rewards claimer: '', MdCode [MdStr (val_str C rewards_claimer)]])"

definition curated_fee_splits_set :: "escaper \<Rightarrow> codec \<Rightarrow> string option \<Rightarrow> pyval \<Rightarrow> pyval \<Rightarrow> string res" where
  "curated_fee_splits_set E C ui fee_splits previous_fee_splits =
     bindR (if truthy previous_fee_splits
            then bindR (curated_format_fee_splits C previous_fee_splits) (\<lambda>t.
              Inr [MdStr ''Previous fee splits:'', MdStr (nl 1), t, MdStr (nl 2)])
            else Inr []) (\<lambda>before.
     bindR (if truthy fee_splits
            then bindR (curated_format_fee_splits C fee_splits) (\<lambda>t.
              Inr [MdStr ''Fee splits:'', MdStr (nl 1), t, MdStr (nl 2)])
            else Inr []) (\<lambda>after.
       Inr (markdown E
         ([MdStr (emoji_info @ '' ''),
           MdBold [MdStr (curated_fee_splits_title fee_splits previous_fee_splits)], MdStr (nl 2)] @
          before @ after @
          (if \<not> truthy fee_splits \<and> \<not> truthy previous_fee_splits
           then [MdStr ''Fee splits: '', MdCode [MdStr ''none''], MdStr (nl 1)] else []) @
          [MdStr ''Review the current rewards setup in the '', MdLink [MdStr ''Curated Module UI''] (ui_url ui), MdStr ''.'']))))"

definition curated_bond_debt_increased :: "escaper \<Rightarrow> string \<Rightarrow> string" where
  "curated_bond_debt_increased E amount =
     (markdown E [MdStr (emoji_siren @ '' ''), MdBold [MdStr ''Bond debt increased''],
        MdStr (nl 2), MdStr ''Debt increase: '', MdCode [MdStr amount], MdStr (nl 2),
        MdStr ''Future rewards or bond changes may be used to cover this debt.''])"

definition curated_bond_debt_covered :: "escaper \<Rightarrow> string \<Rightarrow> string" where
  "curated_bond_debt_covered E amount =
     (markdown E [MdStr (emoji_check @ '' ''), MdBold [MdStr ''Bond debt covered''], MdStr (nl 2),
        MdStr ''Covered amount: '', MdCode [MdStr amount]])"

definition curated_general_delayed_penalty_reported ::
  "escaper \<Rightarrow> codec \<Rightarrow> string \<Rightarrow> string \<Rightarrow> pyval \<Rightarrow> string" where
  "curated_general_delayed_penalty_reported E C amount additional_fine details =
     (markdown E [MdStr (emoji_siren @ '' ''), MdBold [MdStr ''General delayed penalty reported''],
        MdStr (nl 2), MdStr ''Penalty amount: '', MdCode [MdStr amount], MdStr (nl 1),
        MdStr ''Additional fine: '', MdCode [MdStr additional_fine], MdStr (nl 1),
        MdStr ''Details: '', MdCode [MdStr (val_str C details)]])"

definition curated_general_delayed_penalty_settled ::
  "escaper \<Rightarrow> string \<Rightarrow> string" where
  "curated_general_delayed_penalty_settled E amount =
     (markdown E [MdStr (emoji_siren @ '' ''),
        MdBold [MdStr ''General delayed penalty confirmed and applied''], MdStr (nl 2),
        MdStr ''Settled amount: '', MdCode [MdStr amount]])"

definition curated_general_delayed_penalty_cancelled ::
  "escaper \<Rightarrow> string \<Rightarrow> string" where
  "curated_general_delayed_penalty_cancelled E remaining =
     (markdown E [MdStr (emoji_phew @ '' ''), MdBold [MdStr ''General delayed penalty cancelled''],
        MdStr (nl 2), MdStr ''Remaining amount: '', MdCode [MdStr remaining]])"

definition curated_general_delayed_penalty_compensated ::
  "escaper \<Rightarrow> string \<Rightarrow> string" where
  "curated_general_delayed_penalty_compensated E amount =
     (markdown E [MdStr (emoji_check @ '' ''),
        MdBold [MdStr ''General delayed penalty compensated''], MdStr (nl 2),
        MdStr ''Compensated amount: '', MdCode [MdStr amount]])"

definition curated_validator_slashing_reported ::
  "escaper \<Rightarrow> codec \<Rightarrow> string \<Rightarrow> string \<Rightarrow> pyval \<Rightarrow> string" where
  "curated_validator_slashing_reported E C key key_url key_index =
     (markdown E [MdStr (emoji_siren @ '' ''), MdBold [MdStr ''Validator slashing reported''],
        MdStr (nl 2), MdStr ''Validator: '', MdLink [MdStr key] key_url, MdStr (nl 1),
        MdStr ''Key index: '', MdCode [MdStr (val_str C key_index)]])"

definition curated_validator_exit_request :: "escaper \<Rightarrow> exit_request list \<Rightarrow> string" where
  "curated_validator_exit_request E exit_requests =
     (case exit_requests of
        [r] \<Rightarrow>
          markdown E [MdStr (emoji_siren @ '' ''), MdBold [MdStr ''Validator exit requested''],
             MdStr (nl 2), MdStr ''Make sure to exit the key before '', MdStr (er_exit_until r),
             MdStr (nl 1), MdStr ''Requested key: '', MdLink [MdStr (er_key r)] (er_key_url r),
             MdStr (nl 1), MdStr ''Request date: '', MdCode [MdStr (er_request_date r)]]
      | _ \<Rightarrow>
          let untils = remdups (map er_exit_until exit_requests);
              dates = remdups (map er_request_date exit_requests) in
          markdown E ([MdStr (emoji_siren @ '' ''), MdBold [MdStr ''Validator exits requested''],
             MdStr (nl 2)] @
            (if length untils = 1
             then [MdStr ''Make sure to exit these keys before '', MdStr (hd untils), MdStr (nl 1)]
             else []) @
            [MdStr ''Requested keys:'', MdStr (nl 1),
             curated_format_validator_exit_requests exit_requests (1 < length untils) (1 < length dates)] @
            (if length dates = 1
             then [MdStr (nl 2), MdStr ''Request date: '', MdCode [MdStr (hd dates)]] else [])))"

definition curated_validator_exit_delay_processed ::
  "escaper \<Rightarrow> string \<Rightarrow> string \<Rightarrow> string \<Rightarrow> string" where
  "curated_validator_exit_delay_processed E key key_url penalty =
     (markdown E [MdStr (emoji_siren @ '' ''),
        MdBold [MdStr ''Validator exit delay penalty issued''], MdStr (nl 2), MdStr ''Validator: '',
        MdLink [MdStr key] key_url, MdStr (nl 1), MdStr ''Delay penalty: '', MdCode [MdStr penalty],
        MdStr (nl 2), MdStr ''Penalty will be applied when the validator exits.''])"

definition curated_triggered_exit_fee_recorded ::
  "escaper \<Rightarrow> string \<Rightarrow> string \<Rightarrow> string \<Rightarrow> string" where
  "curated_triggered_exit_fee_recorded E key key_url recorded_fee =
     (markdown E [MdStr (emoji_siren @ '' ''),
        MdBold [MdStr ''Triggerable Withdrawal fee recorded''], MdStr (nl 2), MdStr ''Validator: '',
        MdLink [MdStr key] key_url, MdStr (nl 1), MdStr ''Fee to be charged on exit: '',
        MdCode [MdStr recorded_fee], MdStr (nl 2),
        MdStr ''Exit fee will be applied when the validator exits.''])"

definition curated_strikes_penalty_processed ::
  "escaper \<Rightarrow> string \<Rightarrow> string \<Rightarrow> string \<Rightarrow> string" where
  "curated_strikes_penalty_processed E key key_url penalty =
     (markdown E [MdStr (emoji_siren @ '' ''), MdBold [MdStr ''Strikes penalty processed''],
        MdStr (nl 2), MdStr ''Validator: '', MdLink [MdStr key] key_url, MdStr (nl 1),
        MdStr ''Penalty amount: '', MdCode [MdStr penalty], MdStr (nl 2),
        MdStr ''Penalty will be charged when the validator withdraws.''])"

definition curated_validator_withdrawn :: "escaper \<Rightarrow> withdrawal list \<Rightarrow> string" where
  "curated_validator_withdrawn E withdrawals =
     (case withdrawals of
        [w] \<Rightarrow>
          markdown E ([MdStr (emoji_eyes @ '' ''), MdBold [MdStr ''Validator withdrawal confirmed''],
             MdStr (nl 2), MdStr ''Withdrawn key: '', MdLink [MdStr (wd_key w)] (wd_key_url w),
             MdStr (nl 1), MdStr ''Exit balance: '', MdCode [MdStr (wd_balance w)]] @
            (if no_slashing_penalty w then []
             else [MdStr (nl 1), MdStr ''Slashing penalty: '', MdCode [MdStr (wd_slashing_penalty w)]]))
      | _ \<Rightarrow>
          markdown E ([MdStr (emoji_eyes @ '' ''), MdBold [MdStr ''Validator withdrawals confirmed''],
             MdStr (nl 2), MdStr ''Withdrawn validators:'', MdStr (nl 1)] @
            join_lines (map (\<lambda>(index, w).
              [MdStr ''- Validator '', MdStr (nat_str index), MdStr '': '',
               MdLink [MdStr (curated_shorten_validator_key_for_link (wd_key w))] (wd_key_url w),
               MdStr (nl 1), MdStr ''  Exit balance: '', MdCode [MdStr (wd_balance w)]] @
              (if no_slashing_penalty w then []
               else [MdStr (nl 1), MdStr ''  Slashing penalty: '',
                     MdCode [MdStr (wd_slashing_penalty w)]])) (enumerate 1 withdrawals))))"

definition curated_rewards_message :: "string option \<Rightarrow> md" where
  "curated_rewards_message ui =
     MdText [MdStr (emoji_chart @ '' ''), MdBold [MdStr ''Rewards distributed!''], MdStr (nl 2),
       MdStr ''Follow the '', MdLink [MdStr ''Curated Module UI''] (ui_url ui),
       MdStr '' to check new claimable rewards.'']"

definition curated_strikes_message :: "string \<Rightarrow> nat \<Rightarrow> md" where
  "curated_strikes_message label strikes =
     MdText [MdStr (emoji_warning @ '' ''), MdBold [MdStr ''Strikes detected for validators''], MdStr (nl 2),
       MdStr ''Node Operator: '', MdCode [MdStr label], MdStr (nl 1),
       MdStr ''Validators with strikes: '', MdCode [MdStr (nat_str strikes)], MdStr (nl 1)]"

definition curated_distribution_data_updated ::
  "escaper \<Rightarrow> string option \<Rightarrow> string option \<Rightarrow> 'a list \<Rightarrow> bool \<Rightarrow> string" where
  "curated_distribution_data_updated E ui node_operator striked_validators rewards_distributed =
     (case node_operator of
        Some label \<Rightarrow>
          if striked_validators = [] then as_markdown E (curated_rewards_message ui)
          else if \<not> rewards_distributed
          then as_markdown E (curated_strikes_message label (length striked_validators))
          else as_markdown E (MdText [curated_rewards_message ui, MdStr (nl 2),
                 curated_strikes_message label (length striked_validators)])
      | None \<Rightarrow> as_markdown E (curated_rewards_message ui))"

definition curated_resumed :: "escaper \<Rightarrow> string option \<Rightarrow> string" where
  "curated_resumed E ui =
     (markdown E [MdStr (emoji_party @ '' ''), MdBold [MdStr ''Curated Module is live!''],
        MdStr (nl 2), MdStr ''Check the '', MdLink [MdStr ''Curated Module UI''] (ui_url ui),
        MdStr '' for operator workflows and current module details.''])"

definition curated_bond_deposited_eth ::
  "escaper \<Rightarrow> codec \<Rightarrow> pyval \<Rightarrow> string \<Rightarrow> string" where
  "curated_bond_deposited_eth E C sender amount = curated_bond_deposited E C ''ETH'' sender amount"

definition curated_bond_deposited_steth ::
  "escaper \<Rightarrow> codec \<Rightarrow> pyval \<Rightarrow> string \<Rightarrow> string" where
  "curated_bond_deposited_steth E C sender amount =
     curated_bond_deposited E C ''stETH'' sender amount"

definition curated_bond_deposited_wsteth ::
  "escaper \<Rightarrow> codec \<Rightarrow> pyval \<Rightarrow> string \<Rightarrow> string" where
  "curated_bond_deposited_wsteth E C sender amount =
     curated_bond_deposited E C ''wstETH'' sender amount"

definition curated_bond_claimed_unsteth ::
  "escaper \<Rightarrow> codec \<Rightarrow> pyval \<Rightarrow> string \<Rightarrow> pyval \<Rightarrow> string" where
  "curated_bond_claimed_unsteth E C recipient amount request_id =
     (markdown E [MdStr (emoji_check @ '' ''), MdBold [MdStr ''Bond claim requested''],
        MdStr (nl 2), MdStr ''Recipient: '', MdCode [MdStr (val_str C recipient)], MdStr (nl 1),
        MdStr ''Amount: '', MdCode [MdStr (asset_amount amount ''unstETH'')], MdStr (nl 1),
        MdStr ''Withdrawal request id: '', MdCode [MdStr (val_str C request_id)]])"

definition curated_bond_claimed_steth ::
  "escaper \<Rightarrow> codec \<Rightarrow> pyval \<Rightarrow> string \<Rightarrow> string" where
  "curated_bond_claimed_steth E C recipient amount =
     curated_bond_claimed E C ''stETH'' recipient amount"

definition curated_bond_claimed_wsteth ::
  "escaper \<Rightarrow> codec \<Rightarrow> pyval \<Rightarrow> string \<Rightarrow> string" where
  "curated_bond_claimed_wsteth E C recipient amount =
     curated_bond_claimed E C ''wstETH'' recipient amount"

definition curated_bond_burned :: "escaper \<Rightarrow> string \<Rightarrow> string" where
  "curated_bond_burned E amount =
     (markdown E [MdStr (emoji_siren @ '' ''), MdBold [MdStr ''Bond burned''], MdStr (nl 2),
        MdStr ''Burned amount: '', MdCode [MdStr (asset_amount amount ''ETH'')]])"

definition curated_bond_charged ::
  "escaper \<Rightarrow> string \<Rightarrow> string \<Rightarrow> string" where
  "curated_bond_charged E amount_to_charge charged_amount =
     (markdown E [MdStr (emoji_siren @ '' ''), MdBold [MdStr ''Bond charged''], MdStr (nl 2),
        MdStr ''Requested charge: '', MdCode [MdStr (asset_amount amount_to_charge ''ETH'')],
        MdStr (nl 1), MdStr ''Charged amount: '',
        MdCode [MdStr (asset_amount charged_amount ''ETH'')]])"

definition curated_bond_lock_changed ::
  "escaper \<Rightarrow> string \<Rightarrow> string \<Rightarrow> string" where
  "curated_bond_lock_changed E new_amount until =
     (markdown E [MdStr (emoji_siren @ '' ''), MdBold [MdStr ''Bond lock changed''], MdStr (nl 2),
        MdStr ''Locked amount: '', MdCode [MdStr (asset_amount new_amount ''ETH'')], MdStr (nl 1),
        MdStr ''Locked until: '', MdCode [MdStr until]])"

definition curated_bond_lock_removed :: "escaper \<Rightarrow> string" where
  "curated_bond_lock_removed E =
     (markdown E [MdStr (emoji_check @ '' ''), MdBold [MdStr ''Bond lock removed''], MdStr (nl 2),
        MdStr ''Previously locked bond is no longer retained.''])"

definition curated_bond_lock_compensated :: "escaper \<Rightarrow> string \<Rightarrow> string" where
  "curated_bond_lock_compensated E amount =
     (markdown E [MdStr (emoji_check @ '' ''), MdBold [MdStr ''Bond lock compensated''],
        MdStr (nl 2), MdStr ''Compensated amount: '', MdCode [MdStr (asset_amount amount ''ETH'')]])"

definition curated_bond_lock_period_changed ::
  "escaper \<Rightarrow> string \<Rightarrow> string" where
  "curated_bond_lock_period_changed E period =
     (markdown E [MdStr (emoji_info @ '' ''), MdBold [MdStr ''Bond lock period changed''],
        MdStr (nl 2), MdStr ''New period: '', MdCode [MdStr period]])"

definition curated_node_operator_effective_weight_changed :: "escaper \<Rightarrow> (string \<times> int \<times> int) list \<Rightarrow> string" where
  "curated_node_operator_effective_weight_changed E entries =
     markdown E ([MdStr ((if list_ex (\<lambda>(_, _, new_weight). new_weight = 0) entries
                          then emoji_siren else emoji_info) @ '' ''),
        MdBold [MdStr ''Operator effective weights changed''], MdStr (nl 2),
        MdStr ''Node Operators:'', MdStr (nl 1)] @
       join_lines (map (\<lambda>(operator_label, old_weight, new_weight).
         [MdStr ''- '', MdStr operator_label, MdStr '': '',
          MdCode [MdStr (int_str old_weight @ '' -> '' @ int_str new_weight)]] @
         (if new_weight = 0
          then [MdStr (nl 1),
                MdStr ''  Will no longer receive deposit allocation until weight is restored.'']
          else [])) entries))"

definition format_sub_node_operators ::
  "operator_allocation list \<Rightarrow> (int \<times> string) list \<Rightarrow> string res" where
  "format_sub_node_operators allocations operator_labels =
     (if allocations = [] then Inr ''none''
      else bindR (mapR (\<lambda>a. case map_of operator_labels (oa_operator a) of
                None \<Rightarrow> Inl KeyError
              | Some label \<Rightarrow>
                  Inr (''- '' @ label @ nl 1 @ ''  Weighted share: '' @
                    curated_format_basis_points_percent (oa_weighted_share a) @ '' (group share: '' @
                    curated_format_basis_points_percent (oa_share a) @ '')'')) allocations)
            (\<lambda>lines. Inr (py_join (nl 1) lines)))"

definition format_node_operator_labels :: "string list \<Rightarrow> string" where
  "format_node_operator_labels labels =
     (if labels = [] then ''none'' else py_join (nl 1) (map (\<lambda>l. ''- '' @ l) labels))"

definition operator_group_change_allocation_lines :: "operator_allocation \<Rightarrow> bool \<Rightarrow> md list" where
  "operator_group_change_allocation_lines allocation previous =
     (let prefix = (if previous then ''Previous '' else []) in
      [MdStr (''  '' @ prefix @ ''Share: ''),
       MdCode [MdStr (curated_format_basis_points_percent (oa_share allocation))], MdStr (nl 1),
       MdStr (''  '' @ prefix @ ''Effective allocation share: ''),
       MdCode [MdStr (curated_format_basis_points_percent (oa_weighted_share allocation))]])"

definition named :: "string option \<Rightarrow> bool" where
  "named name \<longleftrightarrow> name \<noteq> None \<and> name \<noteq> Some []"

definition operator_group_label :: "codec \<Rightarrow> pyval \<Rightarrow> string option \<Rightarrow> string" where
  "operator_group_label C gid group_name =
     (if \<not> named group_name then val_str C gid else val_str C gid @ '': '' @ the group_name)"

definition operator_group_name_change_parts :: "string option \<Rightarrow> string option \<Rightarrow> md list" where
  "operator_group_name_change_parts old_name new_name =
     (if old_name = new_name \<or> \<not> (named old_name \<or> named new_name) then []
      else if named old_name \<and> named new_name
      then [MdStr ''Group renamed: '', MdCode [MdStr (the old_name)], MdStr '' -> '',
            MdCode [MdStr (the new_name)]]
      else if named new_name then [MdStr ''Group name set: '', MdCode [MdStr (the new_name)]]
      else [MdStr ''Group name cleared: '', MdCode [MdStr (the old_name)]])"

definition curated_operator_group_created ::
  "escaper \<Rightarrow> codec \<Rightarrow> pyval \<Rightarrow> operator_allocation list \<Rightarrow> (int \<times> string) list \<Rightarrow> string option \<Rightarrow> string res" where
  "curated_operator_group_created E C gid allocations operator_labels group_name =
     bindR (format_sub_node_operators allocations operator_labels) (\<lambda>operators.
       Inr (markdown E [MdStr (emoji_info @ '' ''), MdBold [MdStr ''Operator group created''], MdStr (nl 2),
         MdStr ''Group: '', MdCode [MdStr (operator_group_label C gid group_name)], MdStr (nl 1),
         MdStr ''Added Node Operators:'', MdStr (nl 1), MdStr operators]))"

definition share_change :: "string \<Rightarrow> int \<Rightarrow> int \<Rightarrow> md list" where
  "share_change label old new =
     (if old = new then []
      else [MdStr (nl 1), MdStr label,
            MdCode [MdStr (curated_format_basis_points_percent old @ '' -> '' @
                           curated_format_basis_points_percent new)]])"

definition group_change_lines :: "group_change \<Rightarrow> md list res" where
  "group_change_lines c =
     (case (gc_old c, gc_new c) of
        (None, None) \<Rightarrow> Inl AssertionError
      | (None, Some a) \<Rightarrow>
          Inr ([MdStr (''- Added '' @ gc_label c), MdStr (nl 1)] @ operator_group_change_allocation_lines a False)
      | (Some a, None) \<Rightarrow>
          Inr ([MdStr (''- Removed '' @ gc_label c), MdStr (nl 1)] @ operator_group_change_allocation_lines a True)
      | (Some a, Some b) \<Rightarrow>
          Inr (MdStr (''- Updated '' @ gc_label c) # share_change ''  Share: '' (oa_share a) (oa_share b) @
            share_change ''  Effective allocation share: '' (oa_weighted_share a) (oa_weighted_share b)))"

definition curated_operator_group_updated ::
  "escaper \<Rightarrow> codec \<Rightarrow> pyval \<Rightarrow> group_change list \<Rightarrow> string option \<Rightarrow> string option \<Rightarrow> string option \<Rightarrow> string res" where
  "curated_operator_group_updated E C gid changes group_name old_group_name new_group_name =
     (let renamed = operator_group_name_change_parts old_group_name new_group_name in
      bindR (mapR group_change_lines changes) (\<lambda>lines.
        Inr (markdown E
          ([MdStr ((if list_ex (\<lambda>c. gc_new c = None) changes then emoji_siren else emoji_info) @ '' ''),
            MdBold [MdStr ''Operator group updated''], MdStr (nl 2), MdStr ''Group: '',
            MdCode [MdStr (operator_group_label C gid (if renamed \<noteq> [] then None else group_name))],
            MdStr (nl 1)] @
           (if renamed \<noteq> [] then renamed @ (if changes \<noteq> [] then [MdStr (nl 2)] else [])
            else [MdStr (nl 1)]) @
           (if changes \<noteq> [] then [MdStr ''Changes:'', MdStr (nl 1)] else []) @
           join_lines lines))))"

definition curated_operator_group_cleared ::
  "escaper \<Rightarrow> codec \<Rightarrow> pyval \<Rightarrow> string list \<Rightarrow> string option \<Rightarrow> string" where
  "curated_operator_group_cleared E C gid labels group_name =
     markdown E [MdStr (emoji_siren @ '' ''), MdBold [MdStr ''Operator group cleared''], MdStr (nl 2),
       MdStr ''Group: '', MdCode [MdStr (operator_group_label C gid group_name)], MdStr (nl 1),
       MdStr ''Affected Node Operators:'', MdStr (nl 1), MdStr (format_node_operator_labels labels),
       MdStr (nl 2),
       MdStr ''These Node Operators will no longer receive deposit allocation through this group.'']"

fun comma_labels :: "string list \<Rightarrow> md list" where
  "comma_labels [] = []"
| "comma_labels [l] = [MdStr l]"
| "comma_labels (l # ls) = MdStr l # MdStr '', '' # comma_labels ls"

definition curated_bond_curve_weight_set :: "escaper \<Rightarrow> (int \<times> int \<times> string list) list \<Rightarrow> string" where
  "curated_bond_curve_weight_set E entries =
     markdown E ([MdStr (emoji_info @ '' ''), MdBold [MdStr ''Operator type weights changed''], MdStr (nl 2),
        MdStr ''Changes:'', MdStr (nl 1)] @
       join_lines (map (\<lambda>(curve_id, weight, operator_labels).
         [MdStr ''- Type id: '', MdCode [MdStr (int_str curve_id)], MdStr (nl 1),
          MdStr ''  New weight: '', MdCode [MdStr (int_str weight)], MdStr (nl 1),
          MdStr ''  Node Operators: ''] @ comma_labels operator_labels) entries))"

definition curated_operator_metadata_set :: "escaper \<Rightarrow> codec \<Rightarrow> pyval \<Rightarrow> string res" where
  "curated_operator_metadata_set E C metadata =
     bindR (read_field metadata ''name'' 0) (\<lambda>name.
     bindR (read_field metadata ''description'' 1) (\<lambda>description.
     bindR (read_field metadata ''ownerEditsRestricted'' 2) (\<lambda>restricted.
       Inr (markdown E
         ([MdStr (emoji_info @ '' ''), MdBold [MdStr ''Operator metadata changed''], MdStr (nl 2),
           MdStr ''Name: '', MdCode [MdStr (val_str C name)], MdStr (nl 1),
           MdStr ''Description: '', MdCode [MdStr (val_str C description)]] @
          (if restricted = VBool True
           then [MdStr (nl 1), MdStr ''Owner edits restricted: '', MdCode [MdStr ''true'']] else []))))))"

text \<open>The registry of templates: the function registered for each event.\<close>

definition CURATED_EVENT_MESSAGES :: "(string \<times> string) list" where
  "CURATED_EVENT_MESSAGES = [
     (''DepositedSigningKeysCountChanged'', ''deposited_signing_keys_count_changed''),
     (''TotalSigningKeysCountChanged'', ''total_signing_keys_count_changed''),
     (''VettedSigningKeysCountDecreased'', ''vetted_signing_keys_count_decreased''),
     (''KeyRemovalChargeApplied'', ''key_removal_charge_applied''),
     (''KeyAllocatedBalanceChanged'', ''key_allocated_balance_changed''),
     (''BondCurveSet'', ''bond_curve_set''),
     (''TargetValidatorsCountChanged'', ''target_validators_count_changed''),
     (''NodeOperatorManagerAddressChangeProposed'', ''node_operator_manager_address_change_proposed''),
     (''NodeOperatorManagerAddressChanged'', ''node_operator_manager_address_changed''),
     (''NodeOperatorRewardAddressChangeProposed'', ''node_operator_reward_address_change_proposed''),
     (''NodeOperatorRewardAddressChanged'', ''node_operator_reward_address_changed''),
     (''CustomRewardsClaimerSet'', ''custom_rewards_claimer_set''),
     (''FeeSplitsSet'', ''fee_splits_set''),
     (''BondDebtIncreased'', ''bond_debt_increased''),
     (''BondDebtCovered'', ''bond_debt_covered''),
     (''GeneralDelayedPenaltyReported'', ''general_delayed_penalty_reported''),
     (''GeneralDelayedPenaltySettled'', ''general_delayed_penalty_settled''),
     (''GeneralDelayedPenaltyCancelled'', ''general_delayed_penalty_cancelled''),
     (''GeneralDelayedPenaltyCompensated'', ''general_delayed_penalty_compensated''),
     (''ValidatorSlashingReported'', ''validator_slashing_reported''),
     (''ValidatorExitRequest'', ''validator_exit_request''),
     (''ValidatorExitDelayProcessed'', ''validator_exit_delay_processed''),
     (''TriggeredExitFeeRecorded'', ''triggered_exit_fee_recorded''),
     (''StrikesPenaltyProcessed'', ''strikes_penalty_processed''),
     (''ValidatorWithdrawn'', ''validator_withdrawn''),
     (''DistributionLogUpdated'', ''distribution_data_updated''),
     (''Resumed'', ''resumed''),
     (''BondDepositedETH'', ''bond_deposited_eth''),
     (''BondDepositedStETH'', ''bond_deposited_steth''),
     (''BondDepositedWstETH'', ''bond_deposited_wsteth''),
     (''BondClaimedUnstETH'', ''bond_claimed_unsteth''),
     (''BondClaimedStETH'', ''bond_claimed_steth''),
     (''BondClaimedWstETH'', ''bond_claimed_wsteth''),
     (''BondBurned'', ''bond_burned''),
     (''BondCharged'', ''bond_charged''),
     (''BondLockChanged'', ''bond_lock_changed''),
     (''BondLockRemoved'', ''bond_lock_removed''),
     (''BondLockCompensated'', ''bond_lock_compensated''),
     (''BondLockPeriodChanged'', ''bond_lock_period_changed''),
     (''NodeOperatorEffectiveWeightChanged'', ''node_operator_effective_weight_changed''),
     (''OperatorGroupCreated'', ''operator_group_created''),
     (''OperatorGroupUpdated'', ''operator_group_updated''),
     (''OperatorGroupCleared'', ''operator_group_cleared''),
     (''BondCurveWeightSet'', ''bond_curve_weight_set''),
     (''OperatorMetadataSet'', ''operator_metadata_set'')]"

section \<open>Every template is accepted by Telegram\<close>

text \<open>
  What a template renders is a well-formed message whose links are the user interface, the
  validator links it got, and the guide; no text of an argument can add a link or break the message.
\<close>

lemma curated_messages [message_intros]:
  assumes "escaper_ok E" "ui_url ui \<in> U"
  shows "message_part U (curated_total_signing_keys_count_changed E new_count count_before)"
    and "message_part U (curated_bond_curve_set E C ui curve_id)"
    and "message_part U (curated_custom_rewards_claimer_set E C rewards_claimer previous_rewards_claimer)"
    and "message_part U (curated_vetted_signing_keys_count_decreased E ui)"
    and "message_part U (curated_key_removal_charge_applied E amount is_total)"
    and "message_part U (curated_key_allocated_balance_changed E C key_index new_total)"
    and "message_part U (curated_target_validators_count_changed E mode_before limit_before mode_after limit_after active_validators_count)"
    and "message_part U (curated_node_operator_manager_address_change_proposed E C address)"
    and "message_part U (curated_node_operator_manager_address_changed E C address)"
    and "message_part U (curated_node_operator_reward_address_change_proposed E C address)"
    and "message_part U (curated_node_operator_reward_address_changed E C address)"
    and "message_part U (curated_bond_debt_increased E amount)"
    and "message_part U (curated_bond_debt_covered E amount)"
    and "message_part U (curated_general_delayed_penalty_reported E C amount additional_fine details)"
    and "message_part U (curated_general_delayed_penalty_settled E amount)"
    and "message_part U (curated_general_delayed_penalty_cancelled E remaining)"
    and "message_part U (curated_general_delayed_penalty_compensated E amount)"
    and "key_url \<in> U \<Longrightarrow> message_part U (curated_validator_slashing_reported E C key key_url key_index)"
    and "key_url \<in> U \<Longrightarrow> message_part U (curated_validator_exit_delay_processed E key key_url penalty)"
    and "key_url \<in> U \<Longrightarrow> message_part U (curated_triggered_exit_fee_recorded E key key_url recorded_fee)"
    and "key_url \<in> U \<Longrightarrow> message_part U (curated_strikes_penalty_processed E key key_url penalty)"
    and "message_part U (curated_distribution_data_updated E ui node_operator striked_validators rewards_distributed)"
    and "message_part U (curated_resumed E ui)"
    and "message_part U (curated_bond_deposited_eth E C sender amount)"
    and "message_part U (curated_bond_deposited_steth E C sender amount)"
    and "message_part U (curated_bond_deposited_wsteth E C sender amount)"
    and "message_part U (curated_bond_claimed_unsteth E C recipient amount request_id)"
    and "message_part U (curated_bond_claimed_steth E C recipient amount)"
    and "message_part U (curated_bond_claimed_wsteth E C recipient amount)"
    and "message_part U (curated_bond_burned E amount)"
    and "message_part U (curated_bond_charged E amount_to_charge charged_amount)"
    and "message_part U (curated_bond_lock_changed E new_amount until)"
    and "message_part U (curated_bond_lock_removed E)"
    and "message_part U (curated_bond_lock_compensated E amount)"
    and "message_part U (curated_bond_lock_period_changed E period)"
    and "message_part U (curated_operator_group_cleared E C gid labels group_name)"
  by (use assms in \<open>simp_all add: curated_bond_curve_set_def curated_custom_rewards_claimer_set_def
      curated_bond_burned_def
      curated_bond_charged_def
      curated_bond_claimed_def
      curated_bond_claimed_steth_def
      curated_bond_claimed_unsteth_def
      curated_bond_claimed_wsteth_def
      curated_bond_debt_covered_def
      curated_bond_debt_increased_def
      curated_bond_deposited_def
      curated_bond_deposited_eth_def
      curated_bond_deposited_steth_def
      curated_bond_deposited_wsteth_def
      curated_bond_lock_changed_def
      curated_bond_lock_compensated_def
      curated_bond_lock_period_changed_def
      curated_bond_lock_removed_def
      curated_distribution_data_updated_def
      curated_general_delayed_penalty_cancelled_def
      curated_general_delayed_penalty_compensated_def
      curated_general_delayed_penalty_reported_def
      curated_general_delayed_penalty_settled_def
      curated_key_allocated_balance_changed_def
      curated_key_removal_charge_applied_def
      curated_node_operator_manager_address_change_proposed_def
      curated_node_operator_manager_address_changed_def
      curated_node_operator_reward_address_change_proposed_def
      curated_node_operator_reward_address_changed_def
      curated_operator_group_cleared_def
      curated_resumed_def
      curated_rewards_message_def
      curated_strikes_message_def
      curated_strikes_penalty_processed_def
      curated_target_validators_count_changed_def
      curated_total_signing_keys_count_changed_def
      curated_triggered_exit_fee_recorded_def
      curated_validator_exit_delay_processed_def
      curated_validator_slashing_reported_def
      curated_vetted_signing_keys_count_decreased_def
      markdown_message message_part_node Let_def split: option.splits\<close>)

lemma curated_list_messages [message_intros]:
  assumes "escaper_ok E"
  shows "message_part U (curated_deposited_signing_keys_count_changed E entries)"
    and "(\<And>w. w \<in> set withdrawals \<Longrightarrow> wd_key_url w \<in> U) \<Longrightarrow> message_part U (curated_validator_withdrawn E withdrawals)"
    and "(\<And>r. r \<in> set exit_requests \<Longrightarrow> er_key_url r \<in> U) \<Longrightarrow>
      message_part U (curated_validator_exit_request E exit_requests)"
proof -
  show "message_part U (curated_deposited_signing_keys_count_changed E entries)"
    unfolding curated_deposited_signing_keys_count_changed_def
    by (intro markdown_message[OF assms(1)]) (auto simp: list_all_iff)
  show "message_part U (curated_validator_withdrawn E withdrawals)" if "\<And>w. w \<in> set withdrawals \<Longrightarrow> wd_key_url w \<in> U"
    using that unfolding curated_validator_withdrawn_def
    by (auto split: list.split intro!: markdown_message[OF assms(1)]
        simp: list_all_iff dest!: enumerate_entry)
  show "message_part (U) (curated_validator_exit_request E exit_requests)"
    if "\<And>r. r \<in> set exit_requests \<Longrightarrow> er_key_url r \<in> U"
  proof -
    have "nodes_ok U [curated_format_validator_exit_requests exit_requests u d]" for u d
      unfolding curated_format_validator_exit_requests_def
      by (rule nodes_ok_MdText) (use that in \<open>auto simp: list_all_iff dest!: enumerate_entry\<close>)
    then show ?thesis
      using that assms unfolding curated_validator_exit_request_def Let_def
      by (auto split: list.split intro!: markdown_message[OF assms(1)])
  qed
qed

lemma curated_fee_splits_message [message_intros]:
  assumes "escaper_ok E" "ui_url ui \<in> U" "curated_fee_splits_set E C ui fee_splits previous = Inr m"
  shows "message_part U m"
proof -
  have "nodes_ok U [t]" if fmt: "curated_format_fee_splits C v = Inr t" for v t
  proof (cases "truthy v")
    case True
    then obtain lines splits where t: "t = MdText (join_lines lines)"
      and lines: "mapR (curated_fee_split_line C) splits = Inr lines"
      using fmt unfolding curated_format_fee_splits_def by auto
    have "list_all (nodes_ok U) lines"
      unfolding list_all_iff by (auto simp: curated_fee_split_line_def dest!: mapR_mem[OF lines])
    then show ?thesis unfolding t by (intro nodes_ok_MdText) simp
  qed (use fmt in \<open>auto simp: curated_format_fee_splits_def\<close>)
  then show ?thesis
    using assms unfolding curated_fee_splits_set_def
    by (auto intro!: markdown_message split: if_splits)
qed

lemma comma_labels_ok [simp]: "nodes_ok U (comma_labels ls)"
  by (induction ls rule: comma_labels.induct) simp_all

lemma curated_entry_messages [message_intros]:
  assumes "escaper_ok E"
  shows "message_part U (curated_node_operator_effective_weight_changed E entries)"
    and "message_part U (curated_bond_curve_weight_set E curves)"
  unfolding curated_node_operator_effective_weight_changed_def curated_bond_curve_weight_set_def
  by (intro markdown_message[OF assms]; auto simp: list_all_iff)+

lemma group_change_lines_ok: "group_change_lines c = Inr ls \<Longrightarrow> nodes_ok U ls"
  by (auto simp: group_change_lines_def share_change_def operator_group_change_allocation_lines_def
      Let_def split: option.splits)

lemma curated_group_messages [message_intros]:
  assumes "escaper_ok E"
  shows "curated_operator_group_created E C gid allocations labels name = Inr m \<Longrightarrow> message_part U m"
    and "curated_operator_group_updated E C gid changes name old_name new_name = Inr m \<Longrightarrow> message_part U m"
    and "curated_operator_metadata_set E C metadata = Inr m \<Longrightarrow> message_part U m"
proof -
  show "message_part U m" if "curated_operator_group_created E C gid allocations labels name = Inr m"
    using that by (auto simp: curated_operator_group_created_def intro!: markdown_message[OF assms])
  show "message_part U m" if "curated_operator_metadata_set E C metadata = Inr m"
    using that by (auto simp: curated_operator_metadata_set_def intro!: markdown_message[OF assms])
  show "message_part U m" if updated: "curated_operator_group_updated E C gid changes name old_name new_name = Inr m"
  proof -
    obtain lines where lines: "mapR group_change_lines changes = Inr lines"
      using updated by (auto simp: curated_operator_group_updated_def Let_def)
    have "list_all (nodes_ok U) lines"
      unfolding list_all_iff using mapR_mem[OF lines] group_change_lines_ok by metis
    moreover have "nodes_ok U (operator_group_name_change_parts old_name new_name)"
      by (simp add: operator_group_name_change_parts_def)
    ultimately show ?thesis
      using updated lines
      by (auto simp: curated_operator_group_updated_def Let_def intro!: markdown_message[OF assms])
  qed
qed

end
