(* ===== verification/Event_Messages.thy ===== *)
theory Event_Messages
  imports Community_Texts Curated_Texts
begin

text \<open>
  From a notification to its delivery plan: \<open>modules/base_events.py\<close>, \<open>modules/event_engine.py\<close>,
  \<open>modules/distribution.py\<close> and the handlers of \<open>modules/community/events.py\<close> and
  \<open>modules/curated/events.py\<close>. The class of the message engine is its module type; a method the
  classes override branches on it. Every handler is registered for one event
  (\<open>Event_Engine\<close>), so the template it looks up under \<open>event.event\<close> is the one registered for
  that event; the lookup can only fail.

  What the contracts answer at a block is the parameter \<open>chain_reads\<close>, the report fetched for a
  CID the parameter \<open>mv_log\<close>; both are functions, so that the caches in front of them do not show.
  \<open>humanize_wei\<close> of eth-utils and \<open>to_hex\<close> of web3 are parameters as well. Log records are omitted.
\<close>

section \<open>The environment of a handler\<close>

record node_operator =
  no_deposited_keys :: int
  no_exited_keys :: int
  no_added_keys :: int
  no_target_mode :: int
  no_target_limit :: int

record chain_reads =
  rd_node_operator :: "pyval \<Rightarrow> int \<Rightarrow> node_operator res"
  rd_operators_count :: "int \<Rightarrow> int res"
  rd_curve_id :: "pyval \<Rightarrow> int \<Rightarrow> int res"
  rd_key_removal_charge :: "int \<Rightarrow> int \<Rightarrow> int res"
  rd_removed_keys :: "int \<Rightarrow> (int \<times> pyval) list res"
  rd_locked_bond :: "pyval \<Rightarrow> int \<Rightarrow> int res"
  rd_rewards_claimer :: "pyval \<Rightarrow> int \<Rightarrow> pyval res"
  rd_fee_splits :: "pyval \<Rightarrow> int \<Rightarrow> pyval res"
  rd_exit_delay :: "int \<Rightarrow> int \<Rightarrow> int res"
  rd_metadata :: "int \<Rightarrow> int \<Rightarrow> pyval res"
  rd_weights :: "int list \<Rightarrow> int \<Rightarrow> int list res"
  rd_group :: "pyval \<Rightarrow> int \<Rightarrow> pyval res"

record msg_env =
  mv_type :: module_type
  mv_module :: string
  mv_codec :: codec
  mv_escape :: escaper
  mv_ui :: "string option"
  mv_etherscan :: "string option"
  mv_beaconchain :: "string option"
  mv_humanize :: "int \<Rightarrow> string"
  mv_hex :: "pyval \<Rightarrow> string"
  mv_reads :: chain_reads
  mv_log :: "pyval \<Rightarrow> pyval res"

type_synonym plan_result = "handler_result option res"

definition by_type :: "msg_env \<Rightarrow> 'a \<Rightarrow> 'a \<Rightarrow> 'a" where
  "by_type K c u = (case mv_type K of COMMUNITY \<Rightarrow> c | CURATED \<Rightarrow> u)"

definition note_arg :: "notification \<Rightarrow> string \<Rightarrow> pyval res" where
  "note_arg n k = getitem (VDict (note_args n)) k"

text \<open>\<open>humanize_wei(event.args[k])\<close>, and \<open>int\<close>-valued arguments of a comparison.\<close>

definition int_value :: "pyval \<Rightarrow> int res" where
  "int_value v = (case v of VInt i \<Rightarrow> Inr i | _ \<Rightarrow> Inl TypeError)"

definition wei :: "msg_env \<Rightarrow> (pyval \<times> pyval) list \<Rightarrow> string \<Rightarrow> string res" where
  "wei K args k = bindR (bindR (getitem (VDict args) k) int_value) (\<lambda>i. Inr (mv_humanize K i))"

section \<open>Links\<close>

text \<open>The derived URL templates of \<open>config.py\<close>.\<close>

definition etherscan_block_url_template :: "msg_env \<Rightarrow> string option" where
  "etherscan_block_url_template K =
     (case mv_etherscan K of None \<Rightarrow> None | Some u \<Rightarrow> if u = [] then None else Some (u @ ''/block/{}''))"

definition etherscan_tx_url_template :: "msg_env \<Rightarrow> string option" where
  "etherscan_tx_url_template K =
     (case mv_etherscan K of None \<Rightarrow> None | Some u \<Rightarrow> if u = [] then None else Some (u @ ''/tx/{}''))"

definition beaconchain_url_template :: "msg_env \<Rightarrow> string option" where
  "beaconchain_url_template K =
     (case mv_beaconchain K of None \<Rightarrow> None | Some u \<Rightarrow> if u = [] then None else Some (u @ ''/validator/{}''))"

definition transaction_link :: "msg_env \<Rightarrow> event \<Rightarrow> string res" where
  "transaction_link K e =
     bindR (require_template (etherscan_tx_url_template K)) (\<lambda>t. str_format t (ev_tx e))"

definition block_link :: "msg_env \<Rightarrow> int \<Rightarrow> string res" where
  "block_link K b =
     bindR (require_template (etherscan_block_url_template K)) (\<lambda>t. str_format t (int_str b))"

definition validator_link :: "msg_env \<Rightarrow> pyval \<Rightarrow> (string \<times> string) res" where
  "validator_link K pubkey =
     (let key = mv_hex K pubkey in
      bindR (require_template (beaconchain_url_template K)) (\<lambda>t.
      bindR (str_format t key) (\<lambda>url. Inr (key, url))))"

definition message_events :: "module_type \<Rightarrow> string set" where
  "message_events k =
     set (map fst (case k of COMMUNITY \<Rightarrow> COMMUNITY_EVENT_MESSAGES | CURATED \<Rightarrow> CURATED_EVENT_MESSAGES))"

definition require_message_template :: "msg_env \<Rightarrow> notification \<Rightarrow> unit res" where
  "require_message_template K n =
     (if note_event n \<in> message_events (mv_type K) then Inr () else Inl RuntimeError)"

section \<open>Footers\<close>

text \<open>The name in the metadata of a curated operator, when it has one and can be read.\<close>

definition metadata_name :: "msg_env \<Rightarrow> int \<Rightarrow> int \<Rightarrow> string option" where
  "metadata_name K i b =
     (case bindR (rd_metadata (mv_reads K) i b) (\<lambda>m. read_field m ''name'' 0) of
        Inl _ \<Rightarrow> None
      | Inr v \<Rightarrow> if truthy v then Some (val_str (mv_codec K) v) else None)"

definition metadata_node_operator_label :: "msg_env \<Rightarrow> int \<Rightarrow> int \<Rightarrow> string" where
  "metadata_node_operator_label K i b =
     (case metadata_name K i b of
        None \<Rightarrow> ''#'' @ int_str i
      | Some name \<Rightarrow> ''#'' @ int_str i @ '' - '' @ name)"

definition operator_arg :: "(pyval \<times> pyval) list \<Rightarrow> pyval option" where
  "operator_arg args =
     (case map_of args (VStr ''nodeOperatorId'') of
        None \<Rightarrow> None | Some v \<Rightarrow> if v = VNone then None else Some v)"

definition community_event_footer :: "msg_env \<Rightarrow> event \<Rightarrow> md res" where
  "community_event_footer K e = bindR (transaction_link K e) (\<lambda>link.
     Inr (case operator_arg (ev_args e) of
            None \<Rightarrow> community_event_transaction_footer_tx_only link
          | Some v \<Rightarrow> community_event_transaction_footer (mv_codec K) v link))"

definition curated_event_footer :: "msg_env \<Rightarrow> event \<Rightarrow> md res" where
  "curated_event_footer K e = bindR (transaction_link K e) (\<lambda>link.
     case operator_arg (ev_args e) of
       None \<Rightarrow> Inr (curated_event_transaction_footer_tx_only link)
     | Some v \<Rightarrow> bindR (val_int v) (\<lambda>i.
         Inr (case metadata_name K i (ev_block e) of
                None \<Rightarrow> curated_event_transaction_footer (mv_codec K) (VInt i) link
              | Some name \<Rightarrow> curated_event_transaction_footer_with_operator_name (int_str i) name link)))"

definition notification_block_range :: "notification \<Rightarrow> int \<times> int" where
  "notification_block_range n =
     (let bs = map ev_block (source_events n) in (Min (set bs), Max (set bs)))"

definition block_links :: "msg_env \<Rightarrow> notification \<Rightarrow> (string \<times> string) list res" where
  "block_links K n =
     (case notification_block_range n of (start, end) \<Rightarrow>
        bindR (block_link K start) (\<lambda>a.
          if end \<noteq> start
          then bindR (block_link K end) (\<lambda>b. Inr [(int_str start, a), (int_str end, b)])
          else Inr [(int_str start, a)]))"

definition community_block_footer :: "msg_env \<Rightarrow> notification \<Rightarrow> md res" where
  "community_block_footer K n = bindR (block_links K n) (\<lambda>links.
     case operator_arg (note_args n) of
       None \<Rightarrow> community_event_block_footer_tx_only links
     | Some v \<Rightarrow> community_event_block_footer (mv_codec K) v links)"

definition curated_block_footer :: "msg_env \<Rightarrow> notification \<Rightarrow> md res" where
  "curated_block_footer K n = bindR (block_links K n) (\<lambda>links.
     case operator_arg (note_args n) of
       None \<Rightarrow> curated_event_block_footer_tx_only links
     | Some v \<Rightarrow> bindR (val_int v) (\<lambda>i.
         case metadata_name K i (note_block n) of
           None \<Rightarrow> curated_event_block_footer (mv_codec K) (VInt i) links
         | Some name \<Rightarrow> curated_event_block_footer_with_operator_name (int_str i) name links))"

definition notification_footer :: "msg_env \<Rightarrow> notification \<Rightarrow> string res" where
  "notification_footer K n =
     bindR (if length (remdups (map ev_tx (source_events n))) = 1
            then by_type K community_event_footer curated_event_footer K (last (source_events n))
            else by_type K community_block_footer curated_block_footer K n)
       (\<lambda>t. Inr (as_markdown (mv_escape K) t))"

definition block_range_footer :: "msg_env \<Rightarrow> notification \<Rightarrow> string res" where
  "block_range_footer K n = bindR (block_links K n) (\<lambda>links.
     bindR (block_footer_tx_only links) (\<lambda>t. Inr (as_markdown (mv_escape K) t)))"

text \<open>\<open>template(...) + await self.notification_footer(event)\<close>.\<close>

definition with_footer :: "msg_env \<Rightarrow> notification \<Rightarrow> string res \<Rightarrow> plan_result" where
  "with_footer K n message = bindR (require_message_template K n) (\<lambda>_.
     bindR message (\<lambda>m. bindR (notification_footer K n) (\<lambda>f. Inr (Some (ResultText (m @ f))))))"

section \<open>Handlers of one event\<close>

definition vetted_signing_keys_count_decreased :: "msg_env \<Rightarrow> notification \<Rightarrow> plan_result" where
  "vetted_signing_keys_count_decreased K n = with_footer K n
     (Inr (by_type K community_vetted_signing_keys_count_decreased
             curated_vetted_signing_keys_count_decreased (mv_escape K) (mv_ui K)))"

definition total_signing_keys_count_changed :: "msg_env \<Rightarrow> notification \<Rightarrow> plan_result" where
  "total_signing_keys_count_changed K n = bindR (require_message_template K n) (\<lambda>_.
     bindR (note_arg n ''nodeOperatorId'') (\<lambda>i.
     bindR (rd_node_operator (mv_reads K) i (ev_block (hd (source_events n)) - 1)) (\<lambda>op.
     bindR (notification_footer K n) (\<lambda>f.
     bindR (bindR (note_arg n ''totalKeysCount'') int_value) (\<lambda>count.
       Inr (Some (ResultText (by_type K community_total_signing_keys_count_changed
         curated_total_signing_keys_count_changed (mv_escape K) count (no_added_keys op) @ f))))))))"

text \<open>
  The removed keys of the same operator in the same transaction tell whether the charge is known
  in total. Python asks for the footer after either template.
\<close>

definition key_removal_charge_applied :: "msg_env \<Rightarrow> notification \<Rightarrow> plan_result" where
  "key_removal_charge_applied K n = with_footer K n
     (bindR (note_arg n ''nodeOperatorId'') (\<lambda>i.
      bindR (rd_curve_id (mv_reads K) i (note_block n)) (\<lambda>curve.
      bindR (rd_key_removal_charge (mv_reads K) curve (note_block n)) (\<lambda>charge.
      bindR (rd_removed_keys (mv_reads K) (note_block n)) (\<lambda>logs.
        let removed = length (filter (\<lambda>(tx, op). tx = ev_tx_index (primary_event n) \<and> op = i) logs);
            render = by_type K community_key_removal_charge_applied curated_key_removal_charge_applied (mv_escape K) in
        Inr (if removed = 0 then render (mv_humanize K charge) False
             else render (mv_humanize K (charge * int removed)) True))))))"

definition key_allocated_balance_changed :: "msg_env \<Rightarrow> notification \<Rightarrow> plan_result" where
  "key_allocated_balance_changed K n = with_footer K n
     (bindR (note_arg n ''keyIndex'') (\<lambda>i. bindR (wei K (note_args n) ''newTotal'') (\<lambda>t.
        Inr (by_type K community_key_allocated_balance_changed curated_key_allocated_balance_changed
               (mv_escape K) (mv_codec K) i t))))"

definition bond_curve_set :: "msg_env \<Rightarrow> notification \<Rightarrow> plan_result" where
  "bond_curve_set K n = with_footer K n
     (bindR (note_arg n ''curveId'') (\<lambda>c.
        Inr (by_type K community_bond_curve_set curated_bond_curve_set (mv_escape K) (mv_codec K) (mv_ui K) c)))"

definition node_operator_manager_address_change_proposed :: "msg_env \<Rightarrow> notification \<Rightarrow> plan_result" where
  "node_operator_manager_address_change_proposed K n = with_footer K n
     (bindR (note_arg n ''newProposedAddress'') (\<lambda>a.
        Inr (by_type K community_node_operator_manager_address_change_proposed
               curated_node_operator_manager_address_change_proposed (mv_escape K) (mv_codec K) a)))"

definition node_operator_manager_address_changed :: "msg_env \<Rightarrow> notification \<Rightarrow> plan_result" where
  "node_operator_manager_address_changed K n = with_footer K n
     (bindR (note_arg n ''newAddress'') (\<lambda>a.
        Inr (by_type K community_node_operator_manager_address_changed
               curated_node_operator_manager_address_changed (mv_escape K) (mv_codec K) a)))"

definition node_operator_reward_address_change_proposed :: "msg_env \<Rightarrow> notification \<Rightarrow> plan_result" where
  "node_operator_reward_address_change_proposed K n = with_footer K n
     (bindR (note_arg n ''newProposedAddress'') (\<lambda>a.
        Inr (by_type K community_node_operator_reward_address_change_proposed
               curated_node_operator_reward_address_change_proposed (mv_escape K) (mv_codec K) a)))"

definition node_operator_reward_address_changed :: "msg_env \<Rightarrow> notification \<Rightarrow> plan_result" where
  "node_operator_reward_address_changed K n = with_footer K n
     (bindR (note_arg n ''newAddress'') (\<lambda>a.
        Inr (by_type K community_node_operator_reward_address_changed
               curated_node_operator_reward_address_changed (mv_escape K) (mv_codec K) a)))"

definition custom_rewards_claimer_set :: "msg_env \<Rightarrow> notification \<Rightarrow> plan_result" where
  "custom_rewards_claimer_set K n = with_footer K n
     (bindR (note_arg n ''nodeOperatorId'') (\<lambda>i.
      bindR (rd_rewards_claimer (mv_reads K) i (note_block n - 1)) (\<lambda>previous.
      bindR (note_arg n ''rewardsClaimer'') (\<lambda>claimer.
        Inr (by_type K community_custom_rewards_claimer_set curated_custom_rewards_claimer_set
               (mv_escape K) (mv_codec K) claimer previous)))))"

definition fee_splits_set :: "msg_env \<Rightarrow> notification \<Rightarrow> plan_result" where
  "fee_splits_set K n = with_footer K n
     (bindR (note_arg n ''nodeOperatorId'') (\<lambda>i.
      bindR (rd_fee_splits (mv_reads K) i (note_block n - 1)) (\<lambda>previous.
      bindR (note_arg n ''feeSplits'') (\<lambda>splits.
        by_type K community_fee_splits_set curated_fee_splits_set
          (mv_escape K) (mv_codec K) (mv_ui K) splits previous))))"

definition bond_debt_increased :: "msg_env \<Rightarrow> notification \<Rightarrow> plan_result" where
  "bond_debt_increased K n = with_footer K n
     (bindR (wei K (note_args n) ''amount'') (\<lambda>a.
        Inr (by_type K community_bond_debt_increased curated_bond_debt_increased (mv_escape K) a)))"

definition bond_debt_covered :: "msg_env \<Rightarrow> notification \<Rightarrow> plan_result" where
  "bond_debt_covered K n = with_footer K n
     (bindR (wei K (note_args n) ''amount'') (\<lambda>a.
        Inr (by_type K community_bond_debt_covered curated_bond_debt_covered (mv_escape K) a)))"

definition bond_lock_removed :: "msg_env \<Rightarrow> notification \<Rightarrow> plan_result" where
  "bond_lock_removed K n = with_footer K n
     (Inr (by_type K community_bond_lock_removed curated_bond_lock_removed (mv_escape K)))"

definition general_delayed_penalty_reported :: "msg_env \<Rightarrow> notification \<Rightarrow> plan_result" where
  "general_delayed_penalty_reported K n = with_footer K n
     (bindR (wei K (note_args n) ''amount'') (\<lambda>a.
      bindR (wei K (note_args n) ''additionalFine'') (\<lambda>fine.
      bindR (note_arg n ''details'') (\<lambda>details.
        Inr (by_type K community_general_delayed_penalty_reported curated_general_delayed_penalty_reported
               (mv_escape K) (mv_codec K) a fine details)))))"

definition general_delayed_penalty_settled :: "msg_env \<Rightarrow> notification \<Rightarrow> plan_result" where
  "general_delayed_penalty_settled K n = with_footer K n
     (bindR (wei K (note_args n) ''amount'') (\<lambda>a.
        Inr (by_type K community_general_delayed_penalty_settled curated_general_delayed_penalty_settled
               (mv_escape K) a)))"

definition general_delayed_penalty_cancelled :: "msg_env \<Rightarrow> notification \<Rightarrow> plan_result" where
  "general_delayed_penalty_cancelled K n = with_footer K n
     (bindR (note_arg n ''nodeOperatorId'') (\<lambda>i.
      bindR (rd_locked_bond (mv_reads K) i (note_block n)) (\<lambda>remaining.
        Inr (by_type K community_general_delayed_penalty_cancelled curated_general_delayed_penalty_cancelled
               (mv_escape K) (mv_humanize K remaining)))))"

definition general_delayed_penalty_compensated :: "msg_env \<Rightarrow> notification \<Rightarrow> plan_result" where
  "general_delayed_penalty_compensated K n = with_footer K n
     (bindR (wei K (note_args n) ''amount'') (\<lambda>a.
        Inr (by_type K community_general_delayed_penalty_compensated
               curated_general_delayed_penalty_compensated (mv_escape K) a)))"

definition validator_slashing_reported :: "msg_env \<Rightarrow> notification \<Rightarrow> plan_result" where
  "validator_slashing_reported K n = with_footer K n
     (bindR (note_arg n ''pubkey'') (\<lambda>pk. bindR (validator_link K pk) (\<lambda>(key, url).
      bindR (note_arg n ''keyIndex'') (\<lambda>i.
        Inr (by_type K community_validator_slashing_reported curated_validator_slashing_reported
               (mv_escape K) (mv_codec K) key url i)))))"

definition exit_request_of :: "msg_env \<Rightarrow> int \<Rightarrow> event \<Rightarrow> exit_request res" where
  "exit_request_of K delay e =
     bindR (ev_arg e ''validatorPubkey'') (\<lambda>pk. bindR (validator_link K pk) (\<lambda>(key, url).
     bindR (bindR (ev_arg e ''timestamp'') int_value) (\<lambda>t. bindR (from_timestamp t) (\<lambda>request_date.
     bindR (timedelta delay) (\<lambda>d. bindR (add_timedelta request_date d) (\<lambda>exit_until.
       Inr \<lparr>er_key = key, er_key_url = url, er_request_date = strftime_utc request_date,
            er_exit_until = strftime_utc exit_until\<rparr>))))))"

definition validator_exit_request :: "msg_env \<Rightarrow> notification \<Rightarrow> plan_result" where
  "validator_exit_request K n = with_footer K n
     (bindR (note_arg n ''nodeOperatorId'') (\<lambda>i.
      bindR (rd_curve_id (mv_reads K) i (note_block n)) (\<lambda>curve.
      bindR (rd_exit_delay (mv_reads K) curve (note_block n)) (\<lambda>delay.
      bindR (mapR (exit_request_of K delay) (source_events n)) (\<lambda>rs.
        Inr (by_type K community_validator_exit_request curated_validator_exit_request (mv_escape K) rs))))))"

definition triggered_exit_fee_recorded :: "msg_env \<Rightarrow> notification \<Rightarrow> plan_result" where
  "triggered_exit_fee_recorded K n = with_footer K n
     (bindR (note_arg n ''pubkey'') (\<lambda>pk. bindR (validator_link K pk) (\<lambda>(key, url).
      bindR (wei K (note_args n) ''withdrawalRequestRecordedFee'') (\<lambda>fee.
        Inr (by_type K community_triggered_exit_fee_recorded curated_triggered_exit_fee_recorded
               (mv_escape K) key url fee)))))"

definition strikes_penalty_processed :: "msg_env \<Rightarrow> notification \<Rightarrow> plan_result" where
  "strikes_penalty_processed K n = with_footer K n
     (bindR (note_arg n ''pubkey'') (\<lambda>pk. bindR (validator_link K pk) (\<lambda>(key, url).
      bindR (wei K (note_args n) ''strikesPenalty'') (\<lambda>penalty.
        Inr (by_type K community_strikes_penalty_processed curated_strikes_penalty_processed
               (mv_escape K) key url penalty)))))"

definition withdrawal_of :: "msg_env \<Rightarrow> event \<Rightarrow> withdrawal res" where
  "withdrawal_of K e =
     bindR (ev_arg e ''pubkey'') (\<lambda>pk. bindR (validator_link K pk) (\<lambda>(key, url).
     bindR (wei K (ev_args e) ''exitBalance'') (\<lambda>balance.
     bindR (wei K (ev_args e) ''slashingPenalty'') (\<lambda>penalty.
       Inr \<lparr>wd_key = key, wd_key_url = url, wd_balance = balance, wd_slashing_penalty = penalty\<rparr>))))"

definition validator_withdrawn :: "msg_env \<Rightarrow> notification \<Rightarrow> plan_result" where
  "validator_withdrawn K n = with_footer K n
     (bindR (mapR (withdrawal_of K) (source_events n)) (\<lambda>ws.
        Inr (by_type K community_validator_withdrawn curated_validator_withdrawn (mv_escape K) ws)))"

definition validator_exit_delay_processed :: "msg_env \<Rightarrow> notification \<Rightarrow> plan_result" where
  "validator_exit_delay_processed K n = with_footer K n
     (bindR (note_arg n ''pubkey'') (\<lambda>pk. bindR (validator_link K pk) (\<lambda>(key, url).
      bindR (wei K (note_args n) ''delayFee'') (\<lambda>penalty.
        Inr (by_type K community_validator_exit_delay_processed curated_validator_exit_delay_processed
               (mv_escape K) key url penalty)))))"

definition target_validators_count_changed :: "msg_env \<Rightarrow> notification \<Rightarrow> plan_result" where
  "target_validators_count_changed K n = with_footer K n
     (bindR (note_arg n ''nodeOperatorId'') (\<lambda>i.
      bindR (rd_node_operator (mv_reads K) i (note_block n - 1)) (\<lambda>before.
      bindR (rd_node_operator (mv_reads K) i (note_block n)) (\<lambda>op.
      bindR (bindR (note_arg n ''targetLimitMode'') int_value) (\<lambda>mode.
      bindR (bindR (note_arg n ''targetValidatorsCount'') int_value) (\<lambda>limit.
        Inr (by_type K community_target_validators_count_changed curated_target_validators_count_changed
               (mv_escape K) (no_target_mode before) (no_target_limit before) mode limit
               (no_deposited_keys op - no_exited_keys op))))))))"

section \<open>Deposit digest\<close>

text \<open>
  A set of operator ids in the order of \<open>sorted(ids, key=int)\<close>. The ids of a plan are texts of
  integers; the renderers below get ids of their plan only.
\<close>

definition id_value :: "string \<Rightarrow> int" where
  "id_value s = (case py_int s of Inr i \<Rightarrow> i | Inl _ \<Rightarrow> 0)"

definition sorted_ids :: "string set \<Rightarrow> string list" where
  "sorted_ids ids = sort_key id_value (sorted_list_of_set ids)"

definition events_by_operator :: "notification \<Rightarrow> (int \<times> event list) list res" where
  "events_by_operator n =
     bindR (mapR (\<lambda>e. bindR (bindR (ev_arg e ''nodeOperatorId'') val_int) (\<lambda>i. Inr (i, e)))
             (source_events n))
       (\<lambda>ps. Inr (sort_key fst (map (\<lambda>(i, qs). (i, map snd qs)) (group_by fst ps))))"

definition digest_operator_label :: "msg_env \<Rightarrow> int \<Rightarrow> int \<Rightarrow> string" where
  "digest_operator_label K i b = by_type K (''#'' @ int_str i) (metadata_node_operator_label K i b)"

definition deposit_entry :: "msg_env \<Rightarrow> int \<times> event list \<Rightarrow> (string \<times> (string \<times> int \<times> int)) res" where
  "deposit_entry K p = (case p of (i, es) \<Rightarrow>
     bindR (rd_node_operator (mv_reads K) (VInt i) (ev_block (hd es) - 1)) (\<lambda>op.
     bindR (bindR (ev_arg (last es) ''depositedKeysCount'') val_int) (\<lambda>count.
       Inr (int_str i, (digest_operator_label K i (ev_block (last es)), no_deposited_keys op, count)))))"

text \<open>The entries of the ids that have one, in the order of the operator ids.\<close>

definition entries_for :: "(string \<times> 'a) list \<Rightarrow> string set \<Rightarrow> 'a list" where
  "entries_for entries ids = List.map_filter (map_of entries) (sorted_ids ids)"

definition deposited_signing_keys_count_changed :: "msg_env \<Rightarrow> notification \<Rightarrow> plan_result" where
  "deposited_signing_keys_count_changed K n = bindR (require_message_template K n) (\<lambda>_.
     bindR (events_by_operator n) (\<lambda>groups.
     bindR (mapR (deposit_entry K) groups) (\<lambda>entries.
     bindR (block_range_footer K n) (\<lambda>f.
     bindR (plan_per_chat (mv_codec K) (map (\<lambda>p. VStr (fst p)) entries)
              (\<lambda>ids. [by_type K community_deposited_signing_keys_count_changed
                        curated_deposited_signing_keys_count_changed (mv_escape K) (entries_for entries ids) @ f]))
       (\<lambda>p. Inr (Some (ResultPlan p)))))))"

section \<open>Distribution reports\<close>

definition distribution_report_rewards :: "notification \<Rightarrow> int res" where
  "distribution_report_rewards n =
     (case find (\<lambda>e. ev_name e = ''ModuleFeeDistributed'') (rev (source_events n)) of
        None \<Rightarrow> Inl ValueError
      | Some e \<Rightarrow> bindR (ev_arg e ''shares'') val_int)"

definition validator_sort_key :: "string \<Rightarrow> (nat \<times> int \<times> string) res" where
  "validator_sort_key v =
     (if py_isdigit v then bindR (py_int v) (\<lambda>i. Inr (0, i, [])) else Inr (1, 0, v))"

text \<open>\<open>d.get(k, {}) or {}\<close> of a dictionary, and \<open>.items()\<close>.\<close>

definition get_or_empty :: "pyval \<Rightarrow> string \<Rightarrow> pyval res" where
  "get_or_empty v k =
     (case v of
        VDict d \<Rightarrow> Inr (case map_of d (VStr k) of None \<Rightarrow> VDict [] | Some x \<Rightarrow> if truthy x then x else VDict [])
      | _ \<Rightarrow> Inl AttributeError)"

definition dict_items :: "pyval \<Rightarrow> (pyval \<times> pyval) list res" where
  "dict_items v = (case v of VDict d \<Rightarrow> Inr d | _ \<Rightarrow> Inl AttributeError)"

definition distribution_log_entries :: "pyval \<Rightarrow> pyval list res" where
  "distribution_log_entries payload =
     (case payload of
        VList xs \<Rightarrow> Inr xs
      | VDict d \<Rightarrow> (case map_of d (VStr ''frames'') of None \<Rightarrow> Inr [payload] | Some f \<Rightarrow> iter_vals f)
      | _ \<Rightarrow> Inl TypeError)"

definition strikes_of :: "codec \<Rightarrow> pyval \<times> pyval \<Rightarrow> (string \<times> int) res" where
  "strikes_of C p = (case p of (validator_id, data) \<Rightarrow>
     (case data of
        VDict d \<Rightarrow>
          bindR (case map_of d (VStr ''strikes'') of None \<Rightarrow> Inr 0 | Some v \<Rightarrow> val_int v) (\<lambda>i.
            Inr (val_str C validator_id, i))
      | _ \<Rightarrow> Inl AttributeError))"

text \<open>
  One operator of an entry: its id and the strikes of its validators. An exception anywhere makes
  the report unusable, so the entries are read one by one and put together afterwards.
\<close>

definition read_operator :: "codec \<Rightarrow> pyval \<times> pyval \<Rightarrow> (string \<times> (string \<times> int) list) res" where
  "read_operator C p = (case p of (operator_id, data) \<Rightarrow>
     (let oid = val_str C operator_id in
      if \<not> py_isdecimal oid then Inl ValueError
      else bindR (bindR (get_or_empty data ''validators'') dict_items) (\<lambda>vs.
        bindR (mapR (strikes_of C) vs) (\<lambda>ss. Inr (oid, ss)))))"

definition read_entry :: "codec \<Rightarrow> pyval \<Rightarrow> (string \<times> (string \<times> int) list) list res" where
  "read_entry C entry =
     bindR (bindR (get_or_empty entry ''operators'') dict_items) (mapR (read_operator C))"

record strike_summary =
  ds_operators :: "string list"
  ds_strikes :: "(string \<times> (string \<times> int) list) list"

definition parse_distribution_log :: "codec \<Rightarrow> pyval \<Rightarrow> strike_summary res" where
  "parse_distribution_log C payload =
     bindR (distribution_log_entries payload) (\<lambda>es. bindR (mapR (read_entry C) es) (\<lambda>rs.
       let operators = concat rs;
           flagged = concat (map (\<lambda>(oid, ss). map (\<lambda>s. (oid, s)) (filter (\<lambda>(v, i). 0 < i) ss)) operators) in
       Inr \<lparr>ds_operators = remdups (map fst operators),
            ds_strikes = map (\<lambda>(oid, ps). (oid, map snd ps)) (group_by fst flagged)\<rparr>))"

definition distribution_operator_label :: "msg_env \<Rightarrow> string \<Rightarrow> int \<Rightarrow> string res" where
  "distribution_operator_label K oid b =
     by_type K (Inr oid) (bindR (py_int oid) (\<lambda>i. Inr (metadata_node_operator_label K i b)))"

definition distribution_message ::
  "msg_env \<Rightarrow> string option \<Rightarrow> (string \<times> int) list \<Rightarrow> bool \<Rightarrow> string" where
  "distribution_message K label flagged rewards =
     by_type K community_distribution_data_updated curated_distribution_data_updated
       (mv_escape K) (mv_ui K) label flagged rewards"

definition operator_message ::
  "msg_env \<Rightarrow> notification \<Rightarrow> string \<Rightarrow> bool \<Rightarrow> string \<times> (string \<times> int) list \<Rightarrow> (string \<times> string) res" where
  "operator_message K n footer rewards p = (case p of (oid, flagged) \<Rightarrow>
     bindR (mapR (\<lambda>q. bindR (validator_sort_key (fst q)) (\<lambda>k. Inr (k, q))) flagged) (\<lambda>keyed.
     bindR (distribution_operator_label K oid (note_block n)) (\<lambda>label.
       Inr (oid, distribution_message K (Some label) (map snd (sort_key fst keyed)) rewards @ footer))))"

text \<open>
  What a chat that follows some operators of the report gets: the messages of those with strikes,
  or the general one.
\<close>

definition distribution_render :: "(string \<times> string) list \<Rightarrow> string \<Rightarrow> string set \<Rightarrow> string list" where
  "distribution_render messages fallback ids =
     (let ms = entries_for messages ids in if ms = [] then [fallback] else ms)"

definition distribution_log_updated :: "msg_env \<Rightarrow> notification \<Rightarrow> plan_result" where
  "distribution_log_updated K n =
     bindR (distribution_report_rewards n) (\<lambda>shares.
     bindR (require_message_template K n) (\<lambda>_.
     bindR (notification_footer K n) (\<lambda>footer.
     let rewards = 0 < shares;
         fallback = distribution_message K None [] True @ footer;
         cid = (case map_of (note_args n) (VStr ''logCid'') of None \<Rightarrow> VNone | Some v \<Rightarrow> v) in
     case bindR (if truthy cid then mv_log K cid else Inl ValueError) (parse_distribution_log (mv_codec K)) of
       Inl _ \<Rightarrow> Inr (if rewards then Some (ResultPlan (plan_broadcast fallback)) else None)
     | Inr summary \<Rightarrow>
         bindR (mapR (operator_message K n footer rewards) (ds_strikes summary)) (\<lambda>messages.
           if \<not> rewards then
             (if messages = [] then Inr None
              else bindR (plan_per_operator (mv_codec K) (map (\<lambda>(i, m). (VStr i, m)) messages))
                     (\<lambda>p. Inr (Some (ResultPlan p))))
           else if messages = [] then
             Inr (Some (ResultPlan
               (if ds_operators summary \<noteq> []
                then plan_broadcast_to_operators (mv_codec K) fallback (map VStr (ds_operators summary))
                else plan_broadcast fallback)))
           else bindR (plan_per_chat (mv_codec K) (map VStr (ds_operators summary))
                         (distribution_render messages fallback))
                  (\<lambda>p. Inr (Some (ResultPlan p)))))))"

end
