(* ===== verification/Curated_Messages.thy ===== *)
theory Curated_Messages
  imports Event_Messages
begin

text \<open>
  The handlers only the curated module has, \<open>modules/curated/events.py\<close>: bonds, operator metadata,
  effective weights, operator groups and bond curve weights. The last three choose the operators
  whose chats are told.
\<close>

section \<open>Bond and module events\<close>

definition resumed :: "msg_env \<Rightarrow> notification \<Rightarrow> plan_result" where
  "resumed K n =
     (if py_lower (note_address n) \<noteq> py_lower (mv_module K) then Inr None
      else with_footer K n (Inr (curated_resumed (mv_escape K) (mv_ui K))))"

definition bond_moved ::
  "msg_env \<Rightarrow> notification \<Rightarrow> string \<Rightarrow> (escaper \<Rightarrow> codec \<Rightarrow> pyval \<Rightarrow> string \<Rightarrow> string) \<Rightarrow> plan_result" where
  "bond_moved K n party template = with_footer K n
     (bindR (note_arg n party) (\<lambda>who. bindR (wei K (note_args n) ''amount'') (\<lambda>a.
        Inr (template (mv_escape K) (mv_codec K) who a))))"

definition bond_deposited_eth :: "msg_env \<Rightarrow> notification \<Rightarrow> plan_result" where
  "bond_deposited_eth K n = bond_moved K n ''from'' curated_bond_deposited_eth"

definition bond_deposited_steth :: "msg_env \<Rightarrow> notification \<Rightarrow> plan_result" where
  "bond_deposited_steth K n = bond_moved K n ''from'' curated_bond_deposited_steth"

definition bond_deposited_wsteth :: "msg_env \<Rightarrow> notification \<Rightarrow> plan_result" where
  "bond_deposited_wsteth K n = bond_moved K n ''from'' curated_bond_deposited_wsteth"

definition bond_claimed_unsteth :: "msg_env \<Rightarrow> notification \<Rightarrow> plan_result" where
  "bond_claimed_unsteth K n = with_footer K n
     (bindR (note_arg n ''to'') (\<lambda>who. bindR (wei K (note_args n) ''amount'') (\<lambda>a.
      bindR (note_arg n ''requestId'') (\<lambda>request.
        Inr (curated_bond_claimed_unsteth (mv_escape K) (mv_codec K) who a request)))))"

definition bond_claimed_steth :: "msg_env \<Rightarrow> notification \<Rightarrow> plan_result" where
  "bond_claimed_steth K n = bond_moved K n ''to'' curated_bond_claimed_steth"

definition bond_claimed_wsteth :: "msg_env \<Rightarrow> notification \<Rightarrow> plan_result" where
  "bond_claimed_wsteth K n = bond_moved K n ''to'' curated_bond_claimed_wsteth"

definition bond_burned :: "msg_env \<Rightarrow> notification \<Rightarrow> plan_result" where
  "bond_burned K n = with_footer K n
     (bindR (wei K (note_args n) ''burnedAmount'') (\<lambda>a. Inr (curated_bond_burned (mv_escape K) a)))"

definition bond_charged :: "msg_env \<Rightarrow> notification \<Rightarrow> plan_result" where
  "bond_charged K n = with_footer K n
     (bindR (wei K (note_args n) ''amountToCharge'') (\<lambda>a.
      bindR (wei K (note_args n) ''chargedAmount'') (\<lambda>b.
        Inr (curated_bond_charged (mv_escape K) a b))))"

definition bond_lock_changed :: "msg_env \<Rightarrow> notification \<Rightarrow> plan_result" where
  "bond_lock_changed K n = with_footer K n
     (bindR (bindR (note_arg n ''until'') int_value) (\<lambda>t. bindR (from_timestamp t) (\<lambda>until.
      bindR (wei K (note_args n) ''newAmount'') (\<lambda>a.
        Inr (curated_bond_lock_changed (mv_escape K) a (strftime_utc until))))))"

definition bond_lock_compensated :: "msg_env \<Rightarrow> notification \<Rightarrow> plan_result" where
  "bond_lock_compensated K n = with_footer K n
     (bindR (wei K (note_args n) ''amount'') (\<lambda>a. Inr (curated_bond_lock_compensated (mv_escape K) a)))"

definition bond_lock_period_changed :: "msg_env \<Rightarrow> notification \<Rightarrow> plan_result" where
  "bond_lock_period_changed K n = with_footer K n
     (bindR (bindR (note_arg n ''period'') int_value) (\<lambda>s. bindR (timedelta s) (\<lambda>d.
        Inr (curated_bond_lock_period_changed (mv_escape K) (timedelta_str d)))))"

definition operator_metadata_set :: "msg_env \<Rightarrow> notification \<Rightarrow> plan_result" where
  "operator_metadata_set K n = with_footer K n
     (bindR (note_arg n ''metadata'') (curated_operator_metadata_set (mv_escape K) (mv_codec K)))"

section \<open>Effective weights\<close>

text \<open>
  The net change of each operator in the window; an operator whose weight ends where it began has
  no entry.
\<close>

definition weight_entry :: "msg_env \<Rightarrow> int \<Rightarrow> int \<times> event list \<Rightarrow> (string \<times> (string \<times> int \<times> int)) option res" where
  "weight_entry K b p = (case p of (i, es) \<Rightarrow>
     bindR (bindR (ev_arg (hd es) ''oldWeight'') val_int) (\<lambda>old.
     bindR (bindR (ev_arg (last es) ''newWeight'') val_int) (\<lambda>new.
       Inr (if old = new then None
            else Some (int_str i, (metadata_node_operator_label K i b, old, new))))))"

definition node_operator_effective_weight_changed :: "msg_env \<Rightarrow> notification \<Rightarrow> plan_result" where
  "node_operator_effective_weight_changed K n = bindR (require_message_template K n) (\<lambda>_.
     bindR (events_by_operator n) (\<lambda>groups.
     bindR (mapR (weight_entry K (note_block n)) groups) (\<lambda>candidates.
     let entries = List.map_filter id candidates in
     if entries = [] then Inr None
     else bindR (block_range_footer K n) (\<lambda>f.
       bindR (plan_per_chat (mv_codec K) (map (\<lambda>p. VStr (fst p)) entries)
         (\<lambda>ids. let es = entries_for entries ids in
            if es = [] then []
            else [curated_node_operator_effective_weight_changed (mv_escape K) es @ f]))
         (\<lambda>p. Inr (Some (ResultPlan p)))))))"

section \<open>Operator groups\<close>

definition operator_group_name :: "pyval \<Rightarrow> string option res" where
  "operator_group_name group_info = bindR (read_field group_info ''name'' 0) (\<lambda>v.
     Inr (case v of VStr s \<Rightarrow> if s = [] then None else Some s | _ \<Rightarrow> None))"

definition sub_node_operators :: "pyval \<Rightarrow> pyval list res" where
  "sub_node_operators group_info = bindR (read_field group_info ''subNodeOperators'' 1) iter_vals"

definition sub_node_operator_id :: "pyval \<Rightarrow> int res" where
  "sub_node_operator_id op = bindR (read_field op ''nodeOperatorId'' 0) val_int"

definition sub_node_operator_ids :: "pyval \<Rightarrow> int list res" where
  "sub_node_operator_ids group_info = bindR (sub_node_operators group_info) (mapR sub_node_operator_id)"

definition weight_basis_points :: "int \<Rightarrow> int \<Rightarrow> int" where
  "weight_basis_points weight total_weight =
     (if total_weight \<le> 0 then 0 else weight * 10000 div total_weight)"

definition fetch_node_operator_weights :: "msg_env \<Rightarrow> int list \<Rightarrow> int \<Rightarrow> (int \<times> int) list res" where
  "fetch_node_operator_weights K ids b =
     (if ids = [] then Inr []
      else bindR (rd_weights (mv_reads K) ids b) (\<lambda>ws.
        if length ws \<noteq> length ids then Inl ValueError else Inr (dict_of (zip ids ws))))"

definition allocation_of :: "(int \<times> int) list \<Rightarrow> pyval \<times> int \<Rightarrow> operator_allocation res" where
  "allocation_of weights p = (case p of (op, i) \<Rightarrow>
     bindR (bindR (read_field op ''share'' 1) val_int) (\<lambda>share.
       let w = (case map_of weights i of None \<Rightarrow> 0 | Some w \<Rightarrow> w) in
       Inr \<lparr>oa_operator = i, oa_share = share, oa_effective_weight = w,
            oa_weighted_share = weight_basis_points w (sum_list (map snd weights))\<rparr>))"

definition sub_node_operator_allocations ::
  "msg_env \<Rightarrow> pyval \<Rightarrow> int \<Rightarrow> operator_allocation list res" where
  "sub_node_operator_allocations K group_info b =
     bindR (sub_node_operators group_info) (\<lambda>ops.
     bindR (mapR sub_node_operator_id ops) (\<lambda>ids.
     bindR (fetch_node_operator_weights K ids b) (\<lambda>weights.
       mapR (allocation_of weights) (zip ops ids))))"

definition sub_node_operator_labels :: "msg_env \<Rightarrow> pyval \<Rightarrow> int \<Rightarrow> string list res" where
  "sub_node_operator_labels K group_info b =
     bindR (sub_node_operator_ids group_info) (\<lambda>ids.
       Inr (map (\<lambda>i. metadata_node_operator_label K i b) ids))"

definition operator_group_created :: "msg_env \<Rightarrow> notification \<Rightarrow> plan_result" where
  "operator_group_created K n = bindR (require_message_template K n) (\<lambda>_.
     bindR (note_arg n ''groupInfo'') (\<lambda>group_info.
     bindR (sub_node_operator_ids group_info) (\<lambda>ids.
     if ids = [] then Inr None
     else bindR (sub_node_operator_allocations K group_info (note_block n)) (\<lambda>allocations.
       bindR (note_arg n ''groupId'') (\<lambda>gid.
       bindR (operator_group_name group_info) (\<lambda>name.
       bindR (curated_operator_group_created (mv_escape K) (mv_codec K) gid allocations
                (dict_of (map (\<lambda>a. (oa_operator a,
                   metadata_node_operator_label K (oa_operator a) (note_block n))) allocations)) name) (\<lambda>m.
       bindR (notification_footer K n) (\<lambda>f.
         Inr (Some (ResultPlan (plan_broadcast_to_operators (mv_codec K) (m @ f) (map VInt ids))))))))))))"

definition allocations_by_operator :: "operator_allocation list \<Rightarrow> (int \<times> operator_allocation) list" where
  "allocations_by_operator as = dict_of (map (\<lambda>a. (oa_operator a, a)) as)"

text \<open>The operators that joined or left the group, or whose share of it changed.\<close>

definition changed_operators ::
  "(int \<times> operator_allocation) list \<Rightarrow> (int \<times> operator_allocation) list \<Rightarrow> int set" where
  "changed_operators old new =
     (set (map fst old) - set (map fst new)) \<union> (set (map fst new) - set (map fst old)) \<union>
     {i \<in> set (map fst old) \<inter> set (map fst new).
        map_option oa_share (map_of old i) \<noteq> map_option oa_share (map_of new i)}"

definition group_change_of ::
  "msg_env \<Rightarrow> int \<Rightarrow> (int \<times> operator_allocation) list \<Rightarrow> (int \<times> operator_allocation) list \<Rightarrow> int \<Rightarrow> (int \<times> group_change) res" where
  "group_change_of K b old new i =
     bindR (mk_group_change i (metadata_node_operator_label K i b) (map_of old i) (map_of new i))
       (\<lambda>c. Inr (i, c))"

text \<open>
  What a chat gets about a group. The template raises for a change without allocations only, which
  \<open>mk_group_change\<close> excludes.
\<close>

definition group_update_render ::
  "(group_change list \<Rightarrow> string res) \<Rightarrow> string \<Rightarrow> (int \<times> group_change) list \<Rightarrow> string set \<Rightarrow> string list" where
  "group_update_render template footer changes ids =
     (case template (List.map_filter (map_of changes) (sort (map id_value (sorted_ids ids)))) of
        Inl _ \<Rightarrow> []
      | Inr m \<Rightarrow> [m @ footer])"

definition group_update_message ::
  "msg_env \<Rightarrow> pyval \<Rightarrow> string option \<Rightarrow> string option \<Rightarrow> group_change list \<Rightarrow> string res" where
  "group_update_message K gid old_name new_name changes =
     (let renamed = (old_name \<noteq> new_name) in
      curated_operator_group_updated (mv_escape K) (mv_codec K) gid changes new_name
        (if renamed then old_name else None) (if renamed then new_name else None))"

definition operator_group_updated :: "msg_env \<Rightarrow> notification \<Rightarrow> plan_result" where
  "operator_group_updated K n = bindR (require_message_template K n) (\<lambda>_.
     bindR (note_arg n ''groupId'') (\<lambda>gid.
     bindR (rd_group (mv_reads K) gid (note_block n - 1)) (\<lambda>previous_group.
     bindR (note_arg n ''groupInfo'') (\<lambda>current_group.
     bindR (operator_group_name previous_group) (\<lambda>old_name.
     bindR (operator_group_name current_group) (\<lambda>new_name.
     bindR (sub_node_operator_allocations K previous_group (note_block n - 1)) (\<lambda>as.
     bindR (sub_node_operator_allocations K current_group (note_block n)) (\<lambda>bs.
     let old = allocations_by_operator as; new = allocations_by_operator bs;
         changed = changed_operators old new; renamed = (old_name \<noteq> new_name);
         targets = changed \<union> (if renamed then set (map fst new) else {}) in
     if targets = {} then Inr None
     else bindR (mapR (group_change_of K (note_block n) old new) (sorted_list_of_set changed)) (\<lambda>changes.
       bindR (notification_footer K n) (\<lambda>f.
       bindR (plan_per_chat (mv_codec K) (map VInt (sorted_list_of_set targets))
         (group_update_render (group_update_message K gid old_name new_name) f changes))
         (\<lambda>p. Inr (Some (ResultPlan p)))))))))))))"

definition operator_group_cleared :: "msg_env \<Rightarrow> notification \<Rightarrow> plan_result" where
  "operator_group_cleared K n = bindR (require_message_template K n) (\<lambda>_.
     bindR (note_arg n ''groupId'') (\<lambda>gid.
     bindR (rd_group (mv_reads K) gid (note_block n - 1)) (\<lambda>previous_group.
     bindR (sub_node_operator_ids previous_group) (\<lambda>ids.
     if ids = [] then Inr None
     else bindR (sub_node_operator_labels K previous_group (note_block n - 1)) (\<lambda>labels.
       bindR (operator_group_name previous_group) (\<lambda>name.
       bindR (notification_footer K n) (\<lambda>f.
         Inr (Some (ResultPlan (plan_broadcast_to_operators (mv_codec K)
           (curated_operator_group_cleared (mv_escape K) (mv_codec K) gid labels name @ f)
           (map VInt ids)))))))))))"

section \<open>Bond curve weights\<close>

fun operators_on_curve :: "msg_env \<Rightarrow> int \<Rightarrow> int \<Rightarrow> int list \<Rightarrow> int list res" where
  "operators_on_curve K curve b [] = Inr []"
| "operators_on_curve K curve b (i # is) =
     bindR (rd_curve_id (mv_reads K) (VInt i) b) (\<lambda>c.
     bindR (operators_on_curve K curve b is) (\<lambda>r. Inr (if c = curve then i # r else r)))"

definition node_operator_ids_for_bond_curve :: "msg_env \<Rightarrow> int \<Rightarrow> int \<Rightarrow> int list res" where
  "node_operator_ids_for_bond_curve K curve b =
     bindR (rd_operators_count (mv_reads K) b) (\<lambda>count. operators_on_curve K curve b [0..count - 1])"

text \<open>The last event of each curve; its weight, which the event has by its ABI.\<close>

definition curve_events :: "notification \<Rightarrow> (int \<times> event) list res" where
  "curve_events n =
     bindR (mapR (\<lambda>e. bindR (bindR (ev_arg e ''curveId'') val_int) (\<lambda>c. Inr (c, e))) (source_events n))
       (\<lambda>ps. Inr (dict_of ps))"

definition curve_weight :: "event \<Rightarrow> int" where
  "curve_weight e = (case bindR (ev_arg e ''weight'') val_int of Inl _ \<Rightarrow> 0 | Inr w \<Rightarrow> w)"

definition curve_entries ::
  "(int \<times> event \<times> int list) list \<Rightarrow> (int \<Rightarrow> string) \<Rightarrow> int set \<Rightarrow> (int \<times> int \<times> string list) list" where
  "curve_entries curves label chat =
     List.map_filter (\<lambda>(c, e, ops).
       let matching = filter (\<lambda>i. i \<in> chat) ops in
       if matching = [] then None else Some (c, curve_weight e, map label matching)) curves"

definition bond_curve_weight_set :: "msg_env \<Rightarrow> notification \<Rightarrow> plan_result" where
  "bond_curve_weight_set K n = bindR (require_message_template K n) (\<lambda>_.
     bindR (curve_events n) (\<lambda>events.
     bindR (mapR (\<lambda>(c, e). bindR (node_operator_ids_for_bond_curve K c (note_block n))
              (\<lambda>ops. Inr (c, e, ops))) events) (\<lambda>curves.
     let operators = remdups (concat (map (\<lambda>(c, e, ops). ops) curves)) in
     if operators = [] then Inr None
     else bindR (block_range_footer K n) (\<lambda>f.
       bindR (plan_per_chat (mv_codec K) (map VInt operators)
         (\<lambda>ids. let es = curve_entries curves (\<lambda>i. metadata_node_operator_label K i (note_block n)) (id_value ` ids) in
            if es = [] then [] else [curated_bond_curve_weight_set (mv_escape K) es @ f]))
         (\<lambda>p. Inr (Some (ResultPlan p)))))))"

section \<open>Every handler's messages are accepted\<close>

text \<open>
  The links a message may show: the configured user interface, the guide, and what the URL
  templates of the configured explorers give.
\<close>

definition url_templates :: "msg_env \<Rightarrow> string set" where
  "url_templates K = set_option (etherscan_block_url_template K) \<union>
     set_option (etherscan_tx_url_template K) \<union> set_option (beaconchain_url_template K)"

definition trusted_links :: "msg_env \<Rightarrow> string set" where
  "trusted_links K = {ui_url (mv_ui K), EXIT_GUIDE_URL} \<union>
     {u. \<exists>t \<in> url_templates K. \<exists>x. str_format t x = Inr u}"

fun plan_messages :: "delivery \<Rightarrow> string set" where
  "plan_messages (BroadcastDelivery m ids) = {m}"
| "plan_messages (OperatorMessagesDelivery ms) = snd ` set ms"
| "plan_messages (PerChatDelivery ids render) = (\<Union>S. set (render S))"

definition messages_ok :: "msg_env \<Rightarrow> handler_result \<Rightarrow> bool" where
  "messages_ok K r \<longleftrightarrow> (\<forall>m \<in> plan_messages (as_plan r). message_part (trusted_links K) m)"

lemma link_trusted:
  "transaction_link K e = Inr u \<Longrightarrow> u \<in> trusted_links K"
  "block_link K b = Inr u \<Longrightarrow> u \<in> trusted_links K"
  "validator_link K v = Inr (key, u) \<Longrightarrow> u \<in> trusted_links K"
  by (auto simp: transaction_link_def block_link_def validator_link_def trusted_links_def url_templates_def
      require_template_def Let_def split: option.splits)

lemma ui_trusted: "ui_url (mv_ui K) \<in> trusted_links K" and guide_trusted: "EXIT_GUIDE_URL \<in> trusted_links K"
  by (simp_all add: trusted_links_def)

lemma block_links_trusted:
  "block_links K n = Inr ls \<Longrightarrow> snd ` set ls \<subseteq> trusted_links K"
  using link_trusted(2) by (auto simp: block_links_def split: prod.splits if_splits)

lemma transaction_footers_ok:
  assumes "link \<in> U"
  shows "nodes_ok U [transaction_footer line link]" "nodes_ok U [transaction_footer_tx_only link]"
  using assms by (simp_all add: transaction_footer_def transaction_footer_tx_only_def)

lemma block_footers_ok:
  assumes "snd ` set links \<subseteq> U"
  shows "block_footer line links = Inr t \<Longrightarrow> nodes_ok U [t]"
    and "block_footer_tx_only links = Inr t \<Longrightarrow> nodes_ok U [t]"
proof -
  have parts: "nodes_ok U ps" if ps: "block_link_parts links = Inr ps" for ps
  proof (cases links)
    case (Cons p rest)
    then have "snd p \<in> U" "rest \<noteq> [] \<Longrightarrow> snd (last rest) \<in> U" using assms by auto
    then show ?thesis using ps Cons
      by (auto simp: block_link_parts_def split: list.splits prod.splits)
  qed (use ps in \<open>simp add: block_link_parts_def\<close>)
  show "block_footer line links = Inr t \<Longrightarrow> nodes_ok U [t]"
    by (auto simp: block_footer_def dest!: parts nodes_ok_text)
  show "block_footer_tx_only links = Inr t \<Longrightarrow> nodes_ok U [t]"
    by (auto simp: block_footer_tx_only_def dest!: parts nodes_ok_text)
qed

lemmas footer_texts = community_event_transaction_footer_def community_event_transaction_footer_tx_only_def
  curated_event_transaction_footer_def curated_event_transaction_footer_tx_only_def
  curated_event_transaction_footer_with_operator_name_def
  community_event_block_footer_def community_event_block_footer_tx_only_def
  curated_event_block_footer_def curated_event_block_footer_tx_only_def
  curated_event_block_footer_with_operator_name_def

lemma event_footers_ok:
  assumes "by_type K community_event_footer curated_event_footer K e = Inr t"
  shows "nodes_ok (trusted_links K) [t]"
  using assms
  by (auto simp: by_type_def community_event_footer_def curated_event_footer_def footer_texts
      simp del: nodes_ok_simps intro!: transaction_footers_ok dest!: link_trusted(1)
      split: module_type.splits option.splits)

lemma block_footers_trusted:
  assumes "by_type K community_block_footer curated_block_footer K n = Inr t"
  shows "nodes_ok (trusted_links K) [t]"
  using assms
  by (auto simp: by_type_def community_block_footer_def curated_block_footer_def footer_texts
      simp del: nodes_ok_simps dest!: block_links_trusted dest: block_footers_ok
      split: module_type.splits option.splits)

lemma footer_message:
  assumes "escaper_ok (mv_escape K)"
  shows "notification_footer K n = Inr f \<Longrightarrow> message_part (trusted_links K) f"
    and "block_range_footer K n = Inr f \<Longrightarrow> message_part (trusted_links K) f"
proof -
  have node: "message_part U (as_markdown (mv_escape K) t)" if "nodes_ok U [t]" for U t
    using message_part_node[OF assms] that by simp
  show "message_part (trusted_links K) f" if "notification_footer K n = Inr f"
    using that event_footers_ok block_footers_trusted
    by (auto simp: notification_footer_def intro!: node split: if_splits)
  show "message_part (trusted_links K) f" if "block_range_footer K n = Inr f"
    using that block_footers_ok(2)[OF block_links_trusted]
    by (auto simp: block_range_footer_def intro!: node)
qed

lemma with_footer_ok:
  assumes "escaper_ok (mv_escape K)" "with_footer K n message = Inr (Some r)"
    and "\<And>m. message = Inr m \<Longrightarrow> message_part (trusted_links K) m"
  shows "messages_ok K r"
  using assms(2,3) footer_message(1)[OF assms(1)]
  by (auto simp: with_footer_def messages_ok_def as_plan_def plan_broadcast_def intro!: message_part_append)

section \<open>Handlers of one event\<close>


text \<open>The templates with the links of an environment.\<close>

lemma note_simple_handlers:
  assumes E: "escaper_ok (mv_escape K)"
    and h: "h \<in> {vetted_signing_keys_count_decreased, key_allocated_balance_changed, bond_curve_set,
      node_operator_manager_address_change_proposed, node_operator_manager_address_changed,
      node_operator_reward_address_change_proposed, node_operator_reward_address_changed,
      custom_rewards_claimer_set, bond_debt_increased, bond_debt_covered, bond_lock_removed,
      general_delayed_penalty_reported, general_delayed_penalty_settled, general_delayed_penalty_cancelled,
      general_delayed_penalty_compensated, target_validators_count_changed, key_removal_charge_applied}"
    and r: "h K n = Inr (Some r)"
  shows "messages_ok K r"
proof -
  note texts = community_messages[OF E ui_trusted] curated_messages[OF E ui_trusted]
  show ?thesis
    using h r
    by (auto simp: vetted_signing_keys_count_decreased_def key_allocated_balance_changed_def bond_curve_set_def
      node_operator_manager_address_change_proposed_def node_operator_manager_address_changed_def
      node_operator_reward_address_change_proposed_def node_operator_reward_address_changed_def
      custom_rewards_claimer_set_def bond_debt_increased_def bond_debt_covered_def bond_lock_removed_def
      general_delayed_penalty_reported_def general_delayed_penalty_settled_def
      general_delayed_penalty_cancelled_def general_delayed_penalty_compensated_def
      target_validators_count_changed_def key_removal_charge_applied_def Let_def by_type_def texts
      elim!: with_footer_ok[OF E] split: module_type.splits if_splits)
qed

lemma note_link_handlers:
  assumes E: "escaper_ok (mv_escape K)"
    and h: "h \<in> {validator_slashing_reported, triggered_exit_fee_recorded, strikes_penalty_processed,
      validator_exit_delay_processed}"
    and r: "h K n = Inr (Some r)"
  shows "messages_ok K r"
proof -
  note texts = community_messages[OF E ui_trusted] curated_messages[OF E ui_trusted]
  show ?thesis
    using h r
    by (auto simp: validator_slashing_reported_def triggered_exit_fee_recorded_def strikes_penalty_processed_def
      validator_exit_delay_processed_def by_type_def
      intro!: texts dest!: link_trusted(3) elim!: with_footer_ok[OF E] split: module_type.splits)
qed

lemma list_handlers:
  assumes E: "escaper_ok (mv_escape K)"
    and h: "h \<in> {validator_exit_request, validator_withdrawn, fee_splits_set}"
    and r: "h K n = Inr (Some r)"
  shows "messages_ok K r"
proof -
  note lists = community_list_messages[OF E guide_trusted] curated_list_messages[OF E]
  note fees = community_fee_splits_message[OF E ui_trusted] curated_fee_splits_message[OF E ui_trusted]
  have exits: "er_key_url q \<in> trusted_links K" if "mapR (exit_request_of K d) es = Inr qs" "q \<in> set qs" for d es qs q
    using mapR_mem[OF that] link_trusted(3) by (auto simp: exit_request_of_def)
  have exit: "messages_ok K r" if "validator_exit_request K n = Inr (Some r)"
    using that unfolding validator_exit_request_def
    by (rule with_footer_ok[OF E])
      (auto simp: by_type_def intro!: lists dest: exits split: module_type.splits)
  have withdrawals: "wd_key_url w \<in> trusted_links K" if "mapR (withdrawal_of K) es = Inr ws" "w \<in> set ws" for es ws w
    using mapR_mem[OF that] link_trusted(3) by (auto simp: withdrawal_of_def)
  have withdrawn: "messages_ok K r" if "validator_withdrawn K n = Inr (Some r)"
    using that unfolding validator_withdrawn_def
    by (rule with_footer_ok[OF E])
      (auto simp: by_type_def intro!: lists dest: withdrawals split: module_type.splits)
  have fee: "messages_ok K r" if "fee_splits_set K n = Inr (Some r)"
    using that unfolding fee_splits_set_def
    by (rule with_footer_ok[OF E]) (auto simp: by_type_def dest: fees split: module_type.splits)
  show ?thesis using h r exit withdrawn fee by auto
qed

lemma total_keys_handler:
  assumes E: "escaper_ok (mv_escape K)"
    and r: "total_signing_keys_count_changed K n = Inr (Some r)"
  shows "messages_ok K r"
  using r footer_message(1)[OF E] community_messages[OF E ui_trusted] curated_messages[OF E ui_trusted]
  by (auto simp: total_signing_keys_count_changed_def messages_ok_def as_plan_def plan_broadcast_def by_type_def
      intro!: message_part_append split: module_type.splits)

lemma plan_per_chat_messages:
  "plan_per_chat C ids render = Inr p \<Longrightarrow> plan_messages p = (\<Union>S. set (render S))"
  by (auto simp: plan_per_chat_def Let_def split: if_splits)

lemma plan_per_operator_messages:
  assumes "plan_per_operator C ms = Inr p"
  shows "plan_messages p \<subseteq> snd ` set ms"
proof -
  have key: "snd ` set (foldl (\<lambda>d (k, m). AList.update (val_str C k) m d) d ms) \<subseteq> snd ` set d \<union> snd ` set ms" for d
  proof (induction ms arbitrary: d)
    case (Cons q ms)
    obtain k m where q: "q = (k, m)" by force
    have "snd ` set (AList.update (val_str C k) m d) \<subseteq> insert m (snd ` set d)"
      by (induction d) (auto split: if_splits)
    then have "snd ` set (foldl (\<lambda>d (k, m). AList.update (val_str C k) m d)
        (AList.update (val_str C k) m d) ms) \<subseteq> insert m (snd ` set d) \<union> snd ` set ms"
      using Cons[of "AList.update (val_str C k) m d"] by blast
    then show ?case by (simp add: q)
  qed simp
  from assms have "p = OperatorMessagesDelivery (foldl (\<lambda>d (k, m). AList.update (val_str C k) m d) [] ms)"
    by (auto simp: plan_per_operator_def Let_def split: if_splits)
  then show ?thesis using key[of "[]"] by simp
qed

lemma plan_per_operator_text:
  assumes "plan_per_operator C (map (\<lambda>(i, m). (VStr i, m)) ms) = Inr p" "m \<in> plan_messages p"
  shows "m \<in> snd ` set ms"
proof -
  have "snd ` set (map (\<lambda>(i, m). (VStr i, m)) ms) = snd ` set ms" by (force simp: image_iff)
  then show ?thesis using plan_per_operator_messages[OF assms(1)] assms(2) by blast
qed

lemma deposit_handler:
  assumes E: "escaper_ok (mv_escape K)"
    and r: "deposited_signing_keys_count_changed K n = Inr (Some r)"
  shows "messages_ok K r"
  using r footer_message(2)[OF E] community_list_messages(1)[OF E guide_trusted] curated_list_messages(1)[OF E]
  by (auto simp: deposited_signing_keys_count_changed_def messages_ok_def as_plan_def by_type_def
      plan_per_chat_messages intro!: message_part_append split: module_type.splits)

lemma entries_for_in: "x \<in> set (entries_for d ids) \<Longrightarrow> x \<in> snd ` set d"
  by (force simp: entries_for_def map_filter_def dest: map_of_SomeD)

lemma distribution_handler:
  assumes E: "escaper_ok (mv_escape K)"
    and r: "distribution_log_updated K n = Inr (Some r)"
  shows "messages_ok K r"
proof -
  let ?U = "trusted_links K"
  note texts = community_messages[OF E ui_trusted] curated_messages[OF E ui_trusted]
  have msg: "message_part ?U (distribution_message K l fl b)" for l fl b
    by (simp add: distribution_message_def by_type_def texts split: module_type.splits)
  obtain footer shares where footer: "notification_footer K n = Inr footer"
    and shares: "distribution_report_rewards n = Inr shares"
    using r by (auto simp: distribution_log_updated_def)
  have f: "message_part ?U footer" by (rule footer_message(1)[OF E footer])
  let ?fb = "distribution_message K None [] True @ footer"
  have fb: "message_part ?U ?fb" by (intro message_part_append msg f)
  have ms: "message_part ?U m"
    if prem: "mapR (operator_message K n footer b) ss = Inr ms" "m \<in> snd ` set ms" for b ss ms m
  proof -
    obtain q where q: "q \<in> set ms" "m = snd q" using prem(2) by auto
    then obtain s where "operator_message K n footer b s = Inr q" using mapR_mem[OF prem(1)] by blast
    then show ?thesis using q message_part_append[OF msg f] by (auto simp: operator_message_def split: prod.splits)
  qed
  have render: "message_part ?U m"
    if prem: "mapR (operator_message K n footer b) ss = Inr ms" "m \<in> set (distribution_render ms ?fb S)" for b ss ms m S
  proof -
    from prem(2) have "m = ?fb \<or> m \<in> snd ` set ms"
      using entries_for_in by (force simp: distribution_render_def Let_def split: if_splits)
    then show ?thesis using fb ms[OF prem(1)] by blast
  qed
  let ?cid = "case map_of (note_args n) (VStr ''logCid'') of None \<Rightarrow> VNone | Some v \<Rightarrow> v"
  let ?log = "bindR (if truthy ?cid then mv_log K ?cid else Inl ValueError) (parse_distribution_log (mv_codec K))"
  show ?thesis
  proof (cases ?log)
    case (Inl e)
    then have "r = ResultPlan (plan_broadcast ?fb)"
      using r shares footer by (simp add: distribution_log_updated_def Let_def split: if_splits)
    then show ?thesis using fb by (simp add: messages_ok_def as_plan_def plan_broadcast_def)
  next
    case (Inr summary)
    then obtain messages where m: "mapR (operator_message K n footer (0 < shares)) (ds_strikes summary) = Inr messages"
      using r shares footer by (auto simp: distribution_log_updated_def Let_def)
    have op: "message_part ?U t"
      if "plan_per_operator (mv_codec K) (map (\<lambda>(i, y). (VStr i, y)) messages) = Inr p" "t \<in> plan_messages p" for p t
      using ms[OF m plan_per_operator_text[OF that]] .
    show ?thesis
      using r shares footer Inr m fb render[OF m]
      by (auto simp: distribution_log_updated_def messages_ok_def as_plan_def plan_broadcast_def Let_def
          plan_broadcast_to_operators_def plan_per_chat_messages
          dest: op split: if_splits)
  qed
qed

lemma bond_handlers:
  assumes E: "escaper_ok (mv_escape K)"
    and h: "h \<in> {resumed, bond_deposited_eth, bond_deposited_steth, bond_deposited_wsteth, bond_claimed_unsteth,
      bond_claimed_steth, bond_claimed_wsteth, bond_burned, bond_charged, bond_lock_changed, bond_lock_compensated,
      bond_lock_period_changed}"
    and r: "h K n = Inr (Some r)"
  shows "messages_ok K r"
proof -
  note texts = curated_messages[OF E ui_trusted]
  show ?thesis
    using h r
    by (auto simp: resumed_def bond_deposited_eth_def bond_deposited_steth_def bond_deposited_wsteth_def
      bond_claimed_unsteth_def bond_claimed_steth_def bond_claimed_wsteth_def bond_burned_def bond_charged_def
      bond_lock_changed_def bond_lock_compensated_def bond_lock_period_changed_def bond_moved_def texts
      elim!: with_footer_ok[OF E] split: if_splits)
qed

lemma metadata_handler:
  assumes E: "escaper_ok (mv_escape K)" and r: "operator_metadata_set K n = Inr (Some r)"
  shows "messages_ok K r"
  using r unfolding operator_metadata_set_def
proof (rule with_footer_ok[OF E])
  fix m assume "bindR (note_arg n ''metadata'') (curated_operator_metadata_set (mv_escape K) (mv_codec K)) = Inr m"
  then obtain v where "curated_operator_metadata_set (mv_escape K) (mv_codec K) v = Inr m" by auto
  then show "message_part (trusted_links K) m" by (rule curated_group_messages(3)[OF E])
qed

lemma weight_handlers:
  assumes E: "escaper_ok (mv_escape K)"
    and h: "h \<in> {node_operator_effective_weight_changed, bond_curve_weight_set}"
    and r: "h K n = Inr (Some r)"
  shows "messages_ok K r"
proof -
  note parts = message_part_append[OF curated_entry_messages(1)[OF E] footer_message(2)[OF E]]
    message_part_append[OF curated_entry_messages(2)[OF E] footer_message(2)[OF E]]
  show ?thesis
    using h r
    by (auto simp: node_operator_effective_weight_changed_def bond_curve_weight_set_def messages_ok_def
      as_plan_def Let_def plan_per_chat_messages intro!: parts split: if_splits)
qed

lemma group_handlers:
  assumes E: "escaper_ok (mv_escape K)"
    and h: "h \<in> {operator_group_created, operator_group_updated, operator_group_cleared}"
    and r: "h K n = Inr (Some r)"
  shows "messages_ok K r"
proof -
  let ?U = "trusted_links K"
  note foot = footer_message(1)[OF E]
  have render: "message_part ?U m"
    if t: "\<And>cs m. template cs = Inr m \<Longrightarrow> message_part ?U m" and f: "message_part ?U f"
      and m: "m \<in> set (group_update_render template f changes S)" for template f changes S m
    using m message_part_append[OF t f] by (auto simp: group_update_render_def split: sum.splits)
  have created: "messages_ok K r" if "operator_group_created K n = Inr (Some r)"
    using that curated_group_messages(1)[OF E] foot
    by (auto simp: operator_group_created_def messages_ok_def as_plan_def plan_broadcast_to_operators_def
        intro!: message_part_append split: if_splits)
  have cleared: "messages_ok K r" if "operator_group_cleared K n = Inr (Some r)"
    using that curated_messages[OF E ui_trusted] foot
    by (auto simp: operator_group_cleared_def messages_ok_def as_plan_def plan_broadcast_to_operators_def
        intro!: message_part_append split: if_splits)
  have update_text: "message_part ?U m" if "group_update_message K gid old new cs = Inr m" for gid old new cs m
    using that curated_group_messages(2)[OF E] unfolding group_update_message_def Let_def by blast
  have updated: "messages_ok K r" if upd: "operator_group_updated K n = Inr (Some r)"
  proof -
    obtain gid old new f changes ids p where "notification_footer K n = Inr f"
      and p: "plan_per_chat (mv_codec K) ids (group_update_render (group_update_message K gid old new) f changes) = Inr p"
      "r = ResultPlan p"
      using upd by (clarsimp simp: operator_group_updated_def Let_def split: if_splits; blast)
    then show ?thesis
      using render[OF update_text foot]
      by (auto simp: messages_ok_def as_plan_def plan_per_chat_messages[OF p(1)])
  qed
  show ?thesis using h r created cleared updated by auto
qed

end
