(* ===== verification/Event_Engine.thy ===== *)
theory Event_Engine
  imports Module_Adapter Curated_Messages
begin

text \<open>
  The message engine of a module: \<open>event_handlers\<close> and \<open>event_messages\<close> of
  \<open>modules/community/events.py\<close> and \<open>modules/curated/events.py\<close> as the table that
  \<open>get_notification_plan\<close> looks a handler up in. What is proved: every message of every plan is
  accepted by Telegram and shows known links only, and who is told what.
\<close>

section \<open>The table of handlers\<close>

text \<open>A registered method, found by its name.\<close>

definition handler_methods :: "msg_env \<Rightarrow> (string \<times> (notification \<Rightarrow> plan_result)) list" where
  "handler_methods K = [
     (''validator_exit_delay_processed'', validator_exit_delay_processed K),
     (''target_validators_count_changed'', target_validators_count_changed K),
     (''deposited_signing_keys_count_changed'', deposited_signing_keys_count_changed K),
     (''total_signing_keys_count_changed'', total_signing_keys_count_changed K),
     (''vetted_signing_keys_count_decreased'', vetted_signing_keys_count_decreased K),
     (''key_removal_charge_applied'', key_removal_charge_applied K),
     (''key_allocated_balance_changed'', key_allocated_balance_changed K),
     (''bond_curve_set'', bond_curve_set K),
     (''node_operator_manager_address_change_proposed'', node_operator_manager_address_change_proposed K),
     (''node_operator_manager_address_changed'', node_operator_manager_address_changed K),
     (''node_operator_reward_address_change_proposed'', node_operator_reward_address_change_proposed K),
     (''node_operator_reward_address_changed'', node_operator_reward_address_changed K),
     (''custom_rewards_claimer_set'', custom_rewards_claimer_set K),
     (''fee_splits_set'', fee_splits_set K),
     (''bond_debt_increased'', bond_debt_increased K),
     (''bond_debt_covered'', bond_debt_covered K),
     (''bond_lock_removed'', bond_lock_removed K),
     (''general_delayed_penalty_reported'', general_delayed_penalty_reported K),
     (''general_delayed_penalty_settled'', general_delayed_penalty_settled K),
     (''general_delayed_penalty_cancelled'', general_delayed_penalty_cancelled K),
     (''general_delayed_penalty_compensated'', general_delayed_penalty_compensated K),
     (''validator_slashing_reported'', validator_slashing_reported K),
     (''validator_exit_request'', validator_exit_request K),
     (''triggered_exit_fee_recorded'', triggered_exit_fee_recorded K),
     (''strikes_penalty_processed'', strikes_penalty_processed K),
     (''validator_withdrawn'', validator_withdrawn K),
     (''distribution_log_updated'', distribution_log_updated K),
     (''resumed'', resumed K),
     (''bond_deposited_eth'', bond_deposited_eth K),
     (''bond_deposited_steth'', bond_deposited_steth K),
     (''bond_deposited_wsteth'', bond_deposited_wsteth K),
     (''bond_claimed_unsteth'', bond_claimed_unsteth K),
     (''bond_claimed_steth'', bond_claimed_steth K),
     (''bond_claimed_wsteth'', bond_claimed_wsteth K),
     (''bond_burned'', bond_burned K),
     (''bond_charged'', bond_charged K),
     (''bond_lock_changed'', bond_lock_changed K),
     (''bond_lock_compensated'', bond_lock_compensated K),
     (''bond_lock_period_changed'', bond_lock_period_changed K),
     (''node_operator_effective_weight_changed'', node_operator_effective_weight_changed K),
     (''operator_group_created'', operator_group_created K),
     (''operator_group_updated'', operator_group_updated K),
     (''operator_group_cleared'', operator_group_cleared K),
     (''bond_curve_weight_set'', bond_curve_weight_set K),
     (''operator_metadata_set'', operator_metadata_set K)]"

definition handler_method :: "msg_env \<Rightarrow> string \<Rightarrow> notification \<Rightarrow> plan_result" where
  "handler_method K m = (case map_of (handler_methods K) m of Some h \<Rightarrow> h | None \<Rightarrow> (\<lambda>n. Inl AttributeError))"

definition event_engine :: "msg_env \<Rightarrow> engine" where
  "event_engine K =
     \<lparr>en_notifiable = notifiable_events (mv_type K),
      en_handlers = map (\<lambda>(event, method, g, d). (event, handler_method K method)) (registrations (mv_type K)),
      en_default_text = (\<lambda>n. ''Event '' @ note_event n @ '' emitted with data: '' @ nl 1 @
        val_str (mv_codec K) (VDict (note_args n)))\<rparr>"

section \<open>Registered methods and catalogs\<close>

lemma methods_ok:
  assumes E: "escaper_ok (mv_escape K)" and m: "(m, h) \<in> set (handler_methods K)" and r: "h n = Inr (Some r)"
  shows "messages_ok K r"
proof -
  have "list_all (\<lambda>p. \<forall>n r. snd p n = Inr (Some r) \<longrightarrow> messages_ok K r) (handler_methods K)"
    unfolding handler_methods_def list.pred_inject snd_conv
    apply (intro conjI allI impI)
    apply ((erule note_simple_handlers[OF E, rotated], (simp; fail)) |
        (erule note_link_handlers[OF E, rotated], (simp; fail)) |
        (erule list_handlers[OF E, rotated], (simp; fail)) |
        (erule bond_handlers[OF E, rotated], (simp; fail)) |
        (erule weight_handlers[OF E, rotated], (simp; fail)) |
        (erule group_handlers[OF E, rotated], (simp; fail)) |
        erule total_keys_handler[OF E] deposit_handler[OF E] distribution_handler[OF E] metadata_handler[OF E] |
        (simp; fail))+
     done
  then show ?thesis using m r by (force simp: list_all_iff)
qed
lemma ed_name_mk [simp]: "ed_name (mk_event_definition n d g) = n"
  by (simp add: mk_event_definition_def)
definition catalog_of :: "module_type \<Rightarrow> event_definition list" where
  "catalog_of k = (case k of COMMUNITY \<Rightarrow> COMMUNITY_EVENT_CATALOG | CURATED \<Rightarrow> CURATED_EVENT_CATALOG)"



text \<open>The names in the catalog, in the message mapping and in the registry of a module are the same.\<close>

lemma catalog_names:
  "set (map ed_name (catalog_of COMMUNITY)) = message_events COMMUNITY"
  "set (map ed_name (catalog_of CURATED)) = message_events CURATED"
  by (simp only: catalog_of_def COMMUNITY_EVENT_CATALOG_def CURATED_EVENT_CATALOG_def list.map ed_name_mk
      message_events_def COMMUNITY_EVENT_MESSAGES_def CURATED_EVENT_MESSAGES_def module_type.case fst_conv;
      code_simp)+

lemma registered_messages:
  "set (map fst (registrations COMMUNITY)) = message_events COMMUNITY"
  "set (map fst (registrations CURATED)) = message_events CURATED"
  by (simp only: registrations.simps community_registrations_def curated_registrations_def list.map
      message_events_def COMMUNITY_EVENT_MESSAGES_def CURATED_EVENT_MESSAGES_def module_type.case fst_conv;
      code_simp)+

lemma registered_methods:
  "list_all (\<lambda>(event, m, g, d). m \<in> set (map fst (handler_methods K))) (registrations k)"
proof -
  have names: "map fst (handler_methods K) = map fst (handler_methods undefined)"
    by (simp only: handler_methods_def list.map fst_conv)
  show ?thesis
    unfolding names handler_methods_def
    by (cases k) (simp_all add: community_registrations_def curated_registrations_def)
qed

section \<open>Every message is accepted\<close>

lemma target_operators_messages: "plan_messages (target_operators C n p) = plan_messages p"
  by (auto simp: target_operators_def plan_broadcast_to_operators_def split: delivery.splits option.splits)

lemma handler_method_ok:
  assumes E: "escaper_ok (mv_escape K)" and r: "handler_method K m n = Inr (Some r)"
  shows "messages_ok K r"
proof -
  obtain h where "map_of (handler_methods K) m = Some h" "h n = Inr (Some r)"
    using r by (cases "map_of (handler_methods K) m") (auto simp: handler_method_def)
  then show ?thesis using methods_ok [OF E] map_of_SomeD by metis
qed

lemma notifiable_registered: "notifiable_events k \<subseteq> fst ` set (registrations k)"
  unfolding catalog_registered by (cases k) (auto simp: COMMUNITY_NOTIFIABLE_EVENTS_def)

lemma engine_handler:
  assumes "e \<in> notifiable_events (mv_type K)"
  obtains m where "map_of (en_handlers (event_engine K)) e = Some (handler_method K m)"
proof -
  have "e \<in> fst ` set (en_handlers (event_engine K))"
    using assms notifiable_registered by (force simp: event_engine_def)
  then obtain h where h: "map_of (en_handlers (event_engine K)) e = Some h"
    by (metis map_of_eq_None_iff not_None_eq)
  then have "(e, h) \<in> set (en_handlers (event_engine K))" by (rule map_of_SomeD)
  then show thesis using that h by (auto simp: event_engine_def)
qed

text \<open>C22: whatever the chain and the report say, every message in the plan the module engine returns
  is a MarkdownV2 text Telegram accepts, and its only links are those of the configured explorers
  and interfaces.
\<close>

theorem every_message_accepted:
  assumes E: "escaper_ok (mv_escape K)"
    and p: "get_notification_plan C (event_engine K) n = Inr (Some p)"
    and m: "m \<in> plan_messages p"
  shows "message_ok (trusted_links K) m"
proof -
  have "note_event n \<in> notifiable_events (mv_type K)"
    using p by (auto simp: get_notification_plan_def event_engine_def split: if_splits)
  then obtain k where "map_of (en_handlers (event_engine K)) (note_event n) = Some (handler_method K k)"
    by (rule engine_handler)
  then obtain r where r: "handler_method K k n = Inr (Some r)" "p = target_operators C n (as_plan r)"
    using p by (auto simp: get_notification_plan_def split: if_splits option.splits)
  have "messages_ok K r" by (rule handler_method_ok [OF E r(1)])
  then show ?thesis
    using m by (auto simp: r(2) target_operators_messages messages_ok_def intro: message_part_ok)
qed

section \<open>A concrete module\<close>

definition demo_group :: "string \<Rightarrow> (int \<times> int) list \<Rightarrow> pyval" where
  "demo_group name ops = VDict [(VStr ''name'', VStr name), (VStr ''subNodeOperators'',
     VList (map (\<lambda>(i, share). VDict [(VStr ''nodeOperatorId'', VInt i), (VStr ''share'', VInt share)]) ops))]"

definition demo_report :: pyval where
  "demo_report = VDict [(VStr ''operators'', VDict [
     (VStr ''5'', VDict [(VStr ''validators'', VDict [(VStr ''17'', VDict [(VStr ''strikes'', VInt 2)])])]),
     (VStr ''6'', VDict [(VStr ''validators'', VDict [(VStr ''18'', VDict [(VStr ''strikes'', VInt 0)])])])])]"

definition demo_reads :: chain_reads where
  "demo_reads = \<lparr>
     rd_node_operator = (\<lambda>i b. Inr \<lparr>no_deposited_keys = 3, no_exited_keys = 1, no_added_keys = 8,
        no_target_mode = 0, no_target_limit = 0\<rparr>),
     rd_operators_count = (\<lambda>b. Inr 7), rd_curve_id = (\<lambda>i b. Inr 0), rd_key_removal_charge = (\<lambda>c b. Inr 5),
     rd_removed_keys = (\<lambda>b. Inr []), rd_locked_bond = (\<lambda>i b. Inr 0),
     rd_rewards_claimer = (\<lambda>i b. Inr (VStr ''0x1'')), rd_fee_splits = (\<lambda>i b. Inr (VList [])),
     rd_exit_delay = (\<lambda>c b. Inr 60), rd_metadata = (\<lambda>i b. Inr (VDict [(VStr ''name'', VStr ''a_b'')])),
     rd_weights = (\<lambda>is b. Inr (map (\<lambda>i. 1) is)),
     rd_group = (\<lambda>g b. Inr (demo_group ''old'' [(5, 40), (6, 60)]))\<rparr>"

definition demo_env :: "module_type \<Rightarrow> msg_env" where
  "demo_env k = \<lparr>mv_type = k, mv_module = ''0xm'', mv_codec = sample_codec, mv_escape = documented_escaper,
     mv_ui = None, mv_etherscan = Some ''https://e'', mv_beaconchain = Some ''https://b'',
     mv_humanize = int_str, mv_hex = (\<lambda>v. ''0xkey''), mv_reads = demo_reads,
     mv_log = (\<lambda>cid. Inr demo_report)\<rparr>"

definition demo_event :: "string \<Rightarrow> int \<Rightarrow> (pyval \<times> pyval) list \<Rightarrow> event" where
  "demo_event name b args = \<lparr>ev_name = name, ev_args = args, ev_block = b, ev_tx = ''0xaa'',
     ev_address = ''0xM'', ev_log_index = 0, ev_tx_index = 0\<rparr>"

lemma demo_env_type [simp]: "mv_type (demo_env k) = k"
  by (simp add: demo_env_def)

lemma demo_env_escaper: "escaper_ok (mv_escape (demo_env k))"
  using documented_escaper_ok by (simp add: demo_env_def)

definition demo_removed :: notification where
  "demo_removed = EventNotification [demo_event ''BondLockRemoved'' 10 [(VStr ''nodeOperatorId'', VInt 5)]]"

lemma demo_removed_text:
  "case bond_lock_removed (demo_env CURATED) demo_removed of Inr (Some (ResultText m)) \<Rightarrow> True | _ \<Rightarrow> False"
  by code_simp

lemma every_message_accepted_witness:
  "\<exists>m. get_notification_plan sample_codec (event_engine (demo_env CURATED)) demo_removed =
       Inr (Some (BroadcastDelivery m (Some {''5''}))) \<and>
     message_ok (trusted_links (demo_env CURATED)) m"
proof -
  obtain m where m: "bond_lock_removed (demo_env CURATED) demo_removed = Inr (Some (ResultText m))"
    using demo_removed_text by (auto split: sum.splits option.splits handler_result.splits)
  have "note_event demo_removed \<in> notifiable_events CURATED" by code_simp
  moreover have "handler_method (demo_env CURATED) ''bond_lock_removed'' = bond_lock_removed (demo_env CURATED)"
    by (simp add: handler_method_def handler_methods_def)
  then have "map_of (en_handlers (event_engine (demo_env CURATED))) (note_event demo_removed) =
      Some (bond_lock_removed (demo_env CURATED))"
    by (simp add: event_engine_def curated_registrations_def demo_removed_def note_event_def
        primary_event_def demo_event_def)
  moreover have "note_args demo_removed = [(VStr ''nodeOperatorId'', VInt 5)]"
    by (simp add: note_args_def primary_event_def demo_removed_def demo_event_def)
  moreover have "val_str sample_codec (VInt 5) = ''5''" by code_simp
  ultimately have "get_notification_plan sample_codec (event_engine (demo_env CURATED)) demo_removed =
      Inr (Some (BroadcastDelivery m (Some {''5''})))"
    using m by (simp add: get_notification_plan_def event_engine_def target_operators_def as_plan_def
        plan_broadcast_def plan_broadcast_to_operators_def normalise_operator_ids_def)
  with every_message_accepted [OF demo_env_escaper this] show ?thesis by simp
qed

end
