(* ===== verification/Message_Delivery.thy ===== *)
theory Message_Delivery
  imports Event_Engine
begin

text \<open>
  What the messages of a module mean for a chat: the plan of a handler, as \<open>Delivery\<close> carries it out,
  for the operators a chat follows. Distribution reports (\<open>modules/distribution.py\<close> and
  \<open>distribution_log_updated\<close> of \<open>modules/base_events.py\<close>), operator groups and effective weights
  (\<open>modules/curated/events.py\<close>) and the deposit digest.
\<close>

section \<open>Ids\<close>

lemma id_value_int_str [simp]: "id_value (int_str i) = i"
  by (simp add: id_value_def py_int_int_str)

lemma set_sorted_ids: "finite S \<Longrightarrow> set (sorted_ids S) = S"
  by (simp add: sorted_ids_def)

lemma set_map_filter: "set (List.map_filter f xs) = {y. \<exists>x \<in> set xs. f x = Some y}"
  by (force simp: List.map_filter_def)

lemma set_entries_for:
  "finite S \<Longrightarrow> distinct (map fst es) \<Longrightarrow> set (entries_for es S) = snd ` {p \<in> set es. fst p \<in> S}"
  by (force simp: entries_for_def set_map_filter set_sorted_ids)

lemma sorted_ids_of_ints:
  assumes "finite N"
  shows "sort (map id_value (sorted_ids (int_str ` N))) = sorted_list_of_set N"
proof -
  have s: "set (map id_value (sorted_ids (int_str ` N))) = N"
    using assms by (simp add: set_sorted_ids image_image)
  have "distinct (map id_value (sorted_ids (int_str ` N)))"
  proof -
    have "distinct (sorted_ids (int_str ` N))" by (simp add: sorted_ids_def)
    moreover have "inj_on id_value (set (sorted_ids (int_str ` N)))"
      using assms by (auto simp: set_sorted_ids intro!: inj_onI)
    ultimately show ?thesis by (simp add: distinct_map)
  qed
  with s show ?thesis
    by (metis sorted_list_of_set_sort_remdups distinct_remdups_id)
qed

section \<open>Distribution reports\<close>

text \<open>The strikes a report gives an operator: those above zero, in the order of the report.\<close>

definition strikes_in :: "(string \<times> (string \<times> int) list) list \<Rightarrow> string \<Rightarrow> (string \<times> int) list" where
  "strikes_in operators oid =
     filter (\<lambda>p. 0 < snd p) (concat (map snd (filter (\<lambda>p. fst p = oid) operators)))"

lemma flagged_of:
  "map snd (filter (\<lambda>p. fst p = oid)
     (concat (map (\<lambda>(oid, ss). map (\<lambda>s. (oid, s)) (filter (\<lambda>(v, i). 0 < i) ss)) operators))) =
   strikes_in operators oid"
proof (induction operators)
  case (Cons p ps)
  obtain i ss where p: "p = (i, ss)" by force
  have "map snd (filter (\<lambda>p. fst p = oid) (map (\<lambda>s. (i, s)) xs)) = (if i = oid then xs else [])" for xs :: "(string \<times> int) list"
    by (induction xs) auto
  with Cons show ?case by (simp add: p strikes_in_def case_prod_unfold)
qed (simp add: strikes_in_def)

lemma map_of_grouped_values:
  "map_of (map (\<lambda>(k, ps). (k, map snd ps)) (group_by fst ps)) k =
     (let vs = map snd (filter (\<lambda>p. fst p = k) ps) in if vs = [] then None else Some vs)"
  by (auto simp: map_of_map map_of_group_by filter_empty_conv Let_def)

theorem strike_summary_exact:
  assumes "distribution_log_entries payload = Inr es" "mapR (read_entry C) es = Inr rs"
  shows "\<exists>s. parse_distribution_log C payload = Inr s \<and>
     distinct (ds_operators s) \<and> set (ds_operators s) = fst ` set (concat rs) \<and>
     distinct (map fst (ds_strikes s)) \<and>
     (\<forall>oid. map_of (ds_strikes s) oid =
        (if strikes_in (concat rs) oid = [] then None else Some (strikes_in (concat rs) oid)))"
proof -
  define flagged where "flagged = concat (map (\<lambda>(oid, ss). map (\<lambda>s. (oid, s)) (filter (\<lambda>(v, i). 0 < i) ss)) (concat rs))"
  let ?strikes = "map (\<lambda>(oid, ps). (oid, map snd ps)) (group_by fst flagged)"
  have "map_of ?strikes oid =
      (if strikes_in (concat rs) oid = [] then None else Some (strikes_in (concat rs) oid))" for oid
    unfolding map_of_grouped_values flagged_def flagged_of Let_def ..
  moreover have "map fst ?strikes = map fst (group_by fst flagged)" by (simp add: comp_def case_prod_unfold)
  then have "distinct (map fst ?strikes)" by (simp only: distinct_keys_group_by)
  ultimately show ?thesis
    unfolding parse_distribution_log_def assms bindR.simps Let_def flagged_def [symmetric]
    by (intro exI conjI) (rule refl, simp_all)
qed

lemma summary_keys:
  assumes "parse_distribution_log C payload = Inr s"
  shows "distinct (map fst (ds_strikes s))" "fst ` set (ds_strikes s) \<subseteq> set (ds_operators s)"
proof -
  obtain rs where s: "s = \<lparr>ds_operators = remdups (map fst (concat rs)),
      ds_strikes = map (\<lambda>(oid, ps). (oid, map snd ps)) (group_by fst
        (concat (map (\<lambda>(oid, ss). map (\<lambda>s. (oid, s)) (filter (\<lambda>(v, i). 0 < i) ss)) (concat rs))))\<rparr>"
    using assms by (auto simp: parse_distribution_log_def Let_def)
  have keys: "map fst (map (\<lambda>(oid, ps). (oid, map snd ps)) (group_by fst xs)) = map fst (group_by fst xs)"
    for xs :: "(string \<times> string \<times> int) list" by (simp add: comp_def case_prod_unfold)
  show "distinct (map fst (ds_strikes s))" unfolding s strike_summary.simps keys by (rule distinct_keys_group_by)
  show "fst ` set (ds_strikes s) \<subseteq> set (ds_operators s)"
    unfolding set_map [symmetric] s strike_summary.simps keys
    by (force simp: keys_group_by)
qed

text \<open>What a handler's result means for a chat that follows the operators \<open>F\<close>.\<close>

definition told_by :: "handler_result option \<Rightarrow> string set \<Rightarrow> string list" where
  "told_by r F = (case r of None \<Rightarrow> [] | Some q \<Rightarrow> told (as_plan q) F)"

lemma told_by_simps [simp]:
  "told_by None F = []"
  "told_by (Some (ResultPlan p)) F = told p F"
  "told_by (Some (ResultText m)) F = [m]"
  by (simp_all add: told_by_def as_plan_def plan_broadcast_def told_def)

lemma told_plans:
  "told (plan_broadcast m) F = [m]"
  "told (plan_broadcast_to_operators C m ids) F = (if val_str C ` set ids \<inter> F = {} then [] else [m])"
  by (simp_all add: told_def plan_broadcast_def plan_broadcast_to_operators_def normalise_operator_ids_def)

lemma told_per_chat:
  assumes "plan_per_chat C ids render = Inr p"
  shows "told p F = (if val_str C ` set ids \<inter> F = {} then [] else render (val_str C ` set ids \<inter> F))"
proof -
  have "p = PerChatDelivery (val_str C ` set ids) render"
    using assms by (auto simp: plan_per_chat_def normalise_operator_ids_def Let_def split: if_splits)
  then show ?thesis by (simp add: told_def)
qed

lemma val_str_VStr [simp]: "val_str C ` VStr ` S = S"
  by (simp add: image_image)

lemma told_per_operator:
  assumes "distinct (map fst ms)" "plan_per_operator C (map (\<lambda>(i, m). (VStr i, m)) ms) = Inr p"
  shows "told p F = map snd (filter (\<lambda>(k, m). k \<in> F) ms)"
proof -
  have "foldl (\<lambda>d (k, m). AList.update (val_str C k) m d) [] (map (\<lambda>(i, m). (VStr i, m)) ms) =
      foldl (\<lambda>d p. AList.update (fst p) (snd p) d) [] ms"
    by (simp add: foldl_map case_prod_unfold)
  also have "\<dots> = ms" using foldl_update_fresh [of fst ms "[]" snd] assms(1) by simp
  finally show ?thesis using assms(2) by (auto simp: plan_per_operator_def Let_def told_def split: if_splits)
qed

definition report_summary :: "msg_env \<Rightarrow> notification \<Rightarrow> strike_summary res" where
  "report_summary K n =
     (let cid = (case map_of (note_args n) (VStr ''logCid'') of None \<Rightarrow> VNone | Some v \<Rightarrow> v) in
      bindR (if truthy cid then mv_log K cid else Inl ValueError) (parse_distribution_log (mv_codec K)))"

text \<open>The messages of the operators with strikes that a chat follows.\<close>

definition strike_messages :: "msg_env \<Rightarrow> notification \<Rightarrow> string \<Rightarrow> bool \<Rightarrow> strike_summary \<Rightarrow> string set \<Rightarrow> string set" where
  "strike_messages K n f rewards s F =
     {m. \<exists>p \<in> set (ds_strikes s). fst p \<in> F \<and> operator_message K n f rewards p = Inr (fst p, m)}"

lemma mapR_mem_source: "mapR f xs = Inr ys \<Longrightarrow> x \<in> set xs \<Longrightarrow> \<exists>y \<in> set ys. f x = Inr y"
  by (induction xs arbitrary: ys) auto

lemma operator_messages_keys:
  assumes "mapR (operator_message K n f rewards) ps = Inr ms"
  shows "map fst ms = map fst ps"
    and "snd ` {q \<in> set ms. fst q \<in> F} = {m. \<exists>p \<in> set ps. fst p \<in> F \<and> operator_message K n f rewards p = Inr (fst p, m)}"
proof -
  have key: "fst q = fst p" if "operator_message K n f rewards p = Inr q" for p q
    using that by (auto simp: operator_message_def split: prod.splits)
  have l: "list_all2 (\<lambda>p q. operator_message K n f rewards p = Inr q) ps ms" by (rule mapR_InrD [OF assms])
  then show "map fst ms = map fst ps"
    by (induction rule: list_all2_induct) (auto dest: key)
  show "snd ` {q \<in> set ms. fst q \<in> F} =
      {m. \<exists>p \<in> set ps. fst p \<in> F \<and> operator_message K n f rewards p = Inr (fst p, m)}"
  proof (intro equalityI subsetI)
    fix m assume "m \<in> snd ` {q \<in> set ms. fst q \<in> F}"
    then obtain q where q: "q \<in> set ms" "fst q \<in> F" "m = snd q" by blast
    from mapR_mem [OF assms q(1)] obtain p where p: "p \<in> set ps" "operator_message K n f rewards p = Inr q" by blast
    have "q = (fst p, m)" using key [OF p(2)] q(3) by (simp add: prod_eq_iff)
    with p q(2) show "m \<in> {m. \<exists>p \<in> set ps. fst p \<in> F \<and> operator_message K n f rewards p = Inr (fst p, m)}"
      by auto
  next
    fix m assume "m \<in> {m. \<exists>p \<in> set ps. fst p \<in> F \<and> operator_message K n f rewards p = Inr (fst p, m)}"
    then obtain p where p: "p \<in> set ps" "fst p \<in> F" "operator_message K n f rewards p = Inr (fst p, m)" by blast
    from mapR_mem_source [OF assms p(1)] obtain q where "q \<in> set ms" "operator_message K n f rewards p = Inr q"
      by blast
    with p show "m \<in> snd ` {q \<in> set ms. fst q \<in> F}" by force
  qed
qed

lemma rendered_told:
  assumes p: "plan_per_chat C (map VStr ops) (distribution_render ms general) = Inr p"
    and "distinct (map fst ms)" "fst ` set ms \<subseteq> set ops"
  shows "set (told p F) = (if set ops \<inter> F = {} then {}
    else if F \<inter> fst ` set ms = {} then {general} else snd ` {q \<in> set ms. fst q \<in> F})"
proof -
  have "set (entries_for ms (set ops \<inter> F)) = snd ` {q \<in> set ms. fst q \<in> F}"
    using assms by (auto simp: set_entries_for)
  moreover have "{q \<in> set ms. fst q \<in> F} = {} \<longleftrightarrow> F \<inter> fst ` set ms = {}"
    by (force simp: image_iff)
  ultimately show ?thesis
    unfolding told_per_chat [OF p] set_map val_str_VStr distribution_render_def Let_def
    by (auto simp flip: set_empty2)
qed

text \<open>C24: a distribution report tells a chat about the strikes of exactly the operators it follows, one
  message each. A chat that follows operators of the report but none with strikes gets the general
  message, when rewards were distributed; so does every chat when the report cannot be read or
  names no operator. Nothing is sent to others.
\<close>

theorem distribution_told:
  assumes shares: "distribution_report_rewards n = Inr shares"
    and foot: "notification_footer K n = Inr f"
    and r: "distribution_log_updated K n = Inr r"
  shows "set (told_by r F) =
     (let general = distribution_message K None [] True @ f in
      case report_summary K n of
        Inl _ \<Rightarrow> if 0 < shares then {general} else {}
      | Inr s \<Rightarrow> strike_messages K n f (0 < shares) s F \<union>
          (if 0 < shares \<and> F \<inter> fst ` set (ds_strikes s) = {} \<and>
              (ds_operators s = [] \<or> F \<inter> set (ds_operators s) \<noteq> {})
           then {general} else {}))"
proof (cases "report_summary K n")
  case (Inl e)
  with r shares foot show ?thesis
    by (auto simp: distribution_log_updated_def report_summary_def Let_def told_plans)
next
  case (Inr s)
  then have parsed: "\<exists>v. parse_distribution_log (mv_codec K) v = Inr s"
    by (auto simp: report_summary_def Let_def)
  then have keys: "distinct (map fst (ds_strikes s))" "fst ` set (ds_strikes s) \<subseteq> set (ds_operators s)"
    using summary_keys by blast+
  obtain ms where ms: "mapR (operator_message K n f (0 < shares)) (ds_strikes s) = Inr ms"
    using r shares foot Inr by (auto simp: distribution_log_updated_def report_summary_def Let_def)
  have mk: "distinct (map fst ms)" "fst ` set ms = fst ` set (ds_strikes s)" "ms = [] \<longleftrightarrow> ds_strikes s = []"
    using operator_messages_keys(1) [OF ms] keys(1) by (auto simp flip: set_map)
  have sm: "strike_messages K n f (0 < shares) s F = snd ` {q \<in> set ms. fst q \<in> F}"
    unfolding strike_messages_def operator_messages_keys(2) [OF ms] ..
  note run = r [unfolded distribution_log_updated_def shares foot bindR.simps Let_def]
    Inr [unfolded report_summary_def Let_def] ms
  show ?thesis
  proof (cases "0 < shares")
    case False
    have "set (told_by r F) = snd ` {q \<in> set ms. fst q \<in> F}"
    proof (cases "ms = []")
      case True
      with run False show ?thesis by auto
    next
      case ne: False
      with run False obtain p where "r = Some (ResultPlan p)"
        "plan_per_operator (mv_codec K) (map (\<lambda>(i, m). (VStr i, m)) ms) = Inr p" by auto
      then show ?thesis using told_per_operator [OF mk(1)] by (force simp: case_prod_unfold)
    qed
    with False Inr sm show ?thesis by simp
  next
    case True
    show ?thesis
    proof (cases "ms = []")
      case e: True
      with run True have "r = Some (ResultPlan (if ds_operators s \<noteq> []
          then plan_broadcast_to_operators (mv_codec K) (distribution_message K None [] True @ f) (map VStr (ds_operators s))
          else plan_broadcast (distribution_message K None [] True @ f)))" by auto
      moreover have "strike_messages K n f True s F = {}" using sm True e by simp
      ultimately show ?thesis using True Inr e mk(3) by (auto simp: told_plans Let_def)
    next
      case ne: False
      then have ops: "ds_operators s \<noteq> []" using mk keys(2) by auto
      from run True ne obtain p where p: "r = Some (ResultPlan p)"
        "plan_per_chat (mv_codec K) (map VStr (ds_operators s))
           (distribution_render ms (distribution_message K None [] True @ f)) = Inr p" by auto
      from rendered_told [OF this(2) mk(1)] mk(2) keys(2)
      have "set (told_by r F) = (if set (ds_operators s) \<inter> F = {} then {}
          else if F \<inter> fst ` set (ds_strikes s) = {} then {distribution_message K None [] True @ f}
          else strike_messages K n f True s F)"
        using p(1) sm True by simp
      moreover have "strike_messages K n f True s F = {}" if "F \<inter> fst ` set (ds_strikes s) = {}"
        using that by (auto simp: strike_messages_def)
      moreover have "F \<inter> fst ` set (ds_strikes s) = {}" if "set (ds_operators s) \<inter> F = {}"
        using that keys(2) by blast
      ultimately show ?thesis
        using Inr True ops by (simp add: Int_commute)
    qed
  qed
qed

section \<open>Operator groups\<close>

definition share_of :: "operator_allocation list \<Rightarrow> int \<Rightarrow> int option" where
  "share_of as i = map_option oa_share (map_of (allocations_by_operator as) i)"

lemma changed_operators_iff:
  "changed_operators old new = {i. map_option oa_share (map_of old i) \<noteq> map_option oa_share (map_of new i)}"
proof -
  have "i \<in> set (map fst d) \<longleftrightarrow> map_of d i \<noteq> None" for i and d :: "(int \<times> operator_allocation) list"
    by (simp add: map_of_eq_None_iff)
  then have k: "i \<in> changed_operators old new \<longleftrightarrow>
      (map_of old i \<noteq> None) \<noteq> (map_of new i \<noteq> None) \<or>
      map_of old i \<noteq> None \<and> map_of new i \<noteq> None \<and>
        map_option oa_share (map_of old i) \<noteq> map_option oa_share (map_of new i)" for i
    unfolding changed_operators_def by blast
  show ?thesis
  proof (rule set_eqI)
    fix i
    show "i \<in> changed_operators old new \<longleftrightarrow>
        i \<in> {i. map_option oa_share (map_of old i) \<noteq> map_option oa_share (map_of new i)}"
      unfolding k mem_Collect_eq by (cases "map_of old i"; cases "map_of new i") auto
  qed
qed

lemma keys_dict_of: "fst ` set (dict_of ps) = fst ` set ps"
proof -
  have u: "fst ` set (AList.update k v d) = insert k (fst ` set d)" for k v and d :: "('a \<times> 'b) list"
    using arg_cong [OF keys_update [of k v d], of set] by auto
  have "fst ` set (foldl (\<lambda>d (k, v). AList.update k v d) d ps) = fst ` set d \<union> fst ` set ps" for d
    by (induction ps arbitrary: d) (simp_all add: u case_prod_unfold)
  from this [of "[]"] show ?thesis by (simp add: dict_of_def)
qed

lemma keys_allocations: "set (map fst (allocations_by_operator as)) = oa_operator ` set as"
  by (simp add: allocations_by_operator_def keys_dict_of image_image)

definition change_at :: "msg_env \<Rightarrow> int \<Rightarrow> operator_allocation list \<Rightarrow> operator_allocation list \<Rightarrow> int \<Rightarrow> group_change" where
  "change_at K b as bs i =
     \<lparr>gc_operator = i, gc_label = metadata_node_operator_label K i b,
      gc_old = map_of (allocations_by_operator as) i, gc_new = map_of (allocations_by_operator bs) i\<rparr>"


text \<open>The operators a group update concerns: those whose share changed, and all when it is renamed.\<close>

definition concerned :: "operator_allocation list \<Rightarrow> operator_allocation list \<Rightarrow> bool \<Rightarrow> int set" where
  "concerned as bs renamed =
     {i. share_of as i \<noteq> share_of bs i} \<union> (if renamed then oa_operator ` set bs else {})"

lemma finite_concerned: "finite {i. share_of as i \<noteq> share_of bs i}" "finite (concerned as bs renamed)"
proof -
  have "{i. share_of as i \<noteq> share_of bs i} \<subseteq> set (map fst (allocations_by_operator as)) \<union> set (map fst (allocations_by_operator bs))"
  proof (rule subsetI, rule ccontr)
    fix i assume i: "i \<in> {i. share_of as i \<noteq> share_of bs i}"
      and "i \<notin> set (map fst (allocations_by_operator as)) \<union> set (map fst (allocations_by_operator bs))"
    then have "map_of (allocations_by_operator as) i = None" "map_of (allocations_by_operator bs) i = None"
      by (simp_all add: map_of_eq_None_iff)
    with i show False by (simp add: share_of_def)
  qed
  then show "finite {i. share_of as i \<noteq> share_of bs i}" by (rule finite_subset) simp
  then show "finite (concerned as bs renamed)" by (simp add: concerned_def)
qed

lemma group_changes:
  assumes "mapR (group_change_of K b (allocations_by_operator as) (allocations_by_operator bs)) xs = Inr cs"
  shows "cs = map (\<lambda>i. (i, change_at K b as bs i)) xs"
  using mapR_InrD [OF assms]
  by (induction rule: list_all2_induct) (auto simp: group_change_of_def mk_group_change_def change_at_def split: if_splits)

lemma chat_changes:
  assumes "finite C" "finite N"
  shows "List.map_filter (map_of (map (\<lambda>i. (i, g i)) (sorted_list_of_set C))) (sorted_list_of_set N) =
    map g (sorted_list_of_set (C \<inter> N))"
proof -
  have m: "map_of (map (\<lambda>i. (i, g i)) (sorted_list_of_set C)) i = (if i \<in> C then Some (g i) else None)" for i
    using assms by (simp add: map_of_map_restrict)
  have "List.map_filter (\<lambda>i. if i \<in> C then Some (g i) else None) xs = map g (filter (\<lambda>i. i \<in> C) xs)" for xs
    by (induction xs) (auto simp: map_filter_simps)
  moreover have "filter (\<lambda>i. i \<in> C) (sorted_list_of_set N) = sorted_list_of_set (C \<inter> N)"
    using assms by (intro sorted_distinct_set_unique) (auto intro: sorted_wrt_filter)
  ultimately show ?thesis unfolding m by simp
qed


text \<open>C25: a group update tells a chat exactly about the operators it follows whose share of the group
  changed, that joined or that left, as one message with their allocations before and after, in the
  order of the ids. A new name of the group is told to all the operators that are in it now. A chat
  that follows none of these is sent nothing.
\<close>

theorem group_update_told:
  assumes r: "operator_group_updated K n = Inr r"
    and gid: "note_arg n ''groupId'' = Inr gid"
    and before: "rd_group (mv_reads K) gid (note_block n - 1) = Inr g"
    and after: "note_arg n ''groupInfo'' = Inr h"
    and names: "operator_group_name g = Inr a" "operator_group_name h = Inr b"
    and old: "sub_node_operator_allocations K g (note_block n - 1) = Inr as"
    and new: "sub_node_operator_allocations K h (note_block n) = Inr bs"
    and foot: "notification_footer K n = Inr f"
  shows "told_by r F =
     (let mine = {i. int_str i \<in> F} in
      if mine \<inter> concerned as bs (a \<noteq> b) = {} then []
      else case group_update_message K gid a b
                (map (change_at K (note_block n) as bs)
                  (sorted_list_of_set (mine \<inter> {i. share_of as i \<noteq> share_of bs i}))) of
             Inl _ \<Rightarrow> []
           | Inr m \<Rightarrow> [m @ f])"
proof -
  let ?b = "note_block n" and ?mine = "{i. int_str i \<in> F}"
  let ?C = "{i. share_of as i \<noteq> share_of bs i}" and ?T = "concerned as bs (a \<noteq> b)"
  let ?old = "allocations_by_operator as" and ?new = "allocations_by_operator bs"
  let ?render = "group_update_render (group_update_message K gid a b) f"
  have C: "changed_operators ?old ?new = ?C"
    by (simp only: changed_operators_iff share_of_def)
  have T: "?C \<union> (if a \<noteq> b then set (map fst ?new) else {}) = ?T"
    by (simp only: concerned_def keys_allocations)
  have fin: "finite ?C" "finite ?T" "finite (?T \<inter> ?mine)" using finite_concerned by blast+
  show ?thesis
  proof (cases "?T = {}")
    case True
    with r have "r = None"
      unfolding operator_group_updated_def gid before after names old new foot bindR.simps Let_def C T by auto
    with True show ?thesis by (simp add: Let_def)
  next
    case False
    with r obtain cs p where p: "r = Some (ResultPlan p)"
      "mapR (group_change_of K ?b ?old ?new) (sorted_list_of_set ?C) = Inr cs"
      "plan_per_chat (mv_codec K) (map VInt (sorted_list_of_set ?T)) (?render cs) = Inr p"
      unfolding operator_group_updated_def gid before after names old new foot bindR.simps Let_def C T by auto
    have cs: "cs = map (\<lambda>i. (i, change_at K ?b as bs i)) (sorted_list_of_set ?C)"
      by (rule group_changes [OF p(2)])
    have ids: "val_str (mv_codec K) ` set (map VInt (sorted_list_of_set ?T)) \<inter> F = int_str ` (?T \<inter> ?mine)"
      using fin by (auto simp: image_image)
    have "?C \<inter> (?T \<inter> ?mine) = ?mine \<inter> ?C" by (auto simp: concerned_def)
    then have "List.map_filter (map_of cs) (sort (map id_value (sorted_ids (int_str ` (?T \<inter> ?mine))))) =
        map (change_at K ?b as bs) (sorted_list_of_set (?mine \<inter> ?C))"
      unfolding cs sorted_ids_of_ints [OF fin(3)] chat_changes [OF fin(1) fin(3)] by simp
    then show ?thesis
      unfolding p(1) told_by_simps told_per_chat [OF p(3)] ids Let_def group_update_render_def
      by (simp add: Int_commute)
  qed
qed

section \<open>Digests\<close>

definition event_operator :: "event \<Rightarrow> int res" where
  "event_operator e = bindR (ev_arg e ''nodeOperatorId'') val_int"

text \<open>The events of one operator in a digest, in order, and the operators that have any.\<close>

definition operator_events :: "notification \<Rightarrow> int \<Rightarrow> event list" where
  "operator_events n i = filter (\<lambda>e. event_operator e = Inr i) (source_events n)"

definition operators_in :: "notification \<Rightarrow> int set" where
  "operators_in n = {i. operator_events n i \<noteq> []}"

text \<open>An integer argument of an event that has it.\<close>

definition event_int :: "event \<Rightarrow> string \<Rightarrow> int" where
  "event_int e k = (case bindR (ev_arg e k) val_int of Inr i \<Rightarrow> i | Inl _ \<Rightarrow> 0)"

lemma event_int_eq: "ev_arg e k = Inr v \<Longrightarrow> val_int v = Inr i \<Longrightarrow> event_int e k = i"
  by (simp add: event_int_def)

lemma finite_operators_in: "finite (operators_in n)"
proof (rule finite_subset)
  show "operators_in n \<subseteq> (\<lambda>e. case event_operator e of Inr i \<Rightarrow> i | Inl _ \<Rightarrow> 0) ` set (source_events n)"
    by (force simp: operators_in_def operator_events_def filter_empty_conv image_iff)
qed simp

lemma events_by_operator_eq:
  assumes "events_by_operator n = Inr gs"
  shows "gs = map (\<lambda>i. (i, operator_events n i)) (sorted_list_of_set (operators_in n))"
proof -
  obtain ps where ps: "mapR (\<lambda>e. bindR (event_operator e) (\<lambda>i. Inr (i, e))) (source_events n) = Inr ps"
    and gs: "gs = sort_key fst (map (\<lambda>(i, qs). (i, map snd qs)) (group_by fst ps))"
    using assms by (auto simp: events_by_operator_def event_operator_def)
  note keyed = mapR_keyed [OF ps]
  let ?G = "map (\<lambda>(i, qs). (i, map snd qs)) (group_by fst ps)"
  have each: "es = operator_events n i" if "(i, es) \<in> set ?G" for i es
    using that group_by_keyed_values(1) [OF conjunct1 [OF keyed] conjunct2 [OF keyed]]
    by (auto simp: operator_events_def)
  have keys: "map fst ?G = map fst (group_by fst ps)" by (simp add: comp_def case_prod_unfold)
  have "set (map fst ?G) = fst ` set ps" unfolding keys set_map by (rule keys_group_by)
  also have "\<dots> = operators_in n"
  proof -
    have "set (source_events n) = snd ` set ps" using keyed by (metis set_map)
    then have "operators_in n = {i. \<exists>p \<in> set ps. event_operator (snd p) = Inr i}"
      by (auto simp: operators_in_def operator_events_def filter_empty_conv)
    also have "\<dots> = fst ` set ps" using keyed by force
    finally show ?thesis ..
  qed
  finally have s: "set (map fst gs) = operators_in n" unfolding gs set_map set_sort .
  have "sorted_wrt (<) (map fst gs)"
    unfolding gs by (rule strict_sorted_sort_key) (simp only: keys distinct_keys_group_by)
  then have "map fst gs = sorted_list_of_set (operators_in n)"
    using sorted_list_of_set.idem_if_sorted_distinct [of "map fst gs"] by (simp only: strict_sorted_iff s)
  moreover have "gs = map (\<lambda>i. (i, operator_events n i)) (map fst gs)"
  proof -
    have "\<forall>p \<in> set gs. p = (fst p, operator_events n (fst p))"
      using each by (force simp: gs)
    then show ?thesis by (simp add: map_idI cong: map_cong)
  qed
  ultimately show ?thesis by simp
qed


lemma sorted_ids_ints:
  assumes "finite N"
  shows "sorted_ids (int_str ` N) = map int_str (sorted_list_of_set N)"
proof -
  have "int_str (id_value x) = x" if "x \<in> set (sorted_ids (int_str ` N))" for x
    using that assms by (auto simp: set_sorted_ids)
  then have "sorted_ids (int_str ` N) = map int_str (map id_value (sorted_ids (int_str ` N)))"
    by (simp add: map_idI)
  also have "map id_value (sorted_ids (int_str ` N)) = sort (map id_value (sorted_ids (int_str ` N)))"
    by (rule sorted_sort_id [symmetric]) (simp add: sorted_ids_def)
  finally show ?thesis by (simp only: sorted_ids_of_ints [OF assms])
qed

lemma entries_for_ints:
  assumes "finite C" "finite N"
  shows "entries_for (map (\<lambda>i. (int_str i, g i)) (sorted_list_of_set C)) (int_str ` N) =
    map g (sorted_list_of_set (C \<inter> N))"
proof -
  have inj: "map_of (map (\<lambda>i. (int_str i, g i)) xs) (int_str i) = map_of (map (\<lambda>i. (i, g i)) xs) i" for xs i
    by (induction xs) auto
  show ?thesis
    unfolding entries_for_def sorted_ids_ints [OF assms(2)] chat_changes [OF assms, symmetric]
    by (simp add: List.map_filter_def filter_map comp_def inj)
qed

lemma mapR_eq_map:
  "mapR f xs = Inr ys \<Longrightarrow> (\<And>x y. x \<in> set xs \<Longrightarrow> f x = Inr y \<Longrightarrow> y = g x) \<Longrightarrow> ys = map g xs"
  by (induction xs arbitrary: ys) auto

lemma deposit_entry_eq:
  "deposit_entry K (i, es) = Inr y \<Longrightarrow>
   y = (int_str i, (digest_operator_label K i (ev_block (last es)),
     (case rd_node_operator (mv_reads K) (VInt i) (ev_block (hd es) - 1) of
        Inr op \<Rightarrow> no_deposited_keys op | Inl _ \<Rightarrow> 0),
     event_int (last es) ''depositedKeysCount''))"
  by (auto simp: deposit_entry_def event_int_eq)

text \<open>The digest of deposits tells a chat, once for every operator it follows that has deposit events
  in the window, the number of deposited keys in the block before the first of them and after the
  last, in the order of the ids; a chat that follows none of them is sent nothing.
\<close>

theorem deposit_digest_told:
  assumes r: "deposited_signing_keys_count_changed K n = Inr r"
    and foot: "block_range_footer K n = Inr f"
  shows "told_by r F =
     (let mine = operators_in n \<inter> {i. int_str i \<in> F} in
      if mine = {} then []
      else [by_type K community_deposited_signing_keys_count_changed
              curated_deposited_signing_keys_count_changed (mv_escape K)
              (map (\<lambda>i. let es = operator_events n i in
                 (digest_operator_label K i (ev_block (last es)),
                  (case rd_node_operator (mv_reads K) (VInt i) (ev_block (hd es) - 1) of
                     Inr op \<Rightarrow> no_deposited_keys op | Inl _ \<Rightarrow> 0),
                  event_int (last es) ''depositedKeysCount''))
                (sorted_list_of_set mine)) @ f])"
proof -
  let ?S = "operators_in n" and ?mine = "{i. int_str i \<in> F}"
  let ?e = "\<lambda>i. let es = operator_events n i in
                 (digest_operator_label K i (ev_block (last es)),
                  (case rd_node_operator (mv_reads K) (VInt i) (ev_block (hd es) - 1) of
                     Inr op \<Rightarrow> no_deposited_keys op | Inl _ \<Rightarrow> 0),
                  event_int (last es) ''depositedKeysCount'')"
  let ?t = "by_type K community_deposited_signing_keys_count_changed
              curated_deposited_signing_keys_count_changed (mv_escape K)"
  obtain gs es p where gs: "events_by_operator n = Inr gs"
    and es: "mapR (deposit_entry K) gs = Inr es"
    and p: "r = Some (ResultPlan p)"
      "plan_per_chat (mv_codec K) (map (\<lambda>p. VStr (fst p)) es) (\<lambda>ids. [?t (entries_for es ids) @ f]) = Inr p"
    using r foot by (auto simp: deposited_signing_keys_count_changed_def)
  have "es = map (\<lambda>q. (int_str (fst q), ?e (fst q))) gs"
    using es events_by_operator_eq [OF gs]
    by (intro mapR_eq_map) (auto simp: Let_def dest!: deposit_entry_eq)
  then have e: "es = map (\<lambda>i. (int_str i, ?e i)) (sorted_list_of_set ?S)"
    by (simp add: events_by_operator_eq [OF gs] comp_def)
  have ids: "val_str (mv_codec K) ` set (map (\<lambda>p. VStr (fst p)) es) \<inter> F = int_str ` (?S \<inter> ?mine)"
    using finite_operators_in by (auto simp: e image_image)
  show ?thesis
    unfolding p(1) told_by_simps told_per_chat [OF p(2)] ids unfolding e
    using entries_for_ints [OF finite_operators_in [of n], of "?S \<inter> ?mine" ?e] finite_operators_in [of n]
    by (simp add: Let_def)
qed


definition net_changed :: "notification \<Rightarrow> int set" where
  "net_changed n = {i \<in> operators_in n.
     event_int (hd (operator_events n i)) ''oldWeight'' \<noteq> event_int (last (operator_events n i)) ''newWeight''}"

lemma weight_entry_eq:
  "weight_entry K b (i, es) = Inr y \<Longrightarrow>
   y = (let old = event_int (hd es) ''oldWeight''; new = event_int (last es) ''newWeight'' in
        if old = new then None
        else Some (int_str i, (metadata_node_operator_label K i b, old, new)))"
  by (auto simp: weight_entry_def event_int_eq Let_def)

lemma map_filter_sorted:
  assumes "finite S"
  shows "List.map_filter (\<lambda>i. if P i then Some (g i) else None) (sorted_list_of_set S) =
    map g (sorted_list_of_set {i \<in> S. P i})"
proof -
  have "filter P (sorted_list_of_set S) = sorted_list_of_set {i \<in> S. P i}"
    using assms by (intro sorted_distinct_set_unique) (auto intro: sorted_wrt_filter)
  moreover have "List.map_filter (\<lambda>i. if P i then Some (g i) else None) xs = map g (filter P xs)" for xs
    by (induction xs) (auto simp: map_filter_simps)
  ultimately show ?thesis by simp
qed

text \<open>The digest of effective weights tells a chat the net change of every operator it follows over
  the window, from the weight before its first event to the one after its last, in the order of the
  ids; operators whose weight ended where it began are left out, and a chat that follows no changed
  operator is sent nothing.
\<close>

theorem weight_changes_told:
  assumes r: "node_operator_effective_weight_changed K n = Inr r"
    and foot: "block_range_footer K n = Inr f"
  shows "told_by r F =
     (let mine = net_changed n \<inter> {i. int_str i \<in> F} in
      if mine = {} then []
      else [curated_node_operator_effective_weight_changed (mv_escape K)
              (map (\<lambda>i. (metadata_node_operator_label K i (note_block n),
                  event_int (hd (operator_events n i)) ''oldWeight'',
                  event_int (last (operator_events n i)) ''newWeight''))
                (sorted_list_of_set mine)) @ f])"
proof -
  let ?mine = "{i. int_str i \<in> F}" and ?S = "net_changed n"
  let ?e = "\<lambda>i. (metadata_node_operator_label K i (note_block n),
     event_int (hd (operator_events n i)) ''oldWeight'', event_int (last (operator_events n i)) ''newWeight'')"
  let ?P = "\<lambda>i. event_int (hd (operator_events n i)) ''oldWeight'' \<noteq> event_int (last (operator_events n i)) ''newWeight''"
  obtain gs cs where gs: "events_by_operator n = Inr gs"
    and cs: "mapR (weight_entry K (note_block n)) gs = Inr cs"
    using r by (auto simp: node_operator_effective_weight_changed_def)
  have "cs = map (\<lambda>q. if ?P (fst q) then Some (int_str (fst q), ?e (fst q)) else None) gs"
    using cs events_by_operator_eq [OF gs]
    by (intro mapR_eq_map) (auto simp: Let_def dest!: weight_entry_eq)
  then have "List.map_filter id cs =
      List.map_filter (\<lambda>i. if ?P i then Some (int_str i, ?e i) else None) (sorted_list_of_set (operators_in n))"
    by (simp add: events_by_operator_eq [OF gs] List.map_filter_def filter_map comp_def)
  then have es: "List.map_filter id cs = map (\<lambda>i. (int_str i, ?e i)) (sorted_list_of_set ?S)"
    unfolding map_filter_sorted [OF finite_operators_in] net_changed_def .
  have fin: "finite ?S" using finite_operators_in by (simp add: net_changed_def)
  show ?thesis
  proof (cases "?S = {}")
    case True
    with r gs cs es have "r = None" by (simp add: node_operator_effective_weight_changed_def)
    with True show ?thesis by (simp add: Let_def)
  next
    case False
    let ?es = "map (\<lambda>i. (int_str i, ?e i)) (sorted_list_of_set ?S)"
    let ?render = "\<lambda>ids. let es = entries_for ?es ids in if es = [] then []
       else [curated_node_operator_effective_weight_changed (mv_escape K) es @ f]"
    from r gs cs foot False fin obtain p where p: "r = Some (ResultPlan p)"
      "plan_per_chat (mv_codec K) (map (\<lambda>p. VStr (fst p)) ?es) ?render = Inr p"
      by (auto simp: node_operator_effective_weight_changed_def es Let_def)
    have ids: "val_str (mv_codec K) ` set (map (\<lambda>p. VStr (fst p)) ?es) \<inter> F = int_str ` (?S \<inter> ?mine)"
      using fin by (auto simp: image_image)
    show ?thesis
      unfolding p(1) told_by_simps told_per_chat [OF p(2)] ids
      using entries_for_ints [OF fin, of "?S \<inter> ?mine" ?e] fin by (simp add: Let_def)
  qed
qed

section \<open>Witnesses\<close>

lemma strike_summary_exact_witness:
  "\<exists>s. parse_distribution_log sample_codec demo_report = Inr s \<and> map_of (ds_strikes s) ''5'' = Some [(''17'', 2)] \<and>
     map_of (ds_strikes s) ''6'' = None \<and> set (ds_operators s) = {''5'', ''6''}"
proof -
  let ?rs = "[[(''5'', [(''17'', 2 :: int)]), (''6'', [(''18'', 0)])]]"
  have e: "distribution_log_entries demo_report = Inr [demo_report]" by code_simp
  have r: "mapR (read_entry sample_codec) [demo_report] = Inr ?rs" by code_simp
  have strikes: "strikes_in (concat ?rs) ''5'' = [(''17'', 2)]" "strikes_in (concat ?rs) ''6'' = []" by code_simp+
  from strike_summary_exact [OF e r] obtain s where s: "parse_distribution_log sample_codec demo_report = Inr s"
    "set (ds_operators s) = fst ` set (concat ?rs)"
    "\<forall>oid. map_of (ds_strikes s) oid =
       (if strikes_in (concat ?rs) oid = [] then None else Some (strikes_in (concat ?rs) oid))" by blast
  have "map_of (ds_strikes s) ''5'' = Some [(''17'', 2)]" "map_of (ds_strikes s) ''6'' = None"
    unfolding s(3) [rule_format] strikes by simp_all
  moreover have "set (ds_operators s) = {''5'', ''6''}" unfolding s(2) by auto
  ultimately show ?thesis using s(1) by blast
qed

definition demo_distribution :: notification where
  "demo_distribution = EventNotification
     [demo_event ''ModuleFeeDistributed'' 10 [(VStr ''shares'', VInt 7)],
      demo_event ''DistributionLogUpdated'' 10 [(VStr ''logCid'', VStr ''Qm'')]]"

lemma distribution_told_witness:
  "\<exists>f r general. notification_footer (demo_env COMMUNITY) demo_distribution = Inr f \<and>
     distribution_log_updated (demo_env COMMUNITY) demo_distribution = Inr r \<and>
     set (told_by r {''6''}) = {general @ f} \<and> set (told_by r {''9''}) = {}"
proof -
  let ?K = "demo_env COMMUNITY" and ?n = demo_distribution
  have shares: "distribution_report_rewards ?n = Inr 7" by code_simp
  have "\<not> isl (notification_footer ?K ?n)" by code_simp
  then obtain f where f: "notification_footer ?K ?n = Inr f" by (metis sum.collapse(2))
  have "\<not> isl (distribution_log_updated ?K ?n)" by code_simp
  then obtain r where r: "distribution_log_updated ?K ?n = Inr r" by (metis sum.collapse(2))
  have s: "report_summary ?K ?n = Inr \<lparr>ds_operators = [''5'', ''6''], ds_strikes = [(''5'', [(''17'', 2)])]\<rparr>"
    by code_simp
  note told = distribution_told [OF shares f r, unfolded s]
  have "set (told_by r {''6''}) = {distribution_message ?K None [] True @ f}"
    unfolding told by (simp add: Let_def strike_messages_def)
  moreover have "set (told_by r {''9''}) = {}" unfolding told by (simp add: Let_def strike_messages_def)
  ultimately show ?thesis using f r by blast
qed

definition demo_update :: notification where
  "demo_update = EventNotification [demo_event ''OperatorGroupUpdated'' 10
     [(VStr ''groupId'', VInt 1), (VStr ''groupInfo'', demo_group ''old'' [(5, 30), (6, 60), (7, 10)])]]"

lemma group_update_told_witness:
  "\<exists>f r. notification_footer (demo_env CURATED) demo_update = Inr f \<and>
     operator_group_updated (demo_env CURATED) demo_update = Inr r \<and>
     told_by r {''6''} = [] \<and> (\<exists>m. told_by r {''5''} = [m @ f])"
proof -
  let ?K = "demo_env CURATED" and ?n = demo_update
  let ?as = "[\<lparr>oa_operator = 5, oa_share = 40, oa_effective_weight = 1, oa_weighted_share = 5000\<rparr>,
     \<lparr>oa_operator = 6, oa_share = 60, oa_effective_weight = 1, oa_weighted_share = 5000\<rparr>]"
  let ?bs = "[\<lparr>oa_operator = 5, oa_share = 30, oa_effective_weight = 1, oa_weighted_share = 3333\<rparr>,
     \<lparr>oa_operator = 6, oa_share = 60, oa_effective_weight = 1, oa_weighted_share = 3333\<rparr>,
     \<lparr>oa_operator = 7, oa_share = 10, oa_effective_weight = 1, oa_weighted_share = 3333\<rparr>]"
  let ?g = "demo_group ''old'' [(5, 40), (6, 60)]" and ?h = "demo_group ''old'' [(5, 30), (6, 60), (7, 10)]"
  have "\<not> isl (notification_footer ?K ?n)" by code_simp
  then obtain f where f: "notification_footer ?K ?n = Inr f" by (metis sum.collapse(2))
  have "\<not> isl (operator_group_updated ?K ?n)" by code_simp
  then obtain r where r: "operator_group_updated ?K ?n = Inr r" by (metis sum.collapse(2))
  have gid: "note_arg ?n ''groupId'' = Inr (VInt 1)" and after: "note_arg ?n ''groupInfo'' = Inr ?h"
    and before: "rd_group (mv_reads ?K) (VInt 1) (note_block ?n - 1) = Inr ?g" by code_simp+
  have names: "operator_group_name ?g = Inr (Some ''old'')" "operator_group_name ?h = Inr (Some ''old'')"
    by code_simp+
  have old: "sub_node_operator_allocations ?K ?g (note_block ?n - 1) = Inr ?as" by code_simp
  have new: "sub_node_operator_allocations ?K ?h (note_block ?n) = Inr ?bs" by code_simp
  note told = group_update_told [OF r gid before after names old new f]
  have C: "{i. share_of ?as i \<noteq> share_of ?bs i} = {5, 7}"
    by (auto simp: share_of_def allocations_by_operator_def dict_of_def)
  have "{i. int_str i \<in> {''6''}} = {6}" "{i. int_str i \<in> {''5''}} = {5}"
  proof -
    have "''6'' = int_str 6" "''5'' = int_str 5" by code_simp+
    then show "{i. int_str i \<in> {''6''}} = {6}" "{i. int_str i \<in> {''5''}} = {5}" by simp_all
  qed
  then have six: "told_by r {''6''} = []"
    and five: "told_by r {''5''} = (case group_update_message ?K (VInt 1) (Some ''old'') (Some ''old'')
       [change_at ?K (note_block ?n) ?as ?bs 5] of Inl _ \<Rightarrow> [] | Inr m \<Rightarrow> [m @ f])"
    unfolding told by (simp_all add: Let_def concerned_def C)
  have "\<not> isl (group_update_message ?K (VInt 1) (Some ''old'') (Some ''old'')
       [change_at ?K (note_block ?n) ?as ?bs 5])" by code_simp
  then have "\<exists>m. told_by r {''5''} = [m @ f]" unfolding five by (auto simp: isl_def split: sum.splits)
  with six f r show ?thesis by blast
qed

definition demo_digest :: "string \<Rightarrow> notification" where
  "demo_digest name = EventNotification
     (map (\<lambda>(b, i, old, new). demo_event name b [(VStr ''nodeOperatorId'', VInt i), (VStr ''oldWeight'', VInt old),
        (VStr ''newWeight'', VInt new), (VStr ''depositedKeysCount'', VInt new)])
        [(10, 5, 1, 2), (11, 5, 2, 1), (11, 6, 1, 3)])"

lemma demo_operators: "operators_in (demo_digest name) = {5, 6}"
  by (auto simp: operators_in_def operator_events_def demo_digest_def event_operator_def ev_arg_def demo_event_def)

lemma one_operator: "{i. int_str i \<in> {int_str k}} = {k}"
  by simp

lemma deposit_digest_told_witness:
  "\<exists>f r. block_range_footer (demo_env COMMUNITY) (demo_digest ''DepositedSigningKeysCountChanged'') = Inr f \<and>
     deposited_signing_keys_count_changed (demo_env COMMUNITY) (demo_digest ''DepositedSigningKeysCountChanged'') = Inr r \<and>
     told_by r {int_str 9} = [] \<and>
     told_by r {int_str 5} = [community_deposited_signing_keys_count_changed documented_escaper [(''#5'', 3, 1)] @ f]"
proof -
  let ?K = "demo_env COMMUNITY" and ?n = "demo_digest ''DepositedSigningKeysCountChanged''"
  have "\<not> isl (block_range_footer ?K ?n)" by code_simp
  then obtain f where f: "block_range_footer ?K ?n = Inr f" by (metis sum.collapse(2))
  have "\<not> isl (deposited_signing_keys_count_changed ?K ?n)" by code_simp
  then obtain r where r: "deposited_signing_keys_count_changed ?K ?n = Inr r" by (metis sum.collapse(2))
  note told = deposit_digest_told [OF r f, unfolded demo_operators]
  have "told_by r {int_str 9} = []" unfolding told one_operator by (simp add: Let_def)
  moreover have "(\<lambda>i. let es = operator_events ?n i in
                 (digest_operator_label ?K i (ev_block (last es)),
                  (case rd_node_operator (mv_reads ?K) (VInt i) (ev_block (hd es) - 1) of
                     Inr op \<Rightarrow> no_deposited_keys op | Inl _ \<Rightarrow> 0),
                  event_int (last es) ''depositedKeysCount'')) 5 = (''#5'', 3, 1)" by code_simp
  then have "told_by r {int_str 5} = [community_deposited_signing_keys_count_changed documented_escaper [(''#5'', 3, 1)] @ f]"
    unfolding told one_operator by (simp add: Let_def by_type_def demo_env_def)
  ultimately show ?thesis using f r by blast
qed

lemma weight_changes_told_witness:
  "\<exists>f r. block_range_footer (demo_env CURATED) (demo_digest ''NodeOperatorEffectiveWeightChanged'') = Inr f \<and>
     node_operator_effective_weight_changed (demo_env CURATED) (demo_digest ''NodeOperatorEffectiveWeightChanged'') = Inr r \<and>
     told_by r {int_str 5} = [] \<and> told_by r {int_str 6} \<noteq> []"
proof -
  let ?K = "demo_env CURATED" and ?n = "demo_digest ''NodeOperatorEffectiveWeightChanged''"
  have "\<not> isl (block_range_footer ?K ?n)" by code_simp
  then obtain f where f: "block_range_footer ?K ?n = Inr f" by (metis sum.collapse(2))
  have "\<not> isl (node_operator_effective_weight_changed ?K ?n)" by code_simp
  then obtain r where r: "node_operator_effective_weight_changed ?K ?n = Inr r" by (metis sum.collapse(2))
  have "event_int (hd (operator_events ?n 5)) ''oldWeight'' = event_int (last (operator_events ?n 5)) ''newWeight''"
    "event_int (hd (operator_events ?n 6)) ''oldWeight'' \<noteq> event_int (last (operator_events ?n 6)) ''newWeight''"
    by code_simp+
  then have "net_changed ?n = {6}" unfolding net_changed_def demo_operators by auto
  note told = weight_changes_told [OF r f, unfolded this]
  have "told_by r {int_str 5} = []" "told_by r {int_str 6} \<noteq> []"
    unfolding told one_operator by (simp_all add: Let_def)
  with f r show ?thesis by blast
qed

end
