(* ===== verification/Redaction.thy ===== *)
theory Redaction
  imports Py_Prelude
begin

text \<open>
  Secrets in log lines, \<open>sentinel/app/logging.py\<close>: the regular expressions of the module, Python's
  \<open>re.sub\<close> and \<open>str.replace\<close>, the \<open>SecretRedactor\<close> and the payload of the \<open>JsonFormatter\<close>.
  Strings hold the code points up to U+00FF; \<open>json.dumps\<close>, the clock and the traceback formatter
  are parameters. The lock of the redactor only guards its set and is omitted.
\<close>

section \<open>Regular expressions\<close>

text \<open>
  The constructs the patterns of the module use. A matcher state is the text before the position,
  reversed, and the text after it. \<open>ends\<close> lists the states a match can end in, in the order in
  which Python's backtracking matcher tries them: alternatives from the left, repetitions greedy.
\<close>

datatype rx =
    Eps
  | One "char \<Rightarrow> bool"
  | Many "char \<Rightarrow> bool"
  | Bound
  | Cat rx rx
  | Alt rx rx

type_synonym rx_pos = "string \<times> string"

text \<open>\<open>\w\<close>: letters, digits and numerals up to U+00FF, and the underscore.\<close>

definition is_word :: "char \<Rightarrow> bool" where
  "is_word c = (let n = (of_char c :: int) in
     (48 \<le> n \<and> n \<le> 57) \<or> (65 \<le> n \<and> n \<le> 90) \<or> n = 95 \<or> (97 \<le> n \<and> n \<le> 122) \<or>
     n = 170 \<or> n = 178 \<or> n = 179 \<or> n = 181 \<or> n = 185 \<or> n = 186 \<or> (188 \<le> n \<and> n \<le> 190) \<or>
     (192 \<le> n \<and> n \<noteq> 215 \<and> n \<noteq> 247))"

fun word_at :: "string \<Rightarrow> bool" where
  "word_at [] = False"
| "word_at (c # cs) = is_word c"

fun runs :: "(char \<Rightarrow> bool) \<Rightarrow> string \<Rightarrow> string \<Rightarrow> rx_pos list" where
  "runs P b [] = [(b, [])]"
| "runs P b (c # cs) = (if P c then runs P (c # b) cs else []) @ [(b, c # cs)]"

fun ends :: "rx \<Rightarrow> rx_pos \<Rightarrow> rx_pos list" where
  "ends Eps x = [x]"
| "ends (One P) x =
     (case snd x of [] \<Rightarrow> [] | c # cs \<Rightarrow> if P c then [(c # fst x, cs)] else [])"
| "ends (Many P) x = runs P (fst x) (snd x)"
| "ends Bound x = (if word_at (fst x) \<noteq> word_at (snd x) then [x] else [])"
| "ends (Cat p q) x = concat (map (ends q) (ends p x))"
| "ends (Alt p q) x = ends p x @ ends q x"

text \<open>
  The first match of a pattern made of a named group and a tail: the position between them and the
  end of the match.
\<close>

definition first_match :: "rx \<Rightarrow> rx \<Rightarrow> rx_pos \<Rightarrow> (rx_pos \<times> rx_pos) option" where
  "first_match g t x =
     (case concat (map (\<lambda>m. map (Pair m) (ends t m)) (ends g x)) of [] \<Rightarrow> None | h # _ \<Rightarrow> Some h)"

text \<open>
  \<open>pattern.sub(r"\g<group>" + w, text)\<close>: left to right, the search goes on at the end of a match and
  still sees the text before it. A match of the patterns is never empty; an empty one is skipped.
\<close>

function sub_from :: "rx \<Rightarrow> rx \<Rightarrow> string \<Rightarrow> string \<Rightarrow> string \<Rightarrow> string" where
  "sub_from g t w b [] = []"
| "sub_from g t w b (c # cs) =
     (case first_match g t (b, c # cs) of
        Some (m, e) \<Rightarrow>
          if length (snd e) \<le> length cs
          then take (Suc (length cs) - length (snd m)) (c # cs) @ w @ sub_from g t w (fst e) (snd e)
          else c # sub_from g t w (c # b) cs
      | None \<Rightarrow> c # sub_from g t w (c # b) cs)"
  by pat_completeness auto
termination by (relation "measure (\<lambda>(g, t, w, b, s). length s)") auto

definition re_sub :: "rx \<Rightarrow> rx \<Rightarrow> string \<Rightarrow> string \<Rightarrow> string" where
  "re_sub g t w s = sub_from g t w [] s"

text \<open>Abbreviations for building patterns; letters match in both cases (\<open>re.IGNORECASE\<close>).\<close>

definition ichar :: "char \<Rightarrow> rx" where
  "ichar c = One (\<lambda>d. lower_char d = c)"

definition iword :: "string \<Rightarrow> rx" where
  "iword s = foldr (\<lambda>c. Cat (ichar c)) s Eps"

definition any_of :: "rx list \<Rightarrow> rx" where
  "any_of ps = foldr Alt (butlast ps) (last ps)"

definition some_of :: "(char \<Rightarrow> bool) \<Rightarrow> rx" where
  "some_of P = Cat (One P) (Many P)"

definition opt_dash :: rx where
  "opt_dash = Alt (One (\<lambda>c. c \<in> set ''_-'')) Eps"

section \<open>The patterns\<close>

definition REDACTED :: string where
  "REDACTED = ''***''"

definition url_scheme :: rx where
  "url_scheme = Cat Bound (Cat (Alt (Cat (iword ''http'') (Alt (ichar (CHR ''s'')) Eps))
     (Cat (iword ''ws'') (Alt (ichar (CHR ''s'')) Eps))) (iword ''://''))"

definition url_userinfo :: rx where
  "url_userinfo = Cat (some_of (\<lambda>c. c \<notin> set ''/@'' \<and> \<not> is_ws c)) (One (\<lambda>c. c = CHR ''@''))"

definition secret_names :: "rx list" where
  "secret_names = [iword ''password'', iword ''passwd'', iword ''secret'', iword ''token'',
     Cat (iword ''access'') (Cat opt_dash (iword ''token'')),
     Cat (iword ''refresh'') (Cat opt_dash (iword ''token'')),
     Cat (iword ''api'') (Cat opt_dash (iword ''key''))]"

definition query_prefix :: rx where
  "query_prefix = Cat (One (\<lambda>c. c \<in> set ''?&''))
     (Cat (any_of (secret_names @ [iword ''key''])) (One (\<lambda>c. c = CHR ''='')))"

definition query_value :: rx where
  "query_value = some_of (\<lambda>c. c \<notin> set ''&#'' \<and> \<not> is_ws c)"

definition named_prefix :: rx where
  "named_prefix = Cat Bound (Cat (any_of (secret_names @ [iword ''authorization'']))
     (Cat (Many is_ws) (Cat (One (\<lambda>c. c \<in> set '':='')) (Many is_ws))))"

definition quoted :: "char \<Rightarrow> rx" where
  "quoted q = Cat (One (\<lambda>c. c = q)) (Cat (Many (\<lambda>c. c \<noteq> q)) (One (\<lambda>c. c = q)))"

definition named_value :: rx where
  "named_value = any_of [quoted (CHR 0x22), quoted (CHR 0x27),
     some_of (\<lambda>c. c \<notin> set '',;&}'' \<and> \<not> is_ws c)]"

definition bearer_prefix :: rx where
  "bearer_prefix = Cat Bound (Cat (iword ''authorization'') (Cat (Many is_ws)
     (Cat (One (\<lambda>c. c = CHR '':'')) (Cat (Many is_ws) (Cat (iword ''bearer'') (some_of is_ws))))))"

definition ascii_alnum :: "char \<Rightarrow> bool" where
  "ascii_alnum c = (let n = (of_char c :: int) in
     (48 \<le> n \<and> n \<le> 57) \<or> (65 \<le> n \<and> n \<le> 90) \<or> (97 \<le> n \<and> n \<le> 122))"

definition bearer_value :: rx where
  "bearer_value = Cat (some_of (\<lambda>c. ascii_alnum c \<or> c \<in> set ''._~+-/'')) (Many (\<lambda>c. c = CHR ''=''))"

definition at_least :: "nat \<Rightarrow> (char \<Rightarrow> bool) \<Rightarrow> rx" where
  "at_least n P = foldr Cat (replicate n (One P)) (Many P)"

definition telegram_token :: rx where
  "telegram_token = Cat Bound (Cat (at_least 6 is_dec) (Cat (One (\<lambda>c. c = CHR '':''))
     (Cat (at_least 20 (\<lambda>c. ascii_alnum c \<or> c \<in> set ''_-'')) Bound)))"

section \<open>The redactor\<close>

text \<open>\<open>text.replace(v, w)\<close> for a non-empty \<open>v\<close>: left to right without overlaps.\<close>

function py_replace :: "string \<Rightarrow> string \<Rightarrow> string \<Rightarrow> string" where
  "py_replace v w [] = []"
| "py_replace v w (c # cs) =
     (if v \<noteq> [] \<and> prefix v (c # cs) then w @ py_replace v w (drop (length v - 1) cs)
      else c # py_replace v w cs)"
  by pat_completeness auto
termination by (relation "measure (\<lambda>(v, w, s). length s)") auto

text \<open>The set of registered values; \<open>sorted\<close> takes them in some order, here that of the list.\<close>

type_synonym redactor = "string list"

definition redactor_register :: "string option list \<Rightarrow> redactor \<Rightarrow> redactor" where
  "redactor_register given vs =
     fold (\<lambda>v vs. case v of None \<Rightarrow> vs | Some s \<Rightarrow> if s = [] then vs else List.insert s vs) given vs"

definition longest_first :: "string list \<Rightarrow> string list" where
  "longest_first vs = sort_key (\<lambda>v. - int (length v)) vs"

definition mask_values :: "string list \<Rightarrow> string \<Rightarrow> string" where
  "mask_values vs s = fold (\<lambda>v s. py_replace v REDACTED s) vs s"

definition mask_patterns :: "string \<Rightarrow> string" where
  "mask_patterns s =
     (let s = re_sub url_scheme url_userinfo ''***@'' s;
          s = re_sub query_prefix query_value ''***'' s;
          s = re_sub bearer_prefix bearer_value ''***'' s;
          s = re_sub named_prefix named_value ''***'' s
      in re_sub Eps telegram_token REDACTED s)"

definition redact_text :: "redactor \<Rightarrow> string \<Rightarrow> string" where
  "redact_text vs s = mask_patterns (mask_values (longest_first vs) s)"

definition sensitive_key_names :: "string list" where
  "sensitive_key_names = [''password'', ''passwd'', ''secret'', ''token'', ''access_token'',
     ''refresh_token'', ''api_key'', ''authorization'']"

definition is_sensitive_key :: "string \<Rightarrow> bool" where
  "is_sensitive_key key =
     (let n = replace_char (CHR ''-'') ''_'' (py_lower key) in
      n \<in> set sensitive_key_names \<or> list_ex (\<lambda>x. suffix (''_'' @ x) n) sensitive_key_names)"

definition register_sensitive_environment :: "(string \<times> string) list \<Rightarrow> redactor \<Rightarrow> redactor" where
  "register_sensitive_environment env vs =
     redactor_register (map (\<lambda>(k, v). Some v) (filter (\<lambda>(k, v). is_sensitive_key k) env)) vs"

definition masked_key :: "string option \<Rightarrow> bool" where
  "masked_key key = (case key of None \<Rightarrow> False | Some k \<Rightarrow> is_sensitive_key k)"

lemma size_in_dict: "(k, x) \<in> set d \<Longrightarrow> size x < Suc (size_list (size_prod size size) d)"
  by (induction d) auto

text \<open>
  \<open>redact\<close>: a dictionary keeps its keys as text, a later one replacing an earlier one with the same
  text; a list or tuple becomes a list; of any other object only the name of its type is shown,
  which is the parameter \<open>tn\<close>.
\<close>

function redact :: "redactor \<Rightarrow> codec \<Rightarrow> (pyval \<Rightarrow> string) \<Rightarrow> pyval \<Rightarrow> string option \<Rightarrow> pyval" where
  "redact vs C tn v key =
     (if masked_key key then VStr REDACTED
      else case v of
        VStr s \<Rightarrow> VStr (redact_text vs s)
      | VDict d \<Rightarrow> VDict (dict_of (map (\<lambda>p. (VStr (val_str C (fst p)),
          redact vs C tn (snd p) (Some (val_str C (fst p))))) d))
      | VList xs \<Rightarrow> VList (map (\<lambda>x. redact vs C tn x None) xs)
      | VTuple xs \<Rightarrow> VList (map (\<lambda>x. redact vs C tn x None) xs)
      | VNone \<Rightarrow> VNone
      | VBool b \<Rightarrow> VBool b
      | VInt i \<Rightarrow> VInt i
      | VSet xs \<Rightarrow> VStr (''<'' @ tn v @ ''>'')
      | VObj n \<Rightarrow> VStr (''<'' @ tn v @ ''>''))"
  by pat_completeness auto

termination
proof (relation "measure (\<lambda>(vs, C, tn, v, key). size v)")
qed (auto dest: size_in_dict simp: less_Suc_eq_le size_list_estimation')

declare redact.simps [simp del]

lemma redact_masked [simp]: "masked_key key \<Longrightarrow> redact vs C tn x key = VStr REDACTED"
  by (simp add: redact.simps)

lemma redact_plain:
  assumes "\<not> masked_key key"
  shows "redact vs C tn (VStr s) key = VStr (redact_text vs s)"
    and "redact vs C tn (VList xs) key = VList (map (\<lambda>x. redact vs C tn x None) xs)"
    and "redact vs C tn (VTuple xs) key = VList (map (\<lambda>x. redact vs C tn x None) xs)"
    and "redact vs C tn (VDict d) key = VDict (dict_of (map (\<lambda>p. (VStr (val_str C (fst p)),
          redact vs C tn (snd p) (Some (val_str C (fst p))))) d))"
    and "redact vs C tn VNone key = VNone" "redact vs C tn (VBool b) key = VBool b"
    and "redact vs C tn (VInt i) key = VInt i"
    and "redact vs C tn (VSet xs) key = VStr (''<'' @ tn (VSet xs) @ ''>'')"
    and "redact vs C tn (VObj n) key = VStr (''<'' @ tn (VObj n) @ ''>'')"
  using assms by (simp_all add: redact.simps)

section \<open>Log lines\<close>

text \<open>
  What the formatter reads of a \<open>LogRecord\<close>: the texts the base class makes of its clock, message,
  exception and stack, and the attributes, standard ones included.
\<close>

record log_record =
  lr_timestamp :: string
  lr_levelname :: string
  lr_name :: string
  lr_message :: string
  lr_exception :: "string option"
  lr_stack :: "string option"
  lr_attrs :: "(string \<times> pyval) list"

definition standard_record_fields :: "string list" where
  "standard_record_fields = [''name'', ''msg'', ''args'', ''levelname'', ''levelno'', ''pathname'',
     ''filename'', ''module'', ''exc_info'', ''exc_text'', ''stack_info'', ''lineno'', ''funcName'',
     ''created'', ''msecs'', ''relativeCreated'', ''thread'', ''threadName'', ''processName'',
     ''process'', ''taskName'']"

definition log_payload :: "log_record \<Rightarrow> (pyval \<times> pyval) list" where
  "log_payload r = foldl (\<lambda>d (k, x). AList.update (VStr k) x d)
     ([(VStr ''timestamp'', VStr (lr_timestamp r)), (VStr ''level'', VStr (lr_levelname r)),
       (VStr ''logger'', VStr (lr_name r)), (VStr ''message'', VStr (lr_message r))] @
      (case lr_exception r of None \<Rightarrow> [] | Some t \<Rightarrow> [(VStr ''exception'', VStr t)]) @
      (case lr_stack r of None \<Rightarrow> [] | Some t \<Rightarrow> [(VStr ''stack'', VStr t)]))
     (filter (\<lambda>(k, x). k \<notin> set standard_record_fields \<and> \<not> prefix ''_'' k) (lr_attrs r))"

definition redacted_payload ::
    "redactor \<Rightarrow> codec \<Rightarrow> (pyval \<Rightarrow> string) \<Rightarrow> log_record \<Rightarrow> pyval" where
  "redacted_payload vs C tn r = redact vs C tn (VDict (log_payload r)) None"

definition format_record ::
    "(pyval \<Rightarrow> string) \<Rightarrow> redactor \<Rightarrow> codec \<Rightarrow> (pyval \<Rightarrow> string) \<Rightarrow> log_record \<Rightarrow> string" where
  "format_record dumps vs C tn r = dumps (redacted_payload vs C tn r)"

section \<open>Masking keeps what is around it\<close>

text \<open>
  \<open>masks x y\<close>: the text \<open>y\<close> is made of \<open>x\<close> by putting stars over parts of it, as far as star-free
  text is concerned: what stands in \<open>y\<close>, or at its start, stood in \<open>x\<close>.
\<close>

definition masks :: "string \<Rightarrow> string \<Rightarrow> bool" where
  "masks x y \<longleftrightarrow> (\<forall>v. CHR ''*'' \<notin> set v \<longrightarrow>
     (prefix v y \<longrightarrow> prefix v x) \<and> (sublist v y \<longrightarrow> sublist v x))"

lemma masks_refl [simp]: "masks x x"
  by (simp add: masks_def)

lemma masks_trans: "masks x y \<Longrightarrow> masks y z \<Longrightarrow> masks x z"
  by (simp add: masks_def)

lemma masks_sublist: "masks x y \<Longrightarrow> CHR ''*'' \<notin> set v \<Longrightarrow> sublist v y \<Longrightarrow> sublist v x"
  by (simp add: masks_def)

lemma masks_Cons:
  assumes "masks x y"
  shows "masks (c # x) (c # y)"
  unfolding masks_def
proof (intro allI impI)
  fix v :: string
  assume v: "CHR ''*'' \<notin> set v"
  have p: "prefix v (c # y) \<Longrightarrow> prefix v (c # x)"
    using assms v by (cases v) (auto simp: masks_def)
  moreover have "sublist v (c # y) \<Longrightarrow> sublist v (c # x)"
    using assms v p by (auto simp: masks_def sublist_Cons_right)
  ultimately show "(prefix v (c # y) \<longrightarrow> prefix v (c # x)) \<and> (sublist v (c # y) \<longrightarrow> sublist v (c # x))"
    by blast
qed

lemma masks_append: "masks x y \<Longrightarrow> masks (k @ x) (k @ y)"
  by (induction k) (auto intro: masks_Cons)

lemma masks_stars:
  assumes "masks x y"
  shows "masks (m @ x) (CHR ''*'' # y)"
  unfolding masks_def
proof (intro allI impI)
  fix v :: string
  assume v: "CHR ''*'' \<notin> set v"
  have "prefix v (CHR ''*'' # y) \<Longrightarrow> v = []"
    using v by (cases v) auto
  moreover have "sublist v (CHR ''*'' # y) \<Longrightarrow> sublist v (m @ x)"
    using assms v calculation by (auto simp: masks_def sublist_Cons_right sublist_append)
  ultimately show "(prefix v (CHR ''*'' # y) \<longrightarrow> prefix v (m @ x)) \<and>
      (sublist v (CHR ''*'' # y) \<longrightarrow> sublist v (m @ x))"
    by auto
qed

lemma masks_redacted: "masks x y \<Longrightarrow> masks (k @ m @ x) (k @ ''***'' @ y)"
  using masks_stars [of x y "[]"] masks_stars [of x "CHR ''*'' # y" "[]"] masks_stars [of x "CHR ''*'' # CHR ''*'' # y" m]
  by (intro masks_append) simp

section \<open>Matches\<close>

lemma runs_split: "(b', r') \<in> set (runs P b r) \<Longrightarrow> \<exists>m. b' = rev m @ b \<and> r = m @ r'"
proof (induction r arbitrary: b)
  case (Cons c cs)
  then show ?case by (force split: if_splits intro: exI [of _ "c # m" for m])
qed simp

lemma ends_split: "(b', r') \<in> set (ends p (b, r)) \<Longrightarrow> \<exists>m. b' = rev m @ b \<and> r = m @ r'"
proof (induction p arbitrary: b r b' r')
  case (Many P)
  then show ?case using runs_split by simp
next
  case (Cat p q)
  then obtain b1 r1 where 1: "(b1, r1) \<in> set (ends p (b, r))" "(b', r') \<in> set (ends q (b1, r1))"
    by auto
  from Cat.IH(1) [OF 1(1)] Cat.IH(2) [OF 1(2)] show ?case by force
qed (auto split: list.splits if_splits)

lemma first_match_Some:
  assumes "first_match g t (b, r) = Some (m, e)"
  obtains k where "r = k @ snd m" and "e \<in> set (ends t m)"
proof -
  have "(m, e) \<in> set (concat (map (\<lambda>m. map (Pair m) (ends t m)) (ends g (b, r))))"
    using assms by (simp add: first_match_def split: list.splits del: set_concat)
  then have m: "m \<in> set (ends g (b, r))" and e: "e \<in> set (ends t m)"
    by auto
  from m ends_split [of "fst m" "snd m" g b r] that e show thesis by auto
qed

lemma sub_from_masks:
  assumes kept: "\<And>x e. e \<in> set (ends t x) \<Longrightarrow> \<exists>m. snd x = m @ u @ snd e"
  shows "masks s (sub_from g t (''***'' @ u) b s)"
  using kept
proof (induction g t "''***'' @ u" b s rule: sub_from.induct)
  case (2 g t b c cs)
  show ?case
  proof (cases "first_match g t (b, c # cs)")
    case None
    with 2 show ?thesis by (auto intro: masks_Cons)
  next
    case (Some h)
    obtain m1 m2 e1 e2 where h: "h = ((m1, m2), (e1, e2))" by (metis surj_pair)
    show ?thesis
    proof (cases "length e2 \<le> length cs")
      case False
      with 2 Some h show ?thesis by (auto intro: masks_Cons)
    next
      case True
      from Some h obtain k where k: "c # cs = k @ m2" and e: "(e1, e2) \<in> set (ends t (m1, m2))"
        by (auto elim: first_match_Some)
      from 2(4) [OF e] obtain x where x: "m2 = x @ u @ e2" by auto
      have "masks e2 (sub_from g t (''***'' @ u) e1 e2)"
        using 2 Some h True by auto
      then have "masks (k @ x @ u @ e2) (k @ ''***'' @ u @ sub_from g t (''***'' @ u) e1 e2)"
        by (intro masks_redacted masks_append)
      moreover have t: "take (Suc (length cs) - length m2) (c # cs) = k"
        using k by (metis append_eq_conv_conj length_Cons length_append diff_add_inverse2)
      have "sub_from g t (''***'' @ u) b (c # cs) = k @ (''***'' @ u) @ sub_from g t (''***'' @ u) e1 e2"
        unfolding sub_from.simps(2) Some h using True by (simp add: t)
      ultimately show ?thesis unfolding k x by simp
    qed
  qed
qed simp

lemma re_sub_masks: "masks s (re_sub g t ''***'' s)"
proof -
  have "masks s (sub_from g t (''***'' @ []) [] s)"
  proof (rule sub_from_masks)
    fix x e assume "e \<in> set (ends t x)"
    then show "\<exists>m. snd x = m @ [] @ snd e"
      using ends_split [of "fst e" "snd e" t "fst x" "snd x"] by auto
  qed
  then show ?thesis by (simp add: re_sub_def)
qed

lemma url_sub_masks: "masks s (re_sub url_scheme url_userinfo ''***@'' s)"
proof -
  have "masks s (sub_from url_scheme url_userinfo (''***'' @ ''@'') [] s)"
  proof (rule sub_from_masks)
    fix x e assume "e \<in> set (ends url_userinfo x)"
    then obtain y where y: "y \<in> set (ends (some_of (\<lambda>c. c \<notin> set ''/@'' \<and> \<not> is_ws c)) x)"
      and e: "snd y = CHR ''@'' # snd e"
      by (auto simp: url_userinfo_def split: list.splits if_splits)
    from y ends_split [of "fst y" "snd y" _ "fst x" "snd x"] obtain m where "snd x = m @ snd y"
      by auto
    with e show "\<exists>m. snd x = m @ ''@'' @ snd e" by simp
  qed
  then show ?thesis by (simp add: re_sub_def)
qed

lemma py_replace_masks: "masks s (py_replace v ''***'' s)"
proof (induction v "''***''" s rule: py_replace.induct)
  case (2 v c cs)
  show ?case
  proof (cases "v \<noteq> [] \<and> prefix v (c # cs)")
    case True
    then have s: "c # cs = v @ drop (length v - 1) cs"
      by (cases v) (auto simp: prefix_def)
    have "masks ([] @ v @ drop (length v - 1) cs) ([] @ ''***'' @ py_replace v ''***'' (drop (length v - 1) cs))"
      using 2 True by (intro masks_redacted) simp
    moreover have "py_replace v ''***'' (c # cs) = ''***'' @ py_replace v ''***'' (drop (length v - 1) cs)"
      using True by simp
    ultimately show ?thesis using s by (simp only: append_Nil)
  next
    case False
    with 2(2) show ?thesis by (auto intro: masks_Cons)
  qed
qed simp

lemma mask_values_masks: "masks s (mask_values vs s)"
  unfolding mask_values_def REDACTED_def
  by (induction vs arbitrary: s) (auto intro: masks_trans py_replace_masks)

lemma mask_patterns_masks: "masks s (mask_patterns s)"
  unfolding mask_patterns_def REDACTED_def Let_def
  by (meson masks_trans re_sub_masks url_sub_masks)

text \<open>What every step of the redaction promises: a value that is gone stays gone.\<close>

locale masking =
  fixes mask :: "string \<Rightarrow> string"
  assumes masks_text: "masks s (mask s)"
begin

lemma stays_absent: "CHR ''*'' \<notin> set v \<Longrightarrow> \<not> sublist v s \<Longrightarrow> \<not> sublist v (mask s)"
  using masks_text masks_sublist by blast

lemma masking_after: "masks s t \<Longrightarrow> masks s (mask t)"
  using masks_text masks_trans by blast

end

interpretation patterns: masking mask_patterns
  by unfold_locales (rule mask_patterns_masks)

interpretation all_values: masking "mask_values vs" for vs
  by unfold_locales (rule mask_values_masks)

interpretation redaction: masking "redact_text vs" for vs
  by unfold_locales (simp add: redact_text_def patterns.masking_after mask_values_masks)

section \<open>Registered values\<close>

lemma py_replace_gone:
  assumes "v \<noteq> []" and v: "CHR ''*'' \<notin> set v"
  shows "\<not> sublist v (py_replace v ''***'' s)"
  using assms
proof (induction v "''***''" s rule: py_replace.induct)
  case (2 v c cs)
  have no: "\<not> prefix v (CHR ''*'' # y)" for y
    using 2(3,4) by (cases v) auto
  show ?case
  proof (cases "prefix v (c # cs)")
    case True
    with 2 no show ?thesis by (simp add: sublist_Cons_right)
  next
    case False
    with masks_Cons [OF py_replace_masks, of c cs v] 2(4)
    have "\<not> prefix v (c # py_replace v ''***'' cs)" by (auto simp: masks_def)
    with False 2 show ?thesis by (simp add: sublist_Cons_right)
  qed
qed simp

lemma mask_values_gone:
  "v \<in> set vs \<Longrightarrow> v \<noteq> [] \<Longrightarrow> CHR ''*'' \<notin> set v \<Longrightarrow> \<not> sublist v (mask_values vs s)"
proof (induction vs arbitrary: s)
  case (Cons w vs)
  show ?case
  proof (cases "v = w")
    case True
    have "masks (py_replace v REDACTED s) (mask_values (w # vs) s)"
      using mask_values_masks [of "py_replace w REDACTED s" vs] True by (simp add: mask_values_def)
    with Cons.prems show ?thesis
      by (auto simp: REDACTED_def dest: masks_sublist py_replace_gone)
  next
    case False
    with Cons show ?thesis by (simp add: mask_values_def)
  qed
qed simp

lemma redact_text_gone:
  assumes "v \<in> set vs" and "v \<noteq> []" and "CHR ''*'' \<notin> set v"
  shows "\<not> sublist v (redact_text vs s)"
proof -
  have "v \<in> set (longest_first vs)" using assms by (simp add: longest_first_def)
  with assms show ?thesis by (simp add: redact_text_def patterns.stays_absent mask_values_gone)
qed

text \<open>A text in which a value does not occur is left as it is.\<close>

lemma py_replace_absent: "\<not> sublist v s \<Longrightarrow> py_replace v w s = s"
  by (induction v w s rule: py_replace.induct) (auto simp: sublist_Cons_right)

lemma mask_values_absent: "(\<And>v. v \<in> set vs \<Longrightarrow> \<not> sublist v s) \<Longrightarrow> mask_values vs s = s"
  by (induction vs) (auto simp: mask_values_def py_replace_absent)

lemma mask_values_append: "mask_values (xs @ ys) s = mask_values ys (mask_values xs s)"
  by (simp add: mask_values_def)

lemma py_replace_self: "v \<noteq> [] \<Longrightarrow> py_replace v w v = w"
  by (cases v) auto

lemma stars_no_value:
  assumes "v \<noteq> []" and "CHR ''*'' \<notin> set v"
  shows "\<not> sublist v REDACTED"
  using assms by (cases v) (auto simp: REDACTED_def sublist_Cons_right)

lemma mask_patterns_stars: "mask_patterns REDACTED = REDACTED"
  by code_simp

section \<open>Payloads\<close>

text \<open>The texts of a value that are not keys, and that every entry under a sensitive key is masked.\<close>

fun value_texts :: "pyval \<Rightarrow> string list" where
  "value_texts (VStr s) = [s]"
| "value_texts (VList xs) = concat (map value_texts xs)"
| "value_texts (VTuple xs) = concat (map value_texts xs)"
| "value_texts (VSet xs) = concat (map value_texts xs)"
| "value_texts (VDict d) = concat (map (\<lambda>(k, x). value_texts x) d)"
| "value_texts _ = []"

fun keys_masked :: "pyval \<Rightarrow> bool" where
  "keys_masked (VList xs) = list_all keys_masked xs"
| "keys_masked (VTuple xs) = list_all keys_masked xs"
| "keys_masked (VSet xs) = list_all keys_masked xs"
| "keys_masked (VDict d) = list_all (\<lambda>(k, x). keys_masked x \<and>
     (case k of VStr s \<Rightarrow> is_sensitive_key s \<longrightarrow> x = VStr REDACTED | _ \<Rightarrow> True)) d"
| "keys_masked _ = True"

lemma list_item_size: "y \<in> set xs \<Longrightarrow> size y < Suc (size_list size xs)"
  by (simp add: less_Suc_eq_le size_list_estimation')

lemma redact_leaves:
  assumes v: "v \<in> set vs" "v \<noteq> []" "CHR ''*'' \<notin> set v"
    and names: "\<And>x. \<not> sublist v (''<'' @ tn x @ ''>'')"
  shows "t \<in> set (value_texts (redact vs C tn x key)) \<Longrightarrow> \<not> sublist v t"
proof (induction x arbitrary: key t rule: measure_induct_rule [where f = size])
  case (less x)
  show ?case
  proof (cases "masked_key key")
    case True
    then show ?thesis using less.prems stars_no_value v by simp
  next
    case False
    show ?thesis
    proof (cases x)
      case (VDict d)
      with less.prems False obtain k y where ky: "(k, y) \<in> set d"
        and t: "t \<in> set (value_texts (redact vs C tn y (Some (val_str C k))))"
        by (force simp: redact_plain dest: subsetD [OF set_dict_of])
      from size_in_dict [OF ky] VDict have "size y < size x" by simp
      from less.IH [OF this t] show ?thesis .
    next
      case (VList xs)
      with less.prems False obtain y where "y \<in> set xs"
        and t: "t \<in> set (value_texts (redact vs C tn y None))" by (auto simp: redact_plain)
      then have "size y < size x" using VList list_item_size by simp
      from less.IH [OF this t] show ?thesis .
    next
      case (VTuple xs)
      with less.prems False obtain y where "y \<in> set xs"
        and t: "t \<in> set (value_texts (redact vs C tn y None))" by (auto simp: redact_plain)
      then have "size y < size x" using VTuple list_item_size by simp
      from less.IH [OF this t] show ?thesis .
    qed (use less.prems False redact_text_gone v names in \<open>auto simp: redact_plain\<close>)
  qed
qed

lemma redact_keys: "keys_masked (redact vs C tn x key)"
proof (induction x arbitrary: key rule: measure_induct_rule [where f = size])
  case (less x)
  show ?case
  proof (cases "masked_key key")
    case False
    show ?thesis
    proof (cases x)
      case (VDict d)
      let ?e = "\<lambda>p. (VStr (val_str C (fst p)), redact vs C tn (snd p) (Some (val_str C (fst p))))"
      have "keys_masked (snd (?e p)) \<and> (is_sensitive_key (val_str C (fst p)) \<longrightarrow> snd (?e p) = VStr REDACTED)"
        if "p \<in> set d" for p
        using that less.IH [of "snd p"] VDict size_in_dict [of "fst p" "snd p" d] by (simp add: masked_key_def)
      then show ?thesis using VDict False set_dict_of [of "map ?e d"]
        by (auto simp: redact_plain list_all_iff dest!: subsetD)
    qed (use False less.IH list_item_size in \<open>auto simp: list_all_iff redact_plain\<close>)
  qed simp
qed

lemma set_redactor_register:
  "set (redactor_register given vs) = set vs \<union> {s. Some s \<in> set given \<and> s \<noteq> []}"
  by (induction given arbitrary: vs) (auto simp: redactor_register_def split: option.splits)

lemma set_register_environment:
  "set (register_sensitive_environment env vs) =
     set vs \<union> {v. \<exists>k. (k, v) \<in> set env \<and> is_sensitive_key k \<and> v \<noteq> []}"
  unfolding register_sensitive_environment_def set_redactor_register by force

section \<open>Properties\<close>

text \<open>A non-empty secret without a star that was registered, at startup from an environment variable
  with a sensitive name or later by a call, does not occur in any value of a log line's payload,
  however deep it is nested: not in the message, the exception, the stack or an extra attribute. The
  masks and patterns applied after its own cannot put it together again. The names of the types of
  unknown objects are printed as they are and have to be free of it; the keys are not covered.\<close>
theorem log_values_hide_secrets:
  assumes "Some v \<in> set given \<or> (\<exists>k. (k, v) \<in> set env \<and> is_sensitive_key k)"
    and "v \<noteq> []" and "CHR ''*'' \<notin> set v" and "\<forall>x. \<not> sublist v (''<'' @ tn x @ ''>'')"
  shows "list_all (\<lambda>t. \<not> sublist v t) (value_texts (redacted_payload
    (redactor_register given (register_sensitive_environment env vs)) C tn r))"
proof -
  have "v \<in> set (redactor_register given (register_sensitive_environment env vs))"
    using assms by (auto simp: set_redactor_register set_register_environment)
  from redact_leaves [OF this assms(2,3), where tn = tn] assms(4) show ?thesis
    unfolding list_all_iff redacted_payload_def by blast
qed

text \<open>C37: in the payload of every log line each entry whose key names a secret, such as \<open>password\<close> or
  \<open>BOT-TOKEN\<close>, holds only the three stars, whatever its value was, at every depth of nested
  dictionaries and lists.\<close>
theorem log_keys_masked: "keys_masked (redacted_payload vs C tn r)"
  unfolding redacted_payload_def by (rule redact_keys)

text \<open>A registered value is masked as a whole, even when parts of it are registered as well: the
  longest value is replaced first, so the text that consists of it becomes the three stars and no
  remainder of it is left.\<close>
theorem registered_value_masked:
  assumes "v \<in> set vs" and "list_all (\<lambda>w. w \<noteq> [] \<and> CHR ''*'' \<notin> set w) vs"
  shows "redact_text vs v = REDACTED"
proof -
  have clean: "w \<noteq> [] \<and> CHR ''*'' \<notin> set w" if "w \<in> set (longest_first vs)" for w
    using assms that by (auto simp: longest_first_def list_all_iff)
  have "v \<in> set (longest_first vs)" using assms by (simp add: longest_first_def)
  then obtain before rest where split: "longest_first vs = before @ v # rest" and "v \<notin> set before"
    by (auto dest: split_list_first)
  have longer: "length v \<le> length w" if "w \<in> set before" for w
    using sorted_sort_key [of "\<lambda>v. - int (length v)" vs] that
    unfolding longest_first_def [symmetric] split by (auto simp: sorted_append)
  have "\<not> sublist w v" if "w \<in> set before" for w
  proof
    assume "sublist w v"
    then obtain a b where "v = a @ w @ b" by (auto simp: sublist_def)
    with longer [OF that] that \<open>v \<notin> set before\<close> show False by auto
  qed
  then have "mask_values before v = v" by (rule mask_values_absent)
  moreover have "mask_values rest REDACTED = REDACTED"
    using clean split stars_no_value by (intro mask_values_absent) auto
  ultimately have "mask_values (longest_first vs) v = REDACTED"
    using clean [of v] split by (simp add: mask_values_append) (simp add: mask_values_def py_replace_self)
  then show ?thesis by (simp add: redact_text_def mask_patterns_stars)
qed

text \<open>The API address of Telegram holds the token after a letter, where the token's pattern does not start.\<close>

lemma telegram_address_token_kept:
  "mask_patterns ''bot 123456:abcdefghijklmnopqrst'' = ''bot ***''"
  "mask_patterns ''/bot123456:abcdefghijklmnopqrst/getMe'' = ''/bot123456:abcdefghijklmnopqrst/getMe''"
  by code_simp+

text \<open>The keys of a mapping are printed as they are, registered or not.\<close>

lemma keys_are_emitted:
  "redact vs C tn (VDict [(VStr k, v)]) None = VDict [(VStr k, redact vs C tn v (Some k))]"
  by (simp add: redact_plain masked_key_def dict_of_def)

section \<open>Witnesses\<close>

definition demo_codec :: codec where
  "demo_codec = \<lparr>cd_repr = \<lambda>v. ''()'', cd_hexbytes = \<lambda>v. Inl ValueError, cd_checksum = \<lambda>v. Inl ValueError\<rparr>"

definition demo_record :: log_record where
  "demo_record = \<lparr>lr_timestamp = ''2026-01-01T00:00:00.000+00:00'', lr_levelname = ''INFO'',
     lr_name = ''sentinel'', lr_message = ''posting to abc:123-xyz failed'', lr_exception = None,
     lr_stack = None, lr_attrs = [(''context'', VDict [(VStr ''urls'', VList [VStr ''/abc:123-xyz/'']),
       (VStr ''api-key'', VInt 7)])]\<rparr>"

theorem log_values_hide_secrets_witness:
  "list_all (\<lambda>t. \<not> sublist ''abc:123-xyz'' t) (value_texts (redacted_payload
    (redactor_register [] (register_sensitive_environment [(''BOT_TOKEN'', ''abc:123-xyz'')] []))
    demo_codec (\<lambda>x. ''object'') demo_record))"
proof (rule log_values_hide_secrets)
  have "is_sensitive_key ''BOT_TOKEN''" by code_simp
  then show "Some ''abc:123-xyz'' \<in> set [] \<or>
      (\<exists>k. (k, ''abc:123-xyz'') \<in> set [(''BOT_TOKEN'', ''abc:123-xyz'')] \<and> is_sensitive_key k)" by simp
qed (simp_all add: sublist_Cons_right)

theorem registered_value_masked_witness: "redact_text [''abc'', ''abcdef'', ''cde''] ''abcdef'' = REDACTED"
  by (rule registered_value_masked) simp_all

end
