(* ===== verification/Urls.thy ===== *)
theory Urls
  imports Redaction
begin

text \<open>
  \<open>urllib.parse.urlsplit\<close> as far as the program uses it, the path and the host name of an address,
  for strings up to U+00FF. Whether a location with brackets holds an IP address in the right place is
  decided by the parameter \<open>ip\<close>, Python's \<open>ipaddress\<close> module.
\<close>

section \<open>Splitting\<close>

definition scheme_char :: "char \<Rightarrow> bool" where
  "scheme_char c \<longleftrightarrow> ascii_alnum c \<or> c \<in> set ''+-.''"

definition clean_url :: "string \<Rightarrow> string" where
  "clean_url u =
     filter (\<lambda>c. c \<noteq> CHR 0x09 \<and> c \<noteq> CHR 0x0A \<and> c \<noteq> CHR 0x0D)
       (dropWhile (\<lambda>c. (of_char c :: int) \<le> 32) u)"

definition drop_scheme :: "string \<Rightarrow> string" where
  "drop_scheme u =
     (let s = takeWhile (\<lambda>c. c \<noteq> CHR '':'') u in
      if s \<noteq> [] \<and> s \<noteq> u \<and> ascii_alnum (hd s) \<and> \<not> is_dec (hd s) \<and> list_all scheme_char s
      then drop (Suc (length s)) u else u)"

definition netloc_end :: "char \<Rightarrow> bool" where
  "netloc_end c \<longleftrightarrow> c \<in> set ''/?#''"

definition bracket_ok :: "(string \<Rightarrow> bool) \<Rightarrow> string \<Rightarrow> bool" where
  "bracket_ok ip n =
     ((CHR ''['' \<in> set n \<longleftrightarrow> CHR '']'' \<in> set n) \<and> (CHR ''['' \<in> set n \<longrightarrow> ip n))"

text \<open>The network location and the path; a location with wrong brackets raises ValueError.\<close>

definition split_url :: "(string \<Rightarrow> bool) \<Rightarrow> string \<Rightarrow> (string \<times> string) res" where
  "split_url ip url =
     (let u = drop_scheme (clean_url url);
          loc = (if prefix ''//'' u then takeWhile (\<lambda>c. \<not> netloc_end c) (drop 2 u) else []);
          rest = (if prefix ''//'' u then drop (length loc) (drop 2 u) else u)
      in if bracket_ok ip loc
         then Inr (loc, takeWhile (\<lambda>c. c \<noteq> CHR ''?'') (takeWhile (\<lambda>c. c \<noteq> CHR ''#'') rest))
         else Inl ValueError)"

definition url_path :: "(string \<Rightarrow> bool) \<Rightarrow> string \<Rightarrow> string res" where
  "url_path ip url = bindR (split_url ip url) (\<lambda>(loc, path). Inr path)"

section \<open>Host names\<close>

definition after_last :: "char \<Rightarrow> string \<Rightarrow> string" where
  "after_last d s = rev (takeWhile (\<lambda>c. c \<noteq> d) (rev s))"

definition host_text :: "string \<Rightarrow> string" where
  "host_text loc =
     (let info = after_last (CHR ''@'') loc in
      if CHR ''['' \<in> set info
      then takeWhile (\<lambda>c. c \<noteq> CHR '']'') (drop 1 (dropWhile (\<lambda>c. c \<noteq> CHR ''['') info))
      else takeWhile (\<lambda>c. c \<noteq> CHR '':'') info)"

definition lower_host :: "string \<Rightarrow> string" where
  "lower_host h = py_lower (takeWhile (\<lambda>c. c \<noteq> CHR ''%'') h) @ dropWhile (\<lambda>c. c \<noteq> CHR ''%'') h"

definition url_hostname :: "(string \<Rightarrow> bool) \<Rightarrow> string \<Rightarrow> string option res" where
  "url_hostname ip url = bindR (split_url ip url) (\<lambda>(loc, path).
     Inr (if host_text loc = [] then None else Some (lower_host (host_text loc))))"

section \<open>What the parts do not hold\<close>

lemma after_last_set: "set (after_last d s) \<subseteq> set s - {d}"
  by (auto simp: after_last_def dest: set_takeWhileD)

lemma after_last_append:
  assumes "d \<notin> set t"
  shows "after_last d (s @ d # t) = t"
proof -
  have "takeWhile (\<lambda>c. c \<noteq> d) (rev t @ d # rev s) = rev t @ takeWhile (\<lambda>c. c \<noteq> d) (d # rev s)"
    using assms by (intro takeWhile_append2) auto
  then show ?thesis by (simp add: after_last_def)
qed

lemma split_url_loc: "split_url ip url = Inr (loc, path) \<Longrightarrow> c \<in> set loc \<Longrightarrow> \<not> netloc_end c"
  by (auto simp: split_url_def Let_def dest: set_takeWhileD split: if_splits)

lemma host_text_set: "c \<in> set (host_text loc) \<Longrightarrow> c \<in> set loc - {CHR ''@''}"
  using after_last_set [of "CHR ''@''" loc]
  by (auto simp: host_text_def Let_def dest!: set_takeWhileD in_set_dropD set_dropWhileD split: if_splits)

lemma lower_char_punctuation: "lower_char c \<in> set ''/?#@'' \<Longrightarrow> lower_char c = c"
proof (rule ccontr)
  assume p: "lower_char c \<in> set ''/?#@''" and "lower_char c \<noteq> c"
  then have n: "65 \<le> (of_char c :: nat)" "(of_char c :: nat) \<le> 222"
    and "lower_char c = char_of ((of_char c :: nat) + 32)"
    by (auto simp: lower_char_def Let_def split: if_splits)
  then have "(of_char (lower_char c) :: nat) = of_char c + 32"
    by (simp add: of_char_of)
  moreover have "(of_char (lower_char c) :: nat) \<in> {47, 63, 35, 64}"
    using p by auto
  ultimately show False using n by auto
qed

lemma url_hostname_set:
  assumes "url_hostname ip url = Inr (Some h)"
  shows "set h \<inter> set ''/?#@'' = {}"
proof -
  obtain loc path where s: "split_url ip url = Inr (loc, path)" and h: "h = lower_host (host_text loc)"
    using assms by (auto simp: url_hostname_def split: if_splits elim!: bindR.elims)
  have no: "c \<notin> set ''/?#@''" if "c \<in> set (host_text loc)" for c
    using split_url_loc [OF s, of c] host_text_set [OF that] by (auto simp: netloc_end_def)
  have "d \<notin> set ''/?#@''" if d: "d \<in> set h" for d
  proof -
    from d consider "d \<in> set (host_text loc)"
      | c where "c \<in> set (host_text loc)" "d = lower_char c"
      unfolding h lower_host_def py_lower_def by (auto dest: set_takeWhileD set_dropWhileD)
    then show ?thesis using no lower_char_punctuation by cases metis+
  qed
  then show ?thesis by blast
qed

end
