(* ===== verification/Rpc_Messages.thy ===== *)
theory Rpc_Messages
  imports Urls
begin

text \<open>
  What \<open>sentinel/rpc_provider.py\<close> says about failures: the kinds of failures and their summaries, the
  names of endpoints, the texts of the exceptions, and \<open>_safe_rpc_error_message\<close>, which shortens the
  message of a provider and replaces the addresses in it by their host names.
\<close>

section \<open>Failures\<close>

text \<open>
  Exceptions of the provider library: a transport failure, HTTP 429, a JSON-RPC error with its
  response, the two semantic answers, an RPC availability error of the application, any other.
\<close>

datatype provider_exc =
    TransportFailure
  | TooManyRequests string
  | Web3RPCError pyval
  | BlockNotFound
  | TransactionNotFound
  | AvailabilityError
  | OtherException

definition semantic_response :: "provider_exc \<Rightarrow> bool" where
  "semantic_response x \<longleftrightarrow> x = BlockNotFound \<or> x = TransactionNotFound"

fun endpoint_failure :: "provider_exc \<Rightarrow> bool" where
  "endpoint_failure TransportFailure = True"
| "endpoint_failure (TooManyRequests _) = True"
| "endpoint_failure (Web3RPCError _) = True"
| "endpoint_failure _ = False"

datatype failure_kind = TRANSPORT | RPC_REJECTED

record failure_summary =
  fs_endpoint :: "nat option"
  fs_kind :: failure_kind
  fs_code :: "int option"

definition dict_get :: "pyval \<Rightarrow> string \<Rightarrow> pyval" where
  "dict_get v k = (case getitem v k of Inr x \<Rightarrow> x | Inl _ \<Rightarrow> VNone)"

definition rpc_error_code :: "pyval \<Rightarrow> int option" where
  "rpc_error_code response =
     (case dict_get (dict_get response ''error'') ''code'' of
        VInt i \<Rightarrow> Some i
      | VBool b \<Rightarrow> Some (if b then 1 else 0)
      | _ \<Rightarrow> None)"

definition failure_summary_of :: "nat option \<Rightarrow> provider_exc \<Rightarrow> failure_summary" where
  "failure_summary_of ep x =
     (case x of
        Web3RPCError r \<Rightarrow> \<lparr>fs_endpoint = ep, fs_kind = RPC_REJECTED, fs_code = rpc_error_code r\<rparr>
      | TooManyRequests _ \<Rightarrow> \<lparr>fs_endpoint = ep, fs_kind = RPC_REJECTED, fs_code = None\<rparr>
      | _ \<Rightarrow> \<lparr>fs_endpoint = ep, fs_kind = TRANSPORT, fs_code = None\<rparr>)"

datatype rpc_error =
    EndpointsUnavailable
  | ChainMismatch
  | RejectedByAllProviders "failure_summary list"
  | ReconnectRequired failure_summary
  | ProviderExc provider_exc
  | RpcValueError
  | RpcAssertionError
  | StillConnecting
  | StillExecuting

type_synonym 'a rpc_res = "rpc_error + 'a"

definition normalize_subscription_exception :: "provider_exc \<Rightarrow> nat option \<Rightarrow> rpc_error option" where
  "normalize_subscription_exception x ep =
     (if x = AvailabilityError then Some (ProviderExc x)
      else if semantic_response x then None
      else if endpoint_failure x then Some (ReconnectRequired (failure_summary_of ep x))
      else None)"

section \<open>Names and texts\<close>

definition metric_label :: "(string \<Rightarrow> bool) \<Rightarrow> nat \<Rightarrow> string \<Rightarrow> string res" where
  "metric_label ip i uri = bindR (url_hostname ip uri) (\<lambda>h. Inr (case h of
       None \<Rightarrow> ''rpc-'' @ int_str (int i + 1)
     | Some h \<Rightarrow> h))"

definition endpoint_label :: "(string \<Rightarrow> bool) \<Rightarrow> nat \<Rightarrow> string \<Rightarrow> string res" where
  "endpoint_label ip i uri = bindR (url_hostname ip uri) (\<lambda>h. Inr (case h of
       None \<Rightarrow> ''rpc-'' @ int_str (int i + 1)
     | Some h \<Rightarrow> ''rpc-'' @ int_str (int i + 1) @ '' ('' @ h @ '')''))"

fun kind_value :: "failure_kind \<Rightarrow> string" where
  "kind_value TRANSPORT = ''transport''"
| "kind_value RPC_REJECTED = ''rpc_rejected''"

text \<open>A failure is given here by the label of its endpoint and its kind.\<close>

definition rejected_text :: "string \<Rightarrow> (string option \<times> failure_kind) list \<Rightarrow> string" where
  "rejected_text verb failures = ''All RPC endpoints rejected '' @ verb @ '': '' @ py_join '', ''
     (map (\<lambda>(l, k). (case l of None \<Rightarrow> ''None'' | Some l \<Rightarrow> l) @ '': '' @ kind_value k) failures)"

definition reconnect_text :: "string \<Rightarrow> string option \<Rightarrow> failure_kind \<Rightarrow> string" where
  "reconnect_text verb label kind = ''Subscription RPC endpoint '' @
     (case label of None \<Rightarrow> ''active endpoint'' | Some l \<Rightarrow> if l = [] then ''active endpoint'' else l) @
     '' requires reconnect for '' @ verb @ '': '' @ kind_value kind"

definition active_endpoint_label :: "string option \<Rightarrow> string" where
  "active_endpoint_label active = (case active of None \<Rightarrow> ''not-connected'' | Some l \<Rightarrow> l)"

definition subscription_str :: "string \<Rightarrow> string option \<Rightarrow> string" where
  "subscription_str role active =
     ''Fallback WebSocket connection ('' @ role @ '', '' @ active_endpoint_label active @ '')''"

definition get_endpoint_uri_or_ipc_path :: "string \<Rightarrow> string option \<Rightarrow> string" where
  "get_endpoint_uri_or_ipc_path role active = role @ '':'' @ active_endpoint_label active"

section \<open>Replacing addresses\<close>

text \<open>\<open>pattern.sub(f, text)\<close> with a function that may raise; the match is the whole pattern.\<close>

function sub_with :: "rx \<Rightarrow> (string \<Rightarrow> string res) \<Rightarrow> string \<Rightarrow> string \<Rightarrow> string res" where
  "sub_with p f b [] = Inr []"
| "sub_with p f b (c # cs) =
     (case ends p (b, c # cs) of
        e # _ \<Rightarrow>
          if length (snd e) \<le> length cs
          then bindR (f (take (Suc (length cs) - length (snd e)) (c # cs)))
            (\<lambda>w. bindR (sub_with p f (fst e) (snd e)) (\<lambda>r. Inr (w @ r)))
          else bindR (sub_with p f (c # b) cs) (\<lambda>r. Inr (c # r))
      | [] \<Rightarrow> bindR (sub_with p f (c # b) cs) (\<lambda>r. Inr (c # r)))"
  by pat_completeness auto
termination by (relation "measure (\<lambda>(p, f, b, s). length s)") auto

definition rpc_url_pattern :: rx where
  "rpc_url_pattern = Cat url_scheme (some_of (\<lambda>c. \<not> is_ws c))"

definition redact_url :: "(string \<Rightarrow> bool) \<Rightarrow> string \<Rightarrow> string res" where
  "redact_url ip m = bindR (url_hostname ip m) (\<lambda>h. Inr (case h of None \<Rightarrow> ''RPC URL'' | Some h \<Rightarrow> h))"

text \<open>\<open>" ".join(text.split())\<close>\<close>

definition py_words :: "string \<Rightarrow> string list" where
  "py_words s = filter (\<lambda>w. w \<noteq> []) (py_split (CHR '' '') (map (\<lambda>c. if is_ws c then CHR '' '' else c) s))"

definition clipped :: "string \<Rightarrow> string" where
  "clipped r = (if length r \<le> 240 then r else take (240 - 3) r @ ''...'')"

definition safe_text :: "(string \<Rightarrow> bool) \<Rightarrow> string \<Rightarrow> string res" where
  "safe_text ip m = bindR (sub_with rpc_url_pattern (redact_url ip) [] (py_join '' '' (py_words m)))
     (\<lambda>r. Inr (clipped r))"

text \<open>
  The message of the exception, \<open>VNone\<close> when it has none; the name of its class stands for a message
  that is missing, no text or blank.
\<close>

definition exception_message :: "provider_exc \<Rightarrow> pyval" where
  "exception_message x = (case x of
       Web3RPCError response \<Rightarrow> dict_get (dict_get response ''error'') ''message''
     | TooManyRequests m \<Rightarrow> VStr m
     | _ \<Rightarrow> VNone)"

definition safe_rpc_error_message ::
    "(string \<Rightarrow> bool) \<Rightarrow> (provider_exc \<Rightarrow> string) \<Rightarrow> provider_exc \<Rightarrow> string res" where
  "safe_rpc_error_message ip cls x = (case exception_message x of
       VStr m \<Rightarrow> if py_strip m = [] then Inr (cls x) else safe_text ip m
     | _ \<Rightarrow> Inr (cls x))"

section \<open>No address is left\<close>

definition url_schemes :: "string list" where
  "url_schemes = [''http://'', ''https://'', ''ws://'', ''wss://'']"

text \<open>
  An address starts after the text \<open>b\<close>, which is reversed, and before \<open>y\<close>: a scheme that is not in the
  middle of a word, and one more character.
\<close>

definition url_from :: "string \<Rightarrow> string \<Rightarrow> bool" where
  "url_from b y \<longleftrightarrow> \<not> word_at b \<and>
     (\<exists>k c t. y = k @ c # t \<and> map lower_char k \<in> set url_schemes \<and> \<not> is_ws c)"

lemma iword_Nil: "iword [] = Eps" and iword_Cons: "iword (c # w) = Cat (ichar c) (iword w)"
  by (simp_all add: iword_def)

lemma ends_iword: "map lower_char k = w \<Longrightarrow> (rev k @ b, t) \<in> set (ends (iword w) (b, k @ t))"
proof (induction w arbitrary: k b)
  case (Cons c w)
  then obtain d ks where k: "k = d # ks" "lower_char d = c" "map lower_char ks = w" by auto
  from Cons.IH [OF k(3), of "d # b"] k show ?case by (simp add: iword_Cons ichar_def)
qed (simp add: iword_Nil)

lemma ends_Cat: "(b2, t2) \<in> set (ends p x) \<Longrightarrow> y \<in> set (ends q (b2, t2)) \<Longrightarrow> y \<in> set (ends (Cat p q) x)"
  by auto

lemma ichar_iword: "set (ends (ichar c) x) = set (ends (iword [c]) x)"
  by (auto simp: iword_Cons iword_Nil)

lemma lower_letter_word:
  assumes "lower_char c = d" and "97 \<le> (of_char d :: nat)" and "(of_char d :: nat) \<le> 122"
  shows "is_word c"
proof -
  let ?n = "of_char c :: nat"
  show ?thesis
  proof (cases "(65 \<le> ?n \<and> ?n \<le> 90) \<or> (192 \<le> ?n \<and> ?n \<le> 222 \<and> ?n \<noteq> 215)")
    case True
    then have "of_char d = ?n + 32" using assms(1) by (auto simp: lower_char_def Let_def)
    with True assms have "65 \<le> ?n" "?n \<le> 90" by auto
    then show ?thesis by (simp add: is_word_def Let_def char_le_int)
  next
    case False
    then have "c = d" using assms(1) by (auto simp: lower_char_def Let_def)
    with assms show ?thesis by (simp add: is_word_def Let_def char_le_int)
  qed
qed

lemma ends_word_opt:
  "map lower_char k = w \<Longrightarrow> (rev k @ b, t) \<in> set (ends (Cat (iword w) (Alt (ichar c) Eps)) (b, k @ t))"
  "map lower_char k = w @ [c] \<Longrightarrow> (rev k @ b, t) \<in> set (ends (Cat (iword w) (Alt (ichar c) Eps)) (b, k @ t))"
proof -
  assume "map lower_char k = w"
  from ends_iword [OF this, of b t] show "(rev k @ b, t) \<in> set (ends (Cat (iword w) (Alt (ichar c) Eps)) (b, k @ t))"
    by force
next
  assume "map lower_char k = w @ [c]"
  then obtain k0 d where k: "k = k0 @ [d]" "map lower_char k0 = w" "lower_char d = c"
    by (auto simp: map_eq_append_conv)
  from ends_Cat [OF ends_iword [OF k(2)], of "(rev k @ b, t)" "Alt (ichar c) Eps" b "d # t"] k
  show "(rev k @ b, t) \<in> set (ends (Cat (iword w) (Alt (ichar c) Eps)) (b, k @ t))"
    by (simp add: ichar_def)
qed

lemma url_scheme_ends:
  assumes "map lower_char k \<in> set url_schemes" and "\<not> word_at b"
  shows "(rev k @ b, t) \<in> set (ends url_scheme (b, k @ t))"
proof -
  have "\<exists>w \<in> {''http'', ''http'' @ ''s'', ''ws'', ''ws'' @ ''s''}. map lower_char k = w @ ''://''"
    using assms(1) by (auto simp: url_schemes_def)
  then obtain w where w: "w \<in> {''http'', ''http'' @ ''s'', ''ws'', ''ws'' @ ''s''}" "map lower_char k = w @ ''://''"
    by blast
  from w(2) [unfolded map_eq_append_conv] obtain k1 k2 where k: "k = k1 @ k2" "map lower_char k2 = ''://''" and k1: "map lower_char k1 = w"
    by metis
  let ?alt = "Alt (Cat (iword ''http'') (Alt (ichar (CHR ''s'')) Eps)) (Cat (iword ''ws'') (Alt (ichar (CHR ''s'')) Eps))"
  have alt: "(rev k1 @ b, k2 @ t) \<in> set (ends ?alt (b, k1 @ k2 @ t))"
    using w(1) ends_word_opt(1) [of k1 "''http''" b "k2 @ t" "CHR ''s''"]
      ends_word_opt(2) [of k1 "''http''" "CHR ''s''" b "k2 @ t"]
      ends_word_opt(1) [of k1 "''ws''" b "k2 @ t" "CHR ''s''"]
      ends_word_opt(2) [of k1 "''ws''" "CHR ''s''" b "k2 @ t"]
    unfolding ends.simps(6) set_append k1 by blast
  have "word_at (k1 @ k2 @ t)"
    using k1 w(1) lower_letter_word [of "hd k1" "CHR ''h''"] lower_letter_word [of "hd k1" "CHR ''w''"]
    by (cases k1) auto
  with assms(2) have "(b, k @ t) \<in> set (ends Bound (b, k @ t))" using k by simp
  from ends_Cat [OF this ends_Cat [OF _ ends_iword [OF k(2), of "rev k1 @ b" t]], of ?alt] alt k
  show ?thesis by (simp add: url_scheme_def)
qed

lemma runs_first: "\<exists>xs. runs P b r = (rev (takeWhile P r) @ b, dropWhile P r) # xs"
proof (induction r arbitrary: b)
  case (Cons c cs)
  from Cons.IH [of "c # b"] show ?case by auto
qed simp

lemma url_from_matches: "url_from b y \<Longrightarrow> ends rpc_url_pattern (b, y) \<noteq> []"
proof -
  assume "url_from b y"
  then obtain k c t where y: "y = k @ c # t" and k: "map lower_char k \<in> set url_schemes"
    and c: "\<not> is_ws c" and b: "\<not> word_at b"
    unfolding url_from_def by blast
  from runs_first obtain x xs where "runs (\<lambda>c. \<not> is_ws c) (c # rev k @ b) t = x # xs" by blast
  then have "x \<in> set (ends (some_of (\<lambda>c. \<not> is_ws c)) (rev k @ b, c # t))"
    using c by (simp add: some_of_def)
  from ends_Cat [OF url_scheme_ends [OF k b, of "c # t"] this] y show ?thesis
    by (auto simp: rpc_url_pattern_def simp del: ends.simps)
qed

lemma concat_first: "concat xss = y # ys \<Longrightarrow> \<exists>xs \<in> set xss. \<exists>zs. xs = y # zs"
  by (induction xss) (auto simp: append_eq_Cons_conv)

lemma lower_letter_not_ws:
  assumes "lower_char c \<in> {CHR ''h'', CHR ''w''}"
  shows "\<not> is_ws c"
proof -
  have "is_word c" using assms lower_letter_word [of c] by auto
  then show ?thesis by (auto simp: is_word_def is_ws_def char_code_int Let_def)
qed

lemma iword_first: "x \<in> set (ends (Cat (iword (c # w)) q) (b, s)) \<Longrightarrow> \<exists>d ds. s = d # ds \<and> lower_char d = c"
  by (auto simp: iword_Cons ichar_def split: list.splits if_splits)

lemma url_scheme_first:
  assumes "m \<in> set (ends url_scheme (b, s))"
  shows "\<exists>c cs. s = c # cs \<and> \<not> is_ws c"
proof -
  obtain x where "x \<in> set (ends (Cat (iword ''http'') (Alt (ichar (CHR ''s'')) Eps)) (b, s)) \<or>
      x \<in> set (ends (Cat (iword ''ws'') (Alt (ichar (CHR ''s'')) Eps)) (b, s))"
    using assms unfolding url_scheme_def ends.simps(5) [of Bound] ends.simps(5) [of "Alt _ _"] ends.simps(6)
    by (auto simp del: ends.simps(5) split: if_splits)
  with iword_first lower_letter_not_ws show ?thesis by blast
qed

lemma url_match_shape:
  assumes "ends rpc_url_pattern (b, s) = e # es"
  shows "\<exists>m. s = m @ snd e \<and> m \<noteq> [] \<and> \<not> is_ws (hd m) \<and> (snd e = [] \<or> is_ws (hd (snd e)))"
proof -
  have "concat (map (ends (some_of (\<lambda>c. \<not> is_ws c))) (ends url_scheme (b, s))) = e # es"
    using assms unfolding rpc_url_pattern_def by (simp only: ends.simps(5))
  from concat_first [OF this] obtain m zs where m: "m \<in> set (ends url_scheme (b, s))"
    and z: "ends (some_of (\<lambda>c. \<not> is_ws c)) m = e # zs"
    by (auto simp del: ends.simps)
  from url_scheme_first [OF m] obtain c cs where s: "s = c # cs" and c: "\<not> is_ws c" by blast
  from z obtain d ds where d: "snd m = d # ds" "\<not> is_ws d" by (auto simp: some_of_def split: list.splits if_splits)
  with z runs_first [of "\<lambda>c. \<not> is_ws c" "d # fst m" ds] have e: "snd e = dropWhile (\<lambda>c. \<not> is_ws c) ds"
    by (auto simp: some_of_def)
  have stop: "snd e = [] \<or> is_ws (hd (snd e))" using e hd_dropWhile [of "\<lambda>c. \<not> is_ws c" ds] by auto
  obtain k where k: "s = k @ snd m" using m ends_split [of "fst m" "snd m" url_scheme b s] by auto
  let ?m = "k @ d # takeWhile (\<lambda>c. \<not> is_ws c) ds"
  from k have eq: "s = ?m @ snd e" using d e by simp
  then have "hd s = hd ?m" by (simp only: hd_append2 append_is_Nil_conv list.distinct simp_thms)
  with s c have "\<not> is_ws (hd ?m)" by simp
  with eq stop show ?thesis by blast
qed

lemma redact_url_text: "redact_url ip m = Inr w \<Longrightarrow> w \<noteq> [] \<and> CHR ''/'' \<notin> set w"
proof -
  assume w: "redact_url ip m = Inr w"
  then obtain h where h: "url_hostname ip m = Inr h" "w = (case h of None \<Rightarrow> ''RPC URL'' | Some h \<Rightarrow> h)"
    by (auto simp: redact_url_def)
  show ?thesis
  proof (cases h)
    case (Some t)
    have "t \<noteq> []" using h(1) Some
      by (auto simp: url_hostname_def lower_host_def py_lower_def takeWhile_eq_Nil_iff dropWhile_eq_Nil_conv split: if_splits)
    with url_hostname_set [of ip m t] h Some show ?thesis by auto
  qed (use h in simp)
qed

abbreviation replace_urls :: "(string \<Rightarrow> string res) \<Rightarrow> string \<Rightarrow> string \<Rightarrow> string res" where
  "replace_urls \<equiv> sub_with rpc_url_pattern"

text \<open>One step of the scan: an address is replaced as a whole, up to white space or the end, or a character stays.\<close>

lemma replace_urls_cases:
  assumes "replace_urls f b (c # cs) = Inr r"
  obtains (url) b2 m rest w r' where "c # cs = m @ rest" "m \<noteq> []" "\<not> is_ws c"
      "rest = [] \<or> is_ws (hd rest)" "f m = Inr w" "replace_urls f b2 rest = Inr r'" "r = w @ r'"
      "length rest \<le> length cs"
    | (char) r' where "ends rpc_url_pattern (b, c # cs) = []" "replace_urls f (c # b) cs = Inr r'" "r = c # r'"
proof (cases "ends rpc_url_pattern (b, c # cs)")
  case Nil
  with assms char show ?thesis by auto
next
  case (Cons e es)
  from url_match_shape [OF Cons] obtain m where m: "c # cs = m @ snd e" "m \<noteq> []" "\<not> is_ws (hd m)"
    and stop: "snd e = [] \<or> is_ws (hd (snd e))" by blast
  have c: "\<not> is_ws c" using m by (cases m) auto
  have "length (c # cs) = length m + length (snd e)" by (simp only: m(1) length_append)
  with m(2) have len: "length (snd e) \<le> length cs" by (cases m) auto
  have whole: "take (Suc (length cs) - length (snd e)) (c # cs) = m"
    using m(1) by (metis append_eq_conv_conj diff_add_inverse2 length_Cons length_append)
  from assms have "bindR (f m) (\<lambda>w. bindR (replace_urls f (fst e) (snd e)) (\<lambda>r. Inr (w @ r))) = Inr r"
    unfolding sub_with.simps(2) Cons using len by (simp add: whole)
  then obtain w r' where "f m = Inr w" "replace_urls f (fst e) (snd e) = Inr r'" "r = w @ r'" by auto
  with url m c stop len show ?thesis by blast
qed


lemma replace_urls_stop:
  assumes "replace_urls f b s = Inr r" and "s = [] \<or> is_ws (hd s)"
  shows "r = [] \<or> is_ws (hd r)"
proof (cases s)
  case (Cons c cs)
  with assms(2) show ?thesis by (auto intro: replace_urls_cases [OF assms(1) [unfolded Cons]])
qed (use assms in simp)

lemma before_stop:
  assumes "k @ d # t = w @ r" and "r = [] \<or> is_ws (hd r)" and "list_all (\<lambda>c. \<not> is_ws c) k" and "k \<noteq> []"
  shows "last k \<in> set w"
proof (cases "length k \<le> length w")
  case True
  with assms(1) obtain u where "w = k @ u" by (metis append_eq_append_conv_if append_take_drop_id)
  with assms(4) show ?thesis by simp
next
  case False
  with assms(1) obtain u where "k = w @ u" "u \<noteq> []" "r = u @ d # t"
    by (metis append_Nil2 append_eq_append_conv2 le_refl length_append le_add1)
  with assms(2,3) show ?thesis by (cases u) auto
qed

lemma scheme_text:
  assumes "map lower_char k \<in> set url_schemes"
  shows "k \<noteq> []" "last k = CHR ''/''" "list_all (\<lambda>c. \<not> is_ws c) k"
proof -
  show k: "k \<noteq> []" using assms by (auto simp: url_schemes_def)
  have "last (map lower_char k) = CHR ''/''" using assms by (auto simp: url_schemes_def)
  then have "lower_char (last k) = CHR ''/''" using k by (simp add: last_map)
  with lower_char_punctuation [of "last k"] show "last k = CHR ''/''" by simp
  have "\<not> is_ws c" if c: "c \<in> set k" for c
  proof
    assume ws: "is_ws c"
    then have "lower_char c = c" by (auto simp: is_ws_def lower_char_def)
    with c have "c \<in> set (map lower_char k)" by force
    with assms have "c \<in> set ''htpsw:/''" by (auto simp: url_schemes_def)
    with ws show False by (auto simp: is_ws_def)
  qed
  then show "list_all (\<lambda>c. \<not> is_ws c) k" by (simp add: list_all_iff)
qed

lemma replace_urls_before:
  assumes f: "\<And>m w. f m = Inr w \<Longrightarrow> w \<noteq> [] \<and> CHR ''/'' \<notin> set w"
  shows "replace_urls f b s = Inr (k @ d # t) \<Longrightarrow> k = [] \<or> last k = CHR ''/'' \<Longrightarrow>
    list_all (\<lambda>c. \<not> is_ws c) k \<Longrightarrow> \<not> is_ws d \<Longrightarrow> \<exists>d' t'. s = k @ d' # t' \<and> \<not> is_ws d'"
proof (induction s arbitrary: b k rule: length_induct)
  case (1 s)
  show ?case
  proof (cases s)
    case Nil
    with 1 show ?thesis by simp
  next
    case (Cons c cs)
    from 1(2) [unfolded Cons] show ?thesis
    proof (cases rule: replace_urls_cases)
      case (url b2 m rest w r')
      show ?thesis
      proof (cases "k = []")
        case True
        with url(3) Cons show ?thesis by simp
      next
        case False
        have w: "w \<noteq> []" "CHR ''/'' \<notin> set w" using f [OF url(5)] by auto
        from url(7) have eq: "k @ d # t = w @ r'" by simp
        with before_stop [OF eq replace_urls_stop [OF url(6,4)] 1(4) False] 1(3) False w show ?thesis by simp
      qed
    next
      case (char r')
      show ?thesis
      proof (cases k)
        case Nil
        with char 1(5) Cons show ?thesis by auto
      next
        case k: (Cons c' k')
        then have "replace_urls f (c # b) cs = Inr (k' @ d # t)" "c' = c" using char by auto
        moreover have "k' = [] \<or> last k' = CHR ''/''" "list_all (\<lambda>c. \<not> is_ws c) k'"
          using 1(3,4) k by (auto split: if_splits)
        ultimately show ?thesis using 1(1) 1(5) \<open>s = c # cs\<close> k by fastforce
      qed
    qed
  qed
qed

lemma replace_urls_none:
  assumes f: "\<And>m w. f m = Inr w \<Longrightarrow> w \<noteq> [] \<and> CHR ''/'' \<notin> set w"
  shows "replace_urls f b s = Inr (x @ y) \<Longrightarrow> \<not> url_from (rev x @ b) y"
proof (induction s arbitrary: b x rule: length_induct)
  case (1 s)
  show ?case
  proof
    assume "url_from (rev x @ b) y"
    then obtain k d t where y: "y = k @ d # t" and k: "map lower_char k \<in> set url_schemes"
      and d: "\<not> is_ws d" and bd: "\<not> word_at (rev x @ b)"
      unfolding url_from_def by blast
    show False
    proof (cases s)
      case Nil
      with 1(2) y show False by simp
    next
      case (Cons c cs)
      from 1(2) [unfolded Cons] show False
      proof (cases rule: replace_urls_cases)
        case (url b2 m rest w r')
        have w: "w \<noteq> []" "CHR ''/'' \<notin> set w" using f [OF url(5)] by auto
        have stop: "r' = [] \<or> is_ws (hd r')" using replace_urls_stop [OF url(6,4)] .
        show False
        proof (cases "length x < length w")
          case True
          with url(7) obtain u where u: "w = x @ u" "u \<noteq> []" "y = u @ r'"
            by (metis append_eq_append_conv2 append_Nil2 length_append less_irrefl not_add_less1)
          from before_stop [OF _ stop, of k d t u] scheme_text [OF k] u(3) y have "CHR ''/'' \<in> set u" by simp
          with u w show False by simp
        next
          case False
          with url(7) obtain x' where x: "x = w @ x'" "r' = x' @ y"
            by (metis append_eq_append_conv2 length_append less_add_same_cancel1 length_greater_0_conv append_Nil2)
          show False
          proof (cases "x' = []")
            case True
            with x(2) stop y scheme_text [OF k] show False by (cases k) auto
          next
            case False
            have "word_at (rev x' @ b2) = word_at (rev x @ b)" using False x(1) by (cases x' rule: rev_cases) auto
            with 1(1) url(6) x(2) url(8) Cons y k d bd show False unfolding url_from_def by (metis length_Cons less_Suc_eq_le)
          qed
        qed
      next
        case (char r')
        show False
        proof (cases x)
          case Nil
          have "\<exists>d' t'. s = k @ d' # t' \<and> \<not> is_ws d'"
            by (rule replace_urls_before [where f = f and b = b and d = d and t = t])
              (use f 1(2) scheme_text [OF k] d y Nil in auto)
          then obtain d' t' where "s = k @ d' # t'" "\<not> is_ws d'" by blast
          with bd k Nil have "url_from b s" unfolding url_from_def by auto
          with url_from_matches char(1) Cons show False by blast
        next
          case (Cons c' x')
          with char have "replace_urls f (c # b) cs = Inr (x' @ y)" "c' = c" by auto
          with 1(1) \<open>s = c # cs\<close> have "\<not> url_from (rev x' @ c # b) y" by auto
          with Cons \<open>c' = c\<close> y k d bd show False unfolding url_from_def by auto
        qed
      qed
    qed
  qed
qed

lemma safe_text_shape:
  assumes "safe_text ip m = Inr t"
  shows "length t \<le> 240" and "\<exists>r. t = clipped r \<and> (\<forall>x y. r = x @ y \<longrightarrow> \<not> url_from (rev x) y)"
proof -
  from assms obtain r where r: "replace_urls (redact_url ip) [] (py_join '' '' (py_words m)) = Inr r" "t = clipped r"
    by (auto simp: safe_text_def)
  then show "length t \<le> 240" by (simp add: clipped_def)
  have "\<not> url_from (rev x) y" if "r = x @ y" for x y
    using replace_urls_none [of "redact_url ip" "[]" _ x y] redact_url_text r(1) that by auto
  with r(2) show "\<exists>r. t = clipped r \<and> (\<forall>x y. r = x @ y \<longrightarrow> \<not> url_from (rev x) y)" by blast
qed

section \<open>Properties\<close>

text \<open>C38: the text logged for a failed operation is the name of the exception's class or a message of at
  most 240 characters in which, before it is cut, no address is left: at no position does a scheme
  that starts a word, \<open>http\<close>, \<open>https\<close>, \<open>ws\<close> or \<open>wss\<close> in any case, stand before another
  character. Credentials, paths and queries of an endpoint's address are not logged.\<close>
theorem safe_message_has_no_address:
  assumes "safe_rpc_error_message ip cls x = Inr t"
  shows "t = cls x \<or> (length t \<le> 240 \<and>
    (\<exists>r. t = clipped r \<and> (\<forall>a b. r = a @ b \<longrightarrow> \<not> url_from (rev a) b)))"
  using assms safe_text_shape [of ip]
  by (auto simp: safe_rpc_error_message_def split: pyval.splits if_splits)

lemma label_without_credentials:
  assumes "endpoint_label ip i uri = Inr l"
  shows "CHR ''@'' \<notin> set l"
proof -
  have "CHR ''@'' \<notin> set (int_str (int i + 1))"
    using isdecimal_int_str [of "int i + 1"] by (auto simp: py_isdecimal_def list_all_iff is_dec_def)
  with assms url_hostname_set [of ip uri] show ?thesis
    by (auto simp: endpoint_label_def split: option.splits)
qed

section \<open>Witnesses\<close>

definition rpc_response :: "string \<Rightarrow> provider_exc" where
  "rpc_response m = Web3RPCError (VDict [(VStr ''error'', VDict [(VStr ''message'', VStr m)])])"

lemma safe_message_sample:
  "safe_rpc_error_message (\<lambda>n. True) (\<lambda>x. ''Web3RPCError'') (rpc_response ''no  wss://u:pw@Rpc.Host:8546/key?x=1 left'') =
     Inr ''no rpc.host left''"
  by code_simp

theorem safe_message_has_no_address_witness:
  "let t = ''no rpc.host left'' in t = ''Web3RPCError'' \<or> (length t \<le> 240 \<and>
    (\<exists>r. t = clipped r \<and> (\<forall>a b. r = a @ b \<longrightarrow> \<not> url_from (rev a) b)))"
  using safe_message_has_no_address [OF safe_message_sample] unfolding Let_def .

text \<open>An address with an open bracket makes \<open>urlsplit\<close> raise, and with it the redaction of the message.\<close>

lemma bracket_raises:
  "safe_rpc_error_message ip cls (rpc_response ''see http://[x'') = Inl ValueError"
  by code_simp

end
