(* ===== verification/Rpc_Pool.thy ===== *)
theory Rpc_Pool
  imports Complex_Main Rpc_Messages
begin

text \<open>
  RPC endpoints, \<open>sentinel/rpc_provider.py\<close>: the shared endpoint pool with its cooldowns, the
  connection fallback, the request provider that retries an operation across endpoints and the
  subscription provider that asks for a reconnect. An endpoint is its index in the pool. The
  environment answers, per numbered interaction, whether an endpoint opens, whether the active
  transport is connected and what an operation returns or raises; it also says how much time
  each interaction takes. Loops that may wait forever take fuel and report \<open>StillConnecting\<close>.
\<close>

section \<open>The endpoint pool\<close>

record endpoint_state =
  es_cooldown_until :: real
  es_sub_failures :: nat
  es_last_sub_failure :: "real option"

record pool =
  po_uris :: "string list"
  po_chain_id :: "int option"
  po_cooldown :: real
  po_states :: "endpoint_state list"
  po_preferred :: nat

definition mk_pool :: "string list \<Rightarrow> int option \<Rightarrow> real \<Rightarrow> pool res" where
  "mk_pool uris chain cooldown =
     (if uris = [] then Inl ValueError
      else if \<not> distinct uris then Inl ValueError
      else Inr \<lparr>po_uris = uris, po_chain_id = chain, po_cooldown = cooldown,
             po_states = map (\<lambda>_. \<lparr>es_cooldown_until = 0, es_sub_failures = 0,
               es_last_sub_failure = None\<rparr>) uris,
             po_preferred = 0\<rparr>)"

definition eligible :: "nat set \<Rightarrow> pool \<Rightarrow> nat list" where
  "eligible excluded p = filter (\<lambda>i. i \<notin> excluded) [0..<length (po_uris p)]"

definition cooldown_of :: "pool \<Rightarrow> nat \<Rightarrow> real" where
  "cooldown_of p i = es_cooldown_until (po_states p ! i)"

definition candidates :: "real \<Rightarrow> nat set \<Rightarrow> pool \<Rightarrow> nat list \<times> real option" where
  "candidates now excluded p =
     (let el = eligible excluded p in
      if el = [] then ([], None)
      else (let available = filter (\<lambda>i. cooldown_of p i \<le> now) el in
        if available \<noteq> [] then (sort_key (\<lambda>i. i \<noteq> po_preferred p) available, Some 0)
        else ([], Some (max (Min (set (map (\<lambda>i. cooldown_of p i - now) el))) 0))))"

definition update_state :: "nat \<Rightarrow> (endpoint_state \<Rightarrow> endpoint_state) \<Rightarrow> pool \<Rightarrow> pool" where
  "update_state i f p = p\<lparr>po_states := (po_states p)[i := f (po_states p ! i)]\<rparr>"

definition mark_failed :: "real \<Rightarrow> nat \<Rightarrow> pool \<Rightarrow> pool" where
  "mark_failed now i p = update_state i (\<lambda>st. st\<lparr>es_cooldown_until := now + po_cooldown p\<rparr>) p"

definition mark_success :: "real \<Rightarrow> nat \<Rightarrow> pool \<Rightarrow> pool" where
  "mark_success now i p = (if cooldown_of p i > now then p else p\<lparr>po_preferred := i\<rparr>)"

definition record_subscription_transport_failure :: "real \<Rightarrow> nat \<Rightarrow> pool \<Rightarrow> pool \<times> bool" where
  "record_subscription_transport_failure now i p =
     (let st = po_states p ! i;
          n = (case es_last_sub_failure st of
                 None \<Rightarrow> 0
               | Some t \<Rightarrow> if now - t > po_cooldown p then 0 else es_sub_failures st) + 1 in
      if n < 2 then
        (update_state i (\<lambda>st. st\<lparr>es_sub_failures := n, es_last_sub_failure := Some now\<rparr>) p, False)
      else
        (update_state i (\<lambda>st. st\<lparr>es_sub_failures := 0, es_last_sub_failure := Some now,
           es_cooldown_until := now + po_cooldown p\<rparr>) p, True))"

definition accept_chain_id :: "int \<Rightarrow> pool \<Rightarrow> pool \<times> unit rpc_res" where
  "accept_chain_id c p =
     (case po_chain_id p of
        None \<Rightarrow> (p\<lparr>po_chain_id := Some c\<rparr>, Inr ())
      | Some k \<Rightarrow> if c \<noteq> k then (p, Inl ChainMismatch) else (p, Inr ()))"

section \<open>Connecting with fallback\<close>

record 'a rpc_env =
  rv_open :: "nat \<Rightarrow> nat \<Rightarrow> provider_exc option"
  rv_chain_id :: "nat \<Rightarrow> nat \<Rightarrow> provider_exc + pyval"
  rv_connected :: "nat \<Rightarrow> bool"
  rv_op :: "nat \<Rightarrow> nat \<Rightarrow> provider_exc + 'a"
  rv_latency :: "nat \<Rightarrow> real"
  rv_ip :: "string \<Rightarrow> bool"
  rv_class :: "provider_exc \<Rightarrow> string"

text \<open>
  The state of a provider: the pool it shares, the clock, the number of the next interaction,
  the active endpoint with the connection generation, the endpoints on which the operation of a
  request has been run, and what was reported to the observer, oldest first.
\<close>

datatype observation =
    EndpointConnected nat
  | EndpointDisconnected
  | EndpointFailed nat failure_kind
  | PersistentRequestFailed failure_kind

record provider =
  pv_pool :: pool
  pv_now :: real
  pv_step :: nat
  pv_active :: "nat option"
  pv_generation :: nat
  pv_calls :: "nat list"
  pv_reports :: "observation list"

record provider_config =
  pr_rounds :: int
  pr_retry_interval :: real

definition mk_provider_config :: "int \<Rightarrow> real \<Rightarrow> int \<Rightarrow> provider_config res" where
  "mk_provider_config rounds retry max_retries =
     (if max_retries < 1 then Inl ValueError
      else if rounds = 0 \<or> rounds < -1 then Inl ValueError
      else Inr \<lparr>pr_rounds = rounds, pr_retry_interval = retry\<rparr>)"

definition read_chain_id :: "pyval \<Rightarrow> provider_exc + int" where
  "read_chain_id v =
     (case v of
        VInt i \<Rightarrow> Inr i
      | VBool b \<Rightarrow> Inr (if b then 1 else 0)
      | VStr t \<Rightarrow> (case py_int0 t of Inl _ \<Rightarrow> Inl OtherException | Inr i \<Rightarrow> Inr i)
      | _ \<Rightarrow> Inl TransportFailure)"

text \<open>The subscription provider asks its own connection and finds the id in the response.\<close>

definition read_subscription_chain_id :: "pyval \<Rightarrow> provider_exc + int" where
  "read_subscription_chain_id response = read_chain_id (dict_get response ''result'')"

definition tick :: "'a rpc_env \<Rightarrow> provider \<Rightarrow> provider" where
  "tick E s = s\<lparr>pv_step := Suc (pv_step s), pv_now := pv_now s + rv_latency E (pv_step s)\<rparr>"

definition sleep :: "real \<Rightarrow> provider \<Rightarrow> provider" where
  "sleep d s = s\<lparr>pv_now := pv_now s + d\<rparr>"

definition on_pool :: "(real \<Rightarrow> pool \<Rightarrow> pool) \<Rightarrow> provider \<Rightarrow> provider" where
  "on_pool f s = s\<lparr>pv_pool := f (pv_now s) (pv_pool s)\<rparr>"

definition report :: "observation \<Rightarrow> provider \<Rightarrow> provider" where
  "report ob s = s\<lparr>pv_reports := pv_reports s @ [ob]\<rparr>"

definition report_failure :: "nat \<Rightarrow> provider_exc \<Rightarrow> provider \<Rightarrow> provider" where
  "report_failure i x s = report (EndpointFailed i (fs_kind (failure_summary_of (Some i) x))) s"

fun validate_endpoints :: "'a rpc_env \<Rightarrow> nat list \<Rightarrow> provider \<Rightarrow> provider \<times> nat list rpc_res" where
  "validate_endpoints E [] s = (s, Inr [])"
| "validate_endpoints E (i # is) s =
     (let r = (case rv_open E (pv_step s) i of
                 Some x \<Rightarrow> Inl x
               | None \<Rightarrow> bindR (rv_chain_id E (pv_step s) i) read_chain_id);
          s1 = tick E s in
      (case r of
         Inr c \<Rightarrow>
           (case accept_chain_id c (pv_pool s1) of
              (p, Inl e) \<Rightarrow> (s1\<lparr>pv_pool := p\<rparr>, Inl e)
            | (p, Inr _) \<Rightarrow> validate_endpoints E is (s1\<lparr>pv_pool := p\<rparr>))
       | Inl x \<Rightarrow>
           if endpoint_failure x then
             (case validate_endpoints E is (on_pool (\<lambda>now. mark_failed now i) (report_failure i x s1)) of
                (s2, Inl e) \<Rightarrow> (s2, Inl e)
              | (s2, Inr bad) \<Rightarrow> (s2, Inr (i # bad)))
           else (s1, Inl (ProviderExc x))))"

definition validate_endpoint_chain_ids :: "'a rpc_env \<Rightarrow> provider \<Rightarrow> provider \<times> unit rpc_res" where
  "validate_endpoint_chain_ids E s =
     (case validate_endpoints E [0..<length (po_uris (pv_pool s))] s of
        (s1, Inl e) \<Rightarrow> (s1, Inl e)
      | (s1, Inr bad) \<Rightarrow> if bad \<noteq> [] then (s1, Inl EndpointsUnavailable) else (s1, Inr ()))"

fun open_candidates :: "'a rpc_env \<Rightarrow> nat list \<Rightarrow> provider \<Rightarrow> provider \<times> bool rpc_res" where
  "open_candidates E [] s = (s, Inr False)"
| "open_candidates E (i # is) s =
     (let r = rv_open E (pv_step s) i; s1 = tick E s in
      (case r of
         Some x \<Rightarrow>
           if endpoint_failure x then open_candidates E is (on_pool (\<lambda>now. mark_failed now i) (report_failure i x s1))
           else (s1, Inl (ProviderExc x))
       | None \<Rightarrow>
           (report (EndpointConnected i) (on_pool (\<lambda>now. mark_success now i)
              (s1\<lparr>pv_active := Some i, pv_generation := Suc (pv_generation s1)\<rparr>)), Inr True)))"

fun connect_loop ::
  "nat \<Rightarrow> 'a rpc_env \<Rightarrow> real \<Rightarrow> int \<Rightarrow> nat set \<Rightarrow> int \<Rightarrow> provider \<Rightarrow> provider \<times> unit rpc_res" where
  "connect_loop 0 E retry rounds excluded completed s = (s, Inl StillConnecting)"
| "connect_loop (Suc fuel) E retry rounds excluded completed s =
     (if rounds = -1 \<or> completed < rounds then
        (case candidates (pv_now s) excluded (pv_pool s) of
           ([], None) \<Rightarrow> (s, Inl EndpointsUnavailable)
         | ([], Some w) \<Rightarrow>
             connect_loop fuel E retry rounds excluded completed (sleep (max w retry) s)
         | (c # cs, _) \<Rightarrow>
             (case open_candidates E (c # cs) s of
                (s1, Inl e) \<Rightarrow> (s1, Inl e)
              | (s1, Inr opened) \<Rightarrow>
                  if opened then (s1, Inr ())
                  else if rounds \<noteq> -1 \<and> rounds \<le> completed + 1 then (s1, Inl EndpointsUnavailable)
                  else connect_loop fuel E retry rounds excluded (completed + 1) (sleep retry s1)))
      else (s, Inl EndpointsUnavailable))"

definition close_active :: "provider \<Rightarrow> provider" where
  "close_active s = report EndpointDisconnected (s\<lparr>pv_active := None\<rparr>)"

definition connect_with_fallback ::
  "nat \<Rightarrow> 'a rpc_env \<Rightarrow> provider_config \<Rightarrow> nat set \<Rightarrow> int option \<Rightarrow> provider \<Rightarrow> provider \<times> unit rpc_res" where
  "connect_with_fallback fuel E cfg excluded max_rounds s =
     (let rounds = (case max_rounds of None \<Rightarrow> pr_rounds cfg | Some r \<Rightarrow> r);
          loop = connect_loop fuel E (pr_retry_interval cfg) rounds excluded 0 in
      if rounds = 0 \<or> rounds < -1 then (s, Inl RpcValueError)
      else (case pv_active s of
              None \<Rightarrow> loop s
            | Some i \<Rightarrow>
                if i \<in> excluded then loop (close_active s)
                else if rv_connected E (pv_step s) then (tick E s, Inr ())
                else loop (close_active (tick E s))))"

text \<open>Closing the transport answers an exception or nothing.\<close>

definition disconnect_with_fallback ::
  "provider_exc option \<Rightarrow> provider \<Rightarrow> provider \<times> unit rpc_res" where
  "disconnect_with_fallback closing s =
     (close_active s,
      case closing of
        None \<Rightarrow> Inr ()
      | Some x \<Rightarrow> if endpoint_failure x then Inl EndpointsUnavailable else Inl (ProviderExc x))"

definition invalidate_endpoint :: "nat \<Rightarrow> nat \<Rightarrow> bool \<Rightarrow> provider \<Rightarrow> provider" where
  "invalidate_endpoint i generation cooldown s =
     (if pv_active s = Some i \<and> pv_generation s = generation then
        close_active (if cooldown then on_pool (\<lambda>now. mark_failed now i) s else s)
      else s)"

section \<open>Requests\<close>

text \<open>
  Running the operation on an endpoint: a value, an endpoint failure, or another exception. The
  text for the log is made while the failure is handled, so an error it raises replaces the failure.
\<close>

datatype 'a op_outcome = OpValue 'a | OpFailed failure_summary | OpRaised provider_exc

definition invoke_operation :: "'a rpc_env \<Rightarrow> nat \<Rightarrow> provider \<Rightarrow> provider \<times> 'a op_outcome" where
  "invoke_operation E i s =
     (let r = rv_op E (pv_step s) i; s1 = tick E (s\<lparr>pv_calls := pv_calls s @ [i]\<rparr>) in
      (s1, case r of
             Inr v \<Rightarrow> OpValue v
           | Inl x \<Rightarrow>
               if semantic_response x then OpRaised x
               else if endpoint_failure x then
                 (case safe_rpc_error_message (rv_ip E) (rv_class E) x of
                    Inl _ \<Rightarrow> OpRaised OtherException
                  | Inr _ \<Rightarrow> OpFailed (failure_summary_of (Some i) x))
               else OpRaised x))"

text \<open>
  The retry loop of \<open>execute_request\<close>: \<open>rej\<close> are the endpoints given up for this request,
  \<open>ret\<close> those whose transport failed once, \<open>fails\<close> the rejections so far.
\<close>

fun execute_loop ::
  "nat \<Rightarrow> nat \<Rightarrow> 'a rpc_env \<Rightarrow> provider_config \<Rightarrow> nat set \<Rightarrow> nat set \<Rightarrow> failure_summary list \<Rightarrow>
   provider \<Rightarrow> provider \<times> 'a rpc_res" where
  "execute_loop 0 fuel E cfg rej ret fails s = (s, Inl StillExecuting)"
| "execute_loop (Suc k) fuel E cfg rej ret fails s =
     (case connect_with_fallback fuel E cfg rej (if rej \<noteq> {} then Some 1 else None) s of
        (s1, Inl e) \<Rightarrow> (s1, Inl e)
      | (s1, Inr _) \<Rightarrow>
          (case pv_active s1 of
             None \<Rightarrow> (s1, Inl RpcAssertionError)
           | Some i \<Rightarrow>
          (let generation = pv_generation s1; n = length (po_uris (pv_pool s1)) in
           (case invoke_operation E i s1 of
              (s2, OpValue v) \<Rightarrow> (s2, Inr v)
            | (s2, OpRaised x) \<Rightarrow> (s2, Inl (ProviderExc x))
            | (s2, OpFailed f) \<Rightarrow>
                if fs_kind f = TRANSPORT then
                  (let again = (i \<in> ret);
                       rej' = (if again then insert i rej else rej);
                       s3 = invalidate_endpoint i generation again (report (EndpointFailed i (fs_kind f)) s2) in
                   if card rej' = n then (s3, Inl EndpointsUnavailable)
                   else execute_loop k fuel E cfg rej' (insert i ret) fails s3)
                else
                  (let rej' = insert i rej; fails' = fails @ [f];
                       s3 = invalidate_endpoint i generation False (report (EndpointFailed i (fs_kind f)) s2) in
                   if card rej' = n then (s3, Inl (RejectedByAllProviders fails'))
                   else execute_loop k fuel E cfg rej' ret fails' s3)))))"

definition execute_request ::
  "nat \<Rightarrow> nat \<Rightarrow> 'a rpc_env \<Rightarrow> provider_config \<Rightarrow> provider \<Rightarrow> provider \<times> 'a rpc_res" where
  "execute_request k fuel E cfg s = execute_loop k fuel E cfg {} {} [] s"

text \<open>
  \<open>make_request\<close> runs the request once on the active endpoint; a JSON-RPC error is handed on as its
  response. The fallback is the caller's, \<open>execute_request\<close>.
\<close>

definition provider_make_request ::
  "nat \<Rightarrow> 'a rpc_env \<Rightarrow> provider_config \<Rightarrow> provider \<Rightarrow> provider \<times> (pyval + 'a) rpc_res" where
  "provider_make_request fuel E cfg s =
     (case connect_with_fallback fuel E cfg {} None s of
        (s1, Inl e) \<Rightarrow> (s1, Inl e)
      | (s1, Inr _) \<Rightarrow>
          (case pv_active s1 of
             None \<Rightarrow> (s1, Inl RpcAssertionError)
           | Some i \<Rightarrow>
               (tick E (s1\<lparr>pv_calls := pv_calls s1 @ [i]\<rparr>),
                case rv_op E (pv_step s1) i of
                  Inr v \<Rightarrow> Inr (Inr v)
                | Inl (Web3RPCError response) \<Rightarrow> Inr (Inl response)
                | Inl x \<Rightarrow> Inl (ProviderExc x))))"

section \<open>Subscription requests\<close>

definition record_subscription_endpoint_failure ::
  "nat \<Rightarrow> failure_summary \<Rightarrow> provider \<Rightarrow> provider \<times> bool" where
  "record_subscription_endpoint_failure i f s0 =
     (let s = report (PersistentRequestFailed (fs_kind f)) (report (EndpointFailed i (fs_kind f)) s0) in
      if fs_kind f = RPC_REJECTED then (s, True)
      else (let (p, cooldown) = record_subscription_transport_failure (pv_now s) i (pv_pool s) in
        (s\<lparr>pv_pool := p\<rparr>, cooldown)))"

definition handle_subscription_endpoint_failure ::
  "nat \<Rightarrow> nat \<Rightarrow> failure_summary \<Rightarrow> provider \<Rightarrow> provider" where
  "handle_subscription_endpoint_failure i generation f s =
     (let (s1, cooldown) = record_subscription_endpoint_failure i f s in
      invalidate_endpoint i generation cooldown s1)"

definition execute_subscription ::
  "nat \<Rightarrow> 'a rpc_env \<Rightarrow> provider_config \<Rightarrow> provider \<Rightarrow> provider \<times> 'a rpc_res" where
  "execute_subscription fuel E cfg s =
     (case connect_with_fallback fuel E cfg {} None s of
        (s1, Inl e) \<Rightarrow> (s1, Inl e)
      | (s1, Inr _) \<Rightarrow>
          (case pv_active s1 of
             None \<Rightarrow> (s1, Inl RpcAssertionError)
           | Some i \<Rightarrow>
          (let generation = pv_generation s1 in
           (case invoke_operation E i s1 of
              (s2, OpValue v) \<Rightarrow> (s2, Inr v)
            | (s2, OpRaised x) \<Rightarrow> (s2, Inl (ProviderExc x))
            | (s2, OpFailed f) \<Rightarrow>
                (handle_subscription_endpoint_failure i generation f s2,
                 Inl (ReconnectRequired f))))))"

text \<open>The end of the message listener: an exception, or a closed stream.\<close>

definition listener_ended :: "nat option \<Rightarrow> provider_exc option \<Rightarrow> provider \<Rightarrow> provider \<times> unit rpc_res" where
  "listener_ended ep ended s =
     (case ended of
        None \<Rightarrow>
          (case ep of
             None \<Rightarrow> (s, Inr ())
           | Some i \<Rightarrow> (fst (record_subscription_endpoint_failure i
               \<lparr>fs_endpoint = Some i, fs_kind = TRANSPORT, fs_code = None\<rparr> s), Inr ()))
      | Some x \<Rightarrow>
          (case normalize_subscription_exception x ep of
             None \<Rightarrow> (s, Inl (ProviderExc x))
           | Some e \<Rightarrow>
               (case (e, ep) of
                  (ReconnectRequired f, Some i) \<Rightarrow>
                    (let (s1, cooldown) = record_subscription_endpoint_failure i f s in
                     (if cooldown then on_pool (\<lambda>now. mark_failed now i) s1 else s1, Inl e))
                | _ \<Rightarrow> (s, Inl e))))"

section \<open>Transports and the request manager\<close>

text \<open>
  The connection objects behind the providers: the request provider keeps one transport for each
  endpoint and the one in use; the subscription provider is one connection whose address and
  listener endpoint change. Whether connecting or disconnecting raises is an argument.
\<close>

record transports =
  tr_uris :: "string list"
  tr_active :: "nat option"

definition mk_transports :: "string list \<Rightarrow> transports" where
  "mk_transports uris = \<lparr>tr_uris = uris, tr_active = None\<rparr>"

definition transport_open :: "nat \<Rightarrow> provider_exc option \<Rightarrow> transports \<Rightarrow> transports \<times> unit rpc_res" where
  "transport_open i raised t =
     (t\<lparr>tr_active := Some i\<rparr>, case raised of None \<Rightarrow> Inr () | Some x \<Rightarrow> Inl (ProviderExc x))"

definition transport_close :: "provider_exc option \<Rightarrow> transports \<Rightarrow> transports \<times> unit rpc_res" where
  "transport_close raised t =
     (t\<lparr>tr_active := None\<rparr>,
      case (tr_active t, raised) of (Some i, Some x) \<Rightarrow> Inl (ProviderExc x) | _ \<Rightarrow> Inr ())"

definition transport_is_connected :: "(nat \<Rightarrow> bool) \<Rightarrow> transports \<Rightarrow> bool" where
  "transport_is_connected up t = (case tr_active t of None \<Rightarrow> False | Some i \<Rightarrow> up i)"

record listener =
  li_uri :: string
  li_endpoint :: "nat option"

definition mk_listener :: "string list \<Rightarrow> listener res" where
  "mk_listener uris =
     (case uris of [] \<Rightarrow> Inl IndexError | u # _ \<Rightarrow> Inr \<lparr>li_uri = u, li_endpoint = None\<rparr>)"

definition listener_open ::
    "string \<Rightarrow> nat \<Rightarrow> provider_exc option \<Rightarrow> listener \<Rightarrow> listener \<times> unit rpc_res" where
  "listener_open uri i raised l =
     (case raised of
        None \<Rightarrow> (l\<lparr>li_uri := uri, li_endpoint := Some i\<rparr>, Inr ())
      | Some x \<Rightarrow> (l\<lparr>li_uri := uri, li_endpoint := None\<rparr>, Inl (ProviderExc x)))"

definition listener_close :: "provider_exc option \<Rightarrow> listener \<Rightarrow> listener \<times> unit rpc_res" where
  "listener_close raised l =
     (l\<lparr>li_endpoint := None\<rparr>, case raised of None \<Rightarrow> Inr () | Some x \<Rightarrow> Inl (ProviderExc x))"

text \<open>The manager sends requests of a fallback provider through its fallback, others straight on.\<close>

datatype provider_kind = RequestProvider | SubscriptionProvider | OtherProvider

definition coro_request ::
  "provider_kind \<Rightarrow> (provider \<Rightarrow> provider \<times> 'a rpc_res) \<Rightarrow> nat \<Rightarrow> nat \<Rightarrow> 'a rpc_env \<Rightarrow> provider_config \<Rightarrow>
   provider \<Rightarrow> provider \<times> 'a rpc_res" where
  "coro_request kind direct k fuel E cfg s =
     (if kind = RequestProvider then execute_request k fuel E cfg s else direct s)"

definition socket_request ::
  "provider_kind \<Rightarrow> (provider \<Rightarrow> provider \<times> 'a rpc_res) \<Rightarrow> nat \<Rightarrow> 'a rpc_env \<Rightarrow> provider_config \<Rightarrow>
   provider \<Rightarrow> provider \<times> 'a rpc_res" where
  "socket_request kind direct fuel E cfg s =
     (if kind = SubscriptionProvider then execute_subscription fuel E cfg s else direct s)"

section \<open>Candidates\<close>

lemma eligible_set [simp]: "set (eligible excluded p) = {i. i < length (po_uris p) \<and> i \<notin> excluded}"
  by (auto simp: eligible_def)

lemma eligible_sorted: "sorted_wrt (<) (eligible excluded p)"
  by (simp add: eligible_def sorted_wrt_filter)

lemma candidates_cases:
  obtains "candidates now excluded p = ([], None)" "eligible excluded p = []"
  | cs where "candidates now excluded p = (cs, Some 0)" "cs \<noteq> []"
      "cs = sort_key (\<lambda>i. i \<noteq> po_preferred p)
        (filter (\<lambda>i. cooldown_of p i \<le> now) (eligible excluded p))"
  | w where "candidates now excluded p = ([], Some w)" "eligible excluded p \<noteq> []"
      "\<forall>i \<in> set (eligible excluded p). now < cooldown_of p i"
      "w = max (Min ((\<lambda>i. cooldown_of p i - now) ` set (eligible excluded p))) 0"
proof -
  let ?el = "eligible excluded p"
  let ?av = "filter (\<lambda>i. cooldown_of p i \<le> now) ?el"
  show thesis
  proof (cases "?el = []")
    case True
    then show thesis by (intro that(1)) (simp_all add: candidates_def)
  next
    case el: False
    show thesis
    proof (cases "?av = []")
      case True
      then have later: "\<forall>i \<in> set ?el. now < cooldown_of p i"
        by (simp add: filter_empty_conv not_le)
      have "candidates now excluded p =
          ([], Some (max (Min ((\<lambda>i. cooldown_of p i - now) ` set ?el)) 0))"
        using el True by (simp add: candidates_def Let_def)
      from that(3) [OF this el later refl] show thesis .
    next
      case False
      have ne: "sort_key (\<lambda>i. i \<noteq> po_preferred p) ?av \<noteq> []"
        using False by (metis mset_sort mset_zero_iff)
      have "candidates now excluded p = (sort_key (\<lambda>i. i \<noteq> po_preferred p) ?av, Some 0)"
        using el False by (simp add: candidates_def Let_def)
      from that(2) [OF this ne refl] show thesis .
    qed
  qed
qed

lemma candidates_set:
  "set (fst (candidates now excluded p)) =
     {i. i < length (po_uris p) \<and> i \<notin> excluded \<and> cooldown_of p i \<le> now}"
proof (cases rule: candidates_cases [of now excluded p])
  case 1
  then have "set (eligible excluded p) = {}" by (simp del: eligible_set)
  then have "{i. i < length (po_uris p) \<and> i \<notin> excluded} = {}" by simp
  with 1(1) show ?thesis by auto
next
  case (2 cs)
  then show ?thesis by auto
next
  case (3 w)
  then have "\<forall>i \<in> {i. i < length (po_uris p) \<and> i \<notin> excluded}. now < cooldown_of p i" by simp
  with 3(1) show ?thesis by (auto simp: not_le)
qed

lemma candidates_cong:
  assumes "po_uris q = po_uris p" "po_preferred q = po_preferred p" "cooldown_of q = cooldown_of p"
  shows "candidates now excluded q = candidates now excluded p"
  by (simp only: candidates_def eligible_def assms)

lemma candidates_wait:
  assumes "candidates now excluded p = ([], Some w)" "now + w \<le> later"
  shows "fst (candidates later excluded p) \<noteq> []"
  using assms(1)
proof (cases rule: candidates_cases [of now excluded p])
  case (3 w')
  let ?S = "set (eligible excluded p)"
  let ?m = "Min ((\<lambda>i. cooldown_of p i - now) ` ?S)"
  have "?S \<noteq> {}" using 3(2) by (simp del: eligible_set)
  then have "?m \<in> (\<lambda>i. cooldown_of p i - now) ` ?S"
    by (intro Min_in) (simp_all del: eligible_set)
  then obtain i where i: "i \<in> ?S" "?m = cooldown_of p i - now" by blast
  have "?m \<le> w" using 3 assms(1) by simp
  with i(2) assms(2) have "cooldown_of p i \<le> later" by linarith
  with i(1) have "i \<in> set (fst (candidates later excluded p))" by (simp add: candidates_set)
  then show ?thesis by (metis empty_iff list.set(1))
qed (use assms in auto)

section \<open>Connecting\<close>

definition provider_ok :: "provider \<Rightarrow> bool" where
  "provider_ok s \<longleftrightarrow> length (po_states (pv_pool s)) = length (po_uris (pv_pool s)) \<and>
     (\<forall>i. pv_active s = Some i \<longrightarrow> i < length (po_uris (pv_pool s)))"

definition same_request :: "provider \<Rightarrow> provider \<Rightarrow> bool" where
  "same_request s t \<longleftrightarrow> po_uris (pv_pool t) = po_uris (pv_pool s) \<and> pv_calls t = pv_calls s"

lemma pool_ops_fields [simp]:
  "po_uris (mark_failed now i p) = po_uris p" "po_uris (mark_success now i p) = po_uris p"
  "length (po_states (mark_failed now i p)) = length (po_states p)"
  "length (po_states (mark_success now i p)) = length (po_states p)"
  by (simp_all add: mark_failed_def mark_success_def update_state_def)

lemma report_fields [simp]:
  "pv_pool (report ob s) = pv_pool s" "pv_now (report ob s) = pv_now s" "pv_step (report ob s) = pv_step s"
  "pv_active (report ob s) = pv_active s" "pv_generation (report ob s) = pv_generation s"
  "pv_calls (report ob s) = pv_calls s" "pv_reports (report ob s) = pv_reports s @ [ob]"
  by (simp_all add: report_def)

lemma report_failure_fields [simp]:
  "pv_pool (report_failure i x s) = pv_pool s" "pv_now (report_failure i x s) = pv_now s"
  "pv_step (report_failure i x s) = pv_step s" "pv_active (report_failure i x s) = pv_active s"
  "pv_generation (report_failure i x s) = pv_generation s" "pv_calls (report_failure i x s) = pv_calls s"
  by (simp_all add: report_failure_def)

lemma same_request_report [simp]:
  "same_request s (report ob t) = same_request s t" "same_request (report ob s) t = same_request s t"
  "provider_ok (report ob s) = provider_ok s"
  "same_request s (report_failure i x t) = same_request s t" "same_request (report_failure i x s) t = same_request s t"
  "provider_ok (report_failure i x s) = provider_ok s"
  by (simp_all add: same_request_def provider_ok_def)

lemma same_request_simps [simp]:
  "same_request s (tick E t) = same_request s t" "same_request s (sleep d t) = same_request s t"
  "same_request s (close_active t) = same_request s t"
  "same_request s (on_pool (\<lambda>now. mark_failed now i) t) = same_request s t"
  "same_request s (on_pool (\<lambda>now. mark_success now i) t) = same_request s t"
  "same_request s (t\<lparr>pv_active := a, pv_generation := g\<rparr>) = same_request s t"
  "same_request s s"
  by (simp_all add: same_request_def tick_def sleep_def close_active_def on_pool_def)

lemma provider_ok_simps [simp]:
  "provider_ok (tick E t) = provider_ok t" "provider_ok (sleep d t) = provider_ok t"
  "provider_ok t \<Longrightarrow> provider_ok (close_active t)"
  "provider_ok (on_pool (\<lambda>now. mark_failed now i) t) = provider_ok t"
  "provider_ok (on_pool (\<lambda>now. mark_success now i) t) = provider_ok t"
  by (simp_all add: provider_ok_def tick_def sleep_def close_active_def on_pool_def)

lemma pv_active_simps [simp]:
  "pv_active (tick E t) = pv_active t" "pv_active (sleep d t) = pv_active t"
  "pv_active (close_active t) = None" "pv_active (on_pool f t) = pv_active t"
  by (simp_all add: tick_def sleep_def close_active_def on_pool_def)

lemma open_candidates_ok:
  assumes "open_candidates E cs s = (t, r)" "provider_ok s"
    "\<forall>i \<in> set cs. i < length (po_uris (pv_pool s))"
  shows "same_request s t \<and> provider_ok t \<and>
    (r = Inr True \<longrightarrow> (\<exists>i \<in> set cs. pv_active t = Some i)) \<and> (\<forall>e. r = Inl e \<longrightarrow> (\<exists>x. e = ProviderExc x))"
  using assms
proof (induction cs arbitrary: s)
  case (Cons i cs)
  let ?s1 = "tick E s"
  show ?case
  proof (cases "rv_open E (pv_step s) i")
    case None
    let ?u = "?s1\<lparr>pv_active := Some i, pv_generation := Suc (pv_generation ?s1)\<rparr>"
    have "provider_ok ?u"
      using Cons.prems(2,3) by (simp add: provider_ok_def tick_def)
    with None Cons.prems show ?thesis by (auto simp: Let_def)
  next
    case (Some x)
    show ?thesis
    proof (cases "endpoint_failure x")
      case True
      let ?u = "on_pool (\<lambda>now. mark_failed now i) (report_failure i x ?s1)"
      from True Some Cons.prems(1) have "open_candidates E cs ?u = (t, r)" by (simp add: Let_def)
      moreover have "\<forall>j \<in> set cs. j < length (po_uris (pv_pool ?u))"
        using Cons.prems(3) by (simp add: on_pool_def tick_def)
      moreover have "same_request s t" if "same_request ?u t"
        using that by (simp add: same_request_def on_pool_def tick_def)
      ultimately show ?thesis using Cons.IH [of ?u] Cons.prems(2) by auto
    next
      case False
      with Some Cons.prems show ?thesis by (auto simp: Let_def)
    qed
  qed
qed auto

lemma connect_loop_ok:
  assumes "connect_loop fuel E retry rounds excluded completed s = (t, r)" "provider_ok s"
  shows "same_request s t \<and> provider_ok t \<and>
    (r = Inr () \<longrightarrow> (\<exists>i. pv_active t = Some i \<and> i < length (po_uris (pv_pool s)) \<and> i \<notin> excluded))"
  using assms
proof (induction fuel arbitrary: completed s)
  case (Suc fuel)
  show ?case
  proof (cases "rounds = -1 \<or> completed < rounds")
    case False
    with Suc.prems show ?thesis by auto
  next
    case True
    obtain cs w where cw: "candidates (pv_now s) excluded (pv_pool s) = (cs, w)" by force
    show ?thesis
    proof (cases cs)
      case Nil
      show ?thesis
      proof (cases w)
        case None
        with Nil cw True Suc.prems show ?thesis by auto
      next
        case (Some d)
        with Nil cw True Suc.prems have "connect_loop fuel E retry rounds excluded completed
            (sleep (max d retry) s) = (t, r)" by simp
        from Suc.IH [OF this] Suc.prems(2)
        have "same_request (sleep (max d retry) s) t \<and> provider_ok t \<and> (r = Inr () \<longrightarrow>
            (\<exists>i. pv_active t = Some i \<and> i < length (po_uris (pv_pool (sleep (max d retry) s))) \<and> i \<notin> excluded))"
          by simp
        then show ?thesis by (simp add: same_request_def sleep_def)
      qed
    next
      case (Cons c cs')
      obtain u q where u: "open_candidates E (c # cs') s = (u, q)" by force
      have set_cs: "set (c # cs') \<subseteq> {i. i < length (po_uris (pv_pool s)) \<and> i \<notin> excluded}"
        using candidates_set [of "pv_now s" excluded "pv_pool s"] cw Cons by auto
      then have o: "same_request s u" "provider_ok u"
        "q = Inr True \<longrightarrow> (\<exists>i \<in> set (c # cs'). pv_active u = Some i)"
        using open_candidates_ok [OF u Suc.prems(2)] by auto
      show ?thesis
      proof (cases q)
        case (Inl e)
        with True cw Cons u Suc.prems o show ?thesis by auto
      next
        case (Inr b)
        show ?thesis
        proof (cases b)
          case True
          with \<open>rounds = -1 \<or> completed < rounds\<close> cw Cons u Inr Suc.prems have "t = u" "r = Inr ()"
            by auto
          with o True Inr set_cs show ?thesis by blast
        next
          case False
          show ?thesis
          proof (cases "rounds \<noteq> -1 \<and> rounds \<le> completed + 1")
            case b: True
            with False True cw Cons u Inr Suc.prems o show ?thesis by auto
          next
            case b: False
            with False True cw Cons u Inr Suc.prems(1) have
              "connect_loop fuel E retry rounds excluded (completed + 1) (sleep retry u) = (t, r)"
              by auto
            from Suc.IH [OF this] o(2)
            have "same_request (sleep retry u) t \<and> provider_ok t \<and> (r = Inr () \<longrightarrow>
                (\<exists>i. pv_active t = Some i \<and> i < length (po_uris (pv_pool (sleep retry u))) \<and> i \<notin> excluded))"
              by simp
            with o(1) show ?thesis by (simp add: same_request_def sleep_def)
          qed
        qed
      qed
    qed
  qed
qed auto


lemma open_candidates_error:
  "open_candidates E cs s = (t, Inl e) \<Longrightarrow> \<exists>x. e = ProviderExc x"
  by (induction cs arbitrary: s) (auto simp: Let_def split: option.splits if_splits)

lemma connect_loop_error:
  "connect_loop fuel E retry rounds excluded completed s = (t, Inl e) \<Longrightarrow>
   e = StillConnecting \<or> e = EndpointsUnavailable \<or> (\<exists>x. e = ProviderExc x)"
proof (induction fuel arbitrary: completed s)
  case (Suc fuel)
  then show ?case
    by (auto simp del: open_candidates.simps
        split: if_splits prod.splits list.splits option.splits sum.splits
        dest: open_candidates_error)
qed simp

lemma connect_with_fallback_ok:
  assumes "connect_with_fallback fuel E cfg excluded mr s = (t, r)" "provider_ok s"
  shows "same_request s t \<and> provider_ok t \<and>
    (r = Inr () \<longrightarrow> (\<exists>i. pv_active t = Some i \<and> i < length (po_uris (pv_pool s)) \<and> i \<notin> excluded)) \<and>
    (\<forall>e. r = Inl e \<longrightarrow> e \<in> {StillConnecting, EndpointsUnavailable, RpcValueError} \<union> range ProviderExc)"
proof -
  define rounds where "rounds = (case mr of None \<Rightarrow> pr_rounds cfg | Some r \<Rightarrow> r)"
  let ?loop = "connect_loop fuel E (pr_retry_interval cfg) rounds excluded 0"
  have loop: ?thesis if "?loop u = (t, r)" "same_request s u" "provider_ok u" for u
    using connect_loop_ok [OF that(1,3)] connect_loop_error [of fuel E _ rounds excluded 0 u t] that
    by (auto simp: same_request_def)
  consider "rounds = 0 \<or> rounds < -1" | "\<not> (rounds = 0 \<or> rounds < -1)" by blast
  then show ?thesis
  proof cases
    case 1
    with assms show ?thesis by (auto simp: connect_with_fallback_def Let_def rounds_def [symmetric])
  next
    case 2
    note c = assms(1) [unfolded connect_with_fallback_def, folded rounds_def, unfolded Let_def]
    show ?thesis
    proof (cases "pv_active s")
      case None
      with 2 c loop [of s] assms(2) show ?thesis by auto
    next
      case (Some i)
      consider "i \<in> excluded" | "i \<notin> excluded" "rv_connected E (pv_step s)"
        | "i \<notin> excluded" "\<not> rv_connected E (pv_step s)" by blast
      then show ?thesis
      proof cases
        case 1
        with 2 c Some loop [of "close_active s"] assms(2) show ?thesis by auto
      next
        case b: 2
        with 2 c Some have "t = tick E s" "r = Inr ()" by auto
        with b Some assms(2) show ?thesis by (auto simp: provider_ok_def tick_def same_request_def)
      next
        case 3
        with 2 c Some loop [of "close_active (tick E s)"] assms(2) show ?thesis by auto
      qed
    qed
  qed
qed

text \<open>
  A bounded number of rounds ends: a round is preceded by at most one wait, because after the
  wait the pool offers a candidate again.
\<close>

lemma connect_loop_ends:
  assumes "completed < rounds" "0 \<le> completed"
    "nat (2 * (rounds - completed)) \<le>
      fuel + (if fst (candidates (pv_now s) excluded (pv_pool s)) \<noteq> [] then 1 else 0)"
  shows "snd (connect_loop fuel E retry rounds excluded completed s) \<noteq> Inl StillConnecting"
  using assms
proof (induction fuel arbitrary: completed s)
  case 0
  then show ?case by (auto split: if_splits)
next
  case (Suc fuel)
  obtain cs w where cw: "candidates (pv_now s) excluded (pv_pool s) = (cs, w)" by force
  show ?case
  proof (cases cs)
    case Nil
    show ?thesis
    proof (cases w)
      case None
      with Nil cw Suc.prems show ?thesis by simp
    next
      case (Some d)
      let ?u = "sleep (max d retry) s"
      have "fst (candidates (pv_now ?u) excluded (pv_pool ?u)) \<noteq> []"
        using candidates_wait [of "pv_now s" excluded "pv_pool s" d] cw Nil Some
        by (simp add: sleep_def)
      with Suc.IH [of completed ?u] Suc.prems cw Nil Some show ?thesis by simp
    qed
  next
    case (Cons c cs')
    obtain u q where u: "open_candidates E (c # cs') s = (u, q)" by force
    show ?thesis
    proof (cases q)
      case (Inl e)
      with u open_candidates_error [of E "c # cs'" s u e] have "e \<noteq> StillConnecting" by auto
      with Inl u cw Cons Suc.prems show ?thesis by auto
    next
      case (Inr b)
      have "snd (connect_loop fuel E retry rounds excluded (completed + 1) (sleep retry u))
          \<noteq> Inl StillConnecting" if "\<not> rounds \<le> completed + 1"
        by (rule Suc.IH) (use that Suc.prems cw Cons in auto)
      with Inr u cw Cons Suc.prems show ?thesis by (auto simp del: open_candidates.simps)
    qed
  qed
qed

section \<open>Requests\<close>

lemma invoke_operation_fields [simp]:
  assumes "invoke_operation E i s = (t, out)"
  shows "pv_pool t = pv_pool s" "pv_active t = pv_active s" "pv_calls t = pv_calls s @ [i]"
    "\<And>v. out = OpValue v \<Longrightarrow> \<exists>n. rv_op E n i = Inr v"
    "\<And>f. out = OpFailed f \<Longrightarrow> fs_endpoint f = Some i"
    "provider_ok t = provider_ok s"
  using assms
  by (auto simp: invoke_operation_def tick_def provider_ok_def failure_summary_of_def
      split: sum.splits if_splits provider_exc.splits)

lemma invalidate_endpoint_fields [simp]:
  "po_uris (pv_pool (invalidate_endpoint i g c s)) = po_uris (pv_pool s)"
  "pv_calls (invalidate_endpoint i g c s) = pv_calls s"
  "provider_ok s \<Longrightarrow> provider_ok (invalidate_endpoint i g c s)"
  by (auto simp: invalidate_endpoint_def on_pool_def close_active_def provider_ok_def)

text \<open>
  What a run of the retry loop may do from a state where \<open>rej\<close> and \<open>ret\<close> are recorded.
\<close>

definition request_bound :: "nat \<Rightarrow> nat set \<Rightarrow> nat set \<Rightarrow> nat list \<Rightarrow> bool" where
  "request_bound n rej ret new \<longleftrightarrow> set new \<subseteq> {0..<n} - rej \<and>
     (\<forall>i. count_list new i \<le> (if i \<in> ret then 1 else 2))"

definition request_outcome ::
  "'a rpc_env \<Rightarrow> failure_summary list \<Rightarrow> nat list \<Rightarrow> 'a rpc_res \<Rightarrow> bool" where
  "request_outcome E fails new r \<longleftrightarrow>
     (\<forall>v. r = Inr v \<longrightarrow> new \<noteq> [] \<and> (\<exists>m. rv_op E m (last new) = Inr v)) \<and>
     (\<forall>fs. r = Inl (RejectedByAllProviders fs) \<longrightarrow>
        (\<exists>extra. fs = fails @ extra \<and> extra \<noteq> []) \<and> distinct (map fs_endpoint fs) \<and>
        (\<forall>f \<in> set fs. fs_kind f = RPC_REJECTED))"


lemma request_bound_Cons:
  assumes "request_bound n rej' ret' new" "i < n" "i \<notin> rej" "rej \<subseteq> rej'" "ret \<subseteq> ret'"
    "i \<in> rej' \<or> i \<in> ret' - ret"
  shows "request_bound n rej ret (i # new)"
proof -
  have zero: "count_list new i = 0" if "i \<in> rej'"
    using assms(1) that by (auto simp: request_bound_def count_list_0_iff)
  have bound': "count_list new j \<le> (if j \<in> ret' then 1 else 2)" for j
    using assms(1) by (simp add: request_bound_def)
  have bound: "count_list new j \<le> (if j \<in> ret then 1 else 2)" for j
    using bound' [of j] assms(5) by (auto split: if_splits)
  have "count_list (i # new) j \<le> (if j \<in> ret then 1 else 2)" for j
  proof (cases "j = i")
    case True
    from assms(6) consider "i \<in> rej'" | "i \<in> ret'" "i \<notin> ret" by blast
    then show ?thesis
    proof cases
      case 1
      with zero True show ?thesis by simp
    next
      case 2
      with bound' [of i] True show ?thesis by simp
    qed
  next
    case False
    with bound [of j] show ?thesis by simp
  qed
  with assms show ?thesis by (auto simp: request_bound_def)
qed

lemma request_outcome_Cons:
  assumes "request_outcome E (fails @ extra) new r"
  shows "request_outcome E fails (i # new) r"
proof (cases r)
  case (Inr v)
  with assms show ?thesis by (simp add: request_outcome_def)
next
  case (Inl e)
  have "\<exists>ys. fs = fails @ ys \<and> ys \<noteq> []"
    if "fs = (fails @ extra) @ xs" "xs \<noteq> []" for fs xs
    using that by (intro exI [of _ "extra @ xs"]) simp
  with assms Inl show ?thesis unfolding request_outcome_def by blast
qed

lemma execute_loop_ok:
  assumes "execute_loop k fuel E cfg rej ret fails s = (t, r)" "provider_ok s"
    "n = length (po_uris (pv_pool s))" "rej \<subset> {0..<n}" "ret \<subseteq> {0..<n}"
    "distinct (map fs_endpoint fails)" "fs_endpoint ` set fails \<subseteq> Some ` rej"
    "\<forall>f \<in> set fails. fs_kind f = RPC_REJECTED"
  shows "\<exists>new. pv_calls t = pv_calls s @ new \<and> request_bound n rej ret new \<and>
    request_outcome E fails new r \<and>
    ((n - card rej) + (n - card ret) \<le> k \<longrightarrow> r \<noteq> Inl StillExecuting)"
  using assms
proof (induction k arbitrary: rej ret fails s)
  case 0
  then have "card rej < n" by (metis atLeast0LessThan card_lessThan finite_lessThan psubset_card_mono)
  with 0 show ?case by (auto simp: request_bound_def request_outcome_def)
next
  case (Suc k)
  have fin: "finite rej" "finite ret" "card rej < n" "card ret \<le> n"
    using Suc.prems(4,5) psubset_card_mono [of "{0..<n}" rej] card_mono [of "{0..<n}" ret]
    by (auto intro: finite_subset)
  obtain s1 q where c: "connect_with_fallback fuel E cfg rej (if rej \<noteq> {} then Some 1 else None) s = (s1, q)"
    by force
  note ok = connect_with_fallback_ok [OF c Suc.prems(2)]
  show ?case
  proof (cases q)
    case (Inl e)
    with c Suc.prems(1) have "t = s1" "r = Inl e" by auto
    with ok Inl show ?thesis
      by (intro exI [of _ "[]"]) (auto simp: same_request_def request_bound_def request_outcome_def)
  next
    case (Inr v)
    with ok obtain i where i: "pv_active s1 = Some i" "i < n" "i \<notin> rej"
      using Suc.prems(3) by auto
    have n1: "length (po_uris (pv_pool s1)) = n" "pv_calls s1 = pv_calls s" "provider_ok s1"
      using ok Suc.prems(3) by (auto simp: same_request_def)
    obtain s2 out where o: "invoke_operation E i s1 = (s2, out)" by force
    note op = invoke_operation_fields [OF o]
    show ?thesis
    proof (cases out)
      case (OpValue v)
      with c Inr i o Suc.prems(1) have "t = s2" "r = Inr v" by auto
      with op(3,4) n1 i OpValue show ?thesis
        by (intro exI [of _ "[i]"]) (auto simp: request_bound_def request_outcome_def)
    next
      case (OpRaised x)
      with c Inr i o Suc.prems(1) have "t = s2" "r = Inl (ProviderExc x)" by auto
      with op(3) n1 i show ?thesis
        by (intro exI [of _ "[i]"]) (auto simp: request_bound_def request_outcome_def)
    next
      case (OpFailed f)
      have ep: "fs_endpoint f = Some i" using op(5) OpFailed by simp
      have next_ok: "\<exists>new. pv_calls t = pv_calls s @ new \<and> request_bound n rej ret new \<and>
          request_outcome E fails new r \<and>
          ((n - card rej) + (n - card ret) \<le> Suc k \<longrightarrow> r \<noteq> Inl StillExecuting)"
        if step: "(if card rej' = n then (s3, Inl e) else execute_loop k fuel E cfg rej' ret' fails' s3) = (t, r)"
          and s3: "s3 = invalidate_endpoint i g cd (report (EndpointFailed i kind) s2)" and e: "e \<noteq> StillExecuting"
          and grow: "rej' = insert i rej \<and> ret' = ret \<or> rej' = rej \<and> ret' = insert i ret \<and> i \<notin> ret"
          and fl: "fails' = fails @ extra" "distinct (map fs_endpoint fails')"
            "fs_endpoint ` set fails' \<subseteq> Some ` rej'" "\<forall>f \<in> set fails'. fs_kind f = RPC_REJECTED"
          and e2: "\<forall>fs. e = RejectedByAllProviders fs \<longrightarrow> fs = fails' \<and> extra \<noteq> []"
        for rej' ret' fails' e g cd s3 extra kind
      proof -
        have s3': "pv_calls s3 = pv_calls s @ [i]" "provider_ok s3" "n = length (po_uris (pv_pool s3))"
          using op n1 s3 by auto
        have sub: "rej' \<subseteq> {0..<n}" "ret' \<subseteq> {0..<n}" using grow i Suc.prems(4,5) by auto
        have decreasing: "(n - card rej') + (n - card ret') < (n - card rej) + (n - card ret)"
        proof -
          have "card (insert i ret) \<le> n" "card (insert i rej) \<le> n"
            using i fin Suc.prems(4,5) by (auto intro!: card_mono [of "{0..<n}", simplified])
          with grow fin i show ?thesis by (auto simp: card_insert_if)
        qed
        have cons: "request_bound n rej ret (i # new)" if "request_bound n rej' ret' new" for new
          using request_bound_Cons [OF that i(2,3)] grow by auto
        show ?thesis
        proof (cases "card rej' = n")
          case True
          with step s3' e e2 fl cons [of "[]"] show ?thesis
            by (intro exI [of _ "[i]"]) (auto simp: request_bound_def request_outcome_def)
        next
          case False
          then have "rej' \<subset> {0..<n}" using sub by auto
          from Suc.IH [OF _ s3'(2,3) this sub(2) fl(2-4)] False step
          obtain new where new: "pv_calls t = pv_calls s3 @ new" "request_bound n rej' ret' new"
            "request_outcome E fails' new r"
            "(n - card rej') + (n - card ret') \<le> k \<longrightarrow> r \<noteq> Inl StillExecuting" by auto
          with cons [OF new(2)] request_outcome_Cons [of E fails extra new r i] fl(1) s3'(1) decreasing
          show ?thesis by (intro exI [of _ "i # new"]) auto
        qed
      qed
      show ?thesis
      proof (cases "fs_kind f = TRANSPORT")
        case True
        show ?thesis
        proof (cases "i \<in> ret")
          case again: True
          show ?thesis
            by (rule next_ok [where rej' = "insert i rej" and ret' = ret and fails' = fails
                and e = EndpointsUnavailable and extra = "[]"])
              (use again True c Inr i o OpFailed n1 Suc.prems in \<open>auto simp: Let_def insert_absorb\<close>)
        next
          case again: False
          show ?thesis
            by (rule next_ok [where rej' = rej and ret' = "insert i ret" and fails' = fails
                and e = EndpointsUnavailable and extra = "[]"])
              (use again True c Inr i o OpFailed n1 Suc.prems in \<open>auto simp: Let_def\<close>)
        qed
      next
        case False
        then have "fs_kind f = RPC_REJECTED" by (cases "fs_kind f") auto
        then show ?thesis
          by (intro next_ok [where rej' = "insert i rej" and ret' = ret and fails' = "fails @ [f]"
                and e = "RejectedByAllProviders (fails @ [f])" and extra = "[f]"])
            (use c Inr i o OpFailed n1 ep Suc.prems in \<open>auto simp: Let_def\<close>)
      qed
    qed
  qed
qed


section \<open>Startup validation\<close>

lemma accept_chain_id_cases:
  "accept_chain_id c p = (q, Inr ()) \<Longrightarrow>
     po_chain_id q = Some c \<and> po_chain_id p \<in> {None, Some c} \<and> po_uris q = po_uris p"
  by (auto simp: accept_chain_id_def split: option.splits if_splits)

lemma validate_endpoints_chain:
  "validate_endpoints E is s = (t, Inr []) \<Longrightarrow>
   (is = [] \<longrightarrow> t = s) \<and>
   (is \<noteq> [] \<longrightarrow> (\<exists>c. po_chain_id (pv_pool t) = Some c \<and> po_chain_id (pv_pool s) \<in> {None, Some c} \<and>
     (\<forall>i \<in> set is. \<exists>m. rv_open E m i = None \<and>
       bindR (rv_chain_id E m i) read_chain_id = Inr c)))"
proof (induction "is" arbitrary: s)
  case (Cons i "is")
  let ?s1 = "tick E s"
  show ?case
  proof (cases "rv_open E (pv_step s) i")
    case (Some x)
    with Cons.prems show ?thesis by (auto simp: Let_def split: if_splits prod.splits sum.splits)
  next
    case None
    with Cons.prems obtain c where c: "bindR (rv_chain_id E (pv_step s) i) read_chain_id = Inr c"
      by (auto simp: Let_def simp del: bindR_Inr_iff split: sum.splits if_splits prod.splits)
    with None Cons.prems obtain p where
      p: "accept_chain_id c (pv_pool ?s1) = (p, Inr ())"
        "validate_endpoints E is (?s1\<lparr>pv_pool := p\<rparr>) = (t, Inr [])"
      by (auto simp: Let_def simp del: bindR_Inr_iff split: prod.splits sum.splits)
    note a = accept_chain_id_cases [OF p(1)]
    from Cons.IH [OF p(2)] a None c show ?thesis
      by (cases "is = []") (auto simp: tick_def)
  qed
qed simp

section \<open>Properties\<close>

text \<open>C18: the pool offers exactly the endpoints that are not excluded and not cooling down, the
  preferred one first, each once; with none to offer, it says that nothing is left when every
  endpoint is excluded, and otherwise how long to wait: a positive time, after which it offers
  an endpoint again.\<close>

lemma pool_candidates:
  "set (fst (candidates now excluded p)) =
     {i. i < length (po_uris p) \<and> i \<notin> excluded \<and> cooldown_of p i \<le> now} \<and>
   distinct (fst (candidates now excluded p)) \<and>
   (po_preferred p \<in> set (fst (candidates now excluded p)) \<longrightarrow>
     hd (fst (candidates now excluded p)) = po_preferred p) \<and>
   (snd (candidates now excluded p) = None \<longleftrightarrow> {0..<length (po_uris p)} \<subseteq> excluded) \<and>
   (\<forall>w later. candidates now excluded p = ([], Some w) \<and> now + w \<le> later \<longrightarrow>
     0 < w \<and> fst (candidates later excluded p) \<noteq> [])"
proof -
  have set: "set (fst (candidates now excluded p)) =
      {i. i < length (po_uris p) \<and> i \<notin> excluded \<and> cooldown_of p i \<le> now}"
    by (rule candidates_set)
  have dist: "distinct (fst (candidates now excluded p))"
    by (cases rule: candidates_cases [of now excluded p]) (auto simp: eligible_def)
  have pref: "hd (fst (candidates now excluded p)) = po_preferred p"
    if "po_preferred p \<in> set (fst (candidates now excluded p))"
  proof (cases rule: candidates_cases [of now excluded p])
    case (2 cs)
    obtain c cs' where c: "cs = c # cs'" using 2(2) by (cases cs) auto
    have "sorted (map (\<lambda>i. i \<noteq> po_preferred p) cs)" by (simp only: 2(3) sorted_sort_key)
    with that 2(1) c show ?thesis by auto
  qed (use that in auto)
  have el: "eligible excluded p = [] \<longleftrightarrow> {0..<length (po_uris p)} \<subseteq> excluded"
    by (auto simp: eligible_def filter_empty_conv)
  have none: "snd (candidates now excluded p) = None \<longleftrightarrow> eligible excluded p = []"
    by (cases rule: candidates_cases [of now excluded p]) (auto simp: candidates_def Let_def)
  have pos: "0 < w" if "candidates now excluded p = ([], Some w)" for w
  proof (cases rule: candidates_cases [of now excluded p])
    case (3 w')
    have "0 < Min ((\<lambda>i. cooldown_of p i - now) ` set (eligible excluded p))"
      using 3(2,3) by (subst Min_gr_iff) (auto simp del: eligible_set)
    with 3 that show ?thesis by simp
  qed (use that in auto)
  show ?thesis
    using set dist pref el none pos candidates_wait [of now excluded p] by metis
qed

text \<open>Connecting with a bounded number of rounds ends, within twice as many iterations as
  rounds, however the endpoints behave, and on success with an endpoint that is not excluded.\<close>

lemma bounded_rounds_terminate:
  assumes "0 < rounds" "2 * nat rounds \<le> fuel" "provider_ok s"
  shows "snd (connect_with_fallback fuel E cfg excluded (Some rounds) s) \<noteq> Inl StillConnecting \<and>
    (snd (connect_with_fallback fuel E cfg excluded (Some rounds) s) = Inr () \<longrightarrow>
      (\<exists>i. pv_active (fst (connect_with_fallback fuel E cfg excluded (Some rounds) s)) = Some i \<and>
        i < length (po_uris (pv_pool s)) \<and> i \<notin> excluded))"
proof -
  have "snd (connect_loop fuel E retry rounds excluded 0 u) \<noteq> Inl StillConnecting" for retry u
    by (rule connect_loop_ends) (use assms(1,2) in \<open>auto simp: nat_mult_distrib\<close>)
  then have "snd (connect_with_fallback fuel E cfg excluded (Some rounds) s) \<noteq> Inl StillConnecting"
    using assms(1) by (simp add: connect_with_fallback_def Let_def split: option.split)
  moreover obtain t r where "connect_with_fallback fuel E cfg excluded (Some rounds) s = (t, r)"
    by force
  ultimately show ?thesis using connect_with_fallback_ok [OF _ assms(3)] by fastforce
qed

text \<open>C17: a request runs its operation at most twice on an endpoint and at most twice as often
  as there are endpoints, so that many iterations settle it; a value is what the operation
  returned on the last endpoint it ran on, and when all endpoints are said to have rejected the
  request, the failures name distinct endpoints, each with a rejection.\<close>

lemma execute_request_bounded:
  assumes "execute_request k fuel E cfg s = (t, r)" "provider_ok s" "pv_calls s = []"
    "po_uris (pv_pool s) \<noteq> []"
  shows "(\<forall>i. count_list (pv_calls t) i \<le> 2) \<and>
    set (pv_calls t) \<subseteq> {0..<length (po_uris (pv_pool s))} \<and>
    length (pv_calls t) \<le> 2 * length (po_uris (pv_pool s)) \<and>
    (2 * length (po_uris (pv_pool s)) \<le> k \<longrightarrow> r \<noteq> Inl StillExecuting) \<and>
    (\<forall>v. r = Inr v \<longrightarrow> pv_calls t \<noteq> [] \<and> (\<exists>m. rv_op E m (last (pv_calls t)) = Inr v)) \<and>
    (\<forall>fs. r = Inl (RejectedByAllProviders fs) \<longrightarrow> fs \<noteq> [] \<and> distinct (map fs_endpoint fs) \<and>
       (\<forall>f \<in> set fs. fs_kind f = RPC_REJECTED))"
proof -
  let ?n = "length (po_uris (pv_pool s))"
  obtain new where new: "pv_calls t = new" "request_bound ?n {} {} new" "request_outcome E [] new r"
    "2 * ?n \<le> k \<longrightarrow> r \<noteq> Inl StillExecuting"
    using execute_loop_ok [of k fuel E cfg "{}" "{}" "[]" s t r ?n] assms
    by (auto simp: execute_request_def psubset_eq)
  then have bound: "\<forall>i. count_list new i \<le> 2" "set new \<subseteq> {0..<?n}"
    by (auto simp: request_bound_def)
  have "length new = (\<Sum>i \<in> {0..<?n}. count_list new i)"
    using sum_count_set [OF bound(2)] by simp
  also have "\<dots> \<le> (\<Sum>i \<in> {0..<?n}. 2)" by (rule sum_mono) (use bound(1) in simp)
  finally have "length new \<le> 2 * ?n" by simp
  with new bound show ?thesis by (auto simp: request_outcome_def)
qed

text \<open>The first transport failure of a subscription leaves its endpoint available; a second
  one within the cooldown time takes it out of the candidates for exactly the cooldown.\<close>

lemma subscription_failures:
  assumes "i < length (po_uris p)" "length (po_states p) = length (po_uris p)"
    "es_last_sub_failure (po_states p ! i) = None" "t2 - t1 \<le> po_cooldown p"
  shows "\<exists>p1 p2. record_subscription_transport_failure t1 i p = (p1, False) \<and>
    (\<forall>now. candidates now {} p1 = candidates now {} p) \<and>
    record_subscription_transport_failure t2 i p1 = (p2, True) \<and>
    (\<forall>now. i \<in> set (fst (candidates now {} p2)) \<longleftrightarrow> t2 + po_cooldown p \<le> now)"
proof -
  let ?st = "po_states p ! i"
  let ?p1 = "p\<lparr>po_states := (po_states p)[i := ?st\<lparr>es_sub_failures := 1, es_last_sub_failure := Some t1\<rparr>]\<rparr>"
  let ?p2 = "p\<lparr>po_states := (po_states p)[i := ?st\<lparr>es_sub_failures := 0, es_last_sub_failure := Some t2,
    es_cooldown_until := t2 + po_cooldown p\<rparr>]\<rparr>"
  have cd: "cooldown_of ?p1 j = cooldown_of p j" for j
    using assms(1,2) by (cases "j = i") (simp_all add: cooldown_of_def)
  have 1: "record_subscription_transport_failure t1 i p = (?p1, False)"
    using assms by (simp add: record_subscription_transport_failure_def update_state_def)
  moreover have "candidates now {} ?p1 = candidates now {} p" for now
    by (rule candidates_cong) (use cd in auto)
  moreover have "record_subscription_transport_failure t2 i ?p1 = (?p2, True)"
    using assms by (simp add: record_subscription_transport_failure_def update_state_def)
  moreover have "i \<in> set (fst (candidates now {} ?p2)) \<longleftrightarrow> t2 + po_cooldown p \<le> now" for now
    using assms by (simp add: candidates_set cooldown_of_def)
  ultimately show ?thesis by blast
qed

text \<open>Startup validation succeeds only when every endpoint opened and reported one and the
  same chain id, which is the configured one when one is configured and is the pool's from then
  on.\<close>

lemma validated_chain:
  assumes "validate_endpoint_chain_ids E s = (t, Inr ())" "po_uris (pv_pool s) \<noteq> []"
  shows "\<exists>c. po_chain_id (pv_pool t) = Some c \<and> po_chain_id (pv_pool s) \<in> {None, Some c} \<and>
    (\<forall>i < length (po_uris (pv_pool s)). \<exists>m. rv_open E m i = None \<and>
      bindR (rv_chain_id E m i) read_chain_id = Inr c)"
proof -
  from assms(1) have "validate_endpoints E [0..<length (po_uris (pv_pool s))] s = (t, Inr [])"
    by (auto simp: validate_endpoint_chain_ids_def split: prod.splits sum.splits if_splits)
  from validate_endpoints_chain [OF this] assms(2) show ?thesis by auto
qed

section \<open>Witnesses\<close>

text \<open>
  Two endpoints; the transport of the first one fails whenever an operation runs on it.
\<close>

definition sample_rpc :: "int rpc_env" where
  "sample_rpc = \<lparr>rv_open = (\<lambda>m i. None), rv_chain_id = (\<lambda>m i. Inr (VStr ''0x1'')), rv_connected = (\<lambda>m. True),
     rv_op = (\<lambda>m i. if i = 0 then Inl TransportFailure else Inr 7), rv_latency = (\<lambda>m. 1),
     rv_ip = \<lambda>n. True, rv_class = \<lambda>x. ''Exception''\<rparr>"

definition sample_pool :: pool where
  "sample_pool = \<lparr>po_uris = [''ws://a'', ''ws://b''], po_chain_id = None, po_cooldown = 30,
     po_states = [\<lparr>es_cooldown_until = 0, es_sub_failures = 0, es_last_sub_failure = None\<rparr>,
       \<lparr>es_cooldown_until = 0, es_sub_failures = 0, es_last_sub_failure = None\<rparr>],
     po_preferred = 0\<rparr>"

definition sample_provider :: provider where
  "sample_provider = \<lparr>pv_pool = sample_pool, pv_now = 5, pv_step = 0, pv_active = None,
     pv_generation = 0, pv_calls = [], pv_reports = []\<rparr>"

lemmas sample_rpc_defs = sample_rpc_def sample_pool_def sample_provider_def

lemma sample_provider_ok: "provider_ok sample_provider"
  by (simp add: provider_ok_def sample_rpc_defs)

lemma pool_candidates_witness:
  "set (fst (candidates 5 {0} sample_pool)) = {1}"
  using pool_candidates [of 5 "{0}" sample_pool]
  by (auto simp: sample_pool_def cooldown_of_def less_2_cases_iff nth_Cons')

lemma bounded_rounds_terminate_witness:
  "snd (connect_with_fallback 6 sample_rpc \<lparr>pr_rounds = -1, pr_retry_interval = 1\<rparr> {0} (Some 3)
     sample_provider) \<noteq> Inl StillConnecting"
  using bounded_rounds_terminate [of 3 6 sample_provider sample_rpc
      "\<lparr>pr_rounds = -1, pr_retry_interval = 1\<rparr>" "{0}"] sample_provider_ok
  by simp

lemma execute_request_bounded_witness:
  "\<exists>t r. execute_request 4 2 sample_rpc \<lparr>pr_rounds = -1, pr_retry_interval = 1\<rparr> sample_provider = (t, r)
     \<and> (\<forall>i. count_list (pv_calls t) i \<le> 2) \<and> length (pv_calls t) \<le> 4 \<and> r \<noteq> Inl StillExecuting"
proof -
  obtain t r where run:
    "execute_request 4 2 sample_rpc \<lparr>pr_rounds = -1, pr_retry_interval = 1\<rparr> sample_provider = (t, r)"
    by (rule prod.exhaust)
  from execute_request_bounded [OF run sample_provider_ok] run show ?thesis
    by (auto simp: sample_rpc_defs)
qed

lemma subscription_failures_witness:
  "\<exists>p1 p2. record_subscription_transport_failure 5 1 sample_pool = (p1, False) \<and>
     record_subscription_transport_failure 9 1 p1 = (p2, True) \<and>
     1 \<notin> set (fst (candidates 10 {} p2))"
  using subscription_failures [of 1 sample_pool 9 5] by (auto simp: sample_rpc_defs)

lemma sample_chain_id: "read_chain_id (VStr ''0x1'') = Inr 1"
  by code_simp

lemma sample_validation:
  "validate_endpoint_chain_ids sample_rpc sample_provider =
     (sample_provider\<lparr>pv_step := 2, pv_now := 7, pv_pool := sample_pool\<lparr>po_chain_id := Some 1\<rparr>\<rparr>, Inr ())"
  by (simp add: validate_endpoint_chain_ids_def sample_rpc_defs sample_chain_id accept_chain_id_def tick_def Let_def
      upt_rec numeral_eq_Suc)

lemma validated_chain_witness:
  "\<exists>c. po_chain_id (sample_pool\<lparr>po_chain_id := Some 1\<rparr>) = Some c \<and> po_uris sample_pool \<noteq> []"
  using validated_chain [OF sample_validation] by (simp add: sample_rpc_defs)

text \<open>
  A failure whose message holds a malformed address ends the request with another error, whatever
  endpoints are left, for instance a rejection that quotes an address with an open bracket.
\<close>

lemma malformed_message_ends_request:
  assumes "connect_with_fallback fuel E cfg {} None s = (s1, Inr u)" and "pv_active s1 = Some i"
    and "rv_op E (pv_step s1) i = Inl (rpc_response ''see http://[x'')"
  shows "snd (execute_request (Suc k) fuel E cfg s) = Inl (ProviderExc OtherException)"
proof -
  let ?x = "rpc_response ''see http://[x''"
  have x: "endpoint_failure ?x" "\<not> semantic_response ?x"
    unfolding rpc_response_def semantic_response_def by simp_all
  have "invoke_operation E i s1 = (tick E (s1\<lparr>pv_calls := pv_calls s1 @ [i]\<rparr>), OpRaised OtherException)"
    unfolding invoke_operation_def assms(3) Let_def sum.case bracket_raises if_P [OF x(1)] if_not_P [OF x(2)]
    by (rule refl)
  with assms(1,2) show ?thesis by (simp add: execute_request_def)
qed

end
