(* ===== verification/Config.thy ===== *)
theory Config
  imports Module_Adapter Rpc_Pool Log_Reader
begin

text \<open>
  The configuration read from the environment, \<open>sentinel/config.py\<close>: the parsers of the single
  variables, \<open>load_config_from_env\<close> with every check in the order of the code, and the
  configuration after discovery. The environment is the function \<open>os.getenv\<close>; the conversions
  \<open>float()\<close> and \<open>time.fromisoformat\<close> of the standard library are the parameters of
  \<open>conversions\<close>. The module variable that holds the configuration is an optional value.
\<close>

section \<open>Values\<close>

datatype float_value = FNum real | FPosInf | FNegInf | FNan

definition not_positive :: "float_value \<Rightarrow> bool" where
  "not_positive x = (case x of FNum r \<Rightarrow> r \<le> 0 | FNegInf \<Rightarrow> True | _ \<Rightarrow> False)"

record conversions =
  cv_float :: "string \<Rightarrow> float_value res"
  cv_time :: "string \<Rightarrow> clock_time res"

type_synonym env_vars = "string \<Rightarrow> string option"

text \<open>\<open>x or y\<close> and the truth of an optional string.\<close>

definition given :: "string option \<Rightarrow> bool" where
  "given x \<longleftrightarrow> x \<noteq> None \<and> x \<noteq> Some []"

definition or_else :: "string option \<Rightarrow> string option \<Rightarrow> string option" where
  "or_else x y = (if given x then x else y)"

definition getenv_or :: "env_vars \<Rightarrow> string \<Rightarrow> string \<Rightarrow> string" where
  "getenv_or V name d = (case V name of None \<Rightarrow> d | Some s \<Rightarrow> s)"

section \<open>Parsers\<close>

definition add_admin_id :: "string \<Rightarrow> int set \<Rightarrow> int set" where
  "add_admin_id token ids =
     (if token = [] then ids else (case py_int token of Inl _ \<Rightarrow> ids | Inr i \<Rightarrow> insert i ids))"

definition parse_admin_ids :: "string \<Rightarrow> int set" where
  "parse_admin_ids raw =
     fold add_admin_id (py_split (CHR '','') (replace_char (CHR '' '') '','' raw)) {}"

definition parse_healthcheck_port :: "string option \<Rightarrow> int res" where
  "parse_healthcheck_port raw =
     (case raw of
        None \<Rightarrow> Inr 8080
      | Some s \<Rightarrow>
          if s = [] then Inr 8080
          else bindR (py_int s) (\<lambda>port. if port \<le> 0 \<or> 65535 < port then Inl RuntimeError else Inr port))"

text \<open>A time of day counts microseconds, so whole minutes have neither seconds nor fractions.\<close>

definition parse_deposit_digest_time :: "conversions \<Rightarrow> string option \<Rightarrow> clock_time res" where
  "parse_deposit_digest_time P raw =
     (case cv_time P (case raw of None \<Rightarrow> ''09:00'' | Some v \<Rightarrow> if v = [] then ''09:00'' else v) of
        Inl ValueError \<Rightarrow> Inl RuntimeError
      | Inl e \<Rightarrow> Inl e
      | Inr parsed \<Rightarrow>
          if ct_offset parsed \<noteq> None \<or> ct_micro parsed mod 60000000 \<noteq> 0 then Inl RuntimeError
          else Inr (parsed\<lparr>ct_offset := Some 0\<rparr>))"

definition get_healthcheck_bind_from_env :: "env_vars \<Rightarrow> (string \<times> int) res" where
  "get_healthcheck_bind_from_env V =
     bindR (parse_healthcheck_port (V ''HEALTHCHECK_PORT'')) (\<lambda>port.
       Inr (getenv_or V ''HEALTHCHECK_HOST'' ''0.0.0.0'', port))"

definition add_provider :: "string \<Rightarrow> string list \<Rightarrow> string list" where
  "add_provider token providers =
     (let provider = py_strip token in
      if provider \<noteq> [] \<and> provider \<notin> set providers then providers @ [provider] else providers)"

definition parse_provider_urls :: "string \<Rightarrow> string list" where
  "parse_provider_urls raw = fold add_provider (py_split (CHR '','') raw) []"

section \<open>The configuration\<close>

record config_values =
  cf_filestorage :: string
  cf_token :: "string option"
  cf_providers :: "string list"
  cf_health_host :: string
  cf_health_port :: int
  cf_etherscan :: "string option"
  cf_beaconchain :: "string option"
  cf_module_ui :: "string option"
  cf_batch_size :: int
  cf_request_rate :: "float_value option"
  cf_block_from :: "int option"
  cf_admins :: "int set"
  cf_digest_time :: clock_time

record env_config = config_values +
  cf_module :: string

record config = config_values +
  cf_addresses :: addresses

definition resolve :: "env_config \<Rightarrow> addresses \<Rightarrow> config" where
  "resolve c a = \<lparr>cf_filestorage = cf_filestorage c, cf_token = cf_token c, cf_providers = cf_providers c,
     cf_health_host = cf_health_host c, cf_health_port = cf_health_port c, cf_etherscan = cf_etherscan c,
     cf_beaconchain = cf_beaconchain c, cf_module_ui = cf_module_ui c, cf_batch_size = cf_batch_size c,
     cf_request_rate = cf_request_rate c, cf_block_from = cf_block_from c, cf_admins = cf_admins c,
     cf_digest_time = cf_digest_time c, cf_addresses = a\<rparr>"

definition request_rate :: "conversions \<Rightarrow> string option \<Rightarrow> float_value option res" where
  "request_rate P raw =
     (case raw of
        None \<Rightarrow> Inr None
      | Some s \<Rightarrow>
          if s = [] then Inr None
          else bindR (cv_float P s) (\<lambda>r. if not_positive r then Inl RuntimeError else Inr (Some r)))"

definition optional_int :: "string option \<Rightarrow> int option res" where
  "optional_int raw =
     (case raw of None \<Rightarrow> Inr None | Some s \<Rightarrow> if s = [] then Inr None else bindR (py_int s) (\<lambda>i. Inr (Some i)))"

definition load_config_from_env :: "conversions \<Rightarrow> env_vars \<Rightarrow> env_config res" where
  "load_config_from_env P V =
     (let raw_providers = or_else (V ''WEB3_SOCKET_PROVIDERS'') (V ''WEB3_SOCKET_PROVIDER'') in
      bindR (get_healthcheck_bind_from_env V) (\<lambda>(host, port).
      case (raw_providers, V ''MODULE_ADDRESS'') of
        (Some raw, Some module_address) \<Rightarrow>
          if raw = [] \<or> module_address = [] then Inl RuntimeError
          else if parse_provider_urls raw = [] then Inl RuntimeError
          else
            bindR (request_rate P (V ''PROCESS_BLOCKS_REQUESTS_PER_SECOND'')) (\<lambda>rate.
            bindR (optional_int (V ''BLOCK_FROM'')) (\<lambda>block_from.
            bindR (case V ''BLOCK_BATCH_SIZE'' of None \<Rightarrow> Inr 10000 | Some s \<Rightarrow> py_int s) (\<lambda>batch.
            bindR (parse_deposit_digest_time P (V ''DEPOSIT_DIGEST_TIME'')) (\<lambda>digest_time.
              Inr \<lparr>cf_filestorage = getenv_or V ''FILESTORAGE_PATH'' ''.storage'', cf_token = V ''TOKEN'',
                cf_providers = parse_provider_urls raw, cf_health_host = host, cf_health_port = port,
                cf_etherscan = V ''ETHERSCAN_URL'', cf_beaconchain = V ''BEACONCHAIN_URL'',
                cf_module_ui = V ''MODULE_UI_URL'', cf_batch_size = batch, cf_request_rate = rate,
                cf_block_from = block_from, cf_admins = parse_admin_ids (getenv_or V ''ADMIN_IDS'' []),
                cf_digest_time = digest_time, cf_module = module_address\<rparr>))))
      | _ \<Rightarrow> Inl RuntimeError))"

definition get_config :: "config option \<Rightarrow> config res" where
  "get_config c = (case c of None \<Rightarrow> Inl RuntimeError | Some x \<Rightarrow> Inr x)"

definition set_config :: "config \<Rightarrow> config option \<Rightarrow> config option" where
  "set_config c old = Some c"

definition clear_config :: "config option \<Rightarrow> config option" where
  "clear_config old = None"

definition build_module_adapter_from_config :: "config \<Rightarrow> adapter res" where
  "build_module_adapter_from_config c = build_module_adapter_from_addresses (cf_addresses c)"

section \<open>Lists of values\<close>

lemma set_add_providers:
  "set (fold add_provider ts ps) = set ps \<union> {p. p \<noteq> [] \<and> p \<in> py_strip ` set ts}"
  by (induction ts arbitrary: ps) (auto simp: add_provider_def Let_def)

lemma distinct_add_providers: "distinct ps \<Longrightarrow> distinct (fold add_provider ts ps)"
  by (induction ts arbitrary: ps) (auto simp: add_provider_def Let_def)

text \<open>The first occurrence of every URL is kept, in order.\<close>

lemma provider_urls_first:
  "parse_provider_urls raw = rev (remdups (rev (filter (\<lambda>p. p \<noteq> []) (map py_strip (py_split (CHR '','') raw)))))"
proof -
  have "fold add_provider ts (rev (remdups (rev ps))) = rev (remdups (rev (ps @ filter (\<lambda>p. p \<noteq> []) (map py_strip ts))))"
    for ts ps
  proof (induction ts arbitrary: ps)
    case (Cons t ts)
    have "add_provider t (rev (remdups (rev ps))) = rev (remdups (rev (if py_strip t = [] then ps else ps @ [py_strip t])))"
      by (simp add: add_provider_def Let_def)
    with Cons.IH show ?case by simp
  qed simp
  from this [of "py_split (CHR '','') raw" "[]"] show ?thesis by (simp add: parse_provider_urls_def)
qed

lemma py_int_Nil: "\<exists>e. py_int [] = Inl e"
  by (simp add: py_int_def py_strip_def signed_def)

lemma admin_ids_of_tokens:
  "fold add_admin_id ts ids = ids \<union> {i. \<exists>t \<in> set ts. py_int t = Inr i}"
  using py_int_Nil by (induction ts arbitrary: ids) (auto simp: add_admin_id_def split: sum.splits)

lemma int_str_separators: "CHR '','' \<notin> set (int_str i)" "CHR '' '' \<notin> set (int_str i)"
proof -
  have "c \<notin> set (nat_str n)" if "\<not> is_dec c" for c n
    using nat_str_dec [of n] that by (auto simp: py_isdecimal_def list_all_iff)
  moreover have "\<not> is_dec (CHR '','')" "\<not> is_dec (CHR '' '')" by (simp_all add: is_dec_def)
  ultimately show "CHR '','' \<notin> set (int_str i)" "CHR '' '' \<notin> set (int_str i)"
    by (auto simp: int_str_def)
qed

lemma replace_char_append: "replace_char c r (xs @ ys) = replace_char c r xs @ replace_char c r ys"
  by (simp add: replace_char_def)

lemma replace_char_id: "c \<notin> set s \<Longrightarrow> replace_char c r s = s"
  by (induction s) (auto simp: replace_char_def)

lemma replace_join:
  "\<forall>w \<in> set ws. c \<notin> set w \<Longrightarrow> replace_char c r (py_join sep ws) = py_join (replace_char c r sep) ws"
  by (induction sep ws rule: py_join.induct) (auto simp: replace_char_append replace_char_id)

lemma split_separators: "py_split d (replicate m d @ s) = replicate m [] @ py_split d s"
  by (induction m) auto

lemma split_join_tokens:
  assumes "\<forall>w \<in> set ws. d \<notin> set w"
  shows "set (py_split d (py_join (replicate (Suc m) d) ws)) \<union> {[]} = set ws \<union> {[]}"
  using assms
proof (induction "replicate (Suc m) d" ws rule: py_join.induct)
  case (3 w v ws)
  have "py_split d (w @ replicate (Suc m) d @ py_join (replicate (Suc m) d) (v # ws)) =
      w # replicate m [] @ py_split d (py_join (replicate (Suc m) d) (v # ws))"
    using 3(2) by (simp add: py_split_app split_separators)
  with 3 show ?case by auto
qed (auto simp: py_split_no_sep)

text \<open>The ids an operator lists in \<open>ADMIN_IDS\<close>, separated by commas, spaces or both, are
  exactly the admins of the bot.\<close>

theorem admin_ids_roundtrip:
  assumes "sep \<in> {'','', '' '', '', ''}"
  shows "parse_admin_ids (py_join sep (map int_str ids)) = set ids"
proof -
  let ?ws = "map int_str ids"
  obtain m where m: "replace_char (CHR '' '') '','' sep = replicate (Suc m) (CHR '','')"
  proof -
    have "\<exists>m. replace_char (CHR '' '') '','' sep = replicate (Suc m) (CHR '','')"
      using assms by (auto simp: replace_char_def intro: exI [of _ 0] exI [of _ 1])
    then show thesis using that by blast
  qed
  let ?ts = "py_split (CHR '','') (replace_char (CHR '' '') '','' (py_join sep ?ws))"
  have same: "set ?ts \<union> {[]} = set ?ws \<union> {[]}"
    using split_join_tokens [of ?ws "CHR '',''" m] int_str_separators by (simp add: replace_join m)
  have blank: "{i. \<exists>t \<in> T. py_int t = Inr i} = {i. \<exists>t \<in> T \<union> {[]}. py_int t = Inr i}" for T
    using py_int_Nil by auto
  have "{i. \<exists>t \<in> set ?ts. py_int t = Inr i} = {i. \<exists>t \<in> set ?ws. py_int t = Inr i}"
    by (rule trans [OF blank trans [OF _ blank [symmetric]]]) (simp only: same)
  also have "\<dots> = set ids" by (auto simp: py_int_int_str)
  finally show ?thesis by (simp add: parse_admin_ids_def admin_ids_of_tokens)
qed

lemma admin_ids_roundtrip_witness: "parse_admin_ids ''5, -7'' = {5, -7}"
proof -
  have e: "py_join '', '' (map int_str [5, -7]) = ''5, -7''" by code_simp
  show ?thesis using admin_ids_roundtrip [of "'', ''" "[5, -7]", unfolded e] by simp
qed

text \<open>C29: a configuration that loads has what its components ask for, with one exception: the
  endpoint pool takes its URLs, which are the given ones without repetitions, the port is one of
  TCP, the request rate is not zero or negative, and the time of the daily job is in UTC and whole
  minutes, for which the scheduler never raises. The exception is the batch size, which is the
  given number, or 10000, unchecked: the log reader takes it when it is at least 1 and raises
  otherwise. The syntax of the time is that of \<open>fromisoformat\<close>.\<close>

theorem loaded_config_valid:
  assumes c: "load_config_from_env P V = Inr c"
    and times: "\<forall>s t. cv_time P s = Inr t \<longrightarrow> 0 \<le> ct_micro t \<and> ct_micro t < day_length"
  shows "(\<exists>p. mk_pool (cf_providers c) None cooldown = Inr p) \<and>
    set (cf_providers c) = {p. p \<noteq> [] \<and> p \<in> py_strip ` set (py_split (CHR '','')
      (if given (V ''WEB3_SOCKET_PROVIDERS'') then the (V ''WEB3_SOCKET_PROVIDERS'') else the (V ''WEB3_SOCKET_PROVIDER'')))} \<and>
    1 \<le> cf_health_port c \<and> cf_health_port c \<le> 65535 \<and> cf_module c \<noteq> [] \<and>
    \<not> (\<exists>r. cf_request_rate c = Some r \<and> not_positive r) \<and>
    ct_offset (cf_digest_time c) = Some 0 \<and>
    ct_micro (cf_digest_time c) mod 60000000 = 0 \<and> ct_micro (cf_digest_time c) \<in> {0..<day_length} \<and>
    (case V ''BLOCK_BATCH_SIZE'' of None \<Rightarrow> Inr 10000 | Some s \<Rightarrow> py_int s) = Inr (cf_batch_size c) \<and>
    mk_reader sources abis interval (Some (cf_batch_size c)) =
      (if 1 \<le> cf_batch_size c
       then Inr \<lparr>rd_sources = sources, rd_abis = abis, rd_interval = interval, rd_batch = Some (cf_batch_size c)\<rparr>
       else Inl ValueError) \<and>
    (dt_offset now = None \<or> (\<exists>slot. latest_scheduled_for now (cf_digest_time c) = Inr slot))"
proof -
  let ?raw = "or_else (V ''WEB3_SOCKET_PROVIDERS'') (V ''WEB3_SOCKET_PROVIDER'')"
  obtain host port where bind: "get_healthcheck_bind_from_env V = Inr (host, port)"
    using c by (auto simp: load_config_from_env_def Let_def)
  note c1 = c [unfolded load_config_from_env_def Let_def bind bindR.simps prod.case]
  obtain raw m where raw: "?raw = Some raw" and m: "V ''MODULE_ADDRESS'' = Some m"
    using c1 by (cases ?raw; cases "V ''MODULE_ADDRESS''") auto
  note c2 = c1 [unfolded raw m prod.case option.case]
  have ok: "\<not> (raw = [] \<or> m = [])" "parse_provider_urls raw \<noteq> []"
    using c2 by (auto split: if_splits)
  note c3 = c2 [unfolded if_not_P [OF ok(1)] if_not_P [OF ok(2)] bindR_Inr_iff]
  have providers: "cf_providers c = parse_provider_urls raw" and module: "cf_module c = m"
    and port: "cf_health_port c = port"
    and rate: "request_rate P (V ''PROCESS_BLOCKS_REQUESTS_PER_SECOND'') = Inr (cf_request_rate c)"
    and time: "parse_deposit_digest_time P (V ''DEPOSIT_DIGEST_TIME'') = Inr (cf_digest_time c)"
    and batch: "(case V ''BLOCK_BATCH_SIZE'' of None \<Rightarrow> Inr 10000 | Some s \<Rightarrow> py_int s) = Inr (cf_batch_size c)"
    using c3 by auto
  have urls: "distinct (cf_providers c)" "set (cf_providers c) = {p. p \<noteq> [] \<and> p \<in> py_strip ` set (py_split (CHR '','') raw)}"
    unfolding providers parse_provider_urls_def by (simp_all add: distinct_add_providers set_add_providers)
  have the_raw: "(if given (V ''WEB3_SOCKET_PROVIDERS'') then the (V ''WEB3_SOCKET_PROVIDERS'')
      else the (V ''WEB3_SOCKET_PROVIDER'')) = raw"
    using raw by (auto simp: or_else_def split: if_splits)
  have "1 \<le> cf_health_port c \<and> cf_health_port c \<le> 65535"
    using bind port by (auto simp: get_healthcheck_bind_from_env_def parse_healthcheck_port_def split: option.splits if_splits)
  moreover have "\<not> (\<exists>r. cf_request_rate c = Some r \<and> not_positive r)"
    using rate by (auto simp: request_rate_def split: option.splits if_splits)
  moreover obtain t where t: "cf_digest_time c = t\<lparr>ct_offset := Some 0\<rparr>" "ct_micro t mod 60000000 = 0"
    "0 \<le> ct_micro t" "ct_micro t < day_length"
  proof -
    define s where "s = (case V ''DEPOSIT_DIGEST_TIME'' of None \<Rightarrow> ''09:00'' | Some v \<Rightarrow> if v = [] then ''09:00'' else v)"
    obtain t where t: "cv_time P s = Inr t"
      using time unfolding parse_deposit_digest_time_def s_def [symmetric]
      by (cases "cv_time P s") (auto split: py_error.splits)
    then have "cf_digest_time c = t\<lparr>ct_offset := Some 0\<rparr>" "ct_micro t mod 60000000 = 0"
      using time unfolding parse_deposit_digest_time_def s_def [symmetric] by (auto split: if_splits)
    moreover from times t have "0 \<le> ct_micro t" "ct_micro t < day_length" by blast+
    ultimately show thesis using that [of t] by simp
  qed
  moreover have "dt_offset now = None \<or> (\<exists>slot. latest_scheduled_for now (cf_digest_time c) = Inr slot)"
    using t(1) by (auto simp: latest_scheduled_for_def Let_def)
  ultimately show ?thesis
    using ok urls module providers t batch by (simp add: mk_pool_def mk_reader_def the_raw)
qed

definition demo_conversions :: conversions where
  "demo_conversions = \<lparr>cv_float = (\<lambda>s. Inr (FNum 2)), cv_time = (\<lambda>s. Inr \<lparr>ct_micro = 60000000, ct_offset = None\<rparr>)\<rparr>"

definition demo_variables :: env_vars where
  "demo_variables = map_of [(''WEB3_SOCKET_PROVIDERS'', ''wss://a, wss://b,wss://a''), (''MODULE_ADDRESS'', ''0x1'')]"

lemma loaded_config_valid_witness:
  "\<exists>c. load_config_from_env demo_conversions demo_variables = Inr c \<and>
     (\<exists>p. mk_pool (cf_providers c) None 60 = Inr p) \<and> cf_health_port c = 8080"
proof -
  have "\<not> isl (load_config_from_env demo_conversions demo_variables)" by code_simp
  then obtain c where c: "load_config_from_env demo_conversions demo_variables = Inr c" by (metis sum.collapse(2))
  have times: "\<forall>s t. cv_time demo_conversions s = Inr t \<longrightarrow> 0 \<le> ct_micro t \<and> ct_micro t < day_length"
    by (auto simp: demo_conversions_def day_length_def)
  have "cf_health_port c = 8080"
    using c by (auto simp: load_config_from_env_def get_healthcheck_bind_from_env_def parse_healthcheck_port_def
        demo_variables_def Let_def split: option.splits if_splits)
  with loaded_config_valid [OF c times, of 60 "[]" "[]" None] c show ?thesis by blast
qed

end
