(* ===== verification/Bootstrap.thy ===== *)
theory Bootstrap
  imports Config Supervisor Health
begin

text \<open>
  Startup and shutdown, \<open>sentinel/app/bootstrap.py\<close>: \<open>create_runtime\<close>, \<open>_run\<close> with its
  handlers and its \<open>finally\<close> block, and the helpers of both. Every call of the application, the
  supervisor, the providers and the chain is one entry of a trace, in program order; how the n-th
  one ends is a parameter, also by a cancellation. The bot data, the copy the persistence object
  holds and the file are values of the state. What the subscription task does to the data while it
  runs is in \<open>Supervisor\<close>. Log records and metrics are omitted.
\<close>

section \<open>State and calls\<close>

datatype boot_call =
    LoadEnvironment
  | StartHealthServer
  | StartHeartbeat
  | ValidateEndpoints
  | DiscoverContracts
  | SetConfig
  | CreateStoragePath
  | BuildApplication
  | BuildSupervisor
  | DisconnectReads
  | DisconnectBackfill
  | Initialize
  | StartApplication
  | AddErrorHandler
  | UpdatePersistence
  | FlushPersistence
  | WarmUp
  | StartPolling
  | SetupSignals
  | SpawnSubscription
  | WaitSubscribed
  | AskHead
  | CatchUp int
  | ScheduleJobs
  | AwaitSubscription
  | RequestShutdown
  | CancelSubscription
  | CancelHeartbeat
  | CloseSupervisor
  | StopPolling
  | StopApplication
  | CloseChain
  | ShutdownApplication
  | StopHealthServer
  | Report health_op

datatype boot_exc = Cancelled | Failure py_error

datatype first_done = Subscribed | SupervisorEnded "boot_exc option"

record boot =
  bo_trace :: "boot_call list"
  bo_data :: raw_data
  bo_saved :: raw_data
  bo_file :: raw_data
  bo_polling :: bool
  bo_task :: bool

text \<open>
  How the n-th call of the trace ends, the message and class of an error, which task is done first
  when the subscription starts, whether the supervisor task is done when the shutdown looks, and
  the head the chain answers.
\<close>

record boot_env =
  be_ends :: "nat \<Rightarrow> boot_exc option"
  be_text :: "py_error \<Rightarrow> string \<times> string"
  be_start :: first_done
  be_task_done :: bool
  be_head :: int

type_synonym 'a boot_run = "boot \<Rightarrow> boot \<times> (boot_exc + 'a)"

definition okB :: "'a \<Rightarrow> 'a boot_run" where
  "okB x s = (s, Inr x)"

definition raiseB :: "py_error \<Rightarrow> 'a boot_run" where
  "raiseB e s = (s, Inl (Failure e))"

definition liftB :: "'a res \<Rightarrow> 'a boot_run" where
  "liftB r s = (s, case r of Inl e \<Rightarrow> Inl (Failure e) | Inr x \<Rightarrow> Inr x)"

text \<open>A call that cannot fail, a call that may, and one whose cancellation is suppressed.\<close>

definition mark :: "boot_call \<Rightarrow> unit boot_run" where
  "mark c s = (s\<lparr>bo_trace := bo_trace s @ [c]\<rparr>, Inr ())"

definition call :: "boot_env \<Rightarrow> boot_call \<Rightarrow> unit boot_run" where
  "call E c s =
     (s\<lparr>bo_trace := bo_trace s @ [c]\<rparr>,
      case be_ends E (length (bo_trace s)) of None \<Rightarrow> Inr () | Some x \<Rightarrow> Inl x)"

definition call_suppressed :: "boot_env \<Rightarrow> boot_call \<Rightarrow> unit boot_run" where
  "call_suppressed E c s =
     (case call E c s of (t, Inl Cancelled) \<Rightarrow> (t, Inr ()) | r \<Rightarrow> r)"

definition change :: "(boot \<Rightarrow> boot) \<Rightarrow> unit boot_run" where
  "change f s = (f s, Inr ())"

abbreviation andThen :: "'a boot_run \<Rightarrow> 'b boot_run \<Rightarrow> 'b boot_run" where
  "andThen m k \<equiv> bindS m (\<lambda>_. k)"

section \<open>Helpers\<close>

text \<open>A block in the configuration wins; otherwise the block after the persisted checkpoint.\<close>

definition resolve_backfill_start_block :: "int option \<Rightarrow> pyval option \<Rightarrow> int res" where
  "resolve_backfill_start_block configured persisted =
     (case configured of
        Some b \<Rightarrow> Inr b
      | None \<Rightarrow>
          (case persisted of
             None \<Rightarrow> Inr 0
           | Some v \<Rightarrow> if v = VNone then Inr 0
               else bindR (normalize_block_number v) (\<lambda>checkpoint.
                 Inr (if 0 < checkpoint then checkpoint + 1 else 0))))"

definition update_persistence :: "boot_env \<Rightarrow> unit boot_run" where
  "update_persistence E = andThen (call E UpdatePersistence) (change (\<lambda>s. s\<lparr>bo_saved := bo_data s\<rparr>))"

definition flush_persistence :: "boot_env \<Rightarrow> unit boot_run" where
  "flush_persistence E = andThen (call E FlushPersistence) (change (\<lambda>s. s\<lparr>bo_file := bo_saved s\<rparr>))"

definition bind_persistence_runtime :: "boot_env \<Rightarrow> identity \<Rightarrow> unit boot_run" where
  "bind_persistence_runtime E i s =
     (case bind_identity i (bo_data s) of
        Inl e \<Rightarrow> (s, Inl (Failure e))
      | Inr (d, bound) \<Rightarrow>
          if \<not> bound then (s\<lparr>bo_data := d\<rparr>, Inr ())
          else andThen (update_persistence E) (flush_persistence E) (s\<lparr>bo_data := d\<rparr>))"

text \<open>The supervisor's \<open>establish_initial_checkpoint\<close> on the bot data.\<close>

definition persist_initial_checkpoint :: "boot_env \<Rightarrow> unit boot_run" where
  "persist_initial_checkpoint E =
     andThen (call E AskHead)
     (andThen (change (\<lambda>s. s\<lparr>bo_data := AList.update ''block'' (VInt (max (be_head E - 1) 0)) (bo_data s)\<rparr>))
     (andThen (update_persistence E) (flush_persistence E)))"

definition wait_for_subscription_start :: "boot_env \<Rightarrow> unit boot_run" where
  "wait_for_subscription_start E =
     andThen (call E WaitSubscribed)
       (case be_start E of
          Subscribed \<Rightarrow> okB ()
        | SupervisorEnded None \<Rightarrow> raiseB RuntimeError
        | SupervisorEnded (Some x) \<Rightarrow> (\<lambda>s. (s, Inl x)))"

text \<open>
  \<open>ensure_state_containers\<close>: the constructors of the parts of \<open>BotStorage\<close> one after the other, each
  writing its normalised value back.
\<close>

definition put_all :: "(string \<times> pyval) list \<Rightarrow> raw_data \<Rightarrow> raw_data" where
  "put_all kvs d = fold (\<lambda>(k, v). AList.update k v) kvs d"

definition ensure_state_containers :: "codec \<Rightarrow> iso_text \<Rightarrow> raw_data \<Rightarrow> raw_data \<times> unit res" where
  "ensure_state_containers C I d =
     (case block_state d of
        Inl e \<Rightarrow> (d, Inl e)
      | Inr b \<Rightarrow>
          (let d1 = put_all [(''block'', VInt b),
                (''user_ids'', int_set_val (chat_id_set d ''user_ids'')),
                (''group_ids'', int_set_val (chat_id_set d ''group_ids'')),
                (''channel_ids'', int_set_val (chat_id_set d ''channel_ids'')),
                (''no_ids_to_chats'', index_val (node_operator_chats C d))] d in
           case normalise_digests C (raw_get d ''digests'') of
             Inl e \<Rightarrow> (d1, Inl e)
           | Inr ds \<Rightarrow>
               (let d2 = put_all [(''digests'', digests_val ds)] d1 in
                case normalise_windows C (raw_get d ''aggregation_windows'') of
                  Inl e \<Rightarrow> (d2, Inl e)
                | Inr ws \<Rightarrow>
                    (let d3 = put_all [(''aggregation_windows'', VDict (map (\<lambda>(k, v). (VStr k, v)) ws))] d2 in
                     case normalise_jobs C I (raw_get d ''scheduled_jobs'') of
                       Inl e \<Rightarrow> (d3, Inl e)
                     | Inr js \<Rightarrow>
                         (put_all [(''scheduled_jobs'',
                             VDict (map (\<lambda>(k, s). (VStr k, VDict [(VStr ''completed_for'', VStr s)])) js))] d3,
                          Inr ())))))"

definition on_data :: "(raw_data \<Rightarrow> raw_data \<times> 'a res) \<Rightarrow> 'a boot_run" where
  "on_data f s =
     (case f (bo_data s) of
        (d, Inl e) \<Rightarrow> (s\<lparr>bo_data := d\<rparr>, Inl (Failure e))
      | (d, Inr x) \<Rightarrow> (s\<lparr>bo_data := d\<rparr>, Inr x))"

section \<open>The run\<close>

text \<open>\<open>try: await warm_up() except Exception\<close>: a failure is reported and the startup goes on.\<close>

definition guarded_warm_up :: "boot_env \<Rightarrow> unit boot_run" where
  "guarded_warm_up E s =
     (case call E WarmUp s of
        (t, Inl Cancelled) \<Rightarrow> (t, Inl Cancelled)
      | (t, Inl (Failure e)) \<Rightarrow> mark (Report (WarmupFailed (fst (be_text E e)) (snd (be_text E e)))) t
      | (t, Inr _) \<Rightarrow> mark (Report WarmupComplete) t)"

text \<open>What a run needs of the configuration, and the parameters of the storage.\<close>

record boot_setup =
  bu_identity :: identity
  bu_block_from :: "int option"
  bu_admins :: "int set"
  bu_codec :: codec
  bu_iso :: iso_text

definition prepare_state :: "boot_env \<Rightarrow> boot_setup \<Rightarrow> pyval option boot_run" where
  "prepare_state E U =
     andThen (bind_persistence_runtime E (bu_identity U))
     (andThen (on_data (migrate_legacy_storage (bu_codec U)))
     (bindS (\<lambda>s. (s, Inr (map_of (bo_data s) ''block''))) (\<lambda>persisted.
      andThen (on_data (ensure_state_containers (bu_codec U) (bu_iso U))) (okB persisted))))"

definition start_polling :: "boot_env \<Rightarrow> unit boot_run" where
  "start_polling E =
     andThen (call E StartPolling)
     (andThen (change (\<lambda>s. s\<lparr>bo_polling := True\<rparr>)) (mark (Report PollingStarted)))"

definition start_subscription :: "boot_env \<Rightarrow> unit boot_run" where
  "start_subscription E =
     andThen (mark SetupSignals)
     (andThen (mark SpawnSubscription)
     (andThen (change (\<lambda>s. s\<lparr>bo_task := True\<rparr>)) (wait_for_subscription_start E)))"

definition catch_up :: "boot_env \<Rightarrow> int \<Rightarrow> unit boot_run" where
  "catch_up E block_from =
     andThen (if block_from = 0 then persist_initial_checkpoint E else okB ())
     (andThen (mark (Report StartupComplete))
     (if block_from = 0 then okB ()
      else andThen (mark (Report CatchupStarted))
           (andThen (call E (CatchUp block_from)) (mark (Report CatchupComplete)))))"

definition run_body :: "boot_env \<Rightarrow> boot_setup \<Rightarrow> unit boot_run" where
  "run_body E U =
     bindS (prepare_state E U) (\<lambda>persisted.
     andThen (mark (Report WarmupStarted))
     (andThen (guarded_warm_up E)
     (andThen (change (\<lambda>s. s\<lparr>bo_data := AList.update ''admin_ids'' (int_set_val (bu_admins U)) (bo_data s)\<rparr>))
     (bindS (liftB (resolve_backfill_start_block (bu_block_from U) persisted)) (\<lambda>block_from.
     andThen (start_polling E)
     (andThen (start_subscription E)
     (andThen (catch_up E block_from)
     (andThen (call E ScheduleJobs) (call E AwaitSubscription)))))))))"

text \<open>The \<open>finally\<close> block; an error in it leaves the rest of it out.\<close>

definition shut_down :: "boot_env \<Rightarrow> unit boot_run" where
  "shut_down E =
     andThen (mark (Report ShutdownRequested))
     (andThen (mark RequestShutdown)
     (andThen (\<lambda>s. if bo_task s \<and> \<not> be_task_done E then call_suppressed E CancelSubscription s else okB () s)
     (andThen (call_suppressed E CancelHeartbeat)
     (andThen (call E CloseSupervisor)
     (andThen (\<lambda>s. if bo_polling s then call E StopPolling s else okB () s)
     (andThen (call E StopApplication)
     (andThen (call E CloseChain)
     (andThen (call E ShutdownApplication) (mark StopHealthServer)))))))))"

definition handle_exit :: "boot_env \<Rightarrow> boot \<times> (boot_exc + unit) \<Rightarrow> boot \<times> (boot_exc + unit)" where
  "handle_exit E r =
     (case r of
        (s, Inl Cancelled) \<Rightarrow> (s, Inr ())
      | (s, Inl (Failure e)) \<Rightarrow>
          (fst (mark (Report (FatalError (fst (be_text E e)) (snd (be_text E e)))) s), Inl (Failure e))
      | (s, Inr _) \<Rightarrow> (s, Inr ()))"

definition run_guarded :: "boot_env \<Rightarrow> boot_setup \<Rightarrow> unit boot_run" where
  "run_guarded E U s =
     (case handle_exit E (run_body E U s) of
        (s1, r) \<Rightarrow> (case shut_down E s1 of (s2, Inl x) \<Rightarrow> (s2, Inl x) | (s2, Inr _) \<Rightarrow> (s2, r)))"

definition run :: "boot_env \<Rightarrow> boot_setup \<Rightarrow> unit boot_run" where
  "run E U =
     andThen (call E Initialize)
     (andThen (call E StartApplication)
     (andThen (mark AddErrorHandler) (run_guarded E U)))"

section \<open>Creating the runtime\<close>

text \<open>
  What the environment and the chain answer: the variables, the chain id the endpoint pool agreed
  on and the discovered addresses.
\<close>

record creation =
  cr_conversions :: conversions
  cr_variables :: env_vars
  cr_chain_id :: "int option"
  cr_addresses :: addresses

definition create_in_try :: "boot_env \<Rightarrow> creation \<Rightarrow> env_config \<Rightarrow> (config \<times> identity) boot_run" where
  "create_in_try E R c =
     andThen (call E ValidateEndpoints)
     (bindS (case cr_chain_id R of None \<Rightarrow> raiseB RuntimeError | Some i \<Rightarrow> okB i) (\<lambda>chain_id.
      andThen (call E DiscoverContracts)
      (let cfg = resolve c (cr_addresses R) in
       andThen (mark SetConfig)
       (andThen (case cf_token cfg of None \<Rightarrow> raiseB RuntimeError | Some t \<Rightarrow> okB ())
       (andThen (call E CreateStoragePath)
       (andThen (call E BuildApplication)
       (bindS (liftB (build_module_adapter_from_config cfg)) (\<lambda>adapter.
        andThen (call E BuildSupervisor)
        (bindS (liftB (mk_identity (VInt chain_id) (ca_module (cr_addresses R)) (ca_type (cr_addresses R))))
           (\<lambda>i. okB (cfg, i)))))))))))"

text \<open>
  \<open>except BaseException\<close>: the failure is reported, the health server and the heartbeat are stopped,
  the providers are disconnected, and the failure is raised again. No subscription provider exists
  yet.
\<close>

definition clean_up_creation :: "boot_env \<Rightarrow> boot_exc \<Rightarrow> 'a boot_run" where
  "clean_up_creation E x =
     andThen (mark (Report (case x of Cancelled \<Rightarrow> FatalError [] ''CancelledError''
                | Failure e \<Rightarrow> FatalError (fst (be_text E e)) (snd (be_text E e)))))
     (andThen (mark StopHealthServer)
     (andThen (call_suppressed E CancelHeartbeat)
     (andThen (\<lambda>s. case call E DisconnectReads s of (t, Inl Cancelled) \<Rightarrow> (t, Inl Cancelled) | (t, _) \<Rightarrow> (t, Inr ()))
     (andThen (\<lambda>s. case call E DisconnectBackfill s of (t, Inl Cancelled) \<Rightarrow> (t, Inl Cancelled) | (t, _) \<Rightarrow> (t, Inr ()))
       (\<lambda>s. (s, Inl x))))))"

definition create_runtime :: "boot_env \<Rightarrow> creation \<Rightarrow> (config \<times> identity) boot_run" where
  "create_runtime E R =
     andThen (call E LoadEnvironment)
     (bindS (liftB (load_config_from_env (cr_conversions R) (cr_variables R))) (\<lambda>c.
      andThen (call E StartHealthServer)
      (andThen (mark StartHeartbeat)
      (bindS (liftB (mk_pool (cf_providers c) None 30)) (\<lambda>pool.
       (\<lambda>s. case create_in_try E R c s of
              (t, Inl x) \<Rightarrow> clean_up_creation E x t
            | r \<Rightarrow> r))))))"

section \<open>Traces\<close>

text \<open>
  What a part of the program appends to the trace is a prefix of one of the words of a language, and
  the whole word when it succeeds.
\<close>

definition follows :: "'a boot_run \<Rightarrow> boot_call list set \<Rightarrow> bool" where
  "follows m L \<longleftrightarrow> (\<forall>s. \<exists>w \<in> L. \<exists>done. bo_trace (fst (m s)) = bo_trace s @ done \<and> prefix done w \<and>
     ((\<exists>x. snd (m s) = Inr x) \<longrightarrow> done = w))"

definition words :: "boot_call list set \<Rightarrow> boot_call list set \<Rightarrow> boot_call list set" where
  "words L M = {u @ v | u v. u \<in> L \<and> v \<in> M}"

named_theorems follows_intros \<open>traces of the parts of the startup\<close>

lemma followsI:
  assumes "\<And>s. \<exists>done. bo_trace (fst (m s)) = bo_trace s @ done \<and> prefix done w \<and>
     ((\<exists>x. snd (m s) = Inr x) \<longrightarrow> done = w)" "w \<in> L"
  shows "follows m L"
  using assms unfolding follows_def by blast

lemma follows_ok [follows_intros]: "follows (okB x) {[]}"
  by (rule followsI [where w = "[]"]) (simp_all add: okB_def)

lemma follows_mark [follows_intros]: "follows (mark c) {[c]}"
  by (rule followsI [where w = "[c]"]) (simp_all add: mark_def)

lemma follows_call [follows_intros]: "follows (call E c) {[c]}"
  by (rule followsI [where w = "[c]"]) (simp_all add: call_def)

lemma follows_suppressed [follows_intros]: "follows (call_suppressed E c) {[c]}"
  by (rule followsI [where w = "[c]"])
    (auto simp: call_suppressed_def call_def split: option.splits boot_exc.splits sum.splits)

lemma follows_change [follows_intros]:
  "(\<And>s. bo_trace (f s) = bo_trace s) \<Longrightarrow> follows (change f) {[]}"
  by (rule followsI [where w = "[]"]) (simp_all add: change_def)

lemma follows_on_data [follows_intros]: "follows (on_data f) {[]}"
  by (rule followsI [where w = "[]"]) (auto simp: on_data_def split: prod.splits sum.splits)

lemma follows_bind [follows_intros]:
  assumes m: "follows m L" and f: "\<And>x. follows (f x) M"
  shows "follows (bindS m f) (words L M)"
  unfolding follows_def
proof
  fix s
  obtain s1 r where s1: "m s = (s1, r)" by force
  with m [unfolded follows_def, rule_format, of s] obtain u d where
    u: "u \<in> L" "bo_trace s1 = bo_trace s @ d" "prefix d u" "(\<exists>x. r = Inr x) \<longrightarrow> d = u" by auto
  show "\<exists>w \<in> words L M. \<exists>done. bo_trace (fst (bindS m f s)) = bo_trace s @ done \<and> prefix done w \<and>
     ((\<exists>x. snd (bindS m f s) = Inr x) \<longrightarrow> done = w)"
  proof (cases r)
    case (Inl e)
    from f [unfolded follows_def] obtain v where "v \<in> M" by blast
    with u s1 Inl show ?thesis
      by (intro bexI [of _ "u @ v"] exI [of _ d]) (auto simp: bindS_def words_def prefix_def)
  next
    case (Inr x)
    from f [unfolded follows_def, rule_format, of x s1] obtain v d' where
      v: "v \<in> M" "bo_trace (fst (f x s1)) = bo_trace s1 @ d'" "prefix d' v"
      "(\<exists>y. snd (f x s1) = Inr y) \<longrightarrow> d' = v" by blast
    with u s1 Inr show ?thesis
      by (intro bexI [of _ "u @ v"] exI [of _ "d @ d'"]) (auto simp: bindS_def words_def)
  qed
qed

lemma follows_mono: "follows m L \<Longrightarrow> L \<subseteq> M \<Longrightarrow> follows m M"
  unfolding follows_def by blast

lemma words_single [simp]: "words {u} {v} = {u @ v}"
  by (auto simp: words_def)

lemma follows_raise: "w \<in> L \<Longrightarrow> follows (\<lambda>s. (s, Inl e)) L"
  by (rule followsI [where w = w]) auto

lemma follows_lift:
  assumes "L \<noteq> {}" "\<And>x. r = Inr x \<Longrightarrow> follows (f x) L"
  shows "follows (bindS (liftB r) f) L"
proof (cases r)
  case (Inl e)
  moreover obtain w where "w \<in> L" using assms(1) by blast
  moreover have "bindS (liftB (Inl e)) f = (\<lambda>s. (s, Inl (Failure e)))"
    by (rule ext) (simp add: bindS_def liftB_def)
  ultimately show ?thesis using follows_raise [of w L "Failure e"] by simp
next
  case (Inr x)
  moreover have "bindS (liftB (Inr x)) f = f x"
    by (rule ext) (simp add: bindS_def liftB_def)
  ultimately show ?thesis using assms(2) by simp
qed

section \<open>The order of the startup\<close>

text \<open>
  The calls of a startup on the bot data \<open>d\<close>, from the first one after the handlers are set to the
  end of the subscription: data without an identity is bound and written first, and the first block
  is the configured one or the one after the checkpoint in \<open>d\<close>. When the persisted checkpoint cannot
  be read, the startup ends after the warm-up.
\<close>

definition first_block :: "boot_setup \<Rightarrow> raw_data \<Rightarrow> int res" where
  "first_block U d = resolve_backfill_start_block (bu_block_from U) (map_of d ''block'')"

definition catch_up_word :: "int \<Rightarrow> boot_call list" where
  "catch_up_word b =
     (if b = 0 then [AskHead, UpdatePersistence, FlushPersistence, Report StartupComplete]
      else [Report StartupComplete, Report CatchupStarted, CatchUp b, Report CatchupComplete])"

definition binding_word :: "raw_data \<Rightarrow> boot_call list" where
  "binding_word d =
     (if map_of d ''runtime_identity'' = None then [UpdatePersistence, FlushPersistence] else [])"

definition startup_word :: "boot_setup \<Rightarrow> raw_data \<Rightarrow> health_op \<Rightarrow> boot_call list" where
  "startup_word U d warm =
     binding_word d @ [Report WarmupStarted, WarmUp, Report warm] @
     (case first_block U d of
        Inl _ \<Rightarrow> []
      | Inr b \<Rightarrow>
          [StartPolling, Report PollingStarted, SetupSignals, SpawnSubscription, WaitSubscribed] @
          catch_up_word b @ [ScheduleJobs, AwaitSubscription])"

definition warm_results :: "health_op set" where
  "warm_results = {w. w = WarmupComplete \<or> (\<exists>m c. w = WarmupFailed m c)}"

lemma follows_persistence [follows_intros]:
  "follows (andThen (update_persistence E) (flush_persistence E)) {[UpdatePersistence, FlushPersistence]}"
proof -
  have "follows (andThen (update_persistence E) (flush_persistence E))
      (words (words {[UpdatePersistence]} {[]}) (words {[FlushPersistence]} {[]}))"
    unfolding update_persistence_def flush_persistence_def by (intro follows_intros) simp_all
  then show ?thesis by simp
qed

lemma follows_warm_up:
  "follows (guarded_warm_up E) {[WarmUp, Report w] | w. w \<in> warm_results}"
proof -
  have "\<exists>w. (w = WarmupComplete \<or> (\<exists>m c. w = WarmupFailed m c)) \<and>
     (\<exists>done. bo_trace (fst (guarded_warm_up E s)) = bo_trace s @ done \<and> prefix done [WarmUp, Report w] \<and>
       ((\<exists>x. snd (guarded_warm_up E s) = Inr x) \<longrightarrow> done = [WarmUp, Report w]))" for s
    by (auto simp: guarded_warm_up_def call_def mark_def split: option.splits boot_exc.splits)
  then show ?thesis unfolding follows_def warm_results_def by blast
qed

lemma wordsE: "w \<in> words L M \<Longrightarrow> (\<And>u v. u \<in> L \<Longrightarrow> v \<in> M \<Longrightarrow> w = u @ v \<Longrightarrow> thesis) \<Longrightarrow> thesis"
  by (auto simp: words_def)

lemma words_Nil [simp]: "words {[]} L = L" "words L {[]} = L"
  by (auto simp: words_def)

lemma follows_start_polling: "follows (start_polling E) {[StartPolling, Report PollingStarted]}"
proof -
  have "follows (start_polling E) (words {[StartPolling]} (words {[]} {[Report PollingStarted]}))"
    unfolding start_polling_def by (intro follows_intros) simp_all
  then show ?thesis by simp
qed

lemma follows_start_subscription:
  "follows (start_subscription E) {[SetupSignals, SpawnSubscription, WaitSubscribed]}"
proof -
  have "follows (case be_start E of Subscribed \<Rightarrow> okB () | SupervisorEnded None \<Rightarrow> raiseB RuntimeError
      | SupervisorEnded (Some x) \<Rightarrow> (\<lambda>s. (s, Inl x))) {[]}"
    using follows_ok follows_raise [of "[]" "{[]}"]
    by (auto simp: raiseB_def [abs_def] split: first_done.splits option.splits)
  then have "follows (start_subscription E)
      (words {[SetupSignals]} (words {[SpawnSubscription]} (words {[]} (words {[WaitSubscribed]} {[]}))))"
    unfolding start_subscription_def wait_for_subscription_start_def
    by (intro follows_bind follows_mark follows_call follows_change) simp_all
  then show ?thesis by simp
qed

lemma follows_catch_up:
  "follows (catch_up E b) {catch_up_word b}"
proof (cases "b = 0")
  case True
  have "follows (persist_initial_checkpoint E)
      (words {[AskHead]} (words {[]} {[UpdatePersistence, FlushPersistence]}))"
    unfolding persist_initial_checkpoint_def by (intro follows_intros) simp_all
  then have "follows (catch_up E b)
      (words {[AskHead, UpdatePersistence, FlushPersistence]} (words {[Report StartupComplete]} {[]}))"
    unfolding catch_up_def using True by (intro follows_bind follows_mark) (simp_all add: follows_ok)
  with True show ?thesis by (simp add: catch_up_word_def)
next
  case False
  have "follows (catch_up E b)
      (words {[]} (words {[Report StartupComplete]}
        (words {[Report CatchupStarted]} (words {[CatchUp b]} {[Report CatchupComplete]}))))"
    unfolding catch_up_def if_not_P [OF False] by (intro follows_intros)
  with False show ?thesis by (simp add: catch_up_word_def)
qed

text \<open>The run after the state is prepared.\<close>

definition after_state :: "boot_env \<Rightarrow> boot_setup \<Rightarrow> pyval option \<Rightarrow> unit boot_run" where
  "after_state E U persisted =
     andThen (mark (Report WarmupStarted))
     (andThen (guarded_warm_up E)
     (andThen (change (\<lambda>s. s\<lparr>bo_data := AList.update ''admin_ids'' (int_set_val (bu_admins U)) (bo_data s)\<rparr>))
     (bindS (liftB (resolve_backfill_start_block (bu_block_from U) persisted)) (\<lambda>block_from.
     andThen (start_polling E)
     (andThen (start_subscription E)
     (andThen (catch_up E block_from)
     (andThen (call E ScheduleJobs) (call E AwaitSubscription))))))))"

lemma run_body_after: "run_body E U = bindS (prepare_state E U) (after_state E U)"
  by (simp add: run_body_def after_state_def [abs_def])

lemma follows_after_state:
  "follows (after_state E U (map_of d ''block''))
     {w. \<exists>warm \<in> warm_results. startup_word U d warm = binding_word d @ w}"
proof -
  let ?r = "resolve_backfill_start_block (bu_block_from U) (map_of d ''block'')"
  let ?R = "\<lambda>b. [StartPolling, Report PollingStarted] @ [SetupSignals, SpawnSubscription, WaitSubscribed] @
      catch_up_word b @ [ScheduleJobs] @ [AwaitSubscription]"
  let ?L = "{case ?r of Inl _ \<Rightarrow> [] | Inr b \<Rightarrow> ?R b}"
  let ?W = "{[WarmUp, Report w] | w. w \<in> warm_results}"
  have tail: "follows (andThen (start_polling E) (andThen (start_subscription E) (andThen (catch_up E b)
      (andThen (call E ScheduleJobs) (call E AwaitSubscription))))) {?R b}" for b
    unfolding words_single [symmetric]
    by (intro follows_bind follows_start_polling follows_start_subscription follows_catch_up follows_call)
  have "follows (bindS (liftB ?r) (\<lambda>b. andThen (start_polling E) (andThen (start_subscription E)
      (andThen (catch_up E b) (andThen (call E ScheduleJobs) (call E AwaitSubscription)))))) ?L"
    using tail by (intro follows_lift) simp_all
  then have "follows (after_state E U (map_of d ''block''))
      (words {[Report WarmupStarted]} (words ?W (words {[]} ?L)))"
    unfolding after_state_def by (intro follows_bind follows_mark follows_warm_up follows_change) simp_all
  moreover have "words {[Report WarmupStarted]} (words ?W (words {[]} ?L)) \<subseteq>
      {w. \<exists>warm \<in> warm_results. startup_word U d warm = binding_word d @ w}"
    by (auto simp: words_def startup_word_def first_block_def split: sum.splits)
  ultimately show ?thesis by (rule follows_mono)
qed

text \<open>What the parts of the startup keep.\<close>

definition preserves :: "(boot \<Rightarrow> bool) \<Rightarrow> 'a boot_run \<Rightarrow> bool" where
  "preserves P m \<longleftrightarrow> (\<forall>s. P s \<longrightarrow> P (fst (m s)))"

lemma preserves_bind: "preserves P m \<Longrightarrow> (\<And>x. preserves P (f x)) \<Longrightarrow> preserves P (bindS m f)"
  unfolding preserves_def bindS_def by (auto split: prod.splits sum.splits)

lemma preserves_pure: "preserves P (okB x)" "preserves P (raiseB e)" "preserves P (liftB r)" "preserves P (\<lambda>s. (s, q s))"
  by (simp_all add: preserves_def okB_def raiseB_def liftB_def)

lemma preserves_change: "(\<And>s. P s \<Longrightarrow> P (f s)) \<Longrightarrow> preserves P (change f)"
  by (simp add: preserves_def change_def)

lemma preserves_call:
  assumes "\<And>s. P s \<Longrightarrow> P (s\<lparr>bo_trace := bo_trace s @ [c]\<rparr>)"
  shows "preserves P (call E c)" "preserves P (mark c)"
  using assms by (simp_all add: preserves_def call_def mark_def)

lemma preserves_warm_up:
  assumes "\<And>s x. P s \<Longrightarrow> x = WarmUp \<or> (\<exists>w. x = Report w \<and> w \<noteq> StartupComplete) \<Longrightarrow>
    P (s\<lparr>bo_trace := bo_trace s @ [x]\<rparr>)"
  shows "preserves P (guarded_warm_up E)"
proof -
  have "P (s\<lparr>bo_trace := bo_trace s @ [WarmUp, Report w]\<rparr>)" if "P s" "w \<noteq> StartupComplete" for s w
    using assms [OF assms [OF that(1), of WarmUp], of "Report w"] that(2) by simp
  moreover have "P (s\<lparr>bo_trace := bo_trace s @ [WarmUp]\<rparr>)" if "P s" for s
    using assms [OF that, of WarmUp] by simp
  ultimately show ?thesis
    by (auto simp: preserves_def guarded_warm_up_def call_def mark_def split: option.splits boot_exc.splits)
qed

text \<open>The identity in the data, in the copy of the persistence object and on disk.\<close>

definition identity_everywhere :: "pyval \<Rightarrow> boot \<Rightarrow> bool" where
  "identity_everywhere v s \<longleftrightarrow> map_of (bo_data s) ''runtime_identity'' = Some v \<and>
     map_of (bo_saved s) ''runtime_identity'' = Some v \<and> map_of (bo_file s) ''runtime_identity'' = Some v"

text \<open>From the call number \<open>n\<close> on, the startup is not complete before \<open>v\<close> is on disk as the block.\<close>

definition block_before_complete :: "nat \<Rightarrow> pyval \<Rightarrow> boot \<Rightarrow> bool" where
  "block_before_complete n v s \<longleftrightarrow> n \<le> length (bo_trace s) \<and>
     (Report StartupComplete \<in> set (drop n (bo_trace s)) \<longrightarrow> map_of (bo_file s) ''block'' = Some v)"

lemma identity_kept: "preserves (identity_everywhere v) (after_state E U p)"
proof -
  have c: "preserves (identity_everywhere v) (call E c)" "preserves (identity_everywhere v) (mark c)" for c
    by (intro preserves_call, simp add: identity_everywhere_def)+
  have "preserves (identity_everywhere v) (guarded_warm_up E)"
    by (intro preserves_warm_up) (simp add: identity_everywhere_def)
  moreover have "preserves (identity_everywhere v) (update_persistence E)"
    "preserves (identity_everywhere v) (flush_persistence E)"
    unfolding update_persistence_def flush_persistence_def
    by (intro preserves_bind c preserves_change, simp add: identity_everywhere_def)+
  moreover from this have "preserves (identity_everywhere v) (catch_up E b)" for b
    unfolding catch_up_def persist_initial_checkpoint_def
    by (auto intro!: preserves_bind c preserves_pure preserves_change simp: identity_everywhere_def update_conv')
  moreover have "preserves (identity_everywhere v) (start_polling E)"
    unfolding start_polling_def
    by (intro preserves_bind c preserves_change) (simp add: identity_everywhere_def)
  moreover have "preserves (identity_everywhere v) (start_subscription E)"
    unfolding start_subscription_def wait_for_subscription_start_def
    by (auto intro!: preserves_bind c preserves_pure preserves_change simp: identity_everywhere_def
        split: first_done.splits option.splits)
  ultimately show ?thesis
    unfolding after_state_def
    by (intro preserves_bind c preserves_pure preserves_change) (simp_all add: identity_everywhere_def update_conv')
qed

lemma catch_up_block:
  "preserves (block_before_complete n (VInt (max (be_head E - 1) 0))) (catch_up E 0)"
  by (auto simp: preserves_def block_before_complete_def catch_up_def persist_initial_checkpoint_def
      update_persistence_def flush_persistence_def bindS_def call_def change_def mark_def okB_def
      update_conv' split: option.splits)

lemma block_kept:
  assumes "resolve_backfill_start_block (bu_block_from U) p = Inr 0"
  shows "preserves (block_before_complete n (VInt (max (be_head E - 1) 0))) (after_state E U p)"
proof -
  let ?P = "block_before_complete n (VInt (max (be_head E - 1) 0))"
  have c: "preserves ?P (call E c)" "preserves ?P (mark c)" if "c \<noteq> Report StartupComplete" for c
    by (intro preserves_call, use that in \<open>simp add: block_before_complete_def\<close>)+
  have "preserves ?P (guarded_warm_up E)"
    by (intro preserves_warm_up) (auto simp: block_before_complete_def)
  moreover have "preserves ?P (start_polling E)"
    unfolding start_polling_def
    by (intro preserves_bind c preserves_change) (simp_all add: block_before_complete_def)
  moreover have "preserves ?P (start_subscription E)"
    unfolding start_subscription_def wait_for_subscription_start_def
    by (auto intro!: preserves_bind c preserves_pure preserves_change simp: block_before_complete_def
        split: first_done.splits option.splits)
  moreover have "bindS (liftB (Inr 0)) f = f 0" for f :: "int \<Rightarrow> unit boot_run"
    by (rule ext) (simp add: bindS_def liftB_def)
  ultimately show ?thesis
    unfolding after_state_def assms
    by (auto intro!: preserves_bind c preserves_pure preserves_change catch_up_block simp: block_before_complete_def)
qed

text \<open>Preparing the state writes the identity first and touches neither it nor the block later.\<close>

lemma migrate_keeps:
  assumes "k \<noteq> ''digest_events''" "k \<noteq> ''digests''" "k \<noteq> ''aggregation_windows''"
  shows "map_of (fst (migrate_legacy_storage C d)) k = map_of d k"
proof -
  have "map_of (fst (pop_group_events C d g)) k = map_of d k" for d g
    using assms by (auto simp: pop_group_events_def update_conv' split: option.splits pyval.splits prod.splits)
  then have "pop_group_events C d g = (d', r) \<Longrightarrow> map_of d' k = map_of d k" for d g d' r
    by (metis fst_conv)
  then show ?thesis
    using assms
    by (auto simp: migrate_legacy_storage_def Let_def update_conv' delete_conv' split: sum.splits prod.splits)
qed

lemma containers_keep_identity:
  "map_of (fst (ensure_state_containers C I d)) ''runtime_identity'' = map_of d ''runtime_identity''"
  by (auto simp: ensure_state_containers_def put_all_def Let_def update_conv' split: sum.splits)

lemma prepare_state_cases:
  assumes "prepare_state E U s = (t, r)"
  shows "\<exists>d. bo_trace t = bo_trace s @ d \<and> prefix d (binding_word (bo_data s)) \<and>
    (\<forall>p. r = Inr p \<longrightarrow> d = binding_word (bo_data s) \<and> p = map_of (bo_data s) ''block'' \<and>
       (map_of (bo_data s) ''runtime_identity'' = None \<longrightarrow>
          identity_everywhere (identity_to_dict (bu_identity U)) t))"
proof -
  obtain u q where u: "bind_persistence_runtime E (bu_identity U) s = (u, q)" by force
  from u have b: "\<exists>d. bo_trace u = bo_trace s @ d \<and> prefix d (binding_word (bo_data s)) \<and>
    (q = Inr () \<longrightarrow> d = binding_word (bo_data s) \<and> map_of (bo_data u) ''block'' = map_of (bo_data s) ''block'' \<and>
       (map_of (bo_data s) ''runtime_identity'' = None \<longrightarrow>
          identity_everywhere (identity_to_dict (bu_identity U)) u))"
    by (auto simp: bind_persistence_runtime_def bind_identity_def binding_word_def identity_everywhere_def
        update_persistence_def flush_persistence_def bindS_def call_def change_def update_conv'
        split: option.splits sum.splits if_splits)
  show ?thesis
  proof (cases q)
    case (Inl e)
    with assms u b show ?thesis by (auto simp: prepare_state_def bindS_def)
  next
    case (Inr x)
    obtain d1 q1 where m: "migrate_legacy_storage (bu_codec U) (bo_data u) = (d1, q1)" by force
    obtain d2 q2 where e: "ensure_state_containers (bu_codec U) (bu_iso U) d1 = (d2, q2)" by force
    from m migrate_keeps [of _ "bu_codec U" "bo_data u"]
    have k: "map_of d1 ''block'' = map_of (bo_data u) ''block''"
      "map_of d1 ''runtime_identity'' = map_of (bo_data u) ''runtime_identity''" by auto
    from e containers_keep_identity [of "bu_codec U" "bu_iso U" d1]
    have k2: "map_of d2 ''runtime_identity'' = map_of d1 ''runtime_identity''" by simp
    from assms u Inr m e
    have "t = u\<lparr>bo_data := d1\<rparr> \<and> (\<exists>x. r = Inl x) \<or>
        t = u\<lparr>bo_data := d2\<rparr> \<and> (\<forall>p. r = Inr p \<longrightarrow> p = map_of d1 ''block'')"
      by (auto simp: prepare_state_def bindS_def on_data_def okB_def split: sum.splits)
    with b Inr k k2 show ?thesis by (auto simp: identity_everywhere_def)
  qed
qed

text \<open>C26: a startup makes its calls in one order, up to the call that fails, and the order is fixed by
  the data it starts on. Data without an identity is first bound to this runtime and written out;
  data that has one is not written again. Then the adapter is warmed up (a failure does not end the
  startup), polling starts, the live subscription is running before the catch-up, which begins at
  the configured block or right after the checkpoint in the data, and jobs are scheduled last. Once
  the warm-up has started, fresh data is on disk with the identity; with nothing to catch up from
  the startup is reported complete only after an initial checkpoint, the block before the head, is
  on disk.\<close>

theorem startup_order:
  assumes "run_body E U s = (t, r)"
  shows "\<exists>done warm. bo_trace t = bo_trace s @ done \<and>
    (warm = WarmupComplete \<or> (\<exists>m c. warm = WarmupFailed m c)) \<and>
    prefix done (startup_word U (bo_data s) warm) \<and>
    (r = Inr () \<longrightarrow> done = startup_word U (bo_data s) warm \<and> (\<exists>b. first_block U (bo_data s) = Inr b)) \<and>
    (Report WarmupStarted \<in> set done \<longrightarrow> map_of (bo_data s) ''runtime_identity'' = None \<longrightarrow>
       map_of (bo_file t) ''runtime_identity'' = Some (identity_to_dict (bu_identity U))) \<and>
    (Report StartupComplete \<in> set done \<longrightarrow> first_block U (bo_data s) = Inr 0 \<longrightarrow>
       map_of (bo_file t) ''block'' = Some (VInt (max (be_head E - 1) 0)))"
proof -
  let ?bw = "binding_word (bo_data s)" and ?v = "VInt (max (be_head E - 1) 0)"
  have quiet: "Report x \<notin> set d" if "prefix d ?bw" for x d
    using set_mono_prefix [OF that] by (auto simp: binding_word_def split: if_splits)
  obtain u q where u: "prepare_state E U s = (u, q)" by force
  from prepare_state_cases [OF u] obtain d where d: "bo_trace u = bo_trace s @ d" "prefix d ?bw"
    "\<And>p. q = Inr p \<Longrightarrow> d = ?bw \<and> p = map_of (bo_data s) ''block'' \<and>
       (map_of (bo_data s) ''runtime_identity'' = None \<longrightarrow>
          identity_everywhere (identity_to_dict (bu_identity U)) u)" by blast
  show ?thesis
  proof (cases q)
    case (Inl e)
    with assms u have "t = u" "r = Inl e" by (simp_all add: run_body_after bindS_def)
    moreover have "prefix d (startup_word U (bo_data s) WarmupComplete)"
      using d(2) unfolding startup_word_def by (rule prefix_prefix)
    ultimately show ?thesis using d(1) quiet [OF d(2)] by auto
  next
    case (Inr p)
    let ?p = "map_of (bo_data s) ''block''"
    from d(3) [OF Inr] have p: "p = ?p" "d = ?bw" by simp_all
    with assms u Inr have run: "after_state E U ?p u = (t, r)" by (simp add: run_body_after bindS_def)
    from follows_after_state [of E U "bo_data s", unfolded follows_def, rule_format, of u] run
    obtain w warm d' where w: "warm \<in> warm_results" "startup_word U (bo_data s) warm = ?bw @ w"
      "bo_trace t = bo_trace u @ d'" "prefix d' w" "r = Inr () \<longrightarrow> d' = w" by auto
    have id: "map_of (bo_file t) ''runtime_identity'' = Some (identity_to_dict (bu_identity U))"
      if "map_of (bo_data s) ''runtime_identity'' = None"
      using identity_kept [of _ E U ?p, unfolded preserves_def, rule_format, of _ u] run d(3) [OF Inr] that
      by (auto simp: identity_everywhere_def)
    have blk: "map_of (bo_file t) ''block'' = Some ?v"
      if "first_block U (bo_data s) = Inr 0" "Report StartupComplete \<in> set (?bw @ d')"
    proof -
      have "block_before_complete (length (bo_trace u)) ?v u" by (simp add: block_before_complete_def)
      with block_kept [of U ?p, unfolded preserves_def] that(1) run
      have "block_before_complete (length (bo_trace u)) ?v t"
        unfolding first_block_def by (metis fst_conv)
      with that(2) quiet [of ?bw] show ?thesis by (simp add: block_before_complete_def w(3))
    qed
    have first: "\<exists>b. first_block U (bo_data s) = Inr b" if "r = Inr ()"
    proof (cases "first_block U (bo_data s)")
      case (Inl e)
      then have "snd (after_state E U ?p u) \<noteq> Inr ()"
        by (auto simp: after_state_def first_block_def bindS_def liftB_def split: prod.splits sum.splits)
      with run that show ?thesis by simp
    qed simp
    show ?thesis
      using d(1) p(2) w id blk first
      by (intro exI [of _ "?bw @ d'"] exI [of _ warm]) (auto simp: warm_results_def)
  qed
qed

section \<open>The shutdown\<close>

definition teardown :: "bool \<Rightarrow> bool \<Rightarrow> boot_call list" where
  "teardown running polling =
     [Report ShutdownRequested, RequestShutdown] @ (if running then [CancelSubscription] else []) @
     [CancelHeartbeat, CloseSupervisor] @ (if polling then [StopPolling] else []) @
     [StopApplication, CloseChain, ShutdownApplication, StopHealthServer]"

text \<open>
  Parts that touch nothing but the trace: they make the calls of \<open>w\<close> in order, all of them when they
  return; when they raise, the last call made is the one that raised, and it is not one of those that
  cannot.
\<close>

definition sure_calls :: "boot_call set" where
  "sure_calls = {Report ShutdownRequested, RequestShutdown, StopHealthServer}"

definition only_traces :: "boot_env \<Rightarrow> unit boot_run \<Rightarrow> boot_call list \<Rightarrow> boot \<Rightarrow> bool" where
  "only_traces E m w s \<longleftrightarrow> (\<exists>done. fst (m s) = s\<lparr>bo_trace := bo_trace s @ done\<rparr> \<and> prefix done w \<and>
     (case snd (m s) of
        Inr _ \<Rightarrow> done = w
      | Inl x \<Rightarrow> done \<noteq> [] \<and> last done \<notin> sure_calls \<and>
          be_ends E (length (bo_trace s) + length done - 1) = Some x))"

lemma only_traces_intros:
  "only_traces E (mark c) [c] s"
  "c \<notin> sure_calls \<Longrightarrow> only_traces E (call E c) [c] s"
  "c \<notin> sure_calls \<Longrightarrow> only_traces E (call_suppressed E c) [c] s"
  "only_traces E (okB ()) [] s"
  by (auto simp: only_traces_def mark_def call_def call_suppressed_def okB_def
      split: option.splits boot_exc.splits)

lemma only_traces_then:
  assumes "only_traces E m u s" "\<And>d. only_traces E k v (s\<lparr>bo_trace := bo_trace s @ d\<rparr>)"
  shows "only_traces E (andThen m k) (u @ v) s"
proof -
  obtain d where d: "fst (m s) = s\<lparr>bo_trace := bo_trace s @ d\<rparr>" "prefix d u"
    "case snd (m s) of Inr _ \<Rightarrow> d = u | Inl x \<Rightarrow> d \<noteq> [] \<and> last d \<notin> sure_calls \<and>
        be_ends E (length (bo_trace s) + length d - 1) = Some x"
    using assms(1) by (auto simp: only_traces_def)
  show ?thesis
  proof (cases "snd (m s)")
    case (Inl e)
    with d show ?thesis unfolding only_traces_def
      by (intro exI [of _ d]) (auto simp: bindS_def split: prod.splits sum.splits)
  next
    case (Inr x)
    with d have m: "m s = (s\<lparr>bo_trace := bo_trace s @ u\<rparr>, Inr ())" by (cases "m s") auto
    let ?s = "s\<lparr>bo_trace := bo_trace s @ u\<rparr>"
    from assms(2) [of u] obtain d' where d': "fst (k ?s) = ?s\<lparr>bo_trace := bo_trace ?s @ d'\<rparr>"
      "prefix d' v"
      "case snd (k ?s) of Inr _ \<Rightarrow> d' = v | Inl x \<Rightarrow> d' \<noteq> [] \<and> last d' \<notin> sure_calls \<and>
          be_ends E (length (bo_trace ?s) + length d' - 1) = Some x"
      unfolding only_traces_def by blast
    have "bindS m (\<lambda>_. k) s = k ?s" by (simp add: bindS_def m)
    with d' show ?thesis
      unfolding only_traces_def
      by (intro exI [of _ "u @ d'"]) (auto simp: add.assoc split: sum.splits)
  qed
qed

lemma shut_down_traces:
  "only_traces E (shut_down E) (teardown (bo_task s \<and> \<not> be_task_done E) (bo_polling s)) s"
proof -
  let ?t = "if bo_task s \<and> \<not> be_task_done E then [CancelSubscription] else []"
  let ?p = "if bo_polling s then [StopPolling] else []"
  have cancel: "only_traces E (\<lambda>s. if bo_task s \<and> \<not> be_task_done E then call_suppressed E CancelSubscription s else okB () s)
      ?t (s\<lparr>bo_trace := d\<rparr>)" for d
    using only_traces_intros(3) [of CancelSubscription E "s\<lparr>bo_trace := d\<rparr>"]
      only_traces_intros(4) [of E "s\<lparr>bo_trace := d\<rparr>"]
    by (auto simp: only_traces_def sure_calls_def)
  have stop: "only_traces E (\<lambda>s. if bo_polling s then call E StopPolling s else okB () s) ?p (s\<lparr>bo_trace := d\<rparr>)" for d
    using only_traces_intros(2) [of StopPolling E "s\<lparr>bo_trace := d\<rparr>"]
      only_traces_intros(4) [of E "s\<lparr>bo_trace := d\<rparr>"]
    by (auto simp: only_traces_def sure_calls_def)
  have "only_traces E (shut_down E) ([Report ShutdownRequested] @ [RequestShutdown] @ ?t @ [CancelHeartbeat] @
      [CloseSupervisor] @ ?p @ [StopApplication] @ [CloseChain] @ [ShutdownApplication] @ [StopHealthServer]) s"
    unfolding shut_down_def
    by (intro only_traces_then only_traces_intros) (simp_all add: cancel stop only_traces_intros sure_calls_def)
  then show ?thesis by (simp add: teardown_def)
qed


definition exit_report :: "boot_env \<Rightarrow> boot_exc + unit \<Rightarrow> boot_call list" where
  "exit_report E r =
     (case r of Inl (Failure e) \<Rightarrow> [Report (FatalError (fst (be_text E e)) (snd (be_text E e)))] | _ \<Rightarrow> [])"

definition exit_result :: "boot_exc + unit \<Rightarrow> boot_exc + unit" where
  "exit_result r = (case r of Inl (Failure e) \<Rightarrow> Inl (Failure e) | _ \<Rightarrow> Inr ())"

lemma handle_exit_eq:
  "handle_exit E (t, r) = (t\<lparr>bo_trace := bo_trace t @ exit_report E r\<rparr>, exit_result r)"
  by (auto simp: handle_exit_def exit_report_def exit_result_def mark_def split: sum.splits boot_exc.splits)


text \<open>C27: a run on data that is bound to another chain, module address or module type changes neither the
  data nor what is persisted, starts no polling, subscription, catch-up or job, reports a fatal error
  and raises.\<close>

theorem foreign_state_refused:
  assumes other: "mk_identity v a k = Inr i" "map_of (bo_data s) ''runtime_identity'' = Some (identity_to_dict i)"
    and mismatch: "bu_identity U \<noteq> i"
    and fresh: "\<not> bo_polling s" "\<not> bo_task s"
  shows "\<exists>done. fst (run_guarded E U s) = s\<lparr>bo_trace := bo_trace s @
       Report (FatalError (fst (be_text E RuntimeIdentityMismatch)) (snd (be_text E RuntimeIdentityMismatch))) # done\<rparr> \<and>
     prefix done (teardown False False) \<and> (\<exists>x. snd (run_guarded E U s) = Inl x)"
proof -
  have "bind_identity (bu_identity U) (bo_data s) = Inl RuntimeIdentityMismatch"
    using mismatch by (simp add: bind_identity_def other(2) identity_roundtrip [OF other(1)])
  then have body: "run_body E U s = (s, Inl (Failure RuntimeIdentityMismatch))"
    by (simp add: run_body_def prepare_state_def bind_persistence_runtime_def bindS_def)
  let ?x = "Report (FatalError (fst (be_text E RuntimeIdentityMismatch)) (snd (be_text E RuntimeIdentityMismatch)))"
  let ?s = "s\<lparr>bo_trace := bo_trace s @ [?x]\<rparr>"
  from shut_down_traces [of E ?s] fresh obtain d where
    d: "fst (shut_down E ?s) = s\<lparr>bo_trace := bo_trace s @ ?x # d\<rparr>" "prefix d (teardown False False)"
    by (auto simp: only_traces_def)
  have "run_guarded E U s = (fst (shut_down E ?s), case snd (shut_down E ?s) of
      Inl x \<Rightarrow> Inl x | Inr _ \<Rightarrow> Inl (Failure RuntimeIdentityMismatch))"
    by (auto simp: run_guarded_def body handle_exit_eq exit_report_def exit_result_def split: prod.splits sum.splits)
  with d show ?thesis by (intro exI [of _ d]) (auto split: sum.splits)
qed

section \<open>Witnesses\<close>

definition fresh_boot :: "raw_data \<Rightarrow> boot" where
  "fresh_boot d = \<lparr>bo_trace = [], bo_data = d, bo_saved = d, bo_file = d, bo_polling = False, bo_task = False\<rparr>"

definition demo_boot_env :: boot_env where
  "demo_boot_env = \<lparr>be_ends = (\<lambda>n. if n = 5 then Some (Failure TelegramFailure) else None), be_text = (\<lambda>e. (''m'', ''c'')),
     be_start = Subscribed, be_task_done = False, be_head = 100\<rparr>"

definition demo_setup :: boot_setup where
  "demo_setup = \<lparr>bu_identity = \<lparr>ri_chain = 1, ri_address = ''0xab'', ri_type = CURATED\<rparr>, bu_block_from = None,
     bu_admins = {}, bu_codec = sample_codec, bu_iso = sample_iso\<rparr>"

lemma startup_order_witness:
  "let t = fst (run_body demo_boot_env demo_setup (fresh_boot [])) in
   Report WarmupStarted \<in> set (bo_trace t) \<and>
   map_of (bo_file t) ''runtime_identity'' = Some (identity_to_dict (bu_identity demo_setup))"
proof -
  obtain t r where run: "run_body demo_boot_env demo_setup (fresh_boot []) = (t, r)" by force
  have "Report WarmupStarted \<in> set (bo_trace (fst (run_body demo_boot_env demo_setup (fresh_boot []))))"
    by code_simp
  with run have "Report WarmupStarted \<in> set (bo_trace t)" by simp
  moreover have "bo_trace (fresh_boot []) = []" "map_of (bo_data (fresh_boot [])) ''runtime_identity'' = None"
    by (simp_all add: fresh_boot_def)
  ultimately show ?thesis using startup_order [OF run] unfolding run Let_def fst_conv by auto
qed

lemma foreign_state_refused_witness:
  "let i = \<lparr>ri_chain = 1, ri_address = ''0xab'', ri_type = COMMUNITY\<rparr>;
       s = fresh_boot [(''runtime_identity'', identity_to_dict i)] in
   bo_data (fst (run_guarded demo_boot_env demo_setup s)) = bo_data s \<and>
   bo_file (fst (run_guarded demo_boot_env demo_setup s)) = bo_file s"
proof -
  let ?i = "\<lparr>ri_chain = 1, ri_address = ''0xab'', ri_type = COMMUNITY\<rparr>"
  have "mk_identity (VInt 1) ''0xab'' COMMUNITY = Inr ?i" by code_simp
  from foreign_state_refused [OF this, of "fresh_boot [(''runtime_identity'', identity_to_dict ?i)]" demo_setup demo_boot_env]
  show ?thesis by (auto simp: fresh_boot_def demo_setup_def Let_def)
qed


end
