(* ===== verification/Metrics.thy ===== *)
theory Metrics
  imports Urls Health
begin

text \<open>
  The Prometheus metrics of \<open>sentinel/metrics\<close>. The client library is a third-party package whose
  documented behaviour is that a metric holds one child for each tuple of label values: a counter
  counts its increments, a histogram its observations, a gauge holds the value last set. A child is
  the entry of a function from label values, in the declared order. The clocks are parameters; the
  exception of a measured operation passes through unchanged and is one of the ends below.
\<close>

section \<open>Children\<close>

type_synonym label_values = "string list"

record run_metrics =
  rn_runs :: "label_values \<Rightarrow> nat"
  rn_durations :: "label_values \<Rightarrow> real list"

definition no_runs :: run_metrics where
  "no_runs = \<lparr>rn_runs = \<lambda>l. 0, rn_durations = \<lambda>l. []\<rparr>"

definition inc_child :: "label_values \<Rightarrow> (label_values \<Rightarrow> nat) \<Rightarrow> label_values \<Rightarrow> nat" where
  "inc_child l c = c(l := c l + 1)"

text \<open>\<open>runs.labels(..).inc()\<close> and \<open>duration.labels(..).observe(max(now - started, 0))\<close>.\<close>

definition observe_run :: "label_values \<Rightarrow> real \<Rightarrow> real \<Rightarrow> run_metrics \<Rightarrow> run_metrics" where
  "observe_run l started now m = m\<lparr>rn_runs := inc_child l (rn_runs m),
     rn_durations := (rn_durations m)(l := rn_durations m l @ [max (now - started) 0])\<rparr>"

text \<open>How an awaited operation ends: with a result, by an exception, or by a cancellation.\<close>

datatype 'a ended = Returned 'a | Raised | WasCancelled

section \<open>Scheduled jobs\<close>

record job_metrics =
  jm_runs :: run_metrics
  jm_last_success :: "label_values \<Rightarrow> real option"

definition mk_job_metrics :: job_metrics where
  "mk_job_metrics = \<lparr>jm_runs = no_runs, jm_last_success = \<lambda>l. None\<rparr>"

definition JobMetrics_observe ::
    "string \<Rightarrow> string \<Rightarrow> real \<Rightarrow> real \<Rightarrow> real \<Rightarrow> job_metrics \<Rightarrow> job_metrics" where
  "JobMetrics_observe job outcome started now wall m =
     (let m = m\<lparr>jm_runs := observe_run [job, outcome] started now (jm_runs m)\<rparr> in
      if outcome = ''success'' then m\<lparr>jm_last_success := (jm_last_success m)([job] := Some wall)\<rparr> else m)"

fun job_outcome :: "bool option ended \<Rightarrow> string" where
  "job_outcome WasCancelled = ''cancelled''"
| "job_outcome Raised = ''error''"
| "job_outcome (Returned r) = (if r = Some False then ''error'' else ''success'')"

text \<open>One run of a wrapped callback: what it returns or raises is handed on.\<close>

definition job_measured ::
    "string \<Rightarrow> bool option ended \<Rightarrow> real \<Rightarrow> real \<Rightarrow> real \<Rightarrow> job_metrics \<Rightarrow> job_metrics \<times> bool option ended" where
  "job_measured job e started now wall m =
     (JobMetrics_observe job (job_outcome e) started now wall m, e)"

section \<open>Aggregation windows\<close>

record aggregation_metrics =
  am_runs :: run_metrics

definition AggregationMetrics_observe ::
    "string \<Rightarrow> string \<Rightarrow> real \<Rightarrow> real \<Rightarrow> aggregation_metrics \<Rightarrow> aggregation_metrics" where
  "AggregationMetrics_observe grp outcome started now m =
     m\<lparr>am_runs := observe_run [grp, outcome] started now (am_runs m)\<rparr>"

fun aggregation_outcome :: "'a option ended \<Rightarrow> string" where
  "aggregation_outcome WasCancelled = ''cancelled''"
| "aggregation_outcome Raised = ''error''"
| "aggregation_outcome (Returned r) = (if r = None then ''retry'' else ''success'')"

definition aggregation_run :: "string \<Rightarrow> 'a option ended \<Rightarrow> real \<Rightarrow> real \<Rightarrow> aggregation_metrics \<Rightarrow>
    aggregation_metrics \<times> 'a option ended" where
  "aggregation_run grp e started now m =
     (AggregationMetrics_observe grp (aggregation_outcome e) started now m, e)"

section \<open>HTTP requests and Telegram requests\<close>

definition status_outcome :: "int \<Rightarrow> string" where
  "status_outcome status =
     (if 100 \<le> status \<and> status < 600 then int_str (status div 100) @ ''xx'' else ''other'')"

fun transport_outcome :: "int ended \<Rightarrow> string" where
  "transport_outcome WasCancelled = ''cancelled''"
| "transport_outcome Raised = ''transport_error''"
| "transport_outcome (Returned status) = status_outcome status"

text \<open>\<open>str.upper\<close> for text without letters beyond ASCII, as HTTP methods are.\<close>

definition upper_ascii :: "string \<Rightarrow> string" where
  "upper_ascii s = map (\<lambda>c. let n = (of_char c :: int) in
     if 97 \<le> n \<and> n \<le> 122 then char_of (n - 32) else c) s"

text \<open>The host is what the address type of \<open>aiohttp\<close> says, nothing for an address without one.\<close>

definition http_call ::
    "string option \<Rightarrow> string \<Rightarrow> int ended \<Rightarrow> real \<Rightarrow> real \<Rightarrow> run_metrics \<Rightarrow> run_metrics \<times> int ended" where
  "http_call host verb e started now m =
     (observe_run [case host of None \<Rightarrow> ''unknown'' | Some h \<Rightarrow> if h = [] then ''unknown'' else h,
        upper_ascii verb, transport_outcome e] started now m, e)"

definition metric_method :: "(string \<Rightarrow> bool) \<Rightarrow> string \<Rightarrow> string \<Rightarrow> string res" where
  "metric_method ip url verb =
     (if upper_ascii verb \<noteq> ''POST'' then Inr ''file_download''
      else bindR (url_path ip url) (\<lambda>path.
        Inr (if after_last (CHR ''/'') path = [] then ''unknown'' else after_last (CHR ''/'') path)))"

text \<open>\<open>do_request\<close>; the label is computed first, so an address it cannot split is not sent.\<close>

definition telegram_request ::
    "(string \<Rightarrow> bool) \<Rightarrow> string \<Rightarrow> string \<Rightarrow> int ended \<Rightarrow> real \<Rightarrow> real \<Rightarrow> run_metrics \<Rightarrow>
     run_metrics \<times> int ended res" where
  "telegram_request ip url verb e started now m =
     (case metric_method ip url verb of
        Inl err \<Rightarrow> (m, Inl err)
      | Inr name \<Rightarrow> (observe_run [name, transport_outcome e] started now m, Inr e))"

section \<open>Chain, secrets and build\<close>

text \<open>What a scrape reads of the gauges bound to the runtime.\<close>

record chain_scrape =
  sc_processed_block :: int
  sc_subscription_active :: int
  sc_catchup_active :: int

definition chain_scrape_of :: "(unit \<Rightarrow> int) \<Rightarrow> real \<Rightarrow> health_state \<Rightarrow> chain_scrape" where
  "chain_scrape_of processed_block now h =
     \<lparr>sc_processed_block = processed_block (),
      sc_subscription_active = of_bool (hs_subscription_active (sn_state (snapshot now h))),
      sc_catchup_active = of_bool (hs_catchup_active (sn_state (snapshot now h)))\<rparr>"

definition subscription_recovered ::
    "string \<Rightarrow> (label_values \<Rightarrow> nat) \<Rightarrow> label_values \<Rightarrow> nat" where
  "subscription_recovered reason c = inc_child [reason] c"

definition set_version :: "int option \<Rightarrow> int" where
  "set_version version = (case version of None \<Rightarrow> 0 | Some v \<Rightarrow> v)"

section \<open>RPC endpoints\<close>

definition SUCCESS :: string where "SUCCESS = ''success''"
definition REJECTED :: string where "REJECTED = ''rpc_rejected''"
definition TRANSPORT_ERROR :: string where "TRANSPORT_ERROR = ''transport_error''"

record persistent_attempt =
  pa_role :: string
  pa_method :: string
  pa_endpoint :: string
  pa_started :: real

text \<open>
  \<open>RpcMetrics\<close> with its three dictionaries; the sets of known endpoints are lists without repetition.
  \<open>rm_attempt\<close> is the context variable of the task whose requests are measured.
\<close>

record rpc_metrics =
  rm_attempts :: run_metrics
  rm_failures :: "label_values \<Rightarrow> nat"
  rm_switches :: "label_values \<Rightarrow> nat"
  rm_active :: "label_values \<Rightarrow> int option"
  rm_active_by_role :: "string \<rightharpoonup> string"
  rm_last_by_role :: "string \<rightharpoonup> string"
  rm_known_by_role :: "string \<rightharpoonup> string list"
  rm_attempt :: "persistent_attempt option"

definition mk_rpc_metrics :: rpc_metrics where
  "mk_rpc_metrics = \<lparr>rm_attempts = no_runs, rm_failures = \<lambda>l. 0, rm_switches = \<lambda>l. 0,
     rm_active = \<lambda>l. None, rm_active_by_role = Map.empty, rm_last_by_role = Map.empty,
     rm_known_by_role = Map.empty, rm_attempt = None\<rparr>"

definition observe_attempt ::
    "string \<Rightarrow> string \<Rightarrow> string \<Rightarrow> string \<Rightarrow> real \<Rightarrow> real \<Rightarrow> rpc_metrics \<Rightarrow> rpc_metrics" where
  "observe_attempt role verb endpoint outcome started now m =
     m\<lparr>rm_attempts := observe_run [role, verb, endpoint, outcome] started now (rm_attempts m)\<rparr>"

definition set_child :: "label_values \<Rightarrow> int \<Rightarrow> rpc_metrics \<Rightarrow> rpc_metrics" where
  "set_child l v m = m\<lparr>rm_active := (rm_active m)(l := Some v)\<rparr>"

definition endpoint_connected :: "string \<Rightarrow> string \<Rightarrow> rpc_metrics \<Rightarrow> rpc_metrics" where
  "endpoint_connected role endpoint m =
     (let previous = rm_last_by_role m role;
          known = List.insert endpoint (case rm_known_by_role m role of None \<Rightarrow> [] | Some k \<Rightarrow> k);
          m = m\<lparr>rm_known_by_role := (rm_known_by_role m)(role \<mapsto> known)\<rparr>;
          m = fold (\<lambda>e. set_child [role, e] (of_bool (e = endpoint))) known m;
          m = (case previous of
                 Some p \<Rightarrow> if p \<noteq> endpoint
                   then m\<lparr>rm_switches := inc_child [role, p, endpoint] (rm_switches m)\<rparr> else m
               | None \<Rightarrow> m)
      in m\<lparr>rm_active_by_role := (rm_active_by_role m)(role \<mapsto> endpoint),
           rm_last_by_role := (rm_last_by_role m)(role \<mapsto> endpoint)\<rparr>)"

definition endpoint_disconnected :: "string \<Rightarrow> rpc_metrics \<Rightarrow> rpc_metrics" where
  "endpoint_disconnected role m =
     (case rm_active_by_role m role of
        None \<Rightarrow> m
      | Some e \<Rightarrow> set_child [role, e] 0 (m\<lparr>rm_active_by_role := (rm_active_by_role m)(role := None)\<rparr>))"

definition endpoint_failed :: "string \<Rightarrow> string \<Rightarrow> string \<Rightarrow> rpc_metrics \<Rightarrow> rpc_metrics" where
  "endpoint_failed role endpoint kind m =
     m\<lparr>rm_failures := inc_child [role, endpoint, kind] (rm_failures m)\<rparr>"

definition persistent_request_failed ::
    "string \<Rightarrow> string \<Rightarrow> string \<Rightarrow> real \<Rightarrow> rpc_metrics \<Rightarrow> rpc_metrics" where
  "persistent_request_failed role verb outcome now m =
     (case rm_attempt m of
        None \<Rightarrow> m
      | Some a \<Rightarrow> observe_attempt role verb (pa_endpoint a)
          (if outcome = ''transport'' then TRANSPORT_ERROR else outcome) (pa_started a) now
          (m\<lparr>rm_attempt := None\<rparr>))"

text \<open>
  The middleware. A response is given by whether it has an \<open>error\<close> member; \<open>active\<close> is the label
  of the provider's active endpoint.
\<close>

definition metric_endpoint :: "string option \<Rightarrow> string" where
  "metric_endpoint active = (case active of None \<Rightarrow> ''not-active'' | Some l \<Rightarrow> l)"

fun attempt_outcome :: "bool ended \<Rightarrow> string" where
  "attempt_outcome WasCancelled = ''cancelled''"
| "attempt_outcome Raised = TRANSPORT_ERROR"
| "attempt_outcome (Returned has_error) = (if has_error then REJECTED else SUCCESS)"

definition wrap_make_request :: "string \<Rightarrow> string \<Rightarrow> string option \<Rightarrow> bool ended \<Rightarrow> real \<Rightarrow> real \<Rightarrow>
    rpc_metrics \<Rightarrow> rpc_metrics \<times> bool ended" where
  "wrap_make_request role verb active e started now m =
     (observe_attempt role verb (metric_endpoint active) (attempt_outcome e) started now m, e)"

definition request_processor ::
    "bool \<Rightarrow> string \<Rightarrow> string \<Rightarrow> string option \<Rightarrow> real \<Rightarrow> rpc_metrics \<Rightarrow> rpc_metrics" where
  "request_processor persistent role verb active now m =
     (if persistent
      then m\<lparr>rm_attempt := Some \<lparr>pa_role = role, pa_method = verb,
        pa_endpoint = metric_endpoint active, pa_started = now\<rparr>\<rparr>
      else m)"

definition response_processor ::
    "bool \<Rightarrow> string \<Rightarrow> string \<Rightarrow> bool \<Rightarrow> real \<Rightarrow> rpc_metrics \<Rightarrow> rpc_metrics" where
  "response_processor persistent role verb has_error now m =
     (case rm_attempt m of
        Some a \<Rightarrow> if persistent
          then observe_attempt role verb (pa_endpoint a) (if has_error then REJECTED else SUCCESS)
            (pa_started a) now (m\<lparr>rm_attempt := None\<rparr>)
          else m
      | None \<Rightarrow> m)"

section \<open>Histories of a role\<close>

datatype rpc_report =
    Connected string string
  | Disconnected string
  | Failed string string string
  | Attempted string string string string real real
  | Sent bool string string "string option" real
  | Answered bool string string bool real
  | RequestFailed string string string real

fun rpc_report_step :: "rpc_report \<Rightarrow> rpc_metrics \<Rightarrow> rpc_metrics" where
  "rpc_report_step (Connected role e) m = endpoint_connected role e m"
| "rpc_report_step (Disconnected role) m = endpoint_disconnected role m"
| "rpc_report_step (Failed role e kind) m = endpoint_failed role e kind m"
| "rpc_report_step (Attempted role verb e outcome started now) m =
     observe_attempt role verb e outcome started now m"
| "rpc_report_step (Sent persistent role verb active now) m = request_processor persistent role verb active now m"
| "rpc_report_step (Answered persistent role verb has_error now) m =
     response_processor persistent role verb has_error now m"
| "rpc_report_step (RequestFailed role verb outcome now) m = persistent_request_failed role verb outcome now m"

definition rpc_reports :: "rpc_report list \<Rightarrow> rpc_metrics" where
  "rpc_reports hist = fold rpc_report_step hist mk_rpc_metrics"

text \<open>The endpoints a role was connected to, oldest first, and the one it is connected to now.\<close>

definition connections :: "string \<Rightarrow> rpc_report list \<Rightarrow> string list" where
  "connections role hist = concat (map (\<lambda>r. case r of Connected r e \<Rightarrow> if r = role then [e] else [] | _ \<Rightarrow> []) hist)"

definition connected_to :: "string \<Rightarrow> rpc_report list \<Rightarrow> string option" where
  "connected_to role hist = fold (\<lambda>r u. case r of
       Connected r e \<Rightarrow> if r = role then Some e else u
     | Disconnected r \<Rightarrow> if r = role then None else u
     | _ \<Rightarrow> u) hist None"

definition moves :: "'a \<Rightarrow> 'a \<Rightarrow> 'a list \<Rightarrow> nat" where
  "moves a b es = length (filter (\<lambda>p. p = (a, b)) (zip es (tl es)))"

lemma zip_tl_snoc: "es \<noteq> [] \<Longrightarrow> zip (es @ [e]) (tl (es @ [e])) = zip es (tl es) @ [(last es, e)]"
  by (induction es rule: induct_list012) auto

lemma moves_snoc: "moves a b (es @ [e]) = moves a b es + (if es \<noteq> [] \<and> last es = a \<and> e = b then 1 else 0)"
  by (cases "es = []") (auto simp: moves_def zip_tl_snoc simp del: tl_append2)

lemma rpc_reports_snoc: "rpc_reports (hist @ [r]) = rpc_report_step r (rpc_reports hist)"
  by (simp add: rpc_reports_def)

lemma connections_snoc:
  "connections role (hist @ [r]) = connections role hist @
     (case r of Connected r e \<Rightarrow> if r = role then [e] else [] | _ \<Rightarrow> [])"
  by (simp add: connections_def)

lemma connected_to_snoc:
  "connected_to role (hist @ [r]) = (case r of
       Connected r e \<Rightarrow> if r = role then Some e else connected_to role hist
     | Disconnected r \<Rightarrow> if r = role then None else connected_to role hist
     | _ \<Rightarrow> connected_to role hist)"
  by (simp add: connected_to_def split: rpc_report.split)

lemmas history_snoc = rpc_reports_snoc connections_snoc connected_to_snoc

lemma set_children:
  "rm_active (fold (\<lambda>e. set_child [role, e] (f e)) es m) [r, x] =
     (if r = role \<and> x \<in> set es then Some (f x) else rm_active m [r, x])"
  by (induction es arbitrary: m) (auto simp: set_child_def)

lemma set_children_fields [simp]:
  "rm_switches (fold (\<lambda>e. set_child [role, e] (f e)) es m) = rm_switches m"
  "rm_known_by_role (fold (\<lambda>e. set_child [role, e] (f e)) es m) = rm_known_by_role m"
  "rm_last_by_role (fold (\<lambda>e. set_child [role, e] (f e)) es m) = rm_last_by_role m"
  "rm_active_by_role (fold (\<lambda>e. set_child [role, e] (f e)) es m) = rm_active_by_role m"
  by (induction es arbitrary: m) (auto simp: set_child_def)

text \<open>What the dictionaries, the gauge and the switch counter of a role hold after a history.\<close>

definition tracks :: "string \<Rightarrow> string list \<Rightarrow> string option \<Rightarrow> rpc_metrics \<Rightarrow> bool" where
  "tracks role es up m \<longleftrightarrow>
     rm_active_by_role m role = up \<and>
     rm_last_by_role m role = (if es = [] then None else Some (last es)) \<and>
     (case rm_known_by_role m role of None \<Rightarrow> es = [] | Some k \<Rightarrow> set k = set es) \<and>
     (\<forall>e. up = Some e \<longrightarrow> e \<in> set es) \<and>
     (\<forall>e. rm_active m [role, e] = (if e \<in> set es then Some (of_bool (up = Some e)) else None)) \<and>
     (\<forall>a b. rm_switches m [role, a, b] = (if a = b then 0 else moves a b es))"

definition role_fields :: "rpc_metrics \<Rightarrow> _" where
  "role_fields m = (rm_active_by_role m, rm_last_by_role m, rm_known_by_role m, rm_active m, rm_switches m)"

lemma tracks_cong: "role_fields m = role_fields m' \<Longrightarrow> tracks role es up m = tracks role es up m'"
  by (simp add: role_fields_def tracks_def)

lemma role_fields_other [simp]:
  "role_fields (endpoint_failed r e kind m) = role_fields m"
  "role_fields (observe_attempt r v e oc started now m) = role_fields m"
  "role_fields (m\<lparr>rm_attempt := a\<rparr>) = role_fields m"
  by (simp_all add: role_fields_def endpoint_failed_def observe_attempt_def)

lemma role_fields_requests [simp]:
  "role_fields (request_processor p r v c now m) = role_fields m"
  "role_fields (response_processor p r v h now m) = role_fields m"
  "role_fields (persistent_request_failed r v oc now m) = role_fields m"
  by (simp_all add: request_processor_def response_processor_def persistent_request_failed_def split: option.splits)

lemma endpoint_connected_fields:
  "rm_active_by_role (endpoint_connected r e m) = (rm_active_by_role m)(r \<mapsto> e)"
  "rm_last_by_role (endpoint_connected r e m) = (rm_last_by_role m)(r \<mapsto> e)"
  "rm_known_by_role (endpoint_connected r e m) = (rm_known_by_role m)(r \<mapsto>
     List.insert e (case rm_known_by_role m r of None \<Rightarrow> [] | Some k \<Rightarrow> k))"
  "rm_active (endpoint_connected r e m) [x, y] =
     (if x = r \<and> y \<in> insert e (set (case rm_known_by_role m r of None \<Rightarrow> [] | Some k \<Rightarrow> k))
      then Some (of_bool (y = e)) else rm_active m [x, y])"
  "rm_switches (endpoint_connected r e m) = (case rm_last_by_role m r of
       None \<Rightarrow> rm_switches m
     | Some p \<Rightarrow> if p = e then rm_switches m else inc_child [r, p, e] (rm_switches m))"
  by (auto simp: endpoint_connected_def Let_def set_children split: option.split)

lemma tracks_connected:
  assumes t: "tracks role es up m"
  shows "tracks role (es @ (if r = role then [e] else [])) (if r = role then Some e else up) (endpoint_connected r e m)"
proof (cases "r = role")
  case True
  have "set (case rm_known_by_role m role of None \<Rightarrow> [] | Some k \<Rightarrow> k) = set es"
    using t by (auto simp: tracks_def split: option.splits)
  moreover have "rm_switches (endpoint_connected role e m) [role, a, b] =
      (if a = b then 0 else moves a b (es @ [e]))" for a b
    using t by (auto simp: tracks_def endpoint_connected_fields moves_snoc inc_child_def)
  ultimately show ?thesis
    using t True unfolding tracks_def by (auto simp: endpoint_connected_fields)
next
  case False
  then have "rm_switches (endpoint_connected r e m) [role, a, b] = rm_switches m [role, a, b]" for a b
    by (auto simp: endpoint_connected_fields inc_child_def split: option.split)
  with t False show ?thesis by (simp add: tracks_def endpoint_connected_fields)
qed

lemma tracks_disconnected:
  assumes "tracks role es up m"
  shows "tracks role es (if r = role then None else up) (endpoint_disconnected r m)"
  using assms by (auto simp: tracks_def endpoint_disconnected_def set_child_def split: option.split)

lemma report_elsewhere:
  "(\<forall>x e. r \<noteq> Connected x e) \<Longrightarrow> (\<forall>x. r \<noteq> Disconnected x) \<Longrightarrow>
   role_fields (rpc_report_step r m) = role_fields m"
  by (cases r) simp_all

lemma tracks_history: "tracks role (connections role hist) (connected_to role hist) (rpc_reports hist)"
proof (induction hist rule: rev_induct)
  case Nil
  then show ?case
    by (simp add: tracks_def connections_def connected_to_def rpc_reports_def mk_rpc_metrics_def moves_def)
next
  case (snoc r hist)
  consider (up) x e where "r = Connected x e" | (down) x where "r = Disconnected x"
    | (other) "\<forall>x e. r \<noteq> Connected x e" "\<forall>x. r \<noteq> Disconnected x" by blast
  then show ?case
  proof cases
    case (up x e)
    with tracks_connected [OF snoc, of x e] show ?thesis by (simp add: history_snoc split: if_splits)
  next
    case down
    with tracks_disconnected [OF snoc] show ?thesis by (simp add: history_snoc)
  next
    case other
    from tracks_cong [OF report_elsewhere [OF this], of role] snoc other show ?thesis
      by (simp add: history_snoc split: rpc_report.splits)
  qed
qed

section \<open>Requests of a persistent connection\<close>

text \<open>A request ends with its response or a failure; the fallback layer may report more than one end.\<close>

datatype request_end = Response bool real | Failure string real

fun finish_request :: "string \<Rightarrow> string \<Rightarrow> request_end \<Rightarrow> rpc_metrics \<Rightarrow> rpc_metrics" where
  "finish_request role verb (Response has_error now) m = response_processor True role verb has_error now m"
| "finish_request role verb (Failure outcome now) m = persistent_request_failed role verb outcome now m"

fun end_outcome :: "request_end \<Rightarrow> string" where
  "end_outcome (Response has_error now) = (if has_error then REJECTED else SUCCESS)"
| "end_outcome (Failure outcome now) = (if outcome = ''transport'' then TRANSPORT_ERROR else outcome)"

fun end_time :: "request_end \<Rightarrow> real" where
  "end_time (Response has_error now) = now"
| "end_time (Failure outcome now) = now"

lemma finish_idle: "rm_attempt m = None \<Longrightarrow> finish_request role verb x m = m"
  by (cases x) (simp_all add: response_processor_def persistent_request_failed_def)

lemma finish_idle_all: "rm_attempt m = None \<Longrightarrow> fold (finish_request role verb) xs m = m"
  by (induction xs) (simp_all add: finish_idle)

lemma finish_open: "rm_attempt m = Some a \<Longrightarrow> finish_request role verb x m =
    observe_attempt role verb (pa_endpoint a) (end_outcome x) (pa_started a) (end_time x) (m\<lparr>rm_attempt := None\<rparr>)"
  by (cases x) (simp_all add: response_processor_def persistent_request_failed_def)

section \<open>Job histories\<close>

record job_run =
  jr_job :: string
  jr_end :: "bool option ended"
  jr_started :: real
  jr_now :: real
  jr_wall :: real

definition job_history :: "job_run list \<Rightarrow> job_metrics" where
  "job_history rs = fold (\<lambda>r m. fst (job_measured (jr_job r) (jr_end r) (jr_started r) (jr_now r) (jr_wall r) m))
     rs mk_job_metrics"

definition runs_of :: "string \<Rightarrow> string \<Rightarrow> job_run list \<Rightarrow> job_run list" where
  "runs_of job outcome rs = filter (\<lambda>r. jr_job r = job \<and> job_outcome (jr_end r) = outcome) rs"

lemma job_history_snoc: "job_history (rs @ [r]) =
    JobMetrics_observe (jr_job r) (job_outcome (jr_end r)) (jr_started r) (jr_now r) (jr_wall r) (job_history rs)"
  by (simp add: job_history_def job_measured_def)

section \<open>Addresses of the Bot API\<close>

lemma clean_url_id: "list_all (\<lambda>c. 32 < (of_char c :: int)) u \<Longrightarrow> clean_url u = u"
proof -
  assume u: "list_all (\<lambda>c. 32 < (of_char c :: int)) u"
  then have "dropWhile (\<lambda>c. (of_char c :: int) \<le> 32) u = u" by (cases u) auto
  moreover have "filter (\<lambda>c. c \<noteq> CHR 0x09 \<and> c \<noteq> CHR 0x0A \<and> c \<noteq> CHR 0x0D) u = u"
    using u by (auto simp: list_all_iff intro!: filter_True)
  ultimately show ?thesis by (simp add: clean_url_def)
qed

lemma drop_scheme_https: "drop_scheme (''https:'' @ u) = u"
  by (simp add: drop_scheme_def Let_def scheme_char_def ascii_alnum_def is_dec_def)

lemma takeWhile_stop: "list_all P xs \<Longrightarrow> \<not> P y \<Longrightarrow> takeWhile P (xs @ y # ys) = xs"
  by (induction xs) auto

lemma takeWhile_whole: "list_all P xs \<Longrightarrow> takeWhile P xs = xs"
  by (induction xs) auto

section \<open>Properties\<close>

text \<open>After any history of reports the metrics of a role agree with its connections: the gauge of an
  endpoint exists exactly when the role was once connected to it and is 1 for the endpoint it is
  connected to now, so at most one endpoint of a role shows as active and none after a
  disconnection; the switch counter counts the neighbouring pairs of different endpoints among the
  connections, also over a disconnection between them.\<close>
theorem rpc_gauges_exact:
  "rm_active (rpc_reports hist) [role, e] =
     (if e \<in> set (connections role hist) then Some (of_bool (connected_to role hist = Some e)) else None) \<and>
   rm_switches (rpc_reports hist) [role, a, b] = (if a = b then 0 else moves a b (connections role hist))"
  using tracks_history [of role hist] by (simp add: tracks_def)

text \<open>A request of a persistent connection is counted once: when it was sent and has ended, the
  attempts grow by one, under the endpoint that was active when it was sent and the outcome of its
  first end, and its duration is recorded; further ends reported for it change nothing.\<close>
theorem persistent_request_counted_once:
  assumes "reports \<noteq> []"
  shows "rm_attempts (fold (finish_request role verb) reports (request_processor True role verb active started m)) =
    observe_run [role, verb, metric_endpoint active, end_outcome (hd reports)] started (end_time (hd reports)) (rm_attempts m)"
proof -
  obtain x xs where reports: "reports = x # xs" using assms by (cases reports) auto
  have "rm_attempt (request_processor True role verb active started m) = Some \<lparr>pa_role = role, pa_method = verb,
      pa_endpoint = metric_endpoint active, pa_started = started\<rparr>"
    by (simp add: request_processor_def)
  from finish_open [OF this, of role verb x] show ?thesis unfolding reports
    by (simp add: finish_idle_all observe_attempt_def request_processor_def)
qed

text \<open>The job metrics after any sequence of runs: the counter of a job and an outcome is the number of
  its runs that ended so, a callback that returns \<open>False\<close> counting as an error like one that
  raises, every run has one duration, which is not negative, and the success gauge holds the time of
  the last successful run. The wrapped callback's end is handed on.\<close>
theorem job_metrics_exact:
  "rn_runs (jm_runs (job_history rs)) [job, outcome] = length (runs_of job outcome rs) \<and>
   rn_durations (jm_runs (job_history rs)) [job, outcome] =
     map (\<lambda>r. max (jr_now r - jr_started r) 0) (runs_of job outcome rs) \<and>
   jm_last_success (job_history rs) [job] =
     (if runs_of job ''success'' rs = [] then None else Some (jr_wall (last (runs_of job ''success'' rs))))"
proof (induction rs rule: rev_induct)
  case Nil
  then show ?case by (simp add: job_history_def mk_job_metrics_def no_runs_def runs_of_def)
next
  case (snoc r rs)
  then show ?case
    by (auto simp: job_history_snoc JobMetrics_observe_def Let_def observe_run_def inc_child_def runs_of_def)
qed

text \<open>A call of the Bot API, which holds the bot's token in its address, is counted under the name of
  the API method alone, and the token is no part of the label. The token is any text without the
  characters that end a path or that Python removes from an address.\<close>
theorem telegram_label_without_token:
  assumes "list_all (\<lambda>c. \<not> netloc_end c \<and> c \<notin> set ''[]'') host"
    and "list_all (\<lambda>c. c \<notin> set ''?#'') token" and "list_all (\<lambda>c. \<not> netloc_end c) name" and "name \<noteq> []"
    and "list_all (\<lambda>c. 32 < (of_char c :: int)) (host @ token @ name)"
    and "upper_ascii verb = ''POST''"
  shows "metric_method ip (''https://'' @ host @ ''/bot'' @ token @ ''/'' @ name) verb = Inr name"
proof -
  let ?path = "(''/bot'' @ token) @ CHR ''/'' # name"
  let ?url = "''https:'' @ ''//'' @ host @ ?path"
  have "clean_url ?url = ?url" using assms(5) by (intro clean_url_id) simp
  then have u: "drop_scheme (clean_url ?url) = ''//'' @ host @ ?path" by (simp only: drop_scheme_https)
  have loc: "takeWhile (\<lambda>c. \<not> netloc_end c) (host @ ?path) = host"
    using assms(1) takeWhile_stop [of "\<lambda>c. \<not> netloc_end c" host "CHR ''/''"]
    by (simp add: list_all_iff netloc_end_def)
  have "bracket_ok ip host" using assms(1) by (auto simp: bracket_ok_def list_all_iff)
  moreover have "list_all (\<lambda>c. c \<noteq> CHR ''#'') name" "list_all (\<lambda>c. c \<noteq> CHR ''?'') name"
    "\<forall>c\<in>set token. c \<noteq> CHR ''#'' \<and> c \<noteq> CHR ''?''"
    using assms(2,3) by (auto simp: list_all_iff netloc_end_def)
  ultimately have "url_path ip ?url = Inr ?path"
    unfolding url_path_def split_url_def u Let_def using loc by (simp add: takeWhile_whole)
  moreover have "CHR ''/'' \<notin> set name" using assms(3) by (auto simp: list_all_iff netloc_end_def)
  ultimately show ?thesis
    using assms(4,6) after_last_append [of "CHR ''/''" name "''/bot'' @ token"] by (simp add: metric_method_def)
qed

section \<open>Witnesses\<close>

theorem persistent_request_counted_once_witness:
  "rm_attempts (fold (finish_request ''reads'' ''eth_call'') [Failure ''transport'' 3, Response False 4]
     (request_processor True ''reads'' ''eth_call'' (Some ''rpc'') 1 mk_rpc_metrics)) =
   observe_run [''reads'', ''eth_call'', ''rpc'', ''transport_error''] 1 3 no_runs"
  using persistent_request_counted_once [of "[Failure ''transport'' 3, Response False 4]" "''reads''" "''eth_call''"
      "Some ''rpc''" 1 mk_rpc_metrics]
  by (simp add: metric_endpoint_def TRANSPORT_ERROR_def mk_rpc_metrics_def)

theorem telegram_label_without_token_witness:
  "metric_method (\<lambda>n. False) (''https://'' @ ''api.telegram.org'' @ ''/bot'' @ ''123456:AbC-d'' @ ''/'' @ ''getMe'') ''post'' =
     Inr ''getMe''"
proof (rule telegram_label_without_token)
  show "upper_ascii ''post'' = ''POST''" by code_simp
qed (simp_all add: netloc_end_def)

end
