(* ===== verification/Rpc_Observed.thy ===== *)
theory Rpc_Observed
  imports Rpc_Pool Metrics
begin

text \<open>
  What the providers of \<open>sentinel/rpc_provider.py\<close> report to the observer of \<open>sentinel/metrics/rpc.py\<close>, and
  that the metrics agree with the state of the provider.
\<close>

section \<open>Invariants of providers\<close>

text \<open>
  Every operation of a provider is made of a few steps; what these keep, every operation keeps,
  however many iterations it takes and however it ends.
\<close>

locale provider_invariant =
  fixes I :: "provider \<Rightarrow> bool" and E :: "'a rpc_env"
  assumes tick_keeps: "I s \<Longrightarrow> I (tick E s)"
    and sleep_keeps: "I s \<Longrightarrow> I (sleep d s)"
    and pool_keeps: "I s \<Longrightarrow> I (s\<lparr>pv_pool := p\<rparr>)"
    and calls_keep: "I s \<Longrightarrow> I (s\<lparr>pv_calls := c\<rparr>)"
    and close_keeps: "I s \<Longrightarrow> I (close_active s)"
    and connect_keeps: "I s \<Longrightarrow>
      I (report (EndpointConnected i) (s\<lparr>pv_active := Some i, pv_generation := g, pv_pool := p\<rparr>))"
    and failure_keeps: "I s \<Longrightarrow> I (report (EndpointFailed i k) s)"
    and request_failure_keeps: "I s \<Longrightarrow> I (report (PersistentRequestFailed k) s)"
begin

lemma on_pool_keeps: "I s \<Longrightarrow> I (on_pool f s)"
  unfolding on_pool_def by (rule pool_keeps)

lemma report_failure_keeps: "I s \<Longrightarrow> I (report_failure i x s)"
  unfolding report_failure_def by (rule failure_keeps)

lemma opened_keeps: "I s \<Longrightarrow>
    I (report (EndpointConnected i) (on_pool f (s\<lparr>pv_active := Some i, pv_generation := g\<rparr>)))"
  using connect_keeps unfolding on_pool_def by simp

lemmas steps_keep = tick_keeps sleep_keeps pool_keeps calls_keep close_keeps failure_keeps
  request_failure_keeps on_pool_keeps report_failure_keeps opened_keeps

lemma open_candidates_keeps: "I s \<Longrightarrow> I (fst (open_candidates E cs s))"
proof (induction cs arbitrary: s)
  case (Cons i cs)
  then show ?case by (simp add: Let_def steps_keep split: option.split)
qed simp

lemma connect_loop_keeps: "I s \<Longrightarrow> I (fst (connect_loop fuel E retry rounds excluded n s))"
proof (induction fuel arbitrary: n s)
  case (Suc fuel)
  obtain cs w where c: "candidates (pv_now s) excluded (pv_pool s) = (cs, w)" by force
  obtain s1 q where o: "open_candidates E cs s = (s1, q)" by force
  have s1: "I s1" using open_candidates_keeps [OF Suc.prems, of cs] o by simp
  have waits: "I (fst (connect_loop fuel E retry rounds excluded n (sleep d s)))"
    "I (fst (connect_loop fuel E retry rounds excluded m (sleep d s1)))" for d m
    using Suc.prems s1 by (auto intro!: Suc.IH sleep_keeps)
  show ?case
  proof (cases cs)
    case Nil
    with c waits(1) Suc.prems show ?thesis by (cases w) auto
  next
    case (Cons x xs)
    with o have o': "open_candidates E (x # xs) s = (s1, q)" by simp
    show ?thesis
    proof (cases q)
      case (Inl e)
      with c Cons o' s1 Suc.prems show ?thesis by (simp del: open_candidates.simps)
    next
      case (Inr b)
      with c Cons o' s1 waits(2) Suc.prems show ?thesis
        by (cases "rounds = -1") (simp_all del: open_candidates.simps)
    qed
  qed
qed simp

lemma connect_keeps_all:
  assumes "I s"
  shows "I (fst (connect_with_fallback fuel E cfg excluded m s))"
proof -
  define rounds where "rounds = (case m of None \<Rightarrow> pr_rounds cfg | Some r \<Rightarrow> r)"
  define loop where "loop = connect_loop fuel E (pr_retry_interval cfg) rounds excluded 0"
  have loop: "I (fst (loop t))" if "I t" for t
    unfolding loop_def using that by (rule connect_loop_keeps)
  have run: "connect_with_fallback fuel E cfg excluded m s =
      (if rounds = 0 \<or> rounds < -1 then (s, Inl RpcValueError)
       else case pv_active s of
         None \<Rightarrow> loop s
       | Some i \<Rightarrow> if i \<in> excluded then loop (close_active s)
           else if rv_connected E (pv_step s) then (tick E s, Inr ()) else loop (close_active (tick E s)))"
    unfolding connect_with_fallback_def Let_def rounds_def loop_def by (rule refl)
  have "I (fst (loop s))" "I (fst (loop (close_active s)))" "I (fst (loop (close_active (tick E s))))" "I (tick E s)"
    using assms by (simp_all only: loop close_keeps tick_keeps)
  with assms show ?thesis unfolding run by (cases "pv_active s") simp_all
qed

lemma invoke_keeps: "I s \<Longrightarrow> I (fst (invoke_operation E i s))"
  unfolding invoke_operation_def Let_def fst_conv by (intro tick_keeps calls_keep)

lemma invalidate_keeps: "I s \<Longrightarrow> I (invalidate_endpoint i g c s)"
  by (simp add: invalidate_endpoint_def steps_keep)

lemma execute_loop_keeps: "I s \<Longrightarrow> I (fst (execute_loop k fuel E cfg rej ret fails s))"
proof (induction k arbitrary: rej ret fails s)
  case (Suc k)
  obtain s1 q where c: "connect_with_fallback fuel E cfg rej (if rej \<noteq> {} then Some 1 else None) s = (s1, q)"
    by force
  have s1: "I s1" using connect_keeps_all [OF Suc.prems, of fuel cfg rej "if rej \<noteq> {} then Some 1 else None"] c by simp
  show ?case
  proof (cases q)
    case (Inr u)
    show ?thesis
    proof (cases "pv_active s1")
      case (Some i)
      obtain s2 out where o: "invoke_operation E i s1 = (s2, out)" by force
      have s2: "I s2" using invoke_keeps [OF s1, of i] o by simp
      have next_ok: "I (invalidate_endpoint i g b (report (EndpointFailed i kd) s2))" for g b kd
        using s2 by (intro invalidate_keeps failure_keeps)
      from s2 next_ok Suc.IH c Inr Some o show ?thesis
        by (cases out) (auto simp: Let_def)
    qed (use c Inr s1 in simp)
  qed (use c s1 in simp)
qed simp

lemma record_failure_keeps: "I s \<Longrightarrow> I (fst (record_subscription_endpoint_failure i f s))"
  by (simp add: record_subscription_endpoint_failure_def Let_def steps_keep split: prod.split)

lemma subscription_keeps: "I s \<Longrightarrow> I (fst (execute_subscription fuel E cfg s))"
proof -
  assume s: "I s"
  obtain s1 q where c: "connect_with_fallback fuel E cfg {} None s = (s1, q)" by force
  have s1: "I s1" using connect_keeps_all [OF s, of fuel cfg "{}" None] c by simp
  show ?thesis
  proof (cases q)
    case (Inr u)
    show ?thesis
    proof (cases "pv_active s1")
      case (Some i)
      obtain s2 out where o: "invoke_operation E i s1 = (s2, out)" by force
      have s2: "I s2" using invoke_keeps [OF s1, of i] o by simp
      have "I (handle_subscription_endpoint_failure i g f s2)" for g f
        using record_failure_keeps [OF s2, of i f]
        by (auto simp: handle_subscription_endpoint_failure_def intro: invalidate_keeps split: prod.split)
      with s2 c Inr Some o show ?thesis by (cases out) (auto simp: execute_subscription_def Let_def)
    qed (use c Inr s1 in \<open>simp add: execute_subscription_def\<close>)
  qed (use c s1 in \<open>simp add: execute_subscription_def\<close>)
qed

lemma make_request_keeps: "I s \<Longrightarrow> I (fst (provider_make_request fuel E cfg s))"
  using connect_keeps_all [of s fuel cfg "{}" None]
  by (auto simp: provider_make_request_def steps_keep split: prod.split sum.split option.split)

lemma validate_endpoints_keeps: "I s \<Longrightarrow> I (fst (validate_endpoints E is s))"
proof (induction "is" arbitrary: s)
  case (Cons i "is")
  have "I t" if "validate_endpoints E is (on_pool f (report_failure i x (tick E s))) = (t, q)" for f x t q
    using Cons.IH [of "on_pool f (report_failure i x (tick E s))"] Cons.prems that by (simp add: steps_keep)
  with Cons show ?case
    by (auto simp: Let_def steps_keep split: sum.split prod.split)
qed simp

lemma validate_keeps: "I s \<Longrightarrow> I (fst (validate_endpoint_chain_ids E s))"
  using validate_endpoints_keeps [of s "[0..<length (po_uris (pv_pool s))]"]
  by (auto simp: validate_endpoint_chain_ids_def split: prod.split sum.split)

lemma listener_keeps: "I s \<Longrightarrow> I (fst (listener_ended ep ended s))"
proof -
  assume s: "I s"
  have "I t" if "record_subscription_endpoint_failure i f s = (t, b)" for i f t b
    using record_failure_keeps [OF s, of i f] that by simp
  with s show ?thesis
    by (auto simp: listener_ended_def Let_def on_pool_keeps record_failure_keeps split: option.split rpc_error.split prod.split)
qed

end

section \<open>Runs of a provider\<close>

text \<open>Any sequence of a provider's operations, for one environment and configuration.\<close>

datatype provider_op =
    ValidateEndpoints
  | ConnectNow nat "nat set" "int option"
  | DisconnectNow "provider_exc option"
  | ExecuteRequest nat nat
  | ExecuteSubscription nat
  | MakeRequest nat
  | ListenerEnded "nat option" "provider_exc option"

fun provider_step :: "'a rpc_env \<Rightarrow> provider_config \<Rightarrow> provider_op \<Rightarrow> provider \<Rightarrow> provider" where
  "provider_step E cfg ValidateEndpoints s = fst (validate_endpoint_chain_ids E s)"
| "provider_step E cfg (ConnectNow fuel excluded m) s = fst (connect_with_fallback fuel E cfg excluded m s)"
| "provider_step E cfg (DisconnectNow closing) s = fst (disconnect_with_fallback closing s)"
| "provider_step E cfg (ExecuteRequest k fuel) s = fst (execute_request k fuel E cfg (s\<lparr>pv_calls := []\<rparr>))"
| "provider_step E cfg (ExecuteSubscription fuel) s = fst (execute_subscription fuel E cfg s)"
| "provider_step E cfg (MakeRequest fuel) s = fst (provider_make_request fuel E cfg s)"
| "provider_step E cfg (ListenerEnded ep ended) s = fst (listener_ended ep ended s)"

definition provider_run :: "'a rpc_env \<Rightarrow> provider_config \<Rightarrow> provider_op list \<Rightarrow> provider \<Rightarrow> provider" where
  "provider_run E cfg ops s = fold (provider_step E cfg) ops s"

text \<open>The endpoint that the reports say is connected, and the endpoints connected to so far.\<close>

definition shown_endpoint :: "observation list \<Rightarrow> nat option" where
  "shown_endpoint obs = fold (\<lambda>ob u. case ob of
       EndpointConnected i \<Rightarrow> Some i | EndpointDisconnected \<Rightarrow> None | _ \<Rightarrow> u) obs None"

definition opened_endpoints :: "observation list \<Rightarrow> nat list" where
  "opened_endpoints obs = concat (map (\<lambda>ob. case ob of EndpointConnected i \<Rightarrow> [i] | _ \<Rightarrow> []) obs)"

definition truthful :: "provider \<Rightarrow> bool" where
  "truthful s \<longleftrightarrow> shown_endpoint (pv_reports s) = pv_active s"

lemma shown_snoc: "shown_endpoint (obs @ [ob]) = (case ob of
    EndpointConnected i \<Rightarrow> Some i | EndpointDisconnected \<Rightarrow> None | _ \<Rightarrow> shown_endpoint obs)"
  by (simp add: shown_endpoint_def split: observation.split)

interpretation reported: provider_invariant truthful E for E :: "'a rpc_env"
  by unfold_locales (simp_all add: truthful_def shown_snoc tick_def sleep_def close_active_def)

context provider_invariant
begin

lemma provider_step_keeps: "I s \<Longrightarrow> I (provider_step E cfg x s)"
  by (cases x) (simp_all add: validate_keeps connect_keeps_all disconnect_with_fallback_def close_keeps
      execute_request_def execute_loop_keeps calls_keep subscription_keeps make_request_keeps listener_keeps)

lemma provider_run_keeps: "I s \<Longrightarrow> I (provider_run E cfg ops s)"
  unfolding provider_run_def by (induction ops arbitrary: s) (simp_all add: provider_step_keeps)

end

section \<open>The history of the metrics\<close>

text \<open>
  The reports of a provider as the metrics get them, under its role and with the labels of its
  endpoints. The history of the metrics also holds the reports of the other roles and the attempts,
  in any interleaving.
\<close>

fun role_report :: "string \<Rightarrow> (nat \<Rightarrow> string) \<Rightarrow> observation \<Rightarrow> rpc_report option" where
  "role_report role label (EndpointConnected i) = Some (Connected role (label i))"
| "role_report role label EndpointDisconnected = Some (Disconnected role)"
| "role_report role label _ = None"

fun connection_of :: "string \<Rightarrow> rpc_report \<Rightarrow> bool" where
  "connection_of role (Connected r e) = (r = role)"
| "connection_of role (Disconnected r) = (r = role)"
| "connection_of role _ = False"

definition reported_by :: "string \<Rightarrow> (nat \<Rightarrow> string) \<Rightarrow> provider \<Rightarrow> rpc_report list \<Rightarrow> bool" where
  "reported_by role label s hist \<longleftrightarrow>
     filter (connection_of role) hist = List.map_filter (role_report role label) (pv_reports s)"

lemma connections_filter: "connections role (filter (connection_of role) hist) = connections role hist"
  by (induction hist) (auto simp: connections_def split: rpc_report.splits)

lemma connected_to_filter: "connected_to role (filter (connection_of role) hist) = connected_to role hist"
  by (induction hist rule: rev_induct) (auto simp: connected_to_snoc connected_to_def split: rpc_report.splits)

lemma map_filter_snoc: "List.map_filter f (xs @ [x]) = List.map_filter f xs @ (case f x of None \<Rightarrow> [] | Some y \<Rightarrow> [y])"
  by (simp add: List.map_filter_def split: option.split)

lemma connections_of_reports:
  "connections role (List.map_filter (role_report role label) obs) = map label (opened_endpoints obs)"
  by (induction obs rule: rev_induct)
    (auto simp: map_filter_snoc connections_snoc opened_endpoints_def List.map_filter_def connections_def split: observation.splits)

lemma connected_to_reports:
  "connected_to role (List.map_filter (role_report role label) obs) = map_option label (shown_endpoint obs)"
  by (induction obs rule: rev_induct)
    (auto simp: map_filter_snoc connected_to_snoc shown_snoc shown_endpoint_def List.map_filter_def connected_to_def split: observation.splits)

text \<open>Where the labels tell the endpoints apart, the moves between labels are those between endpoints.\<close>

lemma moves_labels:
  assumes "inj_on label (set es \<union> {i, j})"
  shows "moves (label i) (label j) (map label es) = moves i j es"
proof -
  have "(label x, label y) = (label i, label j) \<longleftrightarrow> (x, y) = (i, j)" if "(x, y) \<in> set (zip es (tl es))" for x y
  proof -
    have "x \<in> set es" "y \<in> set (tl es)" using that by (auto dest: set_zip_leftD set_zip_rightD)
    moreover have "set (tl es) \<subseteq> set es" by (cases es) auto
    ultimately have "x \<in> set es" "y \<in> set es" by auto
    then have "label x = label i \<longleftrightarrow> x = i" "label y = label j \<longleftrightarrow> y = j"
      by (intro inj_on_eq_iff [OF assms]; simp)+
    then show ?thesis by simp
  qed
  then have "filter (\<lambda>p. (case p of (x, y) \<Rightarrow> (label x, label y)) = (label i, label j)) (zip es (tl es)) =
      filter (\<lambda>p. p = (i, j)) (zip es (tl es))"
    by (intro filter_cong) auto
  moreover have "zip (map label es) (tl (map label es)) =
      map (\<lambda>(x, y). (label x, label y)) (zip es (tl es))"
    by (simp only: map_tl [symmetric] zip_map_map)
  ultimately show ?thesis
    by (simp add: moves_def filter_map comp_def)
qed

section \<open>Property\<close>

text \<open>C39: after any sequence of operations of a provider, also when they fail or run out of rounds, the
  metrics agree with its state as far as their labels, the host names of the endpoints, can tell:
  the gauge of a label is 1 exactly when the active endpoint carries it, it is 0 for the label of
  every other endpoint the provider was ever connected to and does not exist for the rest, and the
  switch counter counts the neighbouring pairs of different labels among the endpoints connected
  to, whatever other roles report in between. So a switch between endpoints of one host is not
  counted, and between endpoints whose hosts are all different every switch is.\<close>

theorem metrics_show_the_provider:
  assumes "s = provider_run E cfg ops s0" and "pv_active s0 = None" and "pv_reports s0 = []"
    and "reported_by role label s hist"
  shows "rm_active (rpc_reports hist) [role, e] =
      (if pv_active s \<noteq> None \<and> label (the (pv_active s)) = e then Some 1
       else if e \<in> label ` set (opened_endpoints (pv_reports s)) then Some 0 else None) \<and>
    rm_switches (rpc_reports hist) [role, a, b] =
      (if a = b then 0 else moves a b (map label (opened_endpoints (pv_reports s)))) \<and>
    (inj_on label (set (opened_endpoints (pv_reports s)) \<union> {i, j}) \<longrightarrow> i \<noteq> j \<longrightarrow>
      rm_switches (rpc_reports hist) [role, label i, label j] = moves i j (opened_endpoints (pv_reports s)))"
proof -
  have "truthful s0" using assms(2,3) by (simp add: truthful_def shown_endpoint_def)
  then have active: "shown_endpoint (pv_reports s) = pv_active s"
    unfolding assms(1) truthful_def [symmetric] by (rule reported.provider_run_keeps)
  have up: "connected_to role hist = map_option label (pv_active s)"
    and es: "connections role hist = map label (opened_endpoints (pv_reports s))"
    using assms(4) connected_to_filter [of role hist] connections_filter [of role hist]
    by (simp_all add: reported_by_def connected_to_reports connections_of_reports active)
  let ?os = "opened_endpoints (pv_reports s)"
  from tracks_history [of role hist]
  have gauge: "rm_active (rpc_reports hist) [role, e] =
      (if pv_active s \<noteq> None \<and> label (the (pv_active s)) = e then Some 1
       else if e \<in> label ` set ?os then Some 0 else None)"
    and switches: "rm_switches (rpc_reports hist) [role, a, b] = (if a = b then 0 else moves a b (map label ?os))"
    for a b
    unfolding up es tracks_def by (cases "pv_active s"; auto)+
  have "rm_switches (rpc_reports hist) [role, label i, label j] = moves i j ?os"
    if "inj_on label (set ?os \<union> {i, j})" "i \<noteq> j"
  proof -
    have "label i = label j \<longleftrightarrow> i = j" by (intro inj_on_eq_iff [OF that(1)]) simp_all
    with that(2) have "label i \<noteq> label j" by simp
    with that(1) show ?thesis by (simp only: switches if_False moves_labels)
  qed
  with gauge switches [of a b] show ?thesis by blast
qed

section \<open>Witness\<close>

lemma sample_run:
  "provider_run sample_rpc \<lparr>pr_rounds = 1, pr_retry_interval = 1\<rparr> [ConnectNow 3 {0} None] sample_provider = s \<Longrightarrow>
   pv_active s = Some 1 \<and> pv_reports s = [EndpointConnected 1]"
  by (auto simp: provider_run_def connect_with_fallback_def candidates_def eligible_def cooldown_of_def sample_rpc_defs
      numeral_eq_Suc Let_def tick_def on_pool_def)

theorem metrics_show_the_provider_witness:
  "\<exists>s. s = provider_run sample_rpc \<lparr>pr_rounds = 1, pr_retry_interval = 1\<rparr> [ConnectNow 3 {0} None] sample_provider \<and>
     rm_active (rpc_reports [Connected ''backfill'' ''a'', Connected ''reads'' ''b'']) [''reads'', ''b''] = Some 1"
proof -
  define s where "s = provider_run sample_rpc \<lparr>pr_rounds = 1, pr_retry_interval = 1\<rparr> [ConnectNow 3 {0} None] sample_provider"
  have run: "pv_active s = Some 1" "pv_reports s = [EndpointConnected 1]" using sample_run [of s] s_def by simp_all
  have "reported_by ''reads'' (\<lambda>i. if i = 0 then ''a'' else ''b'') s [Connected ''backfill'' ''a'', Connected ''reads'' ''b'']"
    by (simp add: reported_by_def run List.map_filter_def)
  from metrics_show_the_provider [OF s_def _ _ this, of "''b''" "''a''" "''a''"] s_def run
  show ?thesis by (simp add: sample_provider_def)
qed

end
