(* ===== verification/Bot_Texts.thy ===== *)
theory Bot_Texts
  imports Telegram_Bot Community_Texts Curated_Texts
begin

text \<open>
  The fixed sentences of the bot's menus, \<open>CuratedTexts\<close> and \<open>CommunityTexts\<close> of
  \<open>sentinel/modules/*/texts.py\<close>. A template with a placeholder is the function its \<open>format\<close>
  computes; the list of events is given for the events it is built for.
\<close>

section \<open>The texts of the modules\<close>

definition curated_bot_texts :: "escaper \<Rightarrow> string set \<Rightarrow> bot_texts" where
  "curated_bot_texts E names = \<lparr>
     WELCOME_TEXT = ''Welcome to the Curated Module Sentinel! '' @ nl 2 @
       ''Here you can follow Node Operators and receive notifications about their events.''
       @ nl 2 @ ''To get started, please use the buttons below.'' @ nl 2,
     START_BUTTON_FOLLOW = ''Follow'',
     START_BUTTON_UNFOLLOW = ''Unfollow'',
     START_BUTTON_EVENTS = ''Events'',
     BUTTON_BACK = ''Back'',
     START_BUTTON_ADMIN = ''Admin'',
     ADMIN_BUTTON_SUBSCRIPTIONS = ''Subscriptions'',
     ADMIN_MENU_TEXT = ''Admin tools:'',
     ADMIN_BUTTON_BROADCAST = ''Broadcast'',
     ADMIN_BROADCAST_MENU_TEXT = ''Choose broadcast target:'',
     ADMIN_BROADCAST_ALL = ''All subscribers'',
     ADMIN_BROADCAST_BY_NO = ''By node operator'',
     ADMIN_BROADCAST_ENTER_MESSAGE_ALL = ''Please enter the message to send to all subscribers:'',
     ADMIN_BROADCAST_ENTER_NO_IDS = ''Please enter comma-separated node operator IDs (e.g., '' @
       ''1,2,3):'',
     ADMIN_BROADCAST_NO_IDS_INVALID = ''No valid node operator IDs provided.'',
     ADMIN_BROADCAST_CONFIRM_HINT = ''Review the message below and confirm before broadcasting.'',
     ADMIN_BROADCAST_PREVIEW_ALL = ''Broadcast preview for all subscribers:'',
     ADMIN_BROADCAST_PREVIEW_SELECTED = (\<lambda>x. ''Broadcast preview for: '' @ x),
     BUTTON_SEND_BROADCAST = ''Send broadcast'',
     ADMIN_PRIVATE_CHAT_REQUIRED = ''Admin tools are only available in a private chat with '' @
       ''the bot. Please open a private chat to continue.'',
     NO_NEW_BLOCKS_ADMIN_ALERT = (\<lambda>minutes block. emoji_warning @
       '' No new blocks processed in the last '' @
       int_str minutes @
       '' minutes. Latest block: '' @ int_str block),
     FOLLOW_NODE_OPERATOR_TEXT = ''Choose a Curated Node Operator below, or enter one or '' @
       ''more Node Operator IDs separated by commas:'',
     FOLLOW_NODE_OPERATOR_FOLLOWING = (\<lambda>x. ''Node Operators you are following:'' @ nl 1 @
       x @ nl 2),
     UNFOLLOW_NODE_OPERATOR_TEXT = ''Choose a Curated Node Operator below, or enter one or '' @
       ''more Node Operator IDs separated by commas:'',
     UNFOLLOW_NODE_OPERATOR_NOT_FOLLOWING = ''You are not following any Node Operators.'',
     UNFOLLOW_NODE_OPERATOR_FOLLOWING = (\<lambda>x. ''Node Operators you are following:'' @ nl 1
       @ x @ nl 2),
     NODE_OPERATOR_FOLLOWED = \<lambda>x. ''You are now following Node Operator #'' @ x,
     NODE_OPERATOR_CANT_FOLLOW = ''Invalid Node Operator id. Please enter the correct id.'',
     NODE_OPERATOR_UNFOLLOWED = (\<lambda>x. ''You are no longer following Node Operator #'' @ x),
     NODE_OPERATOR_CANT_UNFOLLOW = ''Can'' @ [CHR 0x27] @
       ''t unfollow the Node Operator you are not following. Please enter the correct id.'',
     EVENT_LIST_TEXT = curated_build_event_list_text E names\<rparr>"

definition community_bot_texts :: "escaper \<Rightarrow> string set \<Rightarrow> bot_texts" where
  "community_bot_texts E names = \<lparr>
     WELCOME_TEXT = ''Welcome to the CSM Sentinel! '' @ nl 2 @
       ''Here you can follow Node Operators and receive notifications about their events.''
       @ nl 2 @ ''To get started, please use the buttons below.'' @ nl 2,
     START_BUTTON_FOLLOW = ''Follow'',
     START_BUTTON_UNFOLLOW = ''Unfollow'',
     START_BUTTON_EVENTS = ''Events'',
     BUTTON_BACK = ''Back'',
     START_BUTTON_ADMIN = ''Admin'',
     ADMIN_BUTTON_SUBSCRIPTIONS = ''Subscriptions'',
     ADMIN_MENU_TEXT = ''Admin tools:'',
     ADMIN_BUTTON_BROADCAST = ''Broadcast'',
     ADMIN_BROADCAST_MENU_TEXT = ''Choose broadcast target:'',
     ADMIN_BROADCAST_ALL = ''All subscribers'',
     ADMIN_BROADCAST_BY_NO = ''By node operator'',
     ADMIN_BROADCAST_ENTER_MESSAGE_ALL = ''Please enter the message to send to all subscribers:'',
     ADMIN_BROADCAST_ENTER_NO_IDS = ''Please enter comma-separated node operator IDs (e.g., '' @
       ''1,2,3):'',
     ADMIN_BROADCAST_NO_IDS_INVALID = ''No valid node operator IDs provided.'',
     ADMIN_BROADCAST_CONFIRM_HINT = ''Review the message below and confirm before broadcasting.'',
     ADMIN_BROADCAST_PREVIEW_ALL = ''Broadcast preview for all subscribers:'',
     ADMIN_BROADCAST_PREVIEW_SELECTED = (\<lambda>x. ''Broadcast preview for: '' @ x),
     BUTTON_SEND_BROADCAST = ''Send broadcast'',
     ADMIN_PRIVATE_CHAT_REQUIRED = ''Admin tools are only available in a private chat with '' @
       ''the bot. Please open a private chat to continue.'',
     NO_NEW_BLOCKS_ADMIN_ALERT = (\<lambda>minutes block. emoji_warning @
       '' No new blocks processed in the last '' @
       int_str minutes @
       '' minutes. Latest block: '' @ int_str block),
     FOLLOW_NODE_OPERATOR_TEXT = ''Please enter one or more Node Operator IDs you want to '' @
       ''follow, separated by commas:'',
     FOLLOW_NODE_OPERATOR_FOLLOWING = (\<lambda>x. ''Node Operator IDs you are following:'' @ nl 1
       @ x @ nl 2),
     UNFOLLOW_NODE_OPERATOR_TEXT = ''Please enter one or more Node Operator IDs you want to '' @
       ''unfollow, separated by commas:'',
     UNFOLLOW_NODE_OPERATOR_NOT_FOLLOWING = ''You are not following any Node Operators.'',
     UNFOLLOW_NODE_OPERATOR_FOLLOWING = (\<lambda>x. ''Node Operator IDs you are following:'' @
       nl 1 @ x @ nl 2),
     NODE_OPERATOR_FOLLOWED = \<lambda>x. ''You are now following Node Operator #'' @ x,
     NODE_OPERATOR_CANT_FOLLOW = ''Invalid Node Operator id. Please enter the correct id.'',
     NODE_OPERATOR_UNFOLLOWED = (\<lambda>x. ''You are no longer following Node Operator #'' @ x),
     NODE_OPERATOR_CANT_UNFOLLOW = ''Can'' @ [CHR 0x27] @
       ''t unfollow the Node Operator you are not following. '' @ nl 1 @
       ''Please enter the correct id.'',
     EVENT_LIST_TEXT = community_build_event_list_text E names\<rparr>"

section \<open>Formatting\<close>

text \<open>The templates of the code give these functions and never raise.\<close>

lemma newline_text: "nl n = replicate n (CHR 0x0A)"
  by (simp add: nl_def)

lemma followed_texts_format:
  "str_format ''You are now following Node Operator #{}'' x = Inr (NODE_OPERATOR_FOLLOWED (curated_bot_texts E names) x)"
  "str_format ''You are no longer following Node Operator #{}'' x = Inr (NODE_OPERATOR_UNFOLLOWED (curated_bot_texts E names) x)"
  "NODE_OPERATOR_FOLLOWED (community_bot_texts E names) x = NODE_OPERATOR_FOLLOWED (curated_bot_texts E names) x"
  "NODE_OPERATOR_UNFOLLOWED (community_bot_texts E names) x = NODE_OPERATOR_UNFOLLOWED (curated_bot_texts E names) x"
  by (simp_all add: str_format_def curated_bot_texts_def community_bot_texts_def)

lemma following_texts_format:
  "str_format (''Node Operators you are following:'' @ nl 1 @ ''{}'' @ nl 2) x =
     Inr (FOLLOW_NODE_OPERATOR_FOLLOWING (curated_bot_texts E names) x)"
  "str_format (''Node Operators you are following:'' @ nl 1 @ ''{}'' @ nl 2) x =
     Inr (UNFOLLOW_NODE_OPERATOR_FOLLOWING (curated_bot_texts E names) x)"
  "str_format (''Node Operator IDs you are following:'' @ nl 1 @ ''{}'' @ nl 2) x =
     Inr (FOLLOW_NODE_OPERATOR_FOLLOWING (community_bot_texts E names) x)"
  "str_format (''Node Operator IDs you are following:'' @ nl 1 @ ''{}'' @ nl 2) x =
     Inr (UNFOLLOW_NODE_OPERATOR_FOLLOWING (community_bot_texts E names) x)"
  by (simp_all add: str_format_def curated_bot_texts_def community_bot_texts_def newline_text numeral_eq_Suc)

end
